(* ===== verification/Cohesix_Prelude.thy ===== *)
theory Cohesix_Prelude
  imports Main "HOL-Library.Word" "HOL-Library.Sublist"
begin

section \<open>Prelude: the Rust vocabulary the components share\<close>

text \<open>
  This theory holds what every component of the development uses and no component owns:
  machine integers, \<open>Result\<close> and panics, saturating arithmetic, little-endian byte
  encodings, Rust strings (UTF-8 byte sequences), \<open>trim\<close>, \<open>split\<close> and \<open>format!\<close>
  of numbers, slices, and the interface locales for invariants of state machines.

  A Rust \<open>String\<close> is a \<^typ>\<open>string\<close> whose characters are the bytes of its UTF-8
  encoding, so \<^const>\<open>length\<close> is Rust's \<open>len()\<close>; that the bytes are valid UTF-8 is the
  predicate \<open>utf8_str\<close>, the type invariant of \<open>String\<close>. A \<open>usize\<close> is 64 bits wide (the
  targets are 64-bit); lengths and offsets are natural numbers and every saturating
  operation of the source is written with its bound.
\<close>

named_theorems wire_simps \<open>equations of the wire readers on well-formed input\<close>
named_theorems outcome_splits \<open>inversion of successful results\<close>

subsection \<open>Machine integers\<close>

type_synonym byte = "8 word"
type_synonym u16 = "16 word"
type_synonym u32 = "32 word"
type_synonym u64 = "64 word"
type_synonym bytes = "byte list"

definition u16_max :: nat where
  "u16_max = 65535"

definition u32_max :: nat where
  "u32_max = 4294967295"

definition u64_max :: nat where
  "u64_max = 18446744073709551615"

abbreviation usize_max :: nat where
  "usize_max \<equiv> u64_max"

text \<open>The truncating cast \<open>as u32\<close>.\<close>

definition as_u32 :: "nat \<Rightarrow> nat" where
  "as_u32 n = n mod 2 ^ 32"

lemma as_u32_small [simp]: "n \<le> u32_max \<Longrightarrow> as_u32 n = n"
  by (simp add: as_u32_def u32_max_def)

text \<open>
  \<open>saturating_add\<close> and \<open>saturating_mul\<close> on \<open>u64\<close> and \<open>usize\<close>;
  \<open>saturating_sub\<close> is subtraction on natural numbers.
\<close>

definition sat_add :: "nat \<Rightarrow> nat \<Rightarrow> nat" where
  "sat_add a b = min (a + b) u64_max"

definition sat_mul :: "nat \<Rightarrow> nat \<Rightarrow> nat" where
  "sat_mul a b = min (a * b) u64_max"

definition sat_add32 :: "nat \<Rightarrow> nat \<Rightarrow> nat" where
  "sat_add32 a b = min (a + b) u32_max"

lemma sat_add_exact [simp]: "a + b \<le> u64_max \<Longrightarrow> sat_add a b = a + b"
  by (simp add: sat_add_def)

lemma sat_add_le: "sat_add a b \<le> a + b"
  by (simp add: sat_add_def)

lemma sat_add_bound: "sat_add a b \<le> u64_max"
  by (simp add: sat_add_def)

lemma sat_add_le_below:
  assumes "m < u64_max"
  shows "sat_add a b \<le> m \<longleftrightarrow> a + b \<le> m"
  using assms by (auto simp: sat_add_def)

text \<open>A loop that counts with \<open>saturating_add\<close>.\<close>

definition sat_count :: "('a \<Rightarrow> bool) \<Rightarrow> 'a list \<Rightarrow> nat" where
  "sat_count P xs = foldl (\<lambda>n x. if P x then sat_add n 1 else n) 0 xs"

lemma sat_count_eq: "sat_count P xs = min (length (filter P xs)) u64_max"
proof -
  have "n \<le> u64_max \<Longrightarrow> foldl (\<lambda>n x. if P x then sat_add n 1 else n) n xs =
      min (n + length (filter P xs)) u64_max" for n
    by (induction xs arbitrary: n) (auto simp: sat_add_def min_def)
  from this [of 0] show ?thesis by (simp add: sat_count_def)
qed

lemma sat_add32_exact [simp]: "a + b \<le> u32_max \<Longrightarrow> sat_add32 a b = a + b"
  by (simp add: sat_add32_def)

subsection \<open>Results, panics\<close>

text \<open>
  \<open>Result<T, E>\<close> is the sum type with the error on the left. A function that can panic
  (an \<open>expect\<close> on a condition the caller may break) has errors of type \<open>'e fault\<close>.
\<close>

abbreviation Ok :: "'a \<Rightarrow> 'e + 'a" where
  "Ok \<equiv> Inr"

abbreviation Err :: "'e \<Rightarrow> 'e + 'a" where
  "Err \<equiv> Inl"

datatype 'e fault = Fail 'e | Panic

definition and_then :: "'e + 'a \<Rightarrow> ('a \<Rightarrow> 'e + 'b) \<Rightarrow> 'e + 'b" where
  "and_then r f = (case r of Inl e \<Rightarrow> Inl e | Inr x \<Rightarrow> f x)"

lemma and_then_Ok [simp]: "and_then (Ok x) f = f x"
  by (simp add: and_then_def)

lemma and_then_Err [simp]: "and_then (Err e) f = Err e"
  by (simp add: and_then_def)

lemma and_then_eq_Ok [outcome_splits]:
  "and_then r f = Ok y \<longleftrightarrow> (\<exists>x. r = Ok x \<and> f x = Ok y)"
  by (cases r) simp_all

lemma and_then_cong [fundef_cong]:
  "r = r' \<Longrightarrow> (\<And>x. r' = Inr x \<Longrightarrow> f x = f' x) \<Longrightarrow> and_then r f = and_then r' f'"
  by (cases r') simp_all

definition map_err :: "('e \<Rightarrow> 'f) \<Rightarrow> 'e + 'a \<Rightarrow> 'f + 'a" where
  "map_err g r = (case r of Inl e \<Rightarrow> Inl (g e) | Inr x \<Rightarrow> Inr x)"

lemma map_err_simps [simp]:
  "map_err g (Err e) = Err (g e)" "map_err g (Ok x) = Ok x"
  by (simp_all add: map_err_def)

lemma map_err_eq_Ok [outcome_splits]: "map_err g r = Ok x \<longleftrightarrow> r = Ok x"
  by (cases r) simp_all

definition is_ok :: "'e + 'a \<Rightarrow> bool" where
  "is_ok r = (case r of Inl _ \<Rightarrow> False | Inr _ \<Rightarrow> True)"

lemma is_ok_simps [simp]: "is_ok (Ok x)" "\<not> is_ok (Err e)"
  by (simp_all add: is_ok_def)

lemma is_ok_iff: "is_ok r \<longleftrightarrow> (\<exists>x. r = Ok x)"
  by (cases r) simp_all

text \<open>\<open>bool::then_some\<close> and \<open>Option::ok_or\<close>.\<close>

definition then_some :: "bool \<Rightarrow> 'a \<Rightarrow> 'a option" where
  "then_some b x = (if b then Some x else None)"

definition ok_or :: "'a option \<Rightarrow> 'e \<Rightarrow> 'e + 'a" where
  "ok_or v e = (case v of None \<Rightarrow> Inl e | Some x \<Rightarrow> Inr x)"

lemma ok_or_simps [simp]: "ok_or (Some x) e = Ok x" "ok_or None e = Err e"
  by (simp_all add: ok_or_def)

lemma ok_or_eq_Ok [outcome_splits]: "ok_or v e = Ok x \<longleftrightarrow> v = Some x"
  by (cases v) simp_all

text \<open>
  An operation that may fail and changes its state also when it fails: \<open>fn(&mut self) ->
  Result<T, E>\<close>. \<open>st_bind\<close> is the \<open>?\<close> operator between two of them.
\<close>

type_synonym ('s, 'e, 'a) st_op = "'s \<Rightarrow> ('e + 'a) \<times> 's"

definition st_return :: "'a \<Rightarrow> ('s, 'e, 'a) st_op" where
  "st_return x s = (Ok x, s)"

definition st_fail :: "'e \<Rightarrow> ('s, 'e, 'a) st_op" where
  "st_fail e s = (Err e, s)"

definition st_lift :: "'e + 'a \<Rightarrow> ('s, 'e, 'a) st_op" where
  "st_lift r s = (r, s)"

definition st_modify :: "('s \<Rightarrow> 's) \<Rightarrow> ('s, 'e, unit) st_op" where
  "st_modify f s = (Ok (), f s)"

definition st_read :: "('s \<Rightarrow> ('s, 'e, 'a) st_op) \<Rightarrow> ('s, 'e, 'a) st_op" where
  "st_read f s = f s s"

definition st_bind :: "('s, 'e, 'a) st_op \<Rightarrow> ('a \<Rightarrow> ('s, 'e, 'b) st_op) \<Rightarrow> ('s, 'e, 'b) st_op" where
  "st_bind m f s = (case m s of (Inl e, s) \<Rightarrow> (Inl e, s) | (Inr x, s) \<Rightarrow> f x s)"

abbreviation st_then :: "('s, 'e, 'a) st_op \<Rightarrow> ('s, 'e, 'b) st_op \<Rightarrow> ('s, 'e, 'b) st_op" where
  "st_then m k \<equiv> st_bind m (\<lambda>_. k)"

definition st_map_err :: "('e \<Rightarrow> 'f) \<Rightarrow> ('s, 'e, 'a) st_op \<Rightarrow> ('s, 'f, 'a) st_op" where
  "st_map_err g m s = (case m s of (r, s') \<Rightarrow> (map_err g r, s'))"

lemmas st_defs = st_return_def st_fail_def st_lift_def st_modify_def st_read_def

lemma st_bind_Ok: "st_bind m f s = (Ok y, s') \<longleftrightarrow> (\<exists>x t. m s = (Ok x, t) \<and> f x t = (Ok y, s'))"
  by (auto simp: st_bind_def split: prod.splits sum.splits)

lemma st_bind_Err:
  "st_bind m f s = (Err e, s') \<longleftrightarrow>
    m s = (Err e, s') \<or> (\<exists>x t. m s = (Ok x, t) \<and> f x t = (Err e, s'))"
  by (auto simp: st_bind_def split: prod.splits sum.splits)

primrec st_for :: "('a \<Rightarrow> ('s, 'e, unit) st_op) \<Rightarrow> 'a list \<Rightarrow> ('s, 'e, unit) st_op" where
  "st_for f [] = st_return ()"
| "st_for f (x # xs) = st_then (f x) (st_for f xs)"

text \<open>
  What an operation keeps: a property of the state that holds before it holds after it,
  whether it succeeds or not.
\<close>

definition st_keeps :: "('s \<Rightarrow> bool) \<Rightarrow> ('s, 'e, 'a) st_op \<Rightarrow> bool" where
  "st_keeps P m \<longleftrightarrow> (\<forall>s. P s \<longrightarrow> P (snd (m s)))"

named_theorems keeps \<open>operations and the properties of the state they keep\<close>

lemma st_keeps_basic [keeps]:
  "st_keeps P (st_return x)" "st_keeps P (st_fail e)" "st_keeps P (st_lift r)"
  by (simp_all add: st_keeps_def st_defs)

lemma st_keeps_modify: "(\<And>s. P s \<Longrightarrow> P (f s)) \<Longrightarrow> st_keeps P (st_modify f)"
  by (simp add: st_keeps_def st_modify_def)

lemma st_keeps_read: "(\<And>s. st_keeps P (f s)) \<Longrightarrow> st_keeps P (st_read f)"
  by (simp add: st_keeps_def st_read_def)

lemma st_keeps_bind:
  assumes "st_keeps P m" and "\<And>x. st_keeps P (f x)"
  shows "st_keeps P (st_bind m f)"
  unfolding st_keeps_def
proof (intro allI impI)
  fix s assume "P s"
  with assms(1) have "P (snd (m s))" by (simp add: st_keeps_def)
  with assms(2) show "P (snd (st_bind m f s))"
    by (auto simp: st_keeps_def st_bind_def split: prod.split sum.split)
qed

lemma st_keeps_for: "(\<And>x. st_keeps P (f x)) \<Longrightarrow> st_keeps P (st_for f xs)"
  by (induction xs) (auto intro: st_keeps_bind st_keeps_basic)

lemma st_keeps_if: "(b \<Longrightarrow> st_keeps P m) \<Longrightarrow> (\<not> b \<Longrightarrow> st_keeps P k) \<Longrightarrow> st_keeps P (if b then m else k)"
  by simp

lemma st_keeps_map_err: "st_keeps P m \<Longrightarrow> st_keeps P (st_map_err g m)"
  by (auto simp: st_keeps_def st_map_err_def split: prod.split)

lemma st_keepsD: "st_keeps P m \<Longrightarrow> m s = (r, s') \<Longrightarrow> P s \<Longrightarrow> P s'"
  by (metis st_keeps_def snd_conv)

lemmas st_keeps_intros = st_keeps_basic st_keeps_map_err st_keeps_bind st_keeps_for st_keeps_read st_keeps_if

subsection \<open>Little-endian encodings\<close>

text \<open>
  \<open>to_le_bytes\<close> and \<open>from_le_bytes\<close> for the unsigned types, through the base-256 digits
  of the value: \<open>u16\<close>, \<open>u32\<close> and \<open>u64\<close> take 2, 4 and 8 digits.
\<close>

primrec le_digits :: "nat \<Rightarrow> nat \<Rightarrow> bytes" where
  "le_digits 0 k = []"
| "le_digits (Suc n) k = word_of_nat k # le_digits n (k div 256)"

primrec le_value :: "bytes \<Rightarrow> nat" where
  "le_value [] = 0"
| "le_value (b # bs) = unat b + 256 * le_value bs"

definition to_le_bytes :: "'a::len word \<Rightarrow> bytes" where
  "to_le_bytes w = le_digits (LENGTH('a) div 8) (unat w)"

definition from_le_bytes :: "bytes \<Rightarrow> 'a::len word" where
  "from_le_bytes bs = word_of_nat (le_value bs)"

lemma length_le_digits [simp]: "length (le_digits n k) = n"
  by (induction n arbitrary: k) simp_all

lemma length_to_le_bytes [simp]:
  "length (to_le_bytes (w :: u16)) = 2"
  "length (to_le_bytes (x :: u32)) = 4"
  "length (to_le_bytes (y :: u64)) = 8"
  by (simp_all add: to_le_bytes_def)

text \<open>Explicit digits, for the evaluation of concrete values.\<close>

lemma le_digits_numeral:
  "le_digits (numeral k) x = word_of_nat x # le_digits (pred_numeral k) (x div 256)"
  unfolding numeral_eq_Suc [of k] by (rule le_digits.simps(2))

lemma unat_byte_of_nat: "unat (word_of_nat k :: byte) = k mod 256"
  by (simp add: unat_of_nat)

lemma le_value_digits: "le_value (le_digits n k) = k mod 256 ^ n"
proof (induction n arbitrary: k)
  case (Suc n)
  have "k mod 256 + 256 * (k div 256 mod 256 ^ n) = k mod (256 * 256 ^ n)"
    by (metis mod_mult2_eq add.commute)
  then show ?case by (simp add: Suc unat_byte_of_nat)
qed simp

lemma unat_bounds:
  "unat (b :: byte) < 256" "unat (w :: u16) < 65536"
  "unat (x :: u32) < 4294967296" "unat (y :: u64) < 18446744073709551616"
  using unsigned_less [of b] unsigned_less [of w] unsigned_less [of x] unsigned_less [of y]
  by simp_all

lemma unat_u16_le: "unat (w :: u16) \<le> u16_max"
  using unat_bounds(2) [of w] by (simp add: u16_max_def)

lemma unat_u32_le: "unat (x :: u32) \<le> u32_max"
  using unat_bounds(3) [of x] by (simp add: u32_max_def)

lemma unat_u64_le: "unat (y :: u64) \<le> u64_max"
  using unat_bounds(4) [of y] by (simp add: u64_max_def)

lemma from_to_le_bytes [simp]:
  "from_le_bytes (to_le_bytes (w :: u16)) = w"
  "from_le_bytes (to_le_bytes (x :: u32)) = x"
  "from_le_bytes (to_le_bytes (y :: u64)) = y"
  by (simp_all add: from_le_bytes_def to_le_bytes_def le_value_digits unat_bounds)

lemma le_digits_value: "length bs = n \<Longrightarrow> le_digits n (le_value bs) = bs"
proof (induction bs arbitrary: n)
  case (Cons b bs)
  have b: "unat b < 256" by (rule unat_bounds)
  have "word_of_nat (unat b + 256 * le_value bs) = b"
  proof -
    have "unat (word_of_nat (unat b + 256 * le_value bs) :: byte) = unat b"
      using b by (simp only: unat_byte_of_nat) simp
    then show ?thesis by (simp only: word_unat_eq_iff)
  qed
  moreover have "(unat b + 256 * le_value bs) div 256 = le_value bs" using b by simp
  ultimately show ?case using Cons by (cases n) simp_all
qed simp

lemma le_value_bound: "le_value bs < 256 ^ length bs"
proof (induction bs)
  case (Cons b bs)
  have "unat b < 256" by (rule unat_bounds)
  with Cons show ?case by simp
qed simp

lemma to_from_le_bytes:
  "length bs = 2 \<Longrightarrow> to_le_bytes (from_le_bytes bs :: u16) = bs"
  "length bs = 4 \<Longrightarrow> to_le_bytes (from_le_bytes bs :: u32) = bs"
  "length bs = 8 \<Longrightarrow> to_le_bytes (from_le_bytes bs :: u64) = bs"
  using le_value_bound [of bs]
  by (simp_all add: to_le_bytes_def from_le_bytes_def unat_of_nat le_digits_value)

subsection \<open>Strings as UTF-8 bytes\<close>

definition char_byte :: "char \<Rightarrow> byte" where
  "char_byte c = word_of_nat (of_char c)"

definition byte_char :: "byte \<Rightarrow> char" where
  "byte_char b = char_of (unat b)"

definition str_bytes :: "string \<Rightarrow> bytes" where
  "str_bytes s = map char_byte s"

definition str_of_bytes :: "bytes \<Rightarrow> string" where
  "str_of_bytes bs = map byte_char bs"

lemma byte_char_byte [simp]: "char_byte (byte_char b) = b"
  using unat_bounds(1) [of b] by (simp add: char_byte_def byte_char_def)

lemma char_byte_char [simp]: "byte_char (char_byte c) = c"
  by (simp add: char_byte_def byte_char_def unat_of_nat)

lemma str_of_str_bytes [simp]: "str_of_bytes (str_bytes s) = s"
  by (simp add: str_of_bytes_def str_bytes_def comp_def)

lemma str_bytes_of_str [simp]: "str_bytes (str_of_bytes bs) = bs"
  by (simp add: str_of_bytes_def str_bytes_def comp_def)

lemma length_str_bytes [simp]: "length (str_bytes s) = length s"
  by (simp add: str_bytes_def)

lemma length_str_of_bytes [simp]: "length (str_of_bytes bs) = length bs"
  by (simp add: str_of_bytes_def)

text \<open>
  \<open>core::str::from_utf8\<close> accepts exactly the well-formed sequences of the Unicode
  standard: no overlong form, no surrogate, nothing above U+10FFFF.
\<close>

definition utf8_cont :: "byte \<Rightarrow> bool" where
  "utf8_cont b \<longleftrightarrow> 0x80 \<le> b \<and> b \<le> 0xBF"

definition utf8_second3 :: "byte \<Rightarrow> byte \<Rightarrow> bool" where
  "utf8_second3 b0 b1 \<longleftrightarrow>
     (if b0 = 0xE0 then 0xA0 \<le> b1 \<and> b1 \<le> 0xBF
      else if b0 = 0xED then 0x80 \<le> b1 \<and> b1 \<le> 0x9F
      else utf8_cont b1)"

definition utf8_second4 :: "byte \<Rightarrow> byte \<Rightarrow> bool" where
  "utf8_second4 b0 b1 \<longleftrightarrow>
     (if b0 = 0xF0 then 0x90 \<le> b1 \<and> b1 \<le> 0xBF
      else if b0 = 0xF4 then 0x80 \<le> b1 \<and> b1 \<le> 0x8F
      else utf8_cont b1)"

fun utf8_valid :: "bytes \<Rightarrow> bool" where
  "utf8_valid [] = True"
| "utf8_valid (b0 # bs) =
     (if b0 \<le> 0x7F then utf8_valid bs
      else if 0xC2 \<le> b0 \<and> b0 \<le> 0xDF then
        (case bs of b1 # r \<Rightarrow> utf8_cont b1 \<and> utf8_valid r | _ \<Rightarrow> False)
      else if 0xE0 \<le> b0 \<and> b0 \<le> 0xEF then
        (case bs of b1 # b2 # r \<Rightarrow> utf8_second3 b0 b1 \<and> utf8_cont b2 \<and> utf8_valid r
         | _ \<Rightarrow> False)
      else if 0xF0 \<le> b0 \<and> b0 \<le> 0xF4 then
        (case bs of b1 # b2 # b3 # r \<Rightarrow>
           utf8_second4 b0 b1 \<and> utf8_cont b2 \<and> utf8_cont b3 \<and> utf8_valid r
         | _ \<Rightarrow> False)
      else False)"

definition utf8_str :: "string \<Rightarrow> bool" where
  "utf8_str s \<longleftrightarrow> utf8_valid (str_bytes s)"

lemma utf8_valid_ascii: "\<forall>b \<in> set bs. b \<le> 0x7F \<Longrightarrow> utf8_valid bs"
  by (induction bs) simp_all

text \<open>\<open>str::from_utf8\<close>: the string, or nothing when the bytes are not UTF-8.\<close>

definition from_utf8 :: "bytes \<Rightarrow> string option" where
  "from_utf8 bs = (if utf8_valid bs then Some (str_of_bytes bs) else None)"

lemma from_utf8_str_bytes [simp]: "utf8_str s \<Longrightarrow> from_utf8 (str_bytes s) = Some s"
  by (simp add: from_utf8_def utf8_str_def)

lemma from_utf8_Some: "from_utf8 bs = Some s \<longleftrightarrow> utf8_str s \<and> str_bytes s = bs"
  by (auto simp: from_utf8_def utf8_str_def)

text \<open>
  \<open>Utf8Error\<close>: where the valid prefix ends and, unless the input ends inside a sequence,
  how many bytes are wrong there; and its \<open>Display\<close>.
\<close>

fun utf8_error :: "nat \<Rightarrow> bytes \<Rightarrow> (nat \<times> nat option) option" where
  "utf8_error i [] = None"
| "utf8_error i (b0 # bs) =
     (if b0 \<le> 0x7F then utf8_error (i + 1) bs
      else if 0xC2 \<le> b0 \<and> b0 \<le> 0xDF then
        (case bs of
           [] \<Rightarrow> Some (i, None)
         | b1 # r \<Rightarrow> if utf8_cont b1 then utf8_error (i + 2) r else Some (i, Some 1))
      else if 0xE0 \<le> b0 \<and> b0 \<le> 0xEF then
        (case bs of
           [] \<Rightarrow> Some (i, None)
         | b1 # r1 \<Rightarrow> if \<not> utf8_second3 b0 b1 then Some (i, Some 1)
             else (case r1 of
                [] \<Rightarrow> Some (i, None)
              | b2 # r \<Rightarrow> if utf8_cont b2 then utf8_error (i + 3) r else Some (i, Some 2)))
      else if 0xF0 \<le> b0 \<and> b0 \<le> 0xF4 then
        (case bs of
           [] \<Rightarrow> Some (i, None)
         | b1 # r1 \<Rightarrow> if \<not> utf8_second4 b0 b1 then Some (i, Some 1)
             else (case r1 of
                [] \<Rightarrow> Some (i, None)
              | b2 # r2 \<Rightarrow> if \<not> utf8_cont b2 then Some (i, Some 2)
                  else (case r2 of
                     [] \<Rightarrow> Some (i, None)
                   | b3 # r \<Rightarrow> if utf8_cont b3 then utf8_error (i + 4) r else Some (i, Some 3))))
      else Some (i, Some 1))"

lemma utf8_error_None: "utf8_error i bs = None \<longleftrightarrow> utf8_valid bs"
  by (induction i bs rule: utf8_error.induct) (auto split: list.splits)

lemma utf8_error_bounds:
  "utf8_error i bs = Some (j, m) \<Longrightarrow> i \<le> j \<and> j < i + length bs \<and> m \<noteq> Some 0"
proof (induction i bs rule: utf8_error.induct)
  case (2 i b0 bs)
  from 2(5) show ?case
    apply (simp only: utf8_error.simps split: if_split_asm list.split_asm)
    using 2(1-4) apply simp_all
    apply fastforce+
    done
qed simp

text \<open>
  \<open>from_utf8_lossy\<close>: every wrong sequence, and an unfinished one at the end, becomes U+FFFD.
\<close>

function utf8_lossy :: "bytes \<Rightarrow> bytes" where
  "utf8_lossy bs = (case utf8_error 0 bs of
     None \<Rightarrow> bs
   | Some (i, None) \<Rightarrow> take i bs @ [0xEF, 0xBF, 0xBD]
   | Some (i, Some n) \<Rightarrow> take i bs @ [0xEF, 0xBF, 0xBD] @ utf8_lossy (drop (i + n) bs))"
  by auto
termination
  by (relation "measure length") (auto dest: utf8_error_bounds)

declare utf8_lossy.simps [simp del]

definition from_utf8_lossy :: "bytes \<Rightarrow> string" where
  "from_utf8_lossy bs = str_of_bytes (utf8_lossy bs)"

lemma from_utf8_lossy_valid: "utf8_valid bs \<Longrightarrow> from_utf8_lossy bs = str_of_bytes bs"
  by (subst from_utf8_lossy_def, subst utf8_lossy.simps)
    (simp add: utf8_error_None [THEN iffD2])

lemmas le_eval = to_le_bytes_def le_digits_numeral str_bytes_def char_byte_def

subsection \<open>String operations of the standard library\<close>

definition strip_prefix :: "'a list \<Rightarrow> 'a list \<Rightarrow> 'a list option" where
  "strip_prefix p s = (if prefix p s then Some (drop (length p) s) else None)"

lemma strip_prefix_append [simp]: "strip_prefix p (p @ s) = Some s"
  by (simp add: strip_prefix_def)

lemma strip_prefix_Some: "strip_prefix p s = Some r \<longleftrightarrow> s = p @ r"
  by (auto simp: strip_prefix_def prefix_def)

fun split_once :: "char \<Rightarrow> string \<Rightarrow> (string \<times> string) option" where
  "split_once c [] = None"
| "split_once c (x # xs) =
     (if x = c then Some ([], xs)
      else map_option (\<lambda>(a, b). (x # a, b)) (split_once c xs))"

lemma split_once_append: "c \<notin> set a \<Longrightarrow> split_once c (a @ c # b) = Some (a, b)"
  by (induction a) auto

lemma split_once_Some: "split_once c s = Some (a, b) \<Longrightarrow> s = a @ c # b \<and> c \<notin> set a"
  by (induction s arbitrary: a) (auto split: if_splits)

fun split_on :: "char \<Rightarrow> string \<Rightarrow> string list" where
  "split_on c [] = [[]]"
| "split_on c (x # xs) =
     (if x = c then [] # split_on c xs
      else (case split_on c xs of [] \<Rightarrow> [[x]] | y # ys \<Rightarrow> (x # y) # ys))"

lemma split_on_no_sep: "w \<in> set (split_on c s) \<Longrightarrow> c \<notin> set w"
  by (induction c s arbitrary: w rule: split_on.induct) (auto split: if_splits list.splits)

text \<open>
  \<open>str::lines\<close>: split after each line feed, then drop the line ending of every piece that
  has one.
\<close>

fun split_inclusive :: "char \<Rightarrow> string \<Rightarrow> string list" where
  "split_inclusive c [] = []"
| "split_inclusive c (x # xs) =
     (if x = c then [x] # split_inclusive c xs
      else (case split_inclusive c xs of [] \<Rightarrow> [[x]] | y # ys \<Rightarrow> (x # y) # ys))"

definition strip_eol :: "string \<Rightarrow> string" where
  "strip_eol line =
     (if line \<noteq> [] \<and> last line = CHR 0x0A
      then let l = butlast line in if l \<noteq> [] \<and> last l = CHR 0x0D then butlast l else l
      else line)"

definition str_lines :: "string \<Rightarrow> string list" where
  "str_lines s = map strip_eol (split_inclusive (CHR 0x0A) s)"

lemma split_inclusive_concat [simp]: "concat (split_inclusive c s) = s"
  by (induction c s rule: split_inclusive.induct) (auto split: list.splits)

text \<open>\<open>trim\<close> removes Unicode white space, here as the UTF-8 encodings of it.\<close>

definition utf8_ws :: "string list" where
  "utf8_ws =
     [[CHR 0x09], [CHR 0x0A], [CHR 0x0B], [CHR 0x0C], [CHR 0x0D], [CHR 0x20],
      [CHR 0xC2, CHR 0x85], [CHR 0xC2, CHR 0xA0], [CHR 0xE1, CHR 0x9A, CHR 0x80],
      [CHR 0xE2, CHR 0x80, CHR 0x80], [CHR 0xE2, CHR 0x80, CHR 0x81],
      [CHR 0xE2, CHR 0x80, CHR 0x82], [CHR 0xE2, CHR 0x80, CHR 0x83],
      [CHR 0xE2, CHR 0x80, CHR 0x84], [CHR 0xE2, CHR 0x80, CHR 0x85],
      [CHR 0xE2, CHR 0x80, CHR 0x86], [CHR 0xE2, CHR 0x80, CHR 0x87],
      [CHR 0xE2, CHR 0x80, CHR 0x88], [CHR 0xE2, CHR 0x80, CHR 0x89],
      [CHR 0xE2, CHR 0x80, CHR 0x8A], [CHR 0xE2, CHR 0x80, CHR 0xA8],
      [CHR 0xE2, CHR 0x80, CHR 0xA9], [CHR 0xE2, CHR 0x80, CHR 0xAF],
      [CHR 0xE2, CHR 0x81, CHR 0x9F], [CHR 0xE3, CHR 0x80, CHR 0x80]]"

primrec trim_start_fuel :: "nat \<Rightarrow> string \<Rightarrow> string" where
  "trim_start_fuel 0 s = s"
| "trim_start_fuel (Suc n) s =
     (case find (\<lambda>w. prefix w s) utf8_ws of
        None \<Rightarrow> s
      | Some w \<Rightarrow> trim_start_fuel n (drop (length w) s))"

primrec trim_end_fuel :: "nat \<Rightarrow> string \<Rightarrow> string" where
  "trim_end_fuel 0 s = s"
| "trim_end_fuel (Suc n) s =
     (case find (\<lambda>w. suffix w s) utf8_ws of
        None \<Rightarrow> s
      | Some w \<Rightarrow> trim_end_fuel n (take (length s - length w) s))"

definition trim :: "string \<Rightarrow> string" where
  "trim s = (let t = trim_start_fuel (length s) s in trim_end_fuel (length t) t)"

text \<open>The fuel is enough: what is left starts and ends with no white space.\<close>

lemma utf8_ws_nonempty: "w \<in> set utf8_ws \<Longrightarrow> w \<noteq> []"
  by (auto simp: utf8_ws_def)

lemma trim_start_fuel_done:
  "length s \<le> n \<Longrightarrow> w \<in> set utf8_ws \<Longrightarrow> \<not> prefix w (trim_start_fuel n s)"
proof (induction n arbitrary: s)
  case 0
  then show ?case using utf8_ws_nonempty by auto
next
  case (Suc n)
  show ?case
  proof (cases "find (\<lambda>w. prefix w s) utf8_ws")
    case None
    with Suc.prems have "\<not> prefix w s" by (auto simp: find_None_iff)
    with None show ?thesis by simp
  next
    case (Some v)
    then have "v \<in> set utf8_ws" "prefix v s" by (auto simp: find_Some_iff)
    then have "v \<noteq> []" "length v \<le> length s"
      using utf8_ws_nonempty prefix_length_le by auto
    with Suc.prems(1) have "length (drop (length v) s) \<le> n" by (cases v) auto
    with Suc.IH Suc.prems(2) Some show ?thesis by simp
  qed
qed

lemma trim_end_fuel_done:
  "length s \<le> n \<Longrightarrow> w \<in> set utf8_ws \<Longrightarrow> \<not> suffix w (trim_end_fuel n s)"
proof (induction n arbitrary: s)
  case 0
  then show ?case using utf8_ws_nonempty by auto
next
  case (Suc n)
  show ?case
  proof (cases "find (\<lambda>w. suffix w s) utf8_ws")
    case None
    with Suc.prems have "\<not> suffix w s" by (auto simp: find_None_iff)
    with None show ?thesis by simp
  next
    case (Some v)
    then have "v \<in> set utf8_ws" "suffix v s" by (auto simp: find_Some_iff)
    then have "v \<noteq> []" "length v \<le> length s"
      using utf8_ws_nonempty suffix_length_le by auto
    with Suc.prems(1) have "length (take (length s - length v) s) \<le> n" by (cases v) auto
    with Suc.IH Suc.prems(2) Some show ?thesis by simp
  qed
qed

lemma trim_no_trailing_ws: "w \<in> set utf8_ws \<Longrightarrow> \<not> suffix w (trim s)"
  by (simp add: trim_def Let_def trim_end_fuel_done)

definition is_ascii_digit :: "char \<Rightarrow> bool" where
  "is_ascii_digit c \<longleftrightarrow> 48 \<le> (of_char c :: nat) \<and> (of_char c :: nat) \<le> 57"

definition is_ascii_alphabetic :: "char \<Rightarrow> bool" where
  "is_ascii_alphabetic c \<longleftrightarrow>
     (65 \<le> (of_char c :: nat) \<and> (of_char c :: nat) \<le> 90) \<or>
     (97 \<le> (of_char c :: nat) \<and> (of_char c :: nat) \<le> 122)"

definition is_ascii_alphanumeric :: "char \<Rightarrow> bool" where
  "is_ascii_alphanumeric c \<longleftrightarrow> is_ascii_digit c \<or> is_ascii_alphabetic c"

definition ascii_lower :: "char \<Rightarrow> char" where
  "ascii_lower c =
     (let n = of_char c :: nat in if 65 \<le> n \<and> n \<le> 90 then char_of (n + 32) else c)"

definition eq_ignore_ascii_case :: "string \<Rightarrow> string \<Rightarrow> bool" where
  "eq_ignore_ascii_case s t \<longleftrightarrow> map ascii_lower s = map ascii_lower t"

text \<open>\<open>join\<close> with a separator.\<close>

fun join :: "string \<Rightarrow> string list \<Rightarrow> string" where
  "join sep [] = []"
| "join sep [x] = x"
| "join sep (x # y # ys) = x @ sep @ join sep (y # ys)"

subsection \<open>Formatting of numbers\<close>

abbreviation newline :: string where
  "newline \<equiv> [CHR 0x0A]"

definition digit_char :: "nat \<Rightarrow> char" where
  "digit_char n = (if n < 10 then char_of (48 + n) else char_of (87 + n))"

fun show_nat :: "nat \<Rightarrow> string" where
  "show_nat n =
     (if n < 10 then [digit_char n] else show_nat (n div 10) @ [digit_char (n mod 10)])"

declare show_nat.simps [simp del]

text \<open>\<open>{:06}\<close> and \<open>{:02x}\<close>.\<close>

definition show_nat_06 :: "nat \<Rightarrow> string" where
  "show_nat_06 n = replicate (6 - length (show_nat n)) (CHR ''0'') @ show_nat n"

definition show_byte_02x :: "byte \<Rightarrow> string" where
  "show_byte_02x b = [digit_char (unat b div 16), digit_char (unat b mod 16)]"

definition show_bool :: "bool \<Rightarrow> string" where
  "show_bool b = (if b then ''true'' else ''false'')"

definition dec_value :: "string \<Rightarrow> nat" where
  "dec_value s = foldl (\<lambda>acc c. 10 * acc + (of_char c - 48)) 0 s"

lemma of_char_digit: "n < 10 \<Longrightarrow> (of_char (digit_char n) :: nat) = 48 + n"
  by (simp add: digit_char_def of_char_of)

lemma dec_value_show_nat: "dec_value (show_nat n) = n"
proof (induction n rule: show_nat.induct)
  case (1 n)
  show ?case
  proof (cases "n < 10")
    case True
    then show ?thesis
      by (subst show_nat.simps) (simp add: dec_value_def of_char_digit)
  next
    case False
    with 1 have "dec_value (show_nat (n div 10)) = n div 10" by simp
    with False show ?thesis
      by (subst show_nat.simps) (simp add: dec_value_def of_char_digit)
  qed
qed

lemma dec_value_zeros: "dec_value (replicate k (CHR ''0'') @ s) = dec_value s"
  by (induction k) (simp_all add: dec_value_def)

lemma show_nat_inject [simp]: "show_nat m = show_nat n \<longleftrightarrow> m = n"
  by (metis dec_value_show_nat)

lemma show_nat_06_inject [simp]: "show_nat_06 m = show_nat_06 n \<longleftrightarrow> m = n"
  by (metis show_nat_06_def dec_value_show_nat dec_value_zeros)

definition utf8_error_text :: "bytes \<Rightarrow> string" where
  "utf8_error_text bs = (case utf8_error 0 bs of
     Some (at, Some n) \<Rightarrow>
       ''invalid utf-8 sequence of '' @ show_nat n @ '' bytes from index '' @ show_nat at
   | Some (at, None) \<Rightarrow> ''incomplete utf-8 byte sequence from index '' @ show_nat at
   | None \<Rightarrow> [])"

subsection \<open>Slices\<close>

definition slice :: "nat \<Rightarrow> nat \<Rightarrow> 'a list \<Rightarrow> 'a list" where
  "slice i j xs = take (j - i) (drop i xs)"

text \<open>The bytes a read of a buffer returns: none past its end.\<close>

definition read_slice :: "bytes \<Rightarrow> nat \<Rightarrow> nat \<Rightarrow> bytes" where
  "read_slice data offset count =
     (if offset \<ge> length data then []
      else slice offset (min (sat_add offset count) (length data)) data)"

lemma read_slice_eq:
  "length data \<le> u64_max \<Longrightarrow> read_slice data offset count = take count (drop offset data)"
  by (auto simp: read_slice_def slice_def sat_add_def min_def drop_take)

text \<open>\<open>dst[i..i + src.len()].copy_from_slice(src)\<close>.\<close>

definition copy_at :: "nat \<Rightarrow> 'a list \<Rightarrow> 'a list \<Rightarrow> 'a list" where
  "copy_at i xs dst = take i dst @ xs @ drop (i + length xs) dst"

lemma length_slice [simp]: "j \<le> length xs \<Longrightarrow> length (slice i j xs) = j - i"
  by (simp add: slice_def)

lemma nth_slice [simp]: "k < j - i \<Longrightarrow> j \<le> length xs \<Longrightarrow> slice i j xs ! k = xs ! (i + k)"
  by (simp add: slice_def)

lemma length_copy_at [simp]: "i + length xs \<le> length dst \<Longrightarrow> length (copy_at i xs dst) = length dst"
  by (simp add: copy_at_def)

lemma nth_copy_at:
  assumes "i + length xs \<le> length dst" and "k < length dst"
  shows "copy_at i xs dst ! k =
    (if i \<le> k \<and> k < i + length xs then xs ! (k - i) else dst ! k)"
proof -
  consider "k < i" | "i \<le> k \<and> k < i + length xs" | "i + length xs \<le> k" by linarith
  then show ?thesis
    using assms by cases (auto simp: copy_at_def nth_append)
qed

subsection \<open>State machines\<close>

text \<open>
  The contract most components share: every operation keeps an invariant, so every run
  of operations does. A component interprets this locale with its own step function
  and uses the facts about runs.
\<close>

locale step_invariant =
  fixes step :: "'s \<Rightarrow> 'e \<Rightarrow> 's"
    and inv :: "'s \<Rightarrow> bool"
  assumes step_inv: "inv s \<Longrightarrow> inv (step s e)"
begin

lemma run_inv: "inv s \<Longrightarrow> inv (foldl step s es)"
  by (induction es arbitrary: s) (simp_all add: step_inv)

lemma run_prefix_inv: "inv s \<Longrightarrow> prefix es fs \<Longrightarrow> inv (foldl step s es)"
  by (simp add: run_inv)

end

text \<open>
  The contract of monotone state: whatever an operation does, the state before and the state after
  are related by a preorder. A composed operation moves along the preorder when its parts do.
\<close>

definition st_moves :: "('s \<Rightarrow> 's \<Rightarrow> bool) \<Rightarrow> ('s, 'e, 'a) st_op \<Rightarrow> bool" where
  "st_moves R m \<longleftrightarrow> (\<forall>s. R s (snd (m s)))"

lemma st_movesD: "st_moves R m \<Longrightarrow> m s = (r, s') \<Longrightarrow> R s s'"
  by (metis st_moves_def snd_conv)

locale evolution =
  fixes R :: "'s \<Rightarrow> 's \<Rightarrow> bool"
  assumes refl: "R s s"
    and trans: "R s t \<Longrightarrow> R t u \<Longrightarrow> R s u"
begin

lemma moves_basic: "st_moves R (st_return x)" "st_moves R (st_fail e)" "st_moves R (st_lift r)"
  by (simp_all add: st_moves_def st_defs refl)

lemma moves_modify: "(\<And>s. R s (f s)) \<Longrightarrow> st_moves R (st_modify f)"
  by (simp add: st_moves_def st_modify_def)

lemma moves_read: "(\<And>s. st_moves R (f s)) \<Longrightarrow> st_moves R (st_read f)"
  by (simp add: st_moves_def st_read_def)

lemma moves_map_err: "st_moves R m \<Longrightarrow> st_moves R (st_map_err g m)"
  by (simp add: st_moves_def st_map_err_def split_beta)

lemma moves_if: "(b \<Longrightarrow> st_moves R m) \<Longrightarrow> (\<not> b \<Longrightarrow> st_moves R k) \<Longrightarrow> st_moves R (if b then m else k)"
  by simp

lemma moves_bind:
  assumes "st_moves R m" and "\<And>x. st_moves R (f x)"
  shows "st_moves R (st_bind m f)"
  unfolding st_moves_def
proof
  fix s
  obtain r t where m: "m s = (r, t)" by fastforce
  with assms(1) have "R s t" by (rule st_movesD)
  moreover have "R t (snd (f x t))" for x using assms(2) by (simp add: st_moves_def)
  ultimately show "R s (snd (st_bind m f s))"
    using trans by (cases r) (auto simp: st_bind_def m)
qed

lemmas moves = moves_basic moves_read moves_map_err moves_bind moves_if

lemma run_moves: "(\<And>s e. R s (step s e)) \<Longrightarrow> R s (foldl step s es)"
  by (induction es arbitrary: s) (auto intro: refl trans)

end

text \<open>
  The contract of a budget: what an operation costs comes out of a level that nothing
  refills, so a run costs at most the level it starts with.
\<close>

primrec total_cost :: "('s \<Rightarrow> 'e \<Rightarrow> 's) \<Rightarrow> ('s \<Rightarrow> 'e \<Rightarrow> nat) \<Rightarrow> 's \<Rightarrow> 'e list \<Rightarrow> nat" where
  "total_cost step cost s [] = 0"
| "total_cost step cost s (e # es) = cost s e + total_cost step cost (step s e) es"

lemma total_cost_cong:
  assumes "P s" and "\<And>s e. P s \<Longrightarrow> P (step s e) \<and> cost s e = cost' s e"
  shows "total_cost step cost s es = total_cost step cost' s es"
  using assms(1) by (induction es arbitrary: s) (simp_all add: assms(2))

locale metered =
  fixes step :: "'s \<Rightarrow> 'e \<Rightarrow> 's"
    and cost :: "'s \<Rightarrow> 'e \<Rightarrow> nat"
    and level :: "'s \<Rightarrow> nat"
    and inv :: "'s \<Rightarrow> bool"
  assumes step_level: "inv s \<Longrightarrow> cost s e + level (step s e) \<le> level s"
    and step_inv: "inv s \<Longrightarrow> inv (step s e)"
begin

lemma run_level: "inv s \<Longrightarrow> total_cost step cost s es + level (foldl step s es) \<le> level s"
proof (induction es arbitrary: s)
  case (Cons e es)
  from Cons.IH [OF step_inv [OF Cons.prems], of e] step_level [OF Cons.prems, of e]
  show ?case by simp
qed simp

lemma run_cost: "inv s \<Longrightarrow> total_cost step cost s es \<le> level s"
  using run_level [of s es] by simp

end

end
