(* ===== verification/Secure9P_Types.thy ===== *)
theory Secure9P_Types
  imports Cohesix_Prelude
begin

unbundle bit_operations_syntax

section \<open>Secure9P data model\<close>

text \<open>
  The wire types of \<open>crates/secure9p-codec/src/types.rs\<close>: session identifiers, frame
  headers, codec errors, qids, open modes, error codes, and the request and response
  bodies. Every struct is a record, every enum a datatype with the source's variants
  (prefixed where a variant name would clash), and every method a definition.
\<close>

subsection \<open>Protocol constants and session identifiers\<close>

definition MAX_MSIZE :: u32 where
  "MAX_MSIZE = 8192"

definition VERSION :: string where
  "VERSION = ''9P2000.L''"

datatype session_id = SessionId (into_raw: u64)

definition BOOTSTRAP :: session_id where
  "BOOTSTRAP = SessionId 0"

record frame_header =
  fh_session :: session_id
  fh_payload_len :: u32

definition frame_header_new :: "u64 \<Rightarrow> u32 \<Rightarrow> frame_header" where
  "frame_header_new session payload_len =
     \<lparr>fh_session = SessionId session, fh_payload_len = payload_len\<rparr>"

subsection \<open>Codec errors\<close>

datatype codec_error =
    Truncated
  | Unsupported byte
  | InvalidUtf8
  | LengthMismatch u32 nat
  | InvalidPath
  | InvalidOpenMode byte
  | FrameTooLarge u32 u32

subsection \<open>Qids\<close>

datatype qid_type = QidType (qid_type_u8: byte)

definition DIRECTORY :: qid_type where
  "DIRECTORY = QidType 0x80"

definition APPEND_ONLY :: qid_type where
  "APPEND_ONLY = QidType 0x40"

definition FILE :: qid_type where
  "FILE = QidType 0x00"

definition is_directory :: "qid_type \<Rightarrow> bool" where
  "is_directory t \<longleftrightarrow> qid_type_u8 t AND qid_type_u8 DIRECTORY \<noteq> 0"

definition is_append_only :: "qid_type \<Rightarrow> bool" where
  "is_append_only t \<longleftrightarrow> qid_type_u8 t AND qid_type_u8 APPEND_ONLY \<noteq> 0"

record qid =
  qid_ty :: qid_type
  qid_version :: u32
  qid_path :: u64

subsection \<open>Open modes\<close>

datatype open_mode_base = ReadOnly | WriteOnly | ReadWriteMode | Execute

record open_mode =
  om_base :: open_mode_base
  om_truncate :: bool
  om_append :: bool

definition read_only :: open_mode where
  "read_only = \<lparr>om_base = ReadOnly, om_truncate = False, om_append = False\<rparr>"

definition write_append :: open_mode where
  "write_append = \<lparr>om_base = WriteOnly, om_truncate = False, om_append = True\<rparr>"

text \<open>The discriminants of \<open>OpenModeBase\<close>.\<close>

fun open_mode_base_u8 :: "open_mode_base \<Rightarrow> byte" where
  "open_mode_base_u8 ReadOnly = 0"
| "open_mode_base_u8 WriteOnly = 1"
| "open_mode_base_u8 ReadWriteMode = 2"
| "open_mode_base_u8 Execute = 3"

definition open_mode_from_bits :: "byte \<Rightarrow> codec_error + open_mode" where
  "open_mode_from_bits v =
     (let low = v AND 0x03;
          base = (if low = 0 then Ok ReadOnly
                  else if low = 1 then Ok WriteOnly
                  else if low = 2 then Ok ReadWriteMode
                  else if low = 3 then Ok Execute
                  else Err (InvalidOpenMode v))
      in and_then base (\<lambda>b.
           Ok \<lparr>om_base = b, om_truncate = (v AND 0x10 \<noteq> 0), om_append = (v AND 0x80 \<noteq> 0)\<rparr>))"

definition allows_read :: "open_mode \<Rightarrow> bool" where
  "allows_read m = (case om_base m of ReadOnly \<Rightarrow> True | ReadWriteMode \<Rightarrow> True
     | Execute \<Rightarrow> True | WriteOnly \<Rightarrow> False)"

definition allows_write :: "open_mode \<Rightarrow> bool" where
  "allows_write m = ((case om_base m of WriteOnly \<Rightarrow> True | ReadWriteMode \<Rightarrow> True
     | _ \<Rightarrow> False) \<or> om_append m)"

definition open_mode_raw :: "open_mode \<Rightarrow> byte" where
  "open_mode_raw m =
     (let bits = open_mode_base_u8 (om_base m);
          bits = (if om_truncate m then bits OR 0x10 else bits)
      in if om_append m then bits OR 0x80 else bits)"

subsection \<open>Error codes\<close>

datatype error_code = EPermission | ENotFound | EBusy | EInvalid | ETooBig | EClosed

fun error_code_display :: "error_code \<Rightarrow> string" where
  "error_code_display EPermission = ''Permission''"
| "error_code_display ENotFound = ''NotFound''"
| "error_code_display EBusy = ''Busy''"
| "error_code_display EInvalid = ''Invalid''"
| "error_code_display ETooBig = ''TooBig''"
| "error_code_display EClosed = ''Closed''"

subsection \<open>Requests and responses\<close>

datatype request_body =
    ReqVersion (req_msize: u32) (req_version: string)
  | ReqAttach (req_fid: u32) (req_afid: u32) (req_uname: string) (req_aname: string)
      (req_n_uname: u32)
  | ReqWalk (req_fid: u32) (req_newfid: u32) (req_wnames: "string list")
  | ReqOpen (req_fid: u32) (req_mode: open_mode)
  | ReqRead (req_fid: u32) (req_offset: u64) (req_count: u32)
  | ReqWrite (req_fid: u32) (req_offset: u64) (req_data: bytes)
  | ReqClunk (req_fid: u32)

datatype response_body =
    ResVersion u32 string
  | ResAttach qid
  | ResWalk "qid list"
  | ResOpen qid u32
  | ResRead bytes
  | ResWrite u32
  | ResClunk
  | ResError error_code string

record request =
  req_tag :: u16
  req_body :: request_body

record response =
  res_tag :: u16
  res_body :: response_body

subsection \<open>Facts about modes and codes\<close>

lemma open_mode_roundtrip [simp]: "open_mode_from_bits (open_mode_raw m) = Ok m"
  by (cases m; cases "om_base m"; cases "om_truncate m"; cases "om_append m")
    (simp_all add: open_mode_raw_def open_mode_from_bits_def Let_def)

lemma error_code_display_inject [simp]:
  "error_code_display c = error_code_display d \<longleftrightarrow> c = d"
  by (cases c; cases d) simp_all

lemma error_code_display_length: "length (error_code_display c) \<le> 10"
  by (cases c) simp_all

lemma error_code_display_utf8: "utf8_str (error_code_display c)"
  unfolding utf8_str_def
  by (rule utf8_valid_ascii, cases c) (simp_all add: str_bytes_def char_byte_def)

end
