(* ===== verification/Wire_Cursor.thy ===== *)
theory Wire_Cursor
  imports Cohesix_Prelude
begin

section \<open>The interface of wire fields\<close>

text \<open>
  Both byte formats of the system (Secure9P frames and ticket claims) are read field by
  field through a cursor. What a decoder needs to know about a field is the same in both:
  reading back what was written returns the value and leaves the cursor behind it, and
  a value that was read is the one whose encoding stood at the cursor. The locale
  \<open>wire_field\<close> states this once; the codecs interpret it for each of their fields, and
  the counted loops (walk names, qids, ticket scopes) are proved here for all of them.

  \<open>at pre rest\<close> is the cursor of the format that has consumed \<open>pre\<close> and still has \<open>rest\<close>
  before it. \<open>fits\<close> is the bound every Rust allocation obeys; below it the saturating
  addition of the cursors is exact.
\<close>

definition fits :: "bytes \<Rightarrow> bool" where
  "fits bs \<longleftrightarrow> length bs < usize_max"

text \<open>A counted loop \<open>for _ in 0..n\<close> that reads one element per round.\<close>

fun read_many :: "('c \<Rightarrow> 'e + 'a \<times> 'c) \<Rightarrow> nat \<Rightarrow> 'c \<Rightarrow> 'e + 'a list \<times> 'c" where
  "read_many rd 0 c = Ok ([], c)"
| "read_many rd (Suc n) c =
     and_then (rd c) (\<lambda>(x, c).
     and_then (read_many rd n c) (\<lambda>(xs, c). Ok (x # xs, c)))"

locale wire_cursor =
  fixes at :: "bytes \<Rightarrow> bytes \<Rightarrow> 'c"
    and valid :: "'c \<Rightarrow> bool"
    and left :: "'c \<Rightarrow> bytes"
  assumes valid_at: "fits (pre @ s) \<Longrightarrow> valid (at pre s)"
    and left_at: "left (at pre s) = s"
    and at_valid: "valid c \<Longrightarrow> \<exists>pre. c = at pre (left c) \<and> fits (pre @ left c)"

locale wire_field = wire_cursor at valid left
  for at :: "bytes \<Rightarrow> bytes \<Rightarrow> 'c" and valid :: "'c \<Rightarrow> bool" and left :: "'c \<Rightarrow> bytes" +
  fixes put :: "'a \<Rightarrow> bytes"
    and get :: "'c \<Rightarrow> 'e + 'a \<times> 'c"
    and wf :: "'a \<Rightarrow> bool"
  assumes get_put: "wf x \<Longrightarrow> fits (pre @ put x @ rest) \<Longrightarrow>
      get (at pre (put x @ rest)) = Ok (x, at (pre @ put x) rest)"
    and get_inv: "get (at pre s) = Ok (x, c) \<Longrightarrow> fits (pre @ s) \<Longrightarrow>
      wf x \<and> (\<exists>rest. s = put x @ rest \<and> c = at (pre @ put x) rest)"
begin

lemma get_left:
  assumes "get c = Ok (x, c')" and "valid c"
  shows "wf x \<and> valid c' \<and> left c = put x @ left c'"
proof -
  from at_valid [OF assms(2)] obtain pre where
    c: "c = at pre (left c)" "fits (pre @ left c)" by blast
  then have "get (at pre (left c)) = Ok (x, c')" using assms(1) by simp
  from get_inv [OF this c(2)] obtain rest where
    r: "wf x" "left c = put x @ rest" "c' = at (pre @ put x) rest" by blast
  moreover from r(2) c(2) have "fits ((pre @ put x) @ rest)" by simp
  ultimately show ?thesis by (simp add: valid_at left_at)
qed

lemma get_put_end: "wf x \<Longrightarrow> fits (pre @ put x) \<Longrightarrow>
    get (at pre (put x)) = Ok (x, at (pre @ put x) [])"
  using get_put [of x pre "[]"] by simp

lemma get_wf: "get (at pre s) = Ok (x, c) \<Longrightarrow> fits (pre @ s) \<Longrightarrow> wf x"
  using get_inv by blast

lemma get_many: "\<forall>x \<in> set xs. wf x \<Longrightarrow> fits (pre @ concat (map put xs) @ rest) \<Longrightarrow>
    read_many get (length xs) (at pre (concat (map put xs) @ rest))
      = Ok (xs, at (pre @ concat (map put xs)) rest)"
proof (induction xs arbitrary: pre)
  case (Cons x xs)
  have "get (at pre (put x @ concat (map put xs) @ rest))
      = Ok (x, at (pre @ put x) (concat (map put xs) @ rest))"
    using Cons.prems by (intro get_put) simp_all
  moreover have "read_many get (length xs) (at (pre @ put x) (concat (map put xs) @ rest))
      = Ok (xs, at ((pre @ put x) @ concat (map put xs)) rest)"
    using Cons.prems by (intro Cons.IH) simp_all
  ultimately show ?case by simp
qed simp

lemma get_many_end: "\<forall>x \<in> set xs. wf x \<Longrightarrow> fits (pre @ concat (map put xs)) \<Longrightarrow>
    read_many get (length xs) (at pre (concat (map put xs)))
      = Ok (xs, at (pre @ concat (map put xs)) [])"
  using get_many [of xs pre "[]"] by simp

lemma get_many_left:
  "read_many get n c = Ok (xs, c') \<Longrightarrow> valid c \<Longrightarrow>
    length xs = n \<and> (\<forall>x \<in> set xs. wf x) \<and> valid c' \<and> left c = concat (map put xs) @ left c'"
  by (induction n arbitrary: c xs) (fastforce simp: outcome_splits dest: get_left)+

lemma get_many_inv:
  "read_many get n (at pre s) = Ok (xs, c) \<Longrightarrow> fits (pre @ s) \<Longrightarrow>
    length xs = n \<and> (\<forall>x \<in> set xs. wf x) \<and>
    (\<exists>rest. s = concat (map put xs) @ rest \<and> c = at (pre @ concat (map put xs)) rest)"
proof (induction n arbitrary: pre s xs)
  case (Suc n)
  from Suc.prems(1) obtain x c1 ys where
    1: "get (at pre s) = Ok (x, c1)" and 2: "read_many get n c1 = Ok (ys, c)" and xs: "xs = x # ys"
    by (auto simp: outcome_splits)
  from get_inv [OF 1 Suc.prems(2)] obtain r where
    r: "wf x" "s = put x @ r" "c1 = at (pre @ put x) r" by blast
  with Suc.prems(2) 2 Suc.IH [of "pre @ put x" r ys] show ?case by (auto simp: xs)
qed auto

text \<open>A field read through a bijection is a field.\<close>

lemma mapped_field:
  assumes "\<And>y. wf' y \<Longrightarrow> wf (enc y) \<and> dec (enc y) = y"
    and "\<And>x. wf x \<Longrightarrow> wf' (dec x) \<and> enc (dec x) = x"
  shows "wire_field at valid left (\<lambda>y. put (enc y)) (\<lambda>c. and_then (get c) (\<lambda>(x, c). Ok (dec x, c))) wf'"
proof
  fix y pre rest
  assume "wf' y" "fits (pre @ put (enc y) @ rest)"
  with assms(1) show "and_then (get (at pre (put (enc y) @ rest))) (\<lambda>(x, c). Ok (dec x, c))
      = Ok (y, at (pre @ put (enc y)) rest)"
    by (simp add: get_put)
next
  fix pre s y c
  assume "and_then (get (at pre s)) (\<lambda>(x, c). Ok (dec x, c)) = Ok (y, c)" "fits (pre @ s)"
  then obtain x where x: "get (at pre s) = Ok (x, c)" "y = dec x"
    by (auto simp: outcome_splits)
  with get_inv [OF x(1)] \<open>fits (pre @ s)\<close> assms(2)
  show "wf' y \<and> (\<exists>rest. s = put (enc y) @ rest \<and> c = at (pre @ put (enc y)) rest)"
    by auto
qed

text \<open>A field whose raw value is checked and converted.\<close>

lemma checked_field:
  assumes "\<And>x y. wf x \<Longrightarrow> conv x = Ok y \<longleftrightarrow> wf' y \<and> x = enc y"
    and "\<And>y. wf' y \<Longrightarrow> wf (enc y)"
  shows "wire_field at valid left (\<lambda>y. put (enc y))
    (\<lambda>c. and_then (get c) (\<lambda>(x, c). and_then (conv x) (\<lambda>y. Ok (y, c)))) wf'"
proof
  fix y pre rest
  assume "wf' y" "fits (pre @ put (enc y) @ rest)"
  moreover from this assms have "conv (enc y) = Ok y" by blast
  ultimately show "and_then (get (at pre (put (enc y) @ rest))) (\<lambda>(x, c). and_then (conv x) (\<lambda>y. Ok (y, c)))
      = Ok (y, at (pre @ put (enc y)) rest)"
    using assms(2) by (simp add: get_put)
next
  fix pre s y c
  assume "and_then (get (at pre s)) (\<lambda>(x, c). and_then (conv x) (\<lambda>y. Ok (y, c))) = Ok (y, c)"
    and f: "fits (pre @ s)"
  then obtain x where x: "get (at pre s) = Ok (x, c)" "conv x = Ok y"
    by (auto simp: outcome_splits)
  with get_inv [OF x(1) f] assms(1) [of x y]
  show "wf' y \<and> (\<exists>rest. s = put (enc y) @ rest \<and> c = at (pre @ put (enc y)) rest)"
    by auto
qed

text \<open>A field that is present only under a flag, and has a default otherwise.\<close>

lemma flagged_field:
  "wire_field at valid left (\<lambda>x. if b then put x else []) (\<lambda>c. if b then get c else Ok (d, c))
     (\<lambda>x. if b then wf x else x = d)"
proof
  fix x pre rest
  assume "if b then wf x else x = d" "fits (pre @ (if b then put x else []) @ rest)"
  then show "(if b then get (at pre ((if b then put x else []) @ rest))
       else Ok (d, at pre ((if b then put x else []) @ rest))) =
      Ok (x, at (pre @ (if b then put x else [])) rest)"
    by (simp add: get_put split: if_splits)
next
  fix pre s x c
  assume "(if b then get (at pre s) else Ok (d, at pre s)) = Ok (x, c)" "fits (pre @ s)"
  then show "(if b then wf x else x = d) \<and>
      (\<exists>rest. s = (if b then put x else []) @ rest \<and> c = at (pre @ (if b then put x else [])) rest)"
    using get_inv by (auto split: if_splits)
qed

text \<open>Two fields after each other.\<close>

lemma field_then:
  assumes "wire_field at valid left put2 get2 wf2"
  shows "wire_field at valid left (\<lambda>(x, y). put x @ put2 y)
    (\<lambda>c. and_then (get c) (\<lambda>(x, c). and_then (get2 c) (\<lambda>(y, c). Ok ((x, y), c))))
    (\<lambda>(x, y). wf x \<and> wf2 y)"
proof
  fix p :: "'a \<times> 'b" and pre rest
  obtain x y where p: "p = (x, y)" by (cases p)
  assume "case p of (x, y) \<Rightarrow> wf x \<and> wf2 y" and f: "fits (pre @ (case p of (x, y) \<Rightarrow> put x @ put2 y) @ rest)"
  then have w: "wf x" "wf2 y" and f1: "fits (pre @ put x @ (put2 y @ rest))"
    and f2: "fits ((pre @ put x) @ put2 y @ rest)" by (simp_all add: p)
  show "and_then (get (at pre ((case p of (x, y) \<Rightarrow> put x @ put2 y) @ rest)))
      (\<lambda>(x, c). and_then (get2 c) (\<lambda>(y, c). Ok ((x, y), c))) =
    Ok (p, at (pre @ (case p of (x, y) \<Rightarrow> put x @ put2 y)) rest)"
    using get_put [OF w(1) f1] wire_field.get_put [OF assms w(2) f2] by (simp add: p)
next
  fix pre s c and p :: "'a \<times> 'b"
  assume g: "and_then (get (at pre s)) (\<lambda>(x, c). and_then (get2 c) (\<lambda>(y, c). Ok ((x, y), c))) = Ok (p, c)"
    and f: "fits (pre @ s)"
  from g obtain x y c1 where g1: "get (at pre s) = Ok (x, c1)" and g2: "get2 c1 = Ok (y, c)"
    and p: "p = (x, y)" by (auto simp: outcome_splits)
  from get_inv [OF g1 f] obtain r1 where r1: "wf x" "s = put x @ r1" "c1 = at (pre @ put x) r1" by blast
  with f have "fits ((pre @ put x) @ r1)" by simp
  with wire_field.get_inv [OF assms] g2 r1 obtain r2 where
    "wf2 y" "r1 = put2 y @ r2" "c = at ((pre @ put x) @ put2 y) r2" by blast
  with r1 p show "(case p of (x, y) \<Rightarrow> wf x \<and> wf2 y) \<and>
      (\<exists>rest. s = (case p of (x, y) \<Rightarrow> put x @ put2 y) @ rest \<and>
         c = at (pre @ (case p of (x, y) \<Rightarrow> put x @ put2 y)) rest)"
    by simp
qed

end

end
