(* ===== verification/Secure9P_Codec.thy ===== *)
theory Secure9P_Codec
  imports Secure9P_Types Wire_Cursor
begin

unbundle bit_operations_syntax

section \<open>Secure9P codec\<close>

text \<open>
  The encoder and decoder of \<open>crates/secure9p-codec/src/codec.rs\<close>. A frame is four bytes
  of total length, one byte of message type and a payload whose first two bytes are the
  tag. The decoder reads the payload through a cursor (a buffer and a position); the
  encoder appends to a buffer, here concatenation. \<open>put_string\<close> and \<open>finish\<close> panic on
  lengths the protocol cannot carry, so the encoder's errors are of type \<open>fault\<close>.
\<close>

subsection \<open>Message types\<close>

datatype message_type =
    Tversion | Rversion | Tattach | Rattach | Twalk | Rwalk | Topen | Ropen
  | Tread | Rread | Twrite | Rwrite | Tclunk | Rclunk | Rerror

fun message_type_u8 :: "message_type \<Rightarrow> byte" where
  "message_type_u8 Tversion = 100"
| "message_type_u8 Rversion = 101"
| "message_type_u8 Tattach = 104"
| "message_type_u8 Rattach = 105"
| "message_type_u8 Twalk = 110"
| "message_type_u8 Rwalk = 111"
| "message_type_u8 Topen = 112"
| "message_type_u8 Ropen = 113"
| "message_type_u8 Tread = 116"
| "message_type_u8 Rread = 117"
| "message_type_u8 Twrite = 118"
| "message_type_u8 Rwrite = 119"
| "message_type_u8 Tclunk = 120"
| "message_type_u8 Rclunk = 121"
| "message_type_u8 Rerror = 107"

definition message_type_try_from :: "byte \<Rightarrow> codec_error + message_type" where
  "message_type_try_from v =
     (if v = 100 then Ok Tversion
      else if v = 101 then Ok Rversion
      else if v = 104 then Ok Tattach
      else if v = 105 then Ok Rattach
      else if v = 110 then Ok Twalk
      else if v = 111 then Ok Rwalk
      else if v = 112 then Ok Topen
      else if v = 113 then Ok Ropen
      else if v = 116 then Ok Tread
      else if v = 117 then Ok Rread
      else if v = 118 then Ok Twrite
      else if v = 119 then Ok Rwrite
      else if v = 120 then Ok Tclunk
      else if v = 121 then Ok Rclunk
      else if v = 107 then Ok Rerror
      else Err (Unsupported v))"

subsection \<open>Writing\<close>

definition put_string :: "string \<Rightarrow> codec_error fault + bytes" where
  "put_string v =
     (if length v \<le> u16_max
      then Ok (to_le_bytes (word_of_nat (length v) :: u16) @ str_bytes v)
      else Err Panic)"

definition put_qid :: "qid \<Rightarrow> bytes" where
  "put_qid q = qid_type_u8 (qid_ty q) # to_le_bytes (qid_version q) @ to_le_bytes (qid_path q)"

definition finish :: "message_type \<Rightarrow> bytes \<Rightarrow> codec_error fault + bytes" where
  "finish ty payload =
     (if length payload + 5 \<le> usize_max
      then Ok (to_le_bytes (word_of_nat (length payload + 5) :: u32)
               @ message_type_u8 ty # payload)
      else Err Panic)"

definition validate_component :: "string \<Rightarrow> codec_error + unit" where
  "validate_component c =
     (if c = [] \<or> length c > 64 \<or> CHR ''/'' \<in> set c then Err InvalidPath else Ok ())"

text \<open>The loop over the walk components: validate, then append.\<close>

fun put_names :: "string list \<Rightarrow> codec_error fault + bytes" where
  "put_names [] = Ok []"
| "put_names (n # ns) =
     and_then (map_err Fail (validate_component n)) (\<lambda>_.
     and_then (put_string n) (\<lambda>b.
     and_then (put_names ns) (\<lambda>bs. Ok (b @ bs))))"

definition put_data :: "bytes \<Rightarrow> codec_error fault + bytes" where
  "put_data d =
     (if length d \<le> u32_max then Ok (to_le_bytes (word_of_nat (length d) :: u32) @ d)
      else Err (Fail (LengthMismatch (word_of_nat u32_max) (length d))))"

fun encode_request_body :: "bytes \<Rightarrow> request_body \<Rightarrow> codec_error fault + bytes" where
  "encode_request_body payload (ReqVersion msize version) =
     and_then (put_string version) (\<lambda>v.
     finish Tversion (payload @ to_le_bytes msize @ v))"
| "encode_request_body payload (ReqAttach fid afid uname aname n_uname) =
     and_then (put_string uname) (\<lambda>u.
     and_then (put_string aname) (\<lambda>a.
     finish Tattach (payload @ to_le_bytes fid @ to_le_bytes afid @ u @ a @ to_le_bytes n_uname)))"
| "encode_request_body payload (ReqWalk fid newfid wnames) =
     (if length wnames > u16_max then Err (Fail InvalidPath)
      else if length wnames > 8 then Err (Fail InvalidPath)
      else and_then (put_names wnames) (\<lambda>ns.
        finish Twalk (payload @ to_le_bytes fid @ to_le_bytes newfid
          @ to_le_bytes (word_of_nat (length wnames) :: u16) @ ns)))"
| "encode_request_body payload (ReqOpen fid mode) =
     finish Topen (payload @ to_le_bytes fid @ [open_mode_raw mode])"
| "encode_request_body payload (ReqRead fid offset count) =
     finish Tread (payload @ to_le_bytes fid @ to_le_bytes offset @ to_le_bytes count)"
| "encode_request_body payload (ReqWrite fid offset data) =
     and_then (put_data data) (\<lambda>d.
     finish Twrite (payload @ to_le_bytes fid @ to_le_bytes offset @ d))"
| "encode_request_body payload (ReqClunk fid) =
     finish Tclunk (payload @ to_le_bytes fid)"

definition encode_request :: "request \<Rightarrow> codec_error fault + bytes" where
  "encode_request r = encode_request_body (to_le_bytes (req_tag r)) (req_body r)"

fun encode_response_body :: "bytes \<Rightarrow> response_body \<Rightarrow> codec_error fault + bytes" where
  "encode_response_body payload (ResVersion msize version) =
     and_then (put_string version) (\<lambda>v.
     finish Rversion (payload @ to_le_bytes msize @ v))"
| "encode_response_body payload (ResAttach q) = finish Rattach (payload @ put_qid q)"
| "encode_response_body payload (ResWalk qids) =
     (if length qids > u16_max then Err (Fail InvalidPath)
      else finish Rwalk (payload @ to_le_bytes (word_of_nat (length qids) :: u16)
             @ concat (map put_qid qids)))"
| "encode_response_body payload (ResOpen q iounit) =
     finish Ropen (payload @ put_qid q @ to_le_bytes iounit)"
| "encode_response_body payload (ResRead data) =
     and_then (put_data data) (\<lambda>d. finish Rread (payload @ d))"
| "encode_response_body payload (ResWrite count) =
     finish Rwrite (payload @ to_le_bytes count)"
| "encode_response_body payload ResClunk = finish Rclunk payload"
| "encode_response_body payload (ResError code message) =
     and_then (put_string (error_code_display code)) (\<lambda>c.
     and_then (put_string message) (\<lambda>m.
     finish Rerror (payload @ c @ m)))"

definition encode_response :: "response \<Rightarrow> codec_error fault + bytes" where
  "encode_response r = encode_response_body (to_le_bytes (res_tag r)) (res_body r)"

subsection \<open>Reading\<close>

record cursor =
  cur_buf :: bytes
  cur_pos :: nat

definition cursor_new :: "bytes \<Rightarrow> cursor" where
  "cursor_new b = \<lparr>cur_buf = b, cur_pos = 0\<rparr>"

text \<open>
  \<open>read_exact\<close> of \<open>n\<close> bytes; every caller maps its only failure to \<open>Truncated\<close>.
\<close>

definition read_exact :: "nat \<Rightarrow> cursor \<Rightarrow> codec_error + bytes \<times> cursor" where
  "read_exact n c =
     (let e = sat_add (cur_pos c) n
      in if e > length (cur_buf c) then Err Truncated
         else Ok (slice (cur_pos c) e (cur_buf c), c\<lparr>cur_pos := e\<rparr>))"

definition read_u8 :: "cursor \<Rightarrow> codec_error + byte \<times> cursor" where
  "read_u8 c = and_then (read_exact 1 c) (\<lambda>(b, c). Ok (b ! 0, c))"

definition read_u16 :: "cursor \<Rightarrow> codec_error + u16 \<times> cursor" where
  "read_u16 c = and_then (read_exact 2 c) (\<lambda>(b, c). Ok (from_le_bytes b, c))"

definition read_u32 :: "cursor \<Rightarrow> codec_error + u32 \<times> cursor" where
  "read_u32 c = and_then (read_exact 4 c) (\<lambda>(b, c). Ok (from_le_bytes b, c))"

definition read_u64 :: "cursor \<Rightarrow> codec_error + u64 \<times> cursor" where
  "read_u64 c = and_then (read_exact 8 c) (\<lambda>(b, c). Ok (from_le_bytes b, c))"

definition read_string :: "cursor \<Rightarrow> codec_error + string \<times> cursor" where
  "read_string c =
     and_then (read_u16 c) (\<lambda>(len, c).
     and_then (read_exact (unat len) c) (\<lambda>(b, c).
     and_then (ok_or (from_utf8 b) InvalidUtf8) (\<lambda>s. Ok (s, c))))"

definition read_qid :: "cursor \<Rightarrow> codec_error + qid \<times> cursor" where
  "read_qid c =
     and_then (read_u8 c) (\<lambda>(ty, c).
     and_then (read_u32 c) (\<lambda>(version, c).
     and_then (read_u64 c) (\<lambda>(path, c).
     Ok (\<lparr>qid_ty = QidType ty, qid_version = version, qid_path = path\<rparr>, c))))"

definition read_component :: "cursor \<Rightarrow> codec_error + string \<times> cursor" where
  "read_component c =
     and_then (read_string c) (\<lambda>(n, c).
     and_then (validate_component n) (\<lambda>_. Ok (n, c)))"

definition read_data :: "cursor \<Rightarrow> codec_error + bytes \<times> cursor" where
  "read_data c = and_then (read_u32 c) (\<lambda>(count, c). read_exact (unat count) c)"

definition decode_message :: "bytes \<Rightarrow> codec_error + message_type \<times> bytes" where
  "decode_message bs =
     (if length bs < 5 then Err Truncated
      else let declared = from_le_bytes (take 4 bs) :: u32 in
        if length bs > u32_max then Err (LengthMismatch declared (length bs))
        else if declared \<noteq> word_of_nat (length bs) then Err (LengthMismatch declared (length bs))
        else and_then (message_type_try_from (bs ! 4)) (\<lambda>ty. Ok (ty, drop 5 bs)))"

definition decode_request_body :: "message_type \<Rightarrow> cursor \<Rightarrow> codec_error + request_body" where
  "decode_request_body ty c =
     (case ty of
        Tversion \<Rightarrow>
          and_then (read_u32 c) (\<lambda>(msize, c).
          and_then (read_string c) (\<lambda>(version, c). Ok (ReqVersion msize version)))
      | Tattach \<Rightarrow>
          and_then (read_u32 c) (\<lambda>(fid, c).
          and_then (read_u32 c) (\<lambda>(afid, c).
          and_then (read_string c) (\<lambda>(uname, c).
          and_then (read_string c) (\<lambda>(aname, c).
          and_then (read_u32 c) (\<lambda>(n_uname, c).
          Ok (ReqAttach fid afid uname aname n_uname))))))
      | Twalk \<Rightarrow>
          and_then (read_u32 c) (\<lambda>(fid, c).
          and_then (read_u32 c) (\<lambda>(newfid, c).
          and_then (read_u16 c) (\<lambda>(nwname, c).
          if unat nwname > 8 then Err InvalidPath
          else and_then (read_many read_component (unat nwname) c) (\<lambda>(wnames, c).
          Ok (ReqWalk fid newfid wnames)))))
      | Topen \<Rightarrow>
          and_then (read_u32 c) (\<lambda>(fid, c).
          and_then (read_u8 c) (\<lambda>(raw_mode, c).
          and_then (open_mode_from_bits raw_mode) (\<lambda>mode.
          Ok (ReqOpen fid mode))))
      | Tread \<Rightarrow>
          and_then (read_u32 c) (\<lambda>(fid, c).
          and_then (read_u64 c) (\<lambda>(offset, c).
          and_then (read_u32 c) (\<lambda>(count, c).
          Ok (ReqRead fid offset count))))
      | Twrite \<Rightarrow>
          and_then (read_u32 c) (\<lambda>(fid, c).
          and_then (read_u64 c) (\<lambda>(offset, c).
          and_then (read_data c) (\<lambda>(data, c).
          Ok (ReqWrite fid offset data))))
      | Tclunk \<Rightarrow>
          and_then (read_u32 c) (\<lambda>(fid, c). Ok (ReqClunk fid))
      | other \<Rightarrow> Err (Unsupported (message_type_u8 other)))"

definition decode_request :: "bytes \<Rightarrow> codec_error + request" where
  "decode_request bs =
     and_then (decode_message bs) (\<lambda>(ty, payload).
     and_then (read_u16 (cursor_new payload)) (\<lambda>(tag, c).
     and_then (decode_request_body ty c) (\<lambda>body.
     Ok \<lparr>req_tag = tag, req_body = body\<rparr>)))"

definition error_code_parse :: "string \<Rightarrow> codec_error + error_code" where
  "error_code_parse s =
     (if s = ''Permission'' then Ok EPermission
      else if s = ''NotFound'' then Ok ENotFound
      else if s = ''Busy'' then Ok EBusy
      else if s = ''Invalid'' then Ok EInvalid
      else if s = ''TooBig'' then Ok ETooBig
      else if s = ''Closed'' then Ok EClosed
      else Err InvalidUtf8)"

definition decode_response_body :: "message_type \<Rightarrow> cursor \<Rightarrow> codec_error + response_body" where
  "decode_response_body ty c =
     (case ty of
        Rversion \<Rightarrow>
          and_then (read_u32 c) (\<lambda>(msize, c).
          and_then (read_string c) (\<lambda>(version, c). Ok (ResVersion msize version)))
      | Rattach \<Rightarrow> and_then (read_qid c) (\<lambda>(q, c). Ok (ResAttach q))
      | Rwalk \<Rightarrow>
          and_then (read_u16 c) (\<lambda>(count, c).
          and_then (read_many read_qid (unat count) c) (\<lambda>(qids, c). Ok (ResWalk qids)))
      | Ropen \<Rightarrow>
          and_then (read_qid c) (\<lambda>(q, c).
          and_then (read_u32 c) (\<lambda>(iounit, c). Ok (ResOpen q iounit)))
      | Rread \<Rightarrow> and_then (read_data c) (\<lambda>(data, c). Ok (ResRead data))
      | Rwrite \<Rightarrow> and_then (read_u32 c) (\<lambda>(count, c). Ok (ResWrite count))
      | Rclunk \<Rightarrow> Ok ResClunk
      | Rerror \<Rightarrow>
          and_then (read_string c) (\<lambda>(code_str, c).
          and_then (read_string c) (\<lambda>(message, c).
          and_then (error_code_parse code_str) (\<lambda>code. Ok (ResError code message))))
      | other \<Rightarrow> Err (Unsupported (message_type_u8 other)))"

definition decode_response :: "bytes \<Rightarrow> codec_error + response" where
  "decode_response bs =
     and_then (decode_message bs) (\<lambda>(ty, payload).
     and_then (read_u16 (cursor_new payload)) (\<lambda>(tag, c).
     and_then (decode_response_body ty c) (\<lambda>body.
     Ok \<lparr>res_tag = tag, res_body = body\<rparr>)))"

subsection \<open>The fields of the format\<close>

definition cur_at :: "bytes \<Rightarrow> bytes \<Rightarrow> cursor" where
  "cur_at pre rest = \<lparr>cur_buf = pre @ rest, cur_pos = length pre\<rparr>"

definition cursor_ok :: "cursor \<Rightarrow> bool" where
  "cursor_ok c \<longleftrightarrow> cur_pos c \<le> length (cur_buf c) \<and> fits (cur_buf c)"

definition cur_left :: "cursor \<Rightarrow> bytes" where
  "cur_left c = drop (cur_pos c) (cur_buf c)"

definition string_wire :: "string \<Rightarrow> bytes" where
  "string_wire v = to_le_bytes (word_of_nat (length v) :: u16) @ str_bytes v"

definition data_wire :: "bytes \<Rightarrow> bytes" where
  "data_wire d = to_le_bytes (word_of_nat (length d) :: u32) @ d"

definition string_ok :: "string \<Rightarrow> bool" where
  "string_ok s \<longleftrightarrow> utf8_str s \<and> length s \<le> u16_max"

lemma cursor_new_at: "cursor_new bs = cur_at [] bs"
  by (simp add: cursor_new_def cur_at_def)

interpretation cur: wire_cursor cur_at cursor_ok cur_left
proof
  fix c
  assume "cursor_ok c"
  then show "\<exists>pre. c = cur_at pre (cur_left c) \<and> fits (pre @ cur_left c)"
    by (intro exI [of _ "take (cur_pos c) (cur_buf c)"])
      (simp add: cur_at_def cur_left_def cursor_ok_def min_absorb2)
qed (simp_all add: cursor_ok_def cur_at_def cur_left_def)

lemma read_exact_at:
  assumes "fits (pre @ s)"
  shows "read_exact n (cur_at pre s) =
    (if n \<le> length s then Ok (take n s, cur_at (pre @ take n s) (drop n s)) else Err Truncated)"
proof -
  have f: "length pre + length s < u64_max" using assms by (simp add: fits_def)
  show ?thesis
  proof (cases "n \<le> length s")
    case True
    with f have "sat_add (length pre) n = length pre + n" by simp
    with True show ?thesis
      by (simp add: read_exact_def cur_at_def Let_def slice_def min_absorb2)
  next
    case False
    with f have "sat_add (length pre) n > length pre + length s"
      by (simp add: sat_add_def)
    with False show ?thesis by (simp add: read_exact_def cur_at_def Let_def)
  qed
qed

interpretation exact: wire_field cur_at cursor_ok cur_left "\<lambda>bs. bs" "read_exact n" "\<lambda>bs. length bs = n" for n
proof
  fix pre s x c
  assume a: "read_exact n (cur_at pre s) = Ok (x, c)" "fits (pre @ s)"
  then have "n \<le> length s" "x = take n s" "c = cur_at (pre @ take n s) (drop n s)"
    by (auto simp: read_exact_at split: if_splits)
  then show "length x = n \<and> (\<exists>rest. s = x @ rest \<and> c = cur_at (pre @ x) rest)"
    by (intro conjI exI [of _ "drop n s"]) simp_all
qed (simp add: read_exact_at)

text \<open>Each reader of the codec is a field.\<close>

interpretation f8: wire_field cur_at cursor_ok cur_left "\<lambda>b. [b]" read_u8 "\<lambda>_. True"
  unfolding read_u8_def [abs_def]
  by (rule exact.mapped_field [where enc = "\<lambda>b. [b]"])
    (auto simp: length_Suc_conv)

interpretation f16: wire_field cur_at cursor_ok cur_left "to_le_bytes :: u16 \<Rightarrow> bytes" read_u16 "\<lambda>_. True"
  unfolding read_u16_def [abs_def]
  by (rule exact.mapped_field) (simp_all add: to_from_le_bytes)

interpretation f32: wire_field cur_at cursor_ok cur_left "to_le_bytes :: u32 \<Rightarrow> bytes" read_u32 "\<lambda>_. True"
  unfolding read_u32_def [abs_def]
  by (rule exact.mapped_field) (simp_all add: to_from_le_bytes)

interpretation f64: wire_field cur_at cursor_ok cur_left "to_le_bytes :: u64 \<Rightarrow> bytes" read_u64 "\<lambda>_. True"
  unfolding read_u64_def [abs_def]
  by (rule exact.mapped_field) (simp_all add: to_from_le_bytes)

lemma unat_len16: "n \<le> u16_max \<Longrightarrow> unat (word_of_nat n :: u16) = n"
  by (simp add: u16_max_def unat_of_nat)

lemma unat_len32: "n \<le> u32_max \<Longrightarrow> unat (word_of_nat n :: u32) = n"
  by (simp add: u32_max_def unat_of_nat)

interpretation fstr: wire_field cur_at cursor_ok cur_left string_wire read_string string_ok
proof
  fix x pre rest
  assume ok: "string_ok x" and "fits (pre @ string_wire x @ rest)"
  then have "fits (pre @ to_le_bytes (word_of_nat (length x) :: u16) @ str_bytes x @ rest)"
    by (simp add: string_wire_def)
  moreover from ok have "length (str_bytes x) = unat (word_of_nat (length x) :: u16)"
    by (simp add: string_ok_def unat_len16)
  ultimately show "read_string (cur_at pre (string_wire x @ rest))
      = Ok (x, cur_at (pre @ string_wire x) rest)"
    using ok by (simp add: read_string_def string_wire_def f16.get_put exact.get_put string_ok_def)
next
  fix pre s x c
  assume a: "read_string (cur_at pre s) = Ok (x, c)" and f: "fits (pre @ s)"
  then obtain len c1 b where
    1: "read_u16 (cur_at pre s) = Ok (len, c1)" and
    2: "read_exact (unat len) c1 = Ok (b, c)" and x: "from_utf8 b = Some x"
    by (auto simp: read_string_def outcome_splits)
  from f16.get_inv [OF 1 f] obtain r1 where
    r1: "s = to_le_bytes len @ r1" "c1 = cur_at (pre @ to_le_bytes len) r1" by blast
  with 2 f exact.get_inv [of "unat len" "pre @ to_le_bytes len" r1 b c] obtain r2 where
    r2: "length b = unat len" "r1 = b @ r2" "c = cur_at (pre @ to_le_bytes len @ b) r2"
    by auto
  from x have b: "utf8_str x" "str_bytes x = b" by (simp_all add: from_utf8_Some)
  then have "length x = unat len" using r2(1) by (metis length_str_bytes)
  then have "string_ok x" "string_wire x = to_le_bytes len @ b"
    using b unat_bounds(2) [of len] by (auto simp: string_ok_def string_wire_def u16_max_def)
  with r1 r2 show "string_ok x \<and> (\<exists>rest. s = string_wire x @ rest \<and>
      c = cur_at (pre @ string_wire x) rest)" by simp
qed

interpretation fdata: wire_field cur_at cursor_ok cur_left data_wire read_data "\<lambda>d. length d \<le> u32_max"
proof
  fix x pre rest
  assume "length x \<le> u32_max" "fits (pre @ data_wire x @ rest)"
  moreover from this have "length x = unat (word_of_nat (length x) :: u32)"
    by (simp add: unat_len32)
  ultimately show "read_data (cur_at pre (data_wire x @ rest))
      = Ok (x, cur_at (pre @ data_wire x) rest)"
    by (simp add: read_data_def data_wire_def f32.get_put exact.get_put)
next
  fix pre s x c
  assume a: "read_data (cur_at pre s) = Ok (x, c)" and f: "fits (pre @ s)"
  then obtain len c1 where
    1: "read_u32 (cur_at pre s) = Ok (len, c1)" and
    2: "read_exact (unat len) c1 = Ok (x, c)"
    by (auto simp: read_data_def outcome_splits)
  from f32.get_inv [OF 1 f] obtain r1 where
    r1: "s = to_le_bytes len @ r1" "c1 = cur_at (pre @ to_le_bytes len) r1" by blast
  with 2 f exact.get_inv [of "unat len" "pre @ to_le_bytes len" r1 x c] obtain r2 where
    r2: "length x = unat len" "r1 = x @ r2" "c = cur_at (pre @ to_le_bytes len @ x) r2"
    by auto
  then have "length x \<le> u32_max" "data_wire x = to_le_bytes len @ x"
    using unat_bounds(3) [of len] by (auto simp: data_wire_def u32_max_def)
  with r1 r2 show "length x \<le> u32_max \<and> (\<exists>rest. s = data_wire x @ rest \<and>
      c = cur_at (pre @ data_wire x) rest)" by simp
qed

interpretation fqid: wire_field cur_at cursor_ok cur_left put_qid read_qid "\<lambda>_. True"
proof
  fix q :: qid and pre rest
  assume "fits (pre @ put_qid q @ rest)"
  then show "read_qid (cur_at pre (put_qid q @ rest)) = Ok (q, cur_at (pre @ put_qid q) rest)"
    using f8.get_put [of pre "qid_type_u8 (qid_ty q)"
        "to_le_bytes (qid_version q) @ to_le_bytes (qid_path q) @ rest"]
    by (simp add: read_qid_def put_qid_def f32.get_put f64.get_put)
next
  fix pre s c and q :: qid
  assume a: "read_qid (cur_at pre s) = Ok (q, c)" and f: "fits (pre @ s)"
  then obtain ty c1 v c2 p where
    1: "read_u8 (cur_at pre s) = Ok (ty, c1)" and 2: "read_u32 c1 = Ok (v, c2)" and
    3: "read_u64 c2 = Ok (p, c)" and
    q: "q = \<lparr>qid_ty = QidType ty, qid_version = v, qid_path = p\<rparr>"
    by (auto simp: read_qid_def outcome_splits)
  from f8.get_inv [OF 1 f] obtain r1 where
    r1: "s = [ty] @ r1" "c1 = cur_at (pre @ [ty]) r1" by blast
  with 2 f f32.get_inv [of "pre @ [ty]" r1 v c2] obtain r2 where
    r2: "r1 = to_le_bytes v @ r2" "c2 = cur_at (pre @ [ty] @ to_le_bytes v) r2" by auto
  with 3 f r1 f64.get_inv [of "pre @ [ty] @ to_le_bytes v" r2 p c] obtain r3 where
    r3: "r2 = to_le_bytes p @ r3" "c = cur_at (pre @ [ty] @ to_le_bytes v @ to_le_bytes p) r3"
    by auto
  with q r1 r2 show "True \<and> (\<exists>rest. s = put_qid q @ rest \<and> c = cur_at (pre @ put_qid q) rest)"
    by (simp add: put_qid_def)
qed

definition component_ok :: "string \<Rightarrow> bool" where
  "component_ok n \<longleftrightarrow> n \<noteq> [] \<and> length n \<le> 64 \<and> CHR ''/'' \<notin> set n"

lemma validate_component_Ok: "validate_component n = Ok u \<longleftrightarrow> component_ok n"
  by (auto simp: validate_component_def component_ok_def)

interpretation fname: wire_field cur_at cursor_ok cur_left string_wire read_component
    "\<lambda>n. string_ok n \<and> component_ok n"
proof
  fix x pre rest
  assume "string_ok x \<and> component_ok x" "fits (pre @ string_wire x @ rest)"
  then show "read_component (cur_at pre (string_wire x @ rest))
      = Ok (x, cur_at (pre @ string_wire x) rest)"
    using validate_component_Ok [of x "()"] by (simp add: read_component_def fstr.get_put)
next
  fix pre s x c
  assume a: "read_component (cur_at pre s) = Ok (x, c)" and f: "fits (pre @ s)"
  then have "read_string (cur_at pre s) = Ok (x, c)" "component_ok x"
    by (auto simp: read_component_def outcome_splits validate_component_Ok)
  with fstr.get_inv [OF _ f] show "(string_ok x \<and> component_ok x) \<and>
      (\<exists>rest. s = string_wire x @ rest \<and> c = cur_at (pre @ string_wire x) rest)" by blast
qed

lemmas field_put =
  f8.get_put f16.get_put f32.get_put f64.get_put fstr.get_put fdata.get_put fqid.get_put
  f8.get_put_end f16.get_put_end f32.get_put_end f64.get_put_end fstr.get_put_end
  fdata.get_put_end fqid.get_put_end

lemmas field_left =
  f8.get_left f16.get_left f32.get_left f64.get_left fstr.get_left fdata.get_left fqid.get_left

end
