(* ===== verification/Secure9P_Roundtrip.thy ===== *)
theory Secure9P_Roundtrip
  imports Secure9P_Codec
begin

section \<open>Correctness of the Secure9P codec\<close>

text \<open>
  The encoder and the decoder of \<open>Secure9P_Codec\<close> are inverse to each other on what Rust
  can represent (strings are UTF-8), a decoded message can always be encoded again, and
  every truncation of a frame is refused.
\<close>

subsection \<open>The Rust types as predicates\<close>

fun request_utf8 :: "request_body \<Rightarrow> bool" where
  "request_utf8 (ReqVersion _ version) = utf8_str version"
| "request_utf8 (ReqAttach _ _ uname aname _) = (utf8_str uname \<and> utf8_str aname)"
| "request_utf8 (ReqWalk _ _ wnames) = (\<forall>n \<in> set wnames. utf8_str n)"
| "request_utf8 _ = True"

fun response_utf8 :: "response_body \<Rightarrow> bool" where
  "response_utf8 (ResVersion _ version) = utf8_str version"
| "response_utf8 (ResError _ message) = utf8_str message"
| "response_utf8 _ = True"

definition frame :: "message_type \<Rightarrow> bytes \<Rightarrow> bytes" where
  "frame ty p = to_le_bytes (word_of_nat (length p + 5) :: u32) @ message_type_u8 ty # p"

subsection \<open>Framing\<close>

lemma length_frame [simp]: "length (frame ty p) = length p + 5"
  by (simp add: frame_def)

lemma message_type_try_from_u8 [simp]: "message_type_try_from (message_type_u8 ty) = Ok ty"
  by (cases ty) (simp_all add: message_type_try_from_def)

lemma message_type_try_from_Ok: "message_type_try_from v = Ok ty \<Longrightarrow> v = message_type_u8 ty"
  by (auto simp: message_type_try_from_def split: if_splits)

lemma finish_Ok: "finish ty p = Ok bs \<longleftrightarrow> length p + 5 \<le> usize_max \<and> bs = frame ty p"
  by (auto simp: finish_def frame_def)

lemma put_string_Ok: "put_string v = Ok b \<longleftrightarrow> length v \<le> u16_max \<and> b = string_wire v"
  by (auto simp: put_string_def string_wire_def)

lemma put_data_Ok: "put_data d = Ok b \<longleftrightarrow> length d \<le> u32_max \<and> b = data_wire d"
  by (auto simp: put_data_def data_wire_def)

lemma put_names_Ok:
  "put_names ns = Ok b \<longleftrightarrow> (\<forall>n \<in> set ns. component_ok n) \<and> b = concat (map string_wire ns)"
proof (induction ns arbitrary: b)
  case (Cons n ns)
  have "component_ok n \<Longrightarrow> length n \<le> u16_max" by (simp add: component_ok_def u16_max_def)
  then show ?case
    by (auto simp: outcome_splits validate_component_Ok put_string_Ok Cons)
qed auto

lemma decode_message_frame:
  assumes "length p + 5 \<le> u32_max"
  shows "decode_message (frame ty p) = Ok (ty, p)"
proof -
  have "take 4 (frame ty p) = to_le_bytes (word_of_nat (length p + 5) :: u32)"
    "frame ty p ! 4 = message_type_u8 ty" "drop 5 (frame ty p) = p"
    by (simp_all add: frame_def nth_append)
  with assms show ?thesis by (simp add: decode_message_def Let_def)
qed

lemma decode_message_Ok:
  assumes "decode_message bs = Ok (ty, p)"
  shows "bs = frame ty p \<and> length bs \<le> u32_max"
proof -
  from assms have
    len: "5 \<le> length bs" "length bs \<le> u32_max" and
    decl: "from_le_bytes (take 4 bs) = (word_of_nat (length bs) :: u32)" and
    ty: "message_type_try_from (bs ! 4) = Ok ty" and p: "p = drop 5 bs"
    by (auto simp: decode_message_def Let_def outcome_splits split: if_splits)
  have "take 4 bs = to_le_bytes (word_of_nat (length bs) :: u32)"
    using to_from_le_bytes(2) [of "take 4 bs"] len(1) decl by simp
  moreover have "bs = take 4 bs @ bs ! 4 # drop 5 bs"
  proof -
    have "drop 5 bs = drop (Suc 4) bs" by simp
    with len(1) id_take_nth_drop [of 4 bs] show ?thesis by (simp only:)
  qed
  ultimately show ?thesis
    using len p message_type_try_from_Ok [OF ty] by (simp add: frame_def)
qed

lemma decode_request_frame:
  assumes "length p + 7 \<le> u32_max"
  shows "decode_request (frame ty (to_le_bytes (tag :: u16) @ p)) =
    and_then (decode_request_body ty (cur_at (to_le_bytes tag) p))
      (\<lambda>body. Ok \<lparr>req_tag = tag, req_body = body\<rparr>)"
proof -
  have "read_u16 (cur_at [] (to_le_bytes tag @ p)) = Ok (tag, cur_at ([] @ to_le_bytes tag) p)"
    using assms by (intro f16.get_put) (simp_all add: fits_def u32_max_def u64_max_def)
  with assms show ?thesis by (simp add: decode_request_def decode_message_frame cursor_new_at)
qed

lemma decode_response_frame:
  assumes "length p + 7 \<le> u32_max"
  shows "decode_response (frame ty (to_le_bytes (tag :: u16) @ p)) =
    and_then (decode_response_body ty (cur_at (to_le_bytes tag) p))
      (\<lambda>body. Ok \<lparr>res_tag = tag, res_body = body\<rparr>)"
proof -
  have "read_u16 (cur_at [] (to_le_bytes tag @ p)) = Ok (tag, cur_at ([] @ to_le_bytes tag) p)"
    using assms by (intro f16.get_put) (simp_all add: fits_def u32_max_def u64_max_def)
  with assms show ?thesis by (simp add: decode_response_def decode_message_frame cursor_new_at)
qed

subsection \<open>Bodies\<close>

text \<open>
  What the encoder writes after the tag: the message type and the fields, when the body
  can be encoded at all.
\<close>

fun request_wire :: "request_body \<Rightarrow> (message_type \<times> bytes) option" where
  "request_wire (ReqVersion msize version) =
     (if length version \<le> u16_max then Some (Tversion, to_le_bytes msize @ string_wire version)
      else None)"
| "request_wire (ReqAttach fid afid uname aname n_uname) =
     (if length uname \<le> u16_max \<and> length aname \<le> u16_max
      then Some (Tattach, to_le_bytes fid @ to_le_bytes afid @ string_wire uname
             @ string_wire aname @ to_le_bytes n_uname)
      else None)"
| "request_wire (ReqWalk fid newfid wnames) =
     (if length wnames \<le> 8 \<and> (\<forall>n \<in> set wnames. component_ok n)
      then Some (Twalk, to_le_bytes fid @ to_le_bytes newfid
             @ to_le_bytes (word_of_nat (length wnames) :: u16) @ concat (map string_wire wnames))
      else None)"
| "request_wire (ReqOpen fid mode) = Some (Topen, to_le_bytes fid @ [open_mode_raw mode])"
| "request_wire (ReqRead fid offset count) =
     Some (Tread, to_le_bytes fid @ to_le_bytes offset @ to_le_bytes count)"
| "request_wire (ReqWrite fid offset data) =
     (if length data \<le> u32_max
      then Some (Twrite, to_le_bytes fid @ to_le_bytes offset @ data_wire data) else None)"
| "request_wire (ReqClunk fid) = Some (Tclunk, to_le_bytes fid)"

lemma encode_request_Ok:
  "encode_request r = Ok bs \<longleftrightarrow>
     (\<exists>ty p. request_wire (req_body r) = Some (ty, p) \<and> length p + 7 \<le> usize_max \<and>
        bs = frame ty (to_le_bytes (req_tag r) @ p))"
  by (cases "req_body r")
    (auto simp: encode_request_def outcome_splits finish_Ok put_string_Ok put_data_Ok
      put_names_Ok u16_max_def not_less)

lemma decode_request_wire:
  assumes "request_wire body = Some (ty, p)" and "request_utf8 body" and "fits (pre @ p)"
  shows "decode_request_body ty (cur_at pre p) = Ok body"
proof (cases body)
  case (ReqWalk fid newfid wnames)
  with assms have "\<forall>n \<in> set wnames. string_ok n \<and> component_ok n"
    and "length wnames \<le> 8" and ty: "ty = Twalk"
    and p: "p = to_le_bytes fid @ to_le_bytes newfid
      @ to_le_bytes (word_of_nat (length wnames) :: u16) @ concat (map string_wire wnames)"
    by (auto simp: string_ok_def component_ok_def u16_max_def split: if_splits)
  moreover from this have "unat (word_of_nat (length wnames) :: u16) = length wnames"
    by (intro unat_len16) (simp add: u16_max_def)
  ultimately show ?thesis
    using assms(3) ReqWalk
    by (simp add: decode_request_body_def field_put fname.get_many_end)
qed (use assms in \<open>auto simp: decode_request_body_def field_put string_ok_def split: if_splits\<close>)

lemma decode_request_body_inv:
  assumes "decode_request_body ty c = Ok body" and "cursor_ok c"
  shows "request_utf8 body \<and>
    (\<exists>p. request_wire body = Some (ty, p) \<and> length p \<le> length (cur_left c))"
proof (cases ty)
  case Twalk
  with assms show ?thesis
    by (auto simp: decode_request_body_def outcome_splits string_ok_def split: if_splits
        dest!: field_left fname.get_many_left)
qed (use assms in \<open>auto simp: decode_request_body_def outcome_splits string_ok_def
    dest!: field_left\<close>)

fun response_wire :: "response_body \<Rightarrow> (message_type \<times> bytes) option" where
  "response_wire (ResVersion msize version) =
     (if length version \<le> u16_max then Some (Rversion, to_le_bytes msize @ string_wire version)
      else None)"
| "response_wire (ResAttach q) = Some (Rattach, put_qid q)"
| "response_wire (ResWalk qids) =
     (if length qids \<le> u16_max
      then Some (Rwalk, to_le_bytes (word_of_nat (length qids) :: u16) @ concat (map put_qid qids))
      else None)"
| "response_wire (ResOpen q iounit) = Some (Ropen, put_qid q @ to_le_bytes iounit)"
| "response_wire (ResRead data) =
     (if length data \<le> u32_max then Some (Rread, data_wire data) else None)"
| "response_wire (ResWrite count) = Some (Rwrite, to_le_bytes count)"
| "response_wire ResClunk = Some (Rclunk, [])"
| "response_wire (ResError code message) =
     (if length message \<le> u16_max
      then Some (Rerror, string_wire (error_code_display code) @ string_wire message) else None)"

lemma error_code_string_ok: "string_ok (error_code_display code)"
  using error_code_display_length [of code]
  by (simp add: string_ok_def error_code_display_utf8 u16_max_def)

lemma error_code_parse_display [simp]: "error_code_parse (error_code_display code) = Ok code"
  by (cases code) (simp_all add: error_code_parse_def)

lemma error_code_parse_Ok: "error_code_parse s = Ok code \<Longrightarrow> s = error_code_display code"
  by (auto simp: error_code_parse_def split: if_splits)

lemma encode_response_Ok:
  "encode_response r = Ok bs \<longleftrightarrow>
     (\<exists>ty p. response_wire (res_body r) = Some (ty, p) \<and> length p + 7 \<le> usize_max \<and>
        bs = frame ty (to_le_bytes (res_tag r) @ p))"
  using error_code_string_ok
  by (cases "res_body r")
    (auto simp: encode_response_def outcome_splits finish_Ok put_string_Ok put_data_Ok
      string_ok_def not_less)

lemma decode_response_wire:
  assumes "response_wire body = Some (ty, p)" and "response_utf8 body" and "fits (pre @ p)"
  shows "decode_response_body ty (cur_at pre p) = Ok body"
proof (cases body)
  case (ResWalk qids)
  with assms show ?thesis
    by (auto simp: decode_response_body_def field_put fqid.get_many_end unat_len16
        split: if_splits)
qed (use assms error_code_string_ok in \<open>auto simp: decode_response_body_def field_put
    string_ok_def split: if_splits\<close>)

lemma decode_response_body_inv:
  assumes "decode_response_body ty c = Ok body" and "cursor_ok c"
  shows "response_utf8 body \<and>
    (\<exists>p. response_wire body = Some (ty, p) \<and> length p \<le> length (cur_left c))"
proof (cases ty)
  case Rwalk
  with assms show ?thesis
    by (auto simp: decode_response_body_def outcome_splits unat_u16_le
        dest!: field_left fqid.get_many_left)
qed (use assms in \<open>auto simp: decode_response_body_def outcome_splits string_ok_def
    dest!: field_left error_code_parse_Ok\<close>)

lemma decode_request_inv:
  assumes "decode_request bs = Ok r"
  shows "request_utf8 (req_body r) \<and> length bs \<le> u32_max \<and>
    (\<exists>bs'. encode_request r = Ok bs' \<and> length bs' \<le> length bs)"
proof -
  from assms obtain ty payload c where
    m: "decode_message bs = Ok (ty, payload)" and
    t: "read_u16 (cursor_new payload) = Ok (req_tag r, c)" and
    b: "decode_request_body ty c = Ok (req_body r)"
    by (auto simp: decode_request_def outcome_splits)
  from decode_message_Ok [OF m] have bs: "bs = frame ty payload" "length bs \<le> u32_max" by auto
  then have "cursor_ok (cursor_new payload)"
    by (simp add: cursor_new_def cursor_ok_def fits_def u32_max_def u64_max_def)
  with f16.get_left [OF t] have c: "cursor_ok c"
    "length payload = 2 + length (cur_left c)"
    by (auto simp: cursor_new_def cur_left_def)
  from decode_request_body_inv [OF b c(1)] obtain p where
    p: "request_utf8 (req_body r)" "request_wire (req_body r) = Some (ty, p)"
      "length p \<le> length (cur_left c)" by blast
  have "length p + 7 \<le> usize_max" using bs c(2) p(3) by (simp add: u32_max_def u64_max_def)
  with p bs c(2) show ?thesis by (auto simp: encode_request_Ok)
qed

lemma decode_response_inv:
  assumes "decode_response bs = Ok r"
  shows "response_utf8 (res_body r) \<and> length bs \<le> u32_max \<and>
    (\<exists>bs'. encode_response r = Ok bs' \<and> length bs' \<le> length bs)"
proof -
  from assms obtain ty payload c where
    m: "decode_message bs = Ok (ty, payload)" and
    t: "read_u16 (cursor_new payload) = Ok (res_tag r, c)" and
    b: "decode_response_body ty c = Ok (res_body r)"
    by (auto simp: decode_response_def outcome_splits)
  from decode_message_Ok [OF m] have bs: "bs = frame ty payload" "length bs \<le> u32_max" by auto
  then have "cursor_ok (cursor_new payload)"
    by (simp add: cursor_new_def cursor_ok_def fits_def u32_max_def u64_max_def)
  with f16.get_left [OF t] have c: "cursor_ok c"
    "length payload = 2 + length (cur_left c)"
    by (auto simp: cursor_new_def cur_left_def)
  from decode_response_body_inv [OF b c(1)] obtain p where
    p: "response_utf8 (res_body r)" "response_wire (res_body r) = Some (ty, p)"
      "length p \<le> length (cur_left c)" by blast
  have "length p + 7 \<le> usize_max" using bs c(2) p(3) by (simp add: u32_max_def u64_max_def)
  with p bs c(2) show ?thesis by (auto simp: encode_response_Ok)
qed

lemma request_roundtrip:
  assumes "encode_request r = Ok bs" and "request_utf8 (req_body r)" and "length bs \<le> u32_max"
  shows "decode_request bs = Ok r"
proof -
  from assms(1) obtain ty p where
    w: "request_wire (req_body r) = Some (ty, p)" and
    bs: "bs = frame ty (to_le_bytes (req_tag r) @ p)"
    by (auto simp: encode_request_Ok)
  from bs assms(3) have len: "length p + 7 \<le> u32_max" by simp
  then have "fits (to_le_bytes (req_tag r) @ p)"
    by (simp add: fits_def u32_max_def u64_max_def)
  from decode_request_wire [OF w assms(2) this] bs len show ?thesis
    by (simp add: decode_request_frame)
qed

lemma response_roundtrip:
  assumes "encode_response r = Ok bs" and "response_utf8 (res_body r)" and "length bs \<le> u32_max"
  shows "decode_response bs = Ok r"
proof -
  from assms(1) obtain ty p where
    w: "response_wire (res_body r) = Some (ty, p)" and
    bs: "bs = frame ty (to_le_bytes (res_tag r) @ p)"
    by (auto simp: encode_response_Ok)
  from bs assms(3) have len: "length p + 7 \<le> u32_max" by simp
  then have "fits (to_le_bytes (res_tag r) @ p)"
    by (simp add: fits_def u32_max_def u64_max_def)
  from decode_response_wire [OF w assms(2) this] bs len show ?thesis
    by (simp add: decode_response_frame)
qed

lemma encode_request_length: "encode_request r = Ok bs \<Longrightarrow> 7 \<le> length bs"
  by (auto simp: encode_request_Ok)

lemma decode_message_prefix:
  assumes "k < length (frame ty p)" and "length (frame ty p) \<le> u32_max"
  shows "decode_message (take k (frame ty p)) =
    Err (if k < 5 then Truncated else LengthMismatch (word_of_nat (length (frame ty p))) k)"
proof (cases "k < 5")
  case True
  with assms show ?thesis by (simp add: decode_message_def)
next
  case False
  let ?bs = "take k (frame ty p)"
  have "take 4 ?bs = to_le_bytes (word_of_nat (length (frame ty p)) :: u32)"
    using False by (simp add: frame_def add.commute)
  moreover have "(word_of_nat (length (frame ty p)) :: u32) \<noteq> word_of_nat k"
  proof
    assume "(word_of_nat (length (frame ty p)) :: u32) = word_of_nat k"
    then have "unat (word_of_nat (length (frame ty p)) :: u32) = unat (word_of_nat k :: u32)"
      by simp
    with assms show False by (simp del: length_frame add: unat_len32)
  qed
  ultimately show ?thesis using False assms by (simp add: decode_message_def Let_def)
qed

subsection \<open>Properties\<close>

text \<open>
  C1: Decoding inverts encoding for requests. Whatever request the encoder accepts (the
  Rust strings in it are UTF-8, the frame is within the 32-bit length field), the
  decoder returns exactly that request from the encoded frame.
\<close>

theorem decode_encode_request:
  assumes "encode_request r = Ok bs" and "request_utf8 (req_body r)" and "length bs \<le> u32_max"
  shows "decode_request bs = Ok r"
  using assms by (rule request_roundtrip)

definition walk_example :: request where
  "walk_example = \<lparr>req_tag = 1, req_body = ReqWalk 1 2 [''proc'', ''boot'']\<rparr>"

definition walk_frame :: bytes where
  "walk_frame = [29, 0, 0, 0, 110, 1, 0, 1, 0, 0, 0, 2, 0, 0, 0, 2, 0,
     4, 0, 112, 114, 111, 99, 4, 0, 98, 111, 111, 116]"

lemma walk_example_encodes: "encode_request walk_example = Ok walk_frame"
  by (simp add: walk_example_def walk_frame_def encode_request_def finish_def put_string_def
      validate_component_def u16_max_def u64_max_def le_eval)

lemma walk_example_utf8: "request_utf8 (req_body walk_example)"
  by (simp add: walk_example_def utf8_str_def le_eval)

lemma walk_frame_length: "length walk_frame = 29"
  by (simp add: walk_frame_def)

theorem decode_encode_request_witness: "decode_request walk_frame = Ok walk_example"
  by (rule decode_encode_request [OF walk_example_encodes walk_example_utf8])
    (simp add: walk_frame_length u32_max_def)

text \<open>
  C18: Decoding inverts encoding for responses: every response the encoder accepts comes
  back from its frame unchanged, error responses with their code and message included.
\<close>

theorem decode_encode_response:
  assumes "encode_response r = Ok bs" and "response_utf8 (res_body r)" and "length bs \<le> u32_max"
  shows "decode_response bs = Ok r"
  using assms by (rule response_roundtrip)

theorem decode_encode_response_witness:
  "decode_response [21, 0, 0, 0, 107, 5, 0, 4, 0, 66, 117, 115, 121, 6, 0, 104, 101, 108, 100, 32, 49]
     = Ok \<lparr>res_tag = 5, res_body = ResError EBusy ''held 1''\<rparr>"
proof (rule decode_encode_response)
  show "encode_response \<lparr>res_tag = 5, res_body = ResError EBusy ''held 1''\<rparr> =
      Ok [21, 0, 0, 0, 107, 5, 0, 4, 0, 66, 117, 115, 121, 6, 0, 104, 101, 108, 100, 32, 49]"
    by (simp add: encode_response_def finish_def put_string_def u16_max_def u64_max_def le_eval)
qed (simp_all add: utf8_str_def le_eval u32_max_def)

text \<open>
  A decoded request is well formed and has a normal form: its strings are UTF-8, it
  can be encoded again without an error or a panic, the new frame is no longer than the
  frame it came from (trailing bytes are dropped), and it decodes to the same request.
\<close>

theorem decoded_request_reencodes:
  assumes "decode_request bs = Ok r"
  shows "request_utf8 (req_body r) \<and>
    (\<exists>bs'. encode_request r = Ok bs' \<and> length bs' \<le> length bs \<and> decode_request bs' = Ok r)"
proof -
  from decode_request_inv [OF assms] obtain bs' where
    b: "request_utf8 (req_body r)" "length bs \<le> u32_max" "encode_request r = Ok bs'"
      "length bs' \<le> length bs" by blast
  with request_roundtrip [OF b(3) b(1)] show ?thesis by auto
qed

theorem decoded_request_reencodes_witness:
  "decode_request walk_frame = Ok walk_example \<and> request_utf8 (req_body walk_example)"
proof -
  have d: "decode_request walk_frame = Ok walk_example"
    by (rule request_roundtrip [OF walk_example_encodes walk_example_utf8])
      (simp add: walk_frame_length u32_max_def)
  with decoded_request_reencodes [OF d] show ?thesis by blast
qed

text \<open>
  No truncated frame is accepted. Cutting an encoded request anywhere short of its
  end makes the decoder fail, with the error that tells a missing header (fewer than
  five bytes) from a frame shorter than the length it declares.
\<close>

theorem truncated_request_refused:
  assumes "encode_request r = Ok bs" and "length bs \<le> u32_max" and "k < length bs"
  shows "decode_request (take k bs) =
    Err (if k < 5 then Truncated else LengthMismatch (word_of_nat (length bs)) k)"
proof -
  from assms(1) obtain ty p where bs: "bs = frame ty p" by (auto simp: encode_request_Ok)
  with decode_message_prefix [of k ty p] assms show ?thesis
    by (simp add: decode_request_def del: length_frame)
qed

theorem truncated_request_refused_witness:
  "decode_request (take 28 walk_frame) = Err (LengthMismatch 29 28)"
  using truncated_request_refused [OF walk_example_encodes, of 28]
  by (simp add: walk_frame_length u32_max_def)

end
