(* ===== verification/Secure9P_Batch.thy ===== *)
theory Secure9P_Batch
  imports Secure9P_Roundtrip
begin

section \<open>Batched frames\<close>

text \<open>
  The iterator of \<open>crates/secure9p-codec/src/batch.rs\<close> that splits a buffer into
  length-prefixed frames. \<open>batch_next\<close> is \<open>Iterator::next\<close>: \<open>None\<close> at the end, an error
  without moving the offset, or a frame with the offset behind it. \<open>batch_collect\<close> is the
  loop \<open>for frame in BatchIter\<close> of the clients, which stops at the first error.
\<close>

record batch_iter =
  bi_buffer :: bytes
  bi_offset :: nat
  bi_max_frame :: "u32 option"

definition batch_new :: "bytes \<Rightarrow> batch_iter" where
  "batch_new buffer = \<lparr>bi_buffer = buffer, bi_offset = 0, bi_max_frame = None\<rparr>"

definition batch_with_max_frame :: "bytes \<Rightarrow> u32 \<Rightarrow> batch_iter" where
  "batch_with_max_frame buffer max_frame =
     \<lparr>bi_buffer = buffer, bi_offset = 0, bi_max_frame = Some max_frame\<rparr>"

text \<open>
  \<open>BatchFrame::declared_len\<close> panics on a frame shorter than its length field.
\<close>

definition declared_len :: "bytes \<Rightarrow> u32 option" where
  "declared_len frame_bytes =
     (if length frame_bytes < 4 then None else Some (from_le_bytes (take 4 frame_bytes)))"

text \<open>
  The part of \<open>next\<close> behind the maximum check. On a 64-bit target the conversion of the
  declared length to \<open>usize\<close> cannot fail.
\<close>

definition batch_take :: "batch_iter \<Rightarrow> u32 \<Rightarrow> (codec_error + bytes) option \<times> batch_iter" where
  "batch_take it declared =
     (let buffer = bi_buffer it; e = bi_offset it + unat declared in
      if declared < 5 then (Some (Err (LengthMismatch declared (length buffer))), it)
      else if e > length buffer then (Some (Err Truncated), it)
      else (Some (Ok (slice (bi_offset it) e buffer)), it\<lparr>bi_offset := e\<rparr>))"

definition batch_next :: "batch_iter \<Rightarrow> (codec_error + bytes) option \<times> batch_iter" where
  "batch_next it =
     (let buffer = bi_buffer it; offset = bi_offset it in
      if offset \<ge> length buffer then (None, it)
      else if length buffer - offset < 4 then (Some (Err Truncated), it)
      else
        let declared = from_le_bytes (slice offset (offset + 4) buffer) :: u32 in
        (case bi_max_frame it of
           Some m \<Rightarrow>
             if declared > m then (Some (Err (FrameTooLarge declared m)), it)
             else batch_take it declared
         | None \<Rightarrow> batch_take it declared))"

lemma batch_take_Ok:
  assumes "batch_take it d = (Some (Ok f), it')" and "bi_offset it + 4 \<le> length (bi_buffer it)"
    and "d = from_le_bytes (slice (bi_offset it) (bi_offset it + 4) (bi_buffer it))"
  shows "5 \<le> length f \<and> bi_offset it + length f \<le> length (bi_buffer it) \<and>
    it' = it\<lparr>bi_offset := bi_offset it + length f\<rparr> \<and>
    f = slice (bi_offset it) (bi_offset it + length f) (bi_buffer it) \<and>
    from_le_bytes (take 4 f) = (word_of_nat (length f) :: u32)"
proof -
  have d5: "\<not> d < 5" and e: "bi_offset it + unat d \<le> length (bi_buffer it)"
    and f: "f = slice (bi_offset it) (bi_offset it + unat d) (bi_buffer it)"
    and it': "it' = it\<lparr>bi_offset := bi_offset it + unat d\<rparr>"
    using assms(1) by (auto simp: batch_take_def Let_def split: if_splits)
  from d5 have u: "5 \<le> unat d" by (simp add: word_less_nat_alt)
  have len: "length f = unat d" using f e by simp
  have "take 4 f = slice (bi_offset it) (bi_offset it + 4) (bi_buffer it)"
    using f u by (simp add: slice_def min_def)
  with assms(3) len u e f it' show ?thesis by simp
qed

lemma batch_next_Ok:
  assumes "batch_next it = (Some (Ok f), it')"
  shows "5 \<le> length f \<and> bi_offset it + length f \<le> length (bi_buffer it) \<and>
    it' = it\<lparr>bi_offset := bi_offset it + length f\<rparr> \<and>
    f = slice (bi_offset it) (bi_offset it + length f) (bi_buffer it) \<and>
    from_le_bytes (take 4 f) = (word_of_nat (length f) :: u32)"
  using assms
  by (intro batch_take_Ok) (auto simp: batch_next_def Let_def split: if_splits option.splits)

function batch_collect :: "batch_iter \<Rightarrow> codec_error + bytes list" where
  "batch_collect it =
     (case batch_next it of
        (None, _) \<Rightarrow> Ok []
      | (Some (Inl e), _) \<Rightarrow> Err e
      | (Some (Inr f), it') \<Rightarrow> and_then (batch_collect it') (\<lambda>fs. Ok (f # fs)))"
  by pat_completeness auto
termination
proof (relation "measure (\<lambda>it. length (bi_buffer it) - bi_offset it)")
  fix it opt it' r f
  assume "(opt, it') = batch_next it" "opt = Some r" "r = Inr f"
  then have n: "batch_next it = (Some (Ok f), it')" by simp
  from batch_next_Ok [OF n] show "(it', it) \<in> measure (\<lambda>it. length (bi_buffer it) - bi_offset it)"
    by auto
qed simp

declare batch_collect.simps [simp del]

subsection \<open>What a batch is\<close>

definition frame_ok :: "u32 option \<Rightarrow> bytes \<Rightarrow> bool" where
  "frame_ok limit f \<longleftrightarrow> 5 \<le> length f \<and> length f \<le> u32_max \<and>
     from_le_bytes (take 4 f) = (word_of_nat (length f) :: u32) \<and>
     (case limit of None \<Rightarrow> True | Some m \<Rightarrow> length f \<le> unat m)"

definition batch_rest :: "batch_iter \<Rightarrow> bytes" where
  "batch_rest it = drop (bi_offset it) (bi_buffer it)"

lemma encode_request_frame_ok:
  assumes "encode_request r = Ok bs" and "length bs \<le> u32_max"
  shows "frame_ok None bs"
proof -
  from assms(1) obtain ty p where bs: "bs = frame ty p" by (auto simp: encode_request_Ok)
  then have "take 4 bs = to_le_bytes (word_of_nat (length bs) :: u32)"
    by (simp add: frame_def add.commute)
  with bs assms(2) show ?thesis by (simp add: frame_ok_def)
qed

text \<open>One step: a frame is returned exactly when one stands at the offset.\<close>

lemma batch_next_frame:
  assumes "batch_rest it = f @ rest" and "frame_ok (bi_max_frame it) f"
  shows "batch_next it = (Some (Ok f), it\<lparr>bi_offset := bi_offset it + length f\<rparr>)"
proof -
  let ?d = "word_of_nat (length f) :: u32"
  from assms(2) have f: "5 \<le> length f" "unat ?d = length f"
      "from_le_bytes (take 4 f) = ?d"
    by (simp_all add: frame_ok_def unat_len32)
  have len: "length (bi_buffer it) - bi_offset it = length f + length rest"
    using arg_cong [OF assms(1), of length] by (simp add: batch_rest_def)
  with f(1) have off: "bi_offset it + length f \<le> length (bi_buffer it)" by simp
  have sl: "slice (bi_offset it) (bi_offset it + k) (bi_buffer it) = take k (f @ rest)" for k
    using assms(1) by (simp add: slice_def batch_rest_def)
  have nl: "\<not> ?d < 5" using f by (simp add: word_less_nat_alt)
  have lim: "\<not> m < ?d" if "bi_max_frame it = Some m" for m
    using assms(2) that f(2) by (simp add: frame_ok_def word_less_nat_alt)
  show ?thesis
    using f off len sl nl lim
    by (auto simp: batch_next_def batch_take_def Let_def split: option.splits)
qed

lemma batch_next_frame_ok:
  assumes "batch_next it = (Some (Ok f), it')"
  shows "frame_ok (bi_max_frame it) f \<and> batch_rest it = f @ batch_rest it' \<and>
    bi_max_frame it' = bi_max_frame it"
proof -
  from batch_next_Ok [OF assms] have n: "5 \<le> length f"
      "bi_offset it + length f \<le> length (bi_buffer it)"
      "it' = it\<lparr>bi_offset := bi_offset it + length f\<rparr>"
      "f = slice (bi_offset it) (bi_offset it + length f) (bi_buffer it)"
      "from_le_bytes (take 4 f) = (word_of_nat (length f) :: u32)" by auto
  have b: "\<exists>d :: u32. length f = unat d \<and> (\<forall>m. bi_max_frame it = Some m \<longrightarrow> d \<le> m)"
    using assms n(2)
    by (auto simp: batch_next_def batch_take_def Let_def not_less split: if_splits option.splits)
  then have "length f \<le> u32_max" "\<forall>m. bi_max_frame it = Some m \<longrightarrow> length f \<le> unat m"
    by (auto simp: word_le_nat_alt unat_u32_le)
  moreover have "batch_rest it = f @ batch_rest it'"
    using n(3,4) by (simp add: batch_rest_def slice_def) (metis append_take_drop_id drop_drop
        add.commute)
  ultimately show ?thesis
    using n by (auto simp: frame_ok_def split: option.splits)
qed

lemma batch_next_None: "batch_next it = (None, it') \<longleftrightarrow> batch_rest it = [] \<and> it' = it"
  by (auto simp: batch_next_def batch_take_def batch_rest_def Let_def split: option.splits)

lemma batch_next_Err: "batch_next it = (Some (Err e), it') \<Longrightarrow> it' = it"
  by (auto simp: batch_next_def batch_take_def Let_def split: option.splits if_splits)

lemma batch_collect_iff:
  "batch_collect it = Ok fs \<longleftrightarrow>
     concat fs = batch_rest it \<and> (\<forall>f \<in> set fs. frame_ok (bi_max_frame it) f)"
proof (induction it arbitrary: fs rule: batch_collect.induct)
  case (1 it)
  consider (fin) it' where "batch_next it = (None, it')"
    | (err) e it' where "batch_next it = (Some (Err e), it')"
    | (ok) f it' where "batch_next it = (Some (Ok f), it')"
    by (metis old.prod.exhaust option.exhaust sum.exhaust)
  then show ?case
  proof cases
    case fin
    then have "batch_rest it = []" by (simp add: batch_next_None)
    moreover have "fs = []" if "concat fs = []" "\<forall>f \<in> set fs. frame_ok (bi_max_frame it) f"
      using that by (cases fs) (auto simp: frame_ok_def)
    ultimately show ?thesis using fin by (auto simp: batch_collect.simps [of it])
  next
    case err
    have False if c: "concat fs = batch_rest it" "\<forall>f \<in> set fs. frame_ok (bi_max_frame it) f"
    proof (cases fs)
      case Nil
      with c have "batch_next it = (None, it)" by (simp add: batch_next_None)
      with err show False by simp
    next
      case (Cons g gs)
      with c err show False using batch_next_frame [of it g "concat gs"] by auto
    qed
    with err show ?thesis by (auto simp: batch_collect.simps [of it])
  next
    case ok
    note n = batch_next_frame_ok [OF ok]
    have IH: "batch_collect it' = Ok gs \<longleftrightarrow> concat gs = batch_rest it' \<and>
        (\<forall>f \<in> set gs. frame_ok (bi_max_frame it) f)" for gs
      using 1 [OF ok [symmetric]] n by simp
    have "\<exists>gs. fs = f # gs" if c: "concat fs = batch_rest it"
        "\<forall>f \<in> set fs. frame_ok (bi_max_frame it) f"
    proof (cases fs)
      case Nil
      with c n show ?thesis by (auto simp: frame_ok_def)
    next
      case (Cons g gs)
      with c ok show ?thesis using batch_next_frame [of it g "concat gs"] by auto
    qed
    with n IH show ?thesis
      by (auto simp: batch_collect.simps [of it] ok outcome_splits)
  qed
qed

subsection \<open>Properties\<close>

text \<open>
  C12: The batch iterator splits a buffer in exactly one way. Collecting the frames
  succeeds with \<open>fs\<close> if and only if the frames are the buffer, in order and with nothing
  left over, and each carries its own length in its header and obeys the frame limit.
\<close>

theorem batch_collect_exact:
  "batch_collect \<lparr>bi_buffer = buf, bi_offset = 0, bi_max_frame = limit\<rparr> = Ok fs \<longleftrightarrow>
     concat fs = buf \<and> (\<forall>f \<in> set fs. frame_ok limit f)"
  by (simp add: batch_collect_iff batch_rest_def)

theorem batch_collect_exact_witness:
  "batch_collect (batch_new (walk_frame @ walk_frame)) = Ok [walk_frame, walk_frame]"
proof -
  have "frame_ok None walk_frame"
    by (rule encode_request_frame_ok [OF walk_example_encodes])
      (simp add: walk_frame_length u32_max_def)
  then show ?thesis
    using batch_collect_exact [of "walk_frame @ walk_frame" None "[walk_frame, walk_frame]"]
    by (simp add: batch_new_def)
qed

end
