(* ===== verification/Secure9P_Session.thy ===== *)
theory Secure9P_Session
  imports Secure9P_Types
begin

section \<open>Secure9P session tracking\<close>

text \<open>
  The session primitives of \<open>crates/secure9p-core/src/session.rs\<close>: the retry policy for
  short writes, the concurrency limits, the window of in-flight tags, the queue depth
  counter, and the sharded fid table with its retired fids. A method that takes
  \<open>&mut self\<close> and may fail returns its result and the new state. The per-shard mutex
  makes every method of the fid table one atomic step.
\<close>

subsection \<open>Short-write policy and limits\<close>

datatype tag_error = TagInUse | WindowFull

datatype queue_error = QueueFull

datatype fid_error = FidInUse | FidRetired

datatype short_write_policy = Reject | Retry

definition DEFAULT_SHORT_WRITE_RETRIES :: nat where
  "DEFAULT_SHORT_WRITE_RETRIES = 3"

definition DEFAULT_SHORT_WRITE_BACKOFF_MS :: nat where
  "DEFAULT_SHORT_WRITE_BACKOFF_MS = 5"

text \<open>\<open>1u64.checked_shl(attempt)\<close> is none for a shift of 64 or more.\<close>

definition retry_delay_ms :: "short_write_policy \<Rightarrow> nat \<Rightarrow> nat option" where
  "retry_delay_ms p attempt =
     (case p of
        Reject \<Rightarrow> None
      | Retry \<Rightarrow>
          if attempt \<ge> DEFAULT_SHORT_WRITE_RETRIES then None
          else
            let factor = (if attempt < 64 then 2 ^ attempt else u64_max)
            in Some (sat_mul DEFAULT_SHORT_WRITE_BACKOFF_MS factor))"

record session_limits =
  tags_per_session :: u16
  batch_frames :: nat
  short_write_policy :: short_write_policy

definition session_limits_default :: session_limits where
  "session_limits_default =
     \<lparr>tags_per_session = 16, batch_frames = 1, short_write_policy = Reject\<rparr>"

definition queue_depth_limit :: "session_limits \<Rightarrow> nat" where
  "queue_depth_limit l = min (unat (tags_per_session l)) (max (batch_frames l) 1)"

subsection \<open>Tag window\<close>

record tag_window =
  tw_max_tags :: u16
  tw_active :: "u16 set"

definition tag_window_new :: "u16 \<Rightarrow> tag_window" where
  "tag_window_new max_tags = \<lparr>tw_max_tags = max max_tags 1, tw_active = {}\<rparr>"

definition tag_reserve :: "tag_window \<Rightarrow> u16 \<Rightarrow> (tag_error + unit) \<times> tag_window" where
  "tag_reserve w tag =
     (if tag \<in> tw_active w then (Err TagInUse, w)
      else if card (tw_active w) \<ge> unat (tw_max_tags w) then (Err WindowFull, w)
      else (Ok (), w\<lparr>tw_active := insert tag (tw_active w)\<rparr>))"

definition tag_release :: "tag_window \<Rightarrow> u16 \<Rightarrow> tag_window" where
  "tag_release w tag = w\<lparr>tw_active := tw_active w - {tag}\<rparr>"

definition tag_active_count :: "tag_window \<Rightarrow> nat" where
  "tag_active_count w = card (tw_active w)"

subsection \<open>Queue depth\<close>

record queue_depth =
  qd_max_depth :: nat
  qd_current :: nat

definition queue_depth_new :: "nat \<Rightarrow> queue_depth" where
  "queue_depth_new max_depth = \<lparr>qd_max_depth = max max_depth 1, qd_current = 0\<rparr>"

definition queue_reserve :: "queue_depth \<Rightarrow> nat \<Rightarrow> (queue_error + unit) \<times> queue_depth" where
  "queue_reserve q count =
     (if count = 0 then (Ok (), q)
      else if sat_add (qd_current q) count > qd_max_depth q then (Err QueueFull, q)
      else (Ok (), q\<lparr>qd_current := sat_add (qd_current q) count\<rparr>))"

definition queue_release :: "queue_depth \<Rightarrow> nat \<Rightarrow> queue_depth" where
  "queue_release q count = q\<lparr>qd_current := qd_current q - count\<rparr>"

subsection \<open>Fid tables\<close>

type_synonym 'a fid_table = "u32 \<rightharpoonup> 'a"

definition fid_table_insert :: "'a fid_table \<Rightarrow> u32 \<Rightarrow> 'a \<Rightarrow> 'a option \<times> 'a fid_table" where
  "fid_table_insert t fid v = (t fid, t(fid \<mapsto> v))"

definition fid_table_remove :: "'a fid_table \<Rightarrow> u32 \<Rightarrow> 'a option \<times> 'a fid_table" where
  "fid_table_remove t fid = (t fid, t(fid := None))"

definition DEFAULT_FID_SHARDS :: nat where
  "DEFAULT_FID_SHARDS = 16"

record 'a fid_shard =
  sh_active :: "u32 \<rightharpoonup> 'a"
  sh_retired :: "u32 set"

type_synonym 'a sharded = "'a fid_shard list"

definition fid_shard_new :: "'a fid_shard" where
  "fid_shard_new = \<lparr>sh_active = Map.empty, sh_retired = {}\<rparr>"

definition sharded_new :: "nat \<Rightarrow> 'a sharded" where
  "sharded_new shard_count = replicate (max shard_count 1) fid_shard_new"

definition shard_for :: "'a sharded \<Rightarrow> u32 \<Rightarrow> nat" where
  "shard_for t fid = unat fid mod length t"

definition sharded_contains :: "'a sharded \<Rightarrow> u32 \<Rightarrow> bool" where
  "sharded_contains t fid =
     (let g = t ! shard_for t fid in sh_active g fid \<noteq> None \<or> fid \<in> sh_retired g)"

definition sharded_insert :: "'a sharded \<Rightarrow> u32 \<Rightarrow> 'a \<Rightarrow> (fid_error + unit) \<times> 'a sharded" where
  "sharded_insert t fid v =
     (let i = shard_for t fid; g = t ! i in
      if sh_active g fid \<noteq> None then (Err FidInUse, t)
      else if fid \<in> sh_retired g then (Err FidRetired, t)
      else (Ok (), t[i := g\<lparr>sh_active := (sh_active g)(fid \<mapsto> v)\<rparr>]))"

definition sharded_get :: "'a sharded \<Rightarrow> u32 \<Rightarrow> 'a option" where
  "sharded_get t fid = sh_active (t ! shard_for t fid) fid"

definition sharded_with_entry :: "'a sharded \<Rightarrow> u32 \<Rightarrow> ('a \<Rightarrow> 'r) \<Rightarrow> 'r option" where
  "sharded_with_entry t fid f = map_option f (sh_active (t ! shard_for t fid) fid)"

definition sharded_with_entry_mut ::
    "'a sharded \<Rightarrow> u32 \<Rightarrow> ('a \<Rightarrow> 'r \<times> 'a) \<Rightarrow> 'r option \<times> 'a sharded" where
  "sharded_with_entry_mut t fid f =
     (let i = shard_for t fid; g = t ! i in
      case sh_active g fid of
        None \<Rightarrow> (None, t)
      | Some v \<Rightarrow>
          (let (r, v') = f v
           in (Some r, t[i := g\<lparr>sh_active := (sh_active g)(fid \<mapsto> v')\<rparr>])))"

definition sharded_remove :: "'a sharded \<Rightarrow> u32 \<Rightarrow> 'a option \<times> 'a sharded" where
  "sharded_remove t fid =
     (let i = shard_for t fid; g = t ! i; entry = sh_active g fid;
          g = g\<lparr>sh_active := (sh_active g)(fid := None)\<rparr>;
          g = (if entry \<noteq> None then g\<lparr>sh_retired := insert fid (sh_retired g)\<rparr> else g)
      in (entry, t[i := g]))"

subsection \<open>Reservations\<close>

text \<open>
  The tag window and the queue depth are used by the server in the same way: reserve
  before the work, release after it. What the server relies on is one contract.
\<close>

locale slot_pool =
  fixes reserve :: "'s \<Rightarrow> 'k \<Rightarrow> ('e + unit) \<times> 's"
    and release :: "'s \<Rightarrow> 'k \<Rightarrow> 's"
    and used :: "'s \<Rightarrow> nat"
    and cap :: "'s \<Rightarrow> nat"
    and inv :: "'s \<Rightarrow> bool"
  assumes used_cap: "inv s \<Longrightarrow> used s \<le> cap s"
    and reserve_inv: "inv s \<Longrightarrow> inv (snd (reserve s k))"
    and reserve_cap: "cap (snd (reserve s k)) = cap s"
    and reserve_err: "reserve s k = (Err e, s') \<Longrightarrow> s' = s"
    and release_inv: "inv s \<Longrightarrow> inv (release s k)"
    and release_cap: "cap (release s k) = cap s"
    and release_used: "inv s \<Longrightarrow> used (release s k) \<le> used s"
    and release_reserve: "inv s \<Longrightarrow> reserve s k = (Ok (), s') \<Longrightarrow> release s' k = s"
begin

text \<open>Operations in any order: \<open>Inl k\<close> reserves, \<open>Inr k\<close> releases.\<close>

definition pool_step :: "'s \<Rightarrow> 'k + 'k \<Rightarrow> 's" where
  "pool_step s e = (case e of Inl k \<Rightarrow> snd (reserve s k) | Inr k \<Rightarrow> release s k)"

lemma pool_step_inv: "inv s \<Longrightarrow> inv (pool_step s e) \<and> cap (pool_step s e) = cap s"
  by (simp add: pool_step_def reserve_inv reserve_cap release_inv release_cap split: sum.split)

lemma pool_run: "inv s \<Longrightarrow> inv (foldl pool_step s es) \<and> cap (foldl pool_step s es) = cap s"
proof (induction es arbitrary: s)
  case (Cons e es)
  with pool_step_inv [of s e] show ?case by simp
qed simp

lemma pool_bounded: "inv s \<Longrightarrow> used (foldl pool_step s es) \<le> cap s"
  using pool_run [of s es] used_cap by fastforce

text \<open>Reservations released in the opposite order leave no trace.\<close>

lemma reserve_all_release:
  assumes "inv s"
    and "s' = foldl (\<lambda>s k. snd (reserve s k)) s ks"
    and "\<And>i. i < length ks \<Longrightarrow>
      \<exists>t. reserve (foldl (\<lambda>s k. snd (reserve s k)) s (take i ks)) (ks ! i) = (Ok (), t)"
  shows "foldl release s' (rev ks) = s"
  using assms
proof (induction ks arbitrary: s)
  case (Cons k ks)
  obtain t where t: "reserve s k = (Ok (), t)" using Cons.prems(3) [of 0] by auto
  then have inv: "inv t" using reserve_inv [OF Cons.prems(1), of k] by simp
  have "foldl release s' (rev ks) = t"
  proof (rule Cons.IH [OF inv])
    show "s' = foldl (\<lambda>s k. snd (reserve s k)) t ks" using Cons.prems(2) t by simp
    show "\<exists>u. reserve (foldl (\<lambda>s k. snd (reserve s k)) t (take i ks)) (ks ! i) = (Ok (), u)"
      if "i < length ks" for i
      using Cons.prems(3) [of "Suc i"] that t by simp
  qed
  then show ?case using release_reserve [OF Cons.prems(1) t] by simp
qed simp

end

definition tag_inv :: "tag_window \<Rightarrow> bool" where
  "tag_inv w \<longleftrightarrow> card (tw_active w) \<le> unat (tw_max_tags w)"

definition queue_inv :: "queue_depth \<Rightarrow> bool" where
  "queue_inv q \<longleftrightarrow> qd_current q \<le> qd_max_depth q \<and> qd_max_depth q < u64_max"

interpretation tags: slot_pool tag_reserve tag_release tag_active_count
    "\<lambda>w. unat (tw_max_tags w)" tag_inv
proof
  fix w tag
  show "tag_inv w \<Longrightarrow> tag_inv (tag_release w tag)"
    unfolding tag_inv_def tag_release_def
    using card_Diff1_le [of "tw_active w" tag] by simp
  show "tag_active_count (tag_release w tag) \<le> tag_active_count w"
    unfolding tag_active_count_def tag_release_def
    using card_Diff1_le [of "tw_active w" tag] by simp
qed (auto simp: tag_inv_def tag_reserve_def tag_release_def tag_active_count_def split: if_splits)

interpretation queue: slot_pool queue_reserve queue_release qd_current qd_max_depth queue_inv
  by unfold_locales
    (auto simp: queue_inv_def queue_reserve_def queue_release_def sat_add_le_below not_less
      split: if_splits)

end
