(* ===== verification/Secure9P_Fids.thy ===== *)
theory Secure9P_Fids
  imports Secure9P_Session
begin

section \<open>The sharded fid table\<close>

text \<open>
  \<open>ShardedFidTable\<close> spreads the fids of a session over shards with their own locks. A
  client sees none of that: the abstract table below is one map of active fids and one
  set of retired ones, and every operation of the sharded table is that operation of the
  abstract one (a functional refinement through \<open>fid_abs\<close>).
\<close>

subsection \<open>The abstract table\<close>

record 'a fid_spec =
  fs_active :: "u32 \<rightharpoonup> 'a"
  fs_retired :: "u32 set"

definition spec_insert :: "'a fid_spec \<Rightarrow> u32 \<Rightarrow> 'a \<Rightarrow> (fid_error + unit) \<times> 'a fid_spec" where
  "spec_insert t fid v =
     (if fs_active t fid \<noteq> None then (Err FidInUse, t)
      else if fid \<in> fs_retired t then (Err FidRetired, t)
      else (Ok (), t\<lparr>fs_active := (fs_active t)(fid \<mapsto> v)\<rparr>))"

definition spec_modify :: "'a fid_spec \<Rightarrow> u32 \<Rightarrow> ('a \<Rightarrow> 'a) \<Rightarrow> 'a fid_spec" where
  "spec_modify t fid f =
     t\<lparr>fs_active := (fs_active t)(fid := map_option f (fs_active t fid))\<rparr>"

definition spec_remove :: "'a fid_spec \<Rightarrow> u32 \<Rightarrow> 'a option \<times> 'a fid_spec" where
  "spec_remove t fid =
     (fs_active t fid,
      \<lparr>fs_active = (fs_active t)(fid := None),
       fs_retired = (if fs_active t fid = None then fs_retired t
                     else insert fid (fs_retired t))\<rparr>)"

definition fid_abs :: "'a sharded \<Rightarrow> 'a fid_spec" where
  "fid_abs t = \<lparr>fs_active = sharded_get t,
     fs_retired = {fid. fid \<in> sh_retired (t ! shard_for t fid)}\<rparr>"

definition fid_inv :: "'a sharded \<Rightarrow> bool" where
  "fid_inv t \<longleftrightarrow> t \<noteq> []"

lemma shard_for_less: "fid_inv t \<Longrightarrow> shard_for t fid < length t"
  by (simp add: shard_for_def fid_inv_def)

lemma shard_for_update [simp]: "shard_for (t[i := g]) fid = shard_for t fid"
  by (simp add: shard_for_def)

lemma fid_inv_new: "fid_inv (sharded_new n)"
  by (simp add: fid_inv_def sharded_new_def)

lemma fid_abs_new: "fid_abs (sharded_new n :: 'a sharded) = \<lparr>fs_active = Map.empty, fs_retired = {}\<rparr>"
proof -
  let ?t = "sharded_new n :: 'a sharded"
  have "?t ! shard_for ?t fid = fid_shard_new" for fid
    using shard_for_less [OF fid_inv_new [of n, where 'a = 'a], of fid]
    by (simp add: sharded_new_def)
  then show ?thesis by (auto simp: fid_abs_def sharded_get_def fid_shard_new_def)
qed

text \<open>Writing one shard changes the abstract table at the fids of that shard only.\<close>

lemma fid_abs_update:
  assumes "fid_inv t" and i: "i = shard_for t fid" and g: "g = t ! i"
  shows "fid_abs (t[i := g\<lparr>sh_active := (sh_active g)(fid := v), sh_retired := R\<rparr>]) =
    \<lparr>fs_active = (sharded_get t)(fid := v),
     fs_retired = {k. if shard_for t k = i then k \<in> R else k \<in> sh_retired (t ! shard_for t k)}\<rparr>"
  using shard_for_less [OF assms(1)] i g
  by (auto simp: fid_abs_def sharded_get_def nth_list_update fun_eq_iff)

lemma fid_abs_write:
  assumes "fid_inv t" and "g = t ! shard_for t fid"
  shows "fid_abs (t[shard_for t fid := g\<lparr>sh_active := (sh_active g)(fid := v)\<rparr>]) =
    (fid_abs t)\<lparr>fs_active := (sharded_get t)(fid := v)\<rparr>"
  using shard_for_less [OF assms(1)] assms(2)
  by (auto simp: fid_abs_def sharded_get_def nth_list_update fun_eq_iff)

lemma sharded_insert_refines:
  assumes "fid_inv t"
  shows "spec_insert (fid_abs t) fid v =
    (fst (sharded_insert t fid v), fid_abs (snd (sharded_insert t fid v)))"
  using fid_abs_write [OF assms refl, of fid "Some v"]
  by (auto simp: spec_insert_def sharded_insert_def Let_def fid_abs_def sharded_get_def)

lemma sharded_with_entry_mut_refines:
  assumes "fid_inv t"
  shows "fid_abs (snd (sharded_with_entry_mut t fid f)) =
      spec_modify (fid_abs t) fid (\<lambda>v. snd (f v))"
    and "fst (sharded_with_entry_mut t fid f) = map_option (\<lambda>v. fst (f v)) (sharded_get t fid)"
  using fid_abs_write [OF assms refl, of fid]
  by (auto simp: sharded_with_entry_mut_def spec_modify_def Let_def fid_abs_def sharded_get_def
      fun_eq_iff split: option.splits prod.splits)

lemma sharded_remove_refines:
  assumes "fid_inv t"
  shows "spec_remove (fid_abs t) fid =
    (fst (sharded_remove t fid), fid_abs (snd (sharded_remove t fid)))"
proof -
  let ?g = "t ! shard_for t fid"
  have r: "snd (sharded_remove t fid) = t[shard_for t fid :=
      ?g\<lparr>sh_active := (sh_active ?g)(fid := None),
         sh_retired := (if sh_active ?g fid = None then sh_retired ?g
                        else insert fid (sh_retired ?g))\<rparr>]"
    by (simp add: sharded_remove_def Let_def)
  show ?thesis
    unfolding r fid_abs_update [OF assms refl refl]
    by (auto simp: spec_remove_def fid_abs_def sharded_get_def sharded_remove_def Let_def)
qed

subsection \<open>Runs of operations\<close>

datatype 'a fid_op = FidInsert u32 'a | FidUpdate u32 "'a \<Rightarrow> 'a" | FidRemove u32

fun fid_step :: "'a sharded \<Rightarrow> 'a fid_op \<Rightarrow> 'a sharded" where
  "fid_step t (FidInsert fid v) = snd (sharded_insert t fid v)"
| "fid_step t (FidUpdate fid f) = snd (sharded_with_entry_mut t fid (\<lambda>v. ((), f v)))"
| "fid_step t (FidRemove fid) = snd (sharded_remove t fid)"

fun spec_step :: "'a fid_spec \<Rightarrow> 'a fid_op \<Rightarrow> 'a fid_spec" where
  "spec_step t (FidInsert fid v) = snd (spec_insert t fid v)"
| "spec_step t (FidUpdate fid f) = spec_modify t fid f"
| "spec_step t (FidRemove fid) = snd (spec_remove t fid)"

lemma fid_step_inv: "fid_inv t \<Longrightarrow> fid_inv (fid_step t e)"
  by (cases e) (auto simp: fid_inv_def sharded_insert_def sharded_with_entry_mut_def
      sharded_remove_def Let_def split: option.splits prod.splits)

interpretation fids: step_invariant fid_step fid_inv
  by unfold_locales (rule fid_step_inv)

lemma fid_step_refines: "fid_inv t \<Longrightarrow> fid_abs (fid_step t e) = spec_step (fid_abs t) e"
  by (cases e)
    (simp_all add: sharded_insert_refines sharded_with_entry_mut_refines sharded_remove_refines)

lemma fid_run_refines:
  "fid_inv t \<Longrightarrow> fid_abs (foldl fid_step t es) = foldl spec_step (fid_abs t) es"
  by (induction es arbitrary: t) (simp_all add: fid_step_refines fid_step_inv)

text \<open>A fid is spent when it is retired and not active; nothing makes it active again.\<close>

definition spent :: "u32 \<Rightarrow> 'a fid_spec \<Rightarrow> bool" where
  "spent fid t \<longleftrightarrow> fs_active t fid = None \<and> fid \<in> fs_retired t"

interpretation spent_fids: step_invariant spec_step "spent fid" for fid
proof
  fix t :: "'a fid_spec" and e
  assume "spent fid t"
  then show "spent fid (spec_step t e)"
    by (cases e) (auto simp: spent_def spec_insert_def spec_modify_def spec_remove_def)
qed

subsection \<open>Properties\<close>

text \<open>
  C23: The sharded table refines a single table. Started with any number of shards and
  driven by any sequence of inserts, updates and removes, it holds exactly the active and
  retired fids of the abstract table driven by the same sequence, and an insert on it
  returns the result of the abstract insert.
\<close>

theorem sharded_table_refines:
  "fid_abs (foldl fid_step (sharded_new n) es) =
     foldl spec_step \<lparr>fs_active = Map.empty, fs_retired = {}\<rparr> es \<and>
   fst (sharded_insert (foldl fid_step (sharded_new n) es) fid v) =
     fst (spec_insert (foldl spec_step \<lparr>fs_active = Map.empty, fs_retired = {}\<rparr> es) fid v)"
proof -
  let ?t = "foldl fid_step (sharded_new n) es"
  have r: "fid_abs ?t = foldl spec_step \<lparr>fs_active = Map.empty, fs_retired = {}\<rparr> es"
    using fid_run_refines [OF fid_inv_new [of n], of es] by (simp add: fid_abs_new)
  have "fid_inv ?t" by (rule fids.run_inv [OF fid_inv_new])
  from sharded_insert_refines [OF this, of fid v] r show ?thesis by simp
qed

text \<open>
  C7: A clunked fid is never active again. Once removing a fid has returned its entry, no
  sequence of later operations of the session makes the fid readable, and inserting it
  is refused as retired without changing the table.
\<close>

theorem clunked_fid_never_reused:
  assumes "fid_inv t" and "sharded_get t fid \<noteq> None"
  shows "sharded_get (foldl fid_step (snd (sharded_remove t fid)) es) fid = None \<and>
    sharded_insert (foldl fid_step (snd (sharded_remove t fid)) es) fid v =
      (Err FidRetired, foldl fid_step (snd (sharded_remove t fid)) es)"
proof -
  let ?t = "snd (sharded_remove t fid)" and ?u = "foldl fid_step (snd (sharded_remove t fid)) es"
  have i: "fid_inv ?t" using fids.step_inv [OF assms(1), of "FidRemove fid"] by simp
  have "fs_active (fid_abs t) fid \<noteq> None" using assms(2) by (simp add: fid_abs_def)
  then have "spent fid (snd (spec_remove (fid_abs t) fid))"
    by (auto simp: spent_def spec_remove_def)
  then have "spent fid (fid_abs ?t)"
    using sharded_remove_refines [OF assms(1), of fid] by simp
  then have "spent fid (fid_abs ?u)"
    using fid_run_refines [OF i, of es] spent_fids.run_inv by simp
  then show ?thesis
    by (simp add: spent_def fid_abs_def sharded_insert_def sharded_get_def Let_def)
qed

theorem clunked_fid_never_reused_witness:
  "sharded_insert (foldl fid_step (snd (sharded_remove
      (snd (sharded_insert (sharded_new 16) 7 ''root'')) 7)) [FidInsert 23 ''proc'', FidRemove 23]) 7 ''log''
     = (Err FidRetired, foldl fid_step (snd (sharded_remove
      (snd (sharded_insert (sharded_new 16) 7 ''root'')) 7)) [FidInsert 23 ''proc'', FidRemove 23])"
proof -
  let ?t = "snd (sharded_insert (sharded_new 16) 7 ''root'')"
  have "fid_inv ?t" using fids.step_inv [OF fid_inv_new [of 16], of "FidInsert 7 ''root''"] by simp
  moreover have "sharded_get ?t 7 \<noteq> None"
    by (simp add: sharded_get_def sharded_insert_def Let_def shard_for_def sharded_new_def
        fid_shard_new_def)
  ultimately show ?thesis by (rule clunked_fid_never_reused [THEN conjunct2])
qed

end
