(* ===== verification/Append_Only.thy ===== *)
theory Append_Only
  imports Cohesix_Prelude
begin

section \<open>Append-only offsets\<close>

text \<open>
  The offset rules of \<open>crates/secure9p-core/src/lib.rs\<close>: every append-only file of the
  servers checks its reads and writes with these two functions. A \<open>u64\<close> offset, a
  \<open>u32\<close> count and a \<open>usize\<close> length are natural numbers; the functions only compare and
  subtract (saturating), so no wrap-around arises.
\<close>

datatype append_only_offset_error =
  OffsetStale nat nat
| OffsetInvalid nat nat

definition append_only_offset_error_display :: "append_only_offset_error \<Rightarrow> string" where
  "append_only_offset_error_display e = (case e of
     OffsetStale requested available_start \<Rightarrow>
       ''append-only offset '' @ show_nat requested @ '' is stale; oldest available ''
         @ show_nat available_start
   | OffsetInvalid provided expected \<Rightarrow>
       ''append-only offset '' @ show_nat provided @ '' does not match expected ''
         @ show_nat expected)"

record read_bounds =
  arb_offset :: nat
  arb_len :: nat
  arb_short :: bool

record write_bounds =
  awb_len :: nat
  awb_short :: bool

definition append_only_read_bounds ::
  "nat \<Rightarrow> nat \<Rightarrow> nat \<Rightarrow> nat \<Rightarrow> append_only_offset_error + read_bounds" where
  "append_only_read_bounds offset available_start available_end count =
     (if offset < available_start then Err (OffsetStale offset available_start)
      else
        let available = available_end - offset;
            requested = count;
            len = min requested available
        in Ok \<lparr>arb_offset = offset, arb_len = len, arb_short = len < requested\<rparr>)"

definition append_only_write_bounds ::
  "nat \<Rightarrow> nat \<Rightarrow> nat \<Rightarrow> nat \<Rightarrow> append_only_offset_error + write_bounds" where
  "append_only_write_bounds expected_offset provided_offset max_len requested_len =
     (if provided_offset \<noteq> expected_offset
      then Err (OffsetInvalid provided_offset expected_offset)
      else
        let len = min requested_len max_len
        in Ok \<lparr>awb_len = len, awb_short = len < requested_len\<rparr>)"

text \<open>A granted read stays inside the window that ends at \<open>available_end\<close>.\<close>

lemma read_bounds_window:
  assumes "append_only_read_bounds offset s e count = Ok b"
  shows "arb_offset b = offset" and "s \<le> offset" and "arb_len b \<le> count"
    and "arb_len b > 0 \<Longrightarrow> offset + arb_len b \<le> e"
    and "arb_short b \<longleftrightarrow> e < offset + count \<and> 0 < count"
  using assms by (auto simp: append_only_read_bounds_def Let_def split: if_splits)

lemma read_bounds_Ok [outcome_splits]:
  "append_only_read_bounds offset s e count = Ok b \<longleftrightarrow>
     s \<le> offset \<and>
     b = \<lparr>arb_offset = offset, arb_len = min count (e - offset), arb_short = e - offset < count\<rparr>"
  by (auto simp: append_only_read_bounds_def Let_def min_def)

lemma write_bounds_Ok [outcome_splits]:
  "append_only_write_bounds expected provided m n = Ok b \<longleftrightarrow>
     provided = expected \<and> b = \<lparr>awb_len = min n m, awb_short = m < n\<rparr>"
  by (auto simp: append_only_write_bounds_def Let_def min_def)

lemma take_length_take: "take (length (take n xs)) xs = take n xs"
  by (cases "n \<le> length xs") simp_all

text \<open>The bytes a granted read covers are the log's bytes from its offset on.\<close>

lemma take_read_bounds:
  assumes "append_only_read_bounds offset s (length xs) count = Ok b"
  shows "take (arb_len b) (drop offset xs) = take count (drop offset xs)"
  using assms by (cases "count \<le> length xs - offset") (auto simp: read_bounds_Ok)

subsection \<open>Windowed logs\<close>

text \<open>
  The contract of a bounded append-only store: it represents the stream of all bytes
  accepted so far, keeps at least the last \<open>window\<close> of them, refuses a record larger
  than the window, and serves a read at a stream offset from the stream, or refuses it
  when the offset has left the window.
\<close>

definition accepted :: "nat \<Rightarrow> bytes list \<Rightarrow> bytes" where
  "accepted w ds = concat (filter (\<lambda>d. length d \<le> w) ds)"

lemma accepted_simps [simp]:
  "accepted w [] = []"
  "accepted w (d # ds) = (if length d \<le> w then d @ accepted w ds else accepted w ds)"
  by (simp_all add: accepted_def)

lemma length_accepted: "length (accepted w ds) \<le> length (concat ds)"
  by (induction ds) auto

locale windowed_log =
  fixes rep :: "'r \<Rightarrow> bytes \<Rightarrow> bool"
    and window :: "'r \<Rightarrow> nat"
    and append :: "'r \<Rightarrow> bytes \<Rightarrow> ('e + 'o) \<times> 'r"
    and fetch :: "'r \<Rightarrow> nat \<Rightarrow> nat \<Rightarrow> 'x + bytes"
  assumes append_fits:
      "rep r s \<Longrightarrow> length d \<le> window r \<Longrightarrow> length s + length d \<le> u64_max \<Longrightarrow>
        is_ok (fst (append r d)) \<and> rep (snd (append r d)) (s @ d)"
    and append_refused:
      "rep r s \<Longrightarrow> window r < length d \<Longrightarrow> \<not> is_ok (fst (append r d)) \<and> snd (append r d) = r"
    and append_window: "window (snd (append r d)) = window r"
    and fetch_retained:
      "rep r s \<Longrightarrow> length s - window r \<le> off \<Longrightarrow> fetch r off n = Ok (take n (drop off s))"
    and fetch_dropped:
      "rep r s \<Longrightarrow> off < length s - window r \<Longrightarrow> \<not> is_ok (fetch r off n)"
begin

lemma run_window: "window (foldl (\<lambda>r d. snd (append r d)) r ds) = window r"
  by (induction ds arbitrary: r) (simp_all add: append_window)

lemma run_rep:
  "rep r s \<Longrightarrow> length s + length (concat ds) \<le> u64_max \<Longrightarrow>
    rep (foldl (\<lambda>r d. snd (append r d)) r ds) (s @ accepted (window r) ds)"
proof (induction ds arbitrary: r s)
  case (Cons d ds)
  show ?case
  proof (cases "length d \<le> window r")
    case True
    with Cons.prems have "rep (snd (append r d)) (s @ d)" using append_fits by simp
    with Cons.IH [OF this] Cons.prems True show ?thesis by (simp add: append_window)
  next
    case False
    with Cons.prems have "snd (append r d) = r" using append_refused by simp
    with Cons.IH [OF Cons.prems(1)] Cons.prems(2) False show ?thesis by simp
  qed
qed simp

text \<open>Reading on from where the last read ended gives the stream without gap or overlap.\<close>

lemma fetch_continues:
  assumes "rep r s" and "length s - window r \<le> off"
    and "fetch r off n = Ok d" and "fetch r (off + length d) m = Ok e"
  shows "d @ e = take (length d + length e) (drop off s)"
proof -
  have d: "d = take n (drop off s)" using fetch_retained [OF assms(1,2)] assms(3) by simp
  have "e = take m (drop (off + length d) s)"
    using fetch_retained [OF assms(1), of "off + length d" m] assms(2,4) by simp
  then have "e = take m (drop (length d) (drop off s))" by (simp add: add.commute)
  then have e: "take (length e) (drop (length d) (drop off s)) = e" by (simp only: take_length_take)
  have "take (length d) (drop off s) = d" unfolding d by (rule take_length_take)
  with e show ?thesis unfolding take_add by simp
qed

end

end
