(* ===== verification/Telemetry_Ring.thy ===== *)
theory Telemetry_Ring
  imports Append_Only
begin

section \<open>The telemetry ring\<close>

text \<open>
  \<open>TelemetryRing\<close> of \<open>apps/nine-door/src/host/telemetry/ring.rs\<close>: a byte array of fixed
  capacity, written modulo its size, addressed by the offsets of the whole stream.
  The specification is the stream itself (\<open>ring_rep\<close>): the ring holds its last
  \<open>capacity\<close> bytes, and a read at an offset is a slice of the stream.
\<close>

record telemetry_ring =
  buffer :: bytes
  capacity :: nat
  base_offset :: nat
  next_offset :: nat

record telemetry_ring_snapshot =
  s_buffer :: bytes
  s_capacity :: nat
  s_base_offset :: nat
  s_next_offset :: nat

record ring_write_outcome =
  rw_count :: nat
  rw_dropped_bytes :: nat
  rw_new_base :: nat

datatype ring_write_error = RingOversize nat nat

datatype ring_read_error = RingStale nat nat

definition ring_new :: "nat \<Rightarrow> telemetry_ring" where
  "ring_new cap =
     (let capacity = max cap 1
      in \<lparr>buffer = replicate capacity 0, capacity = capacity, base_offset = 0, next_offset = 0\<rparr>)"

definition ring_bounds :: "telemetry_ring \<Rightarrow> nat \<times> nat" where
  "ring_bounds r = (base_offset r, next_offset r)"

definition ring_snapshot :: "telemetry_ring \<Rightarrow> telemetry_ring_snapshot" where
  "ring_snapshot r = \<lparr>s_buffer = buffer r, s_capacity = capacity r,
     s_base_offset = base_offset r, s_next_offset = next_offset r\<rparr>"

definition ring_restore :: "telemetry_ring_snapshot \<Rightarrow> telemetry_ring option" where
  "ring_restore s =
     (if s_capacity s = 0 \<or> length (s_buffer s) \<noteq> s_capacity s then None
      else if s_base_offset s > s_next_offset s then None
      else if s_next_offset s - s_base_offset s > s_capacity s then None
      else Some \<lparr>buffer = s_buffer s, capacity = s_capacity s,
        base_offset = s_base_offset s, next_offset = s_next_offset s\<rparr>)"

text \<open>The two \<open>copy_from_slice\<close> calls of an append: up to the end of the array, then from its start.\<close>

definition ring_copy :: "nat \<Rightarrow> nat \<Rightarrow> bytes \<Rightarrow> bytes \<Rightarrow> bytes" where
  "ring_copy cap next data buf =
     (let start = next mod cap;
          first_len = min (cap - start) (length data);
          buf' = copy_at start (take first_len data) buf
      in if first_len < length data then copy_at 0 (drop first_len data) buf' else buf')"

definition ring_append ::
  "telemetry_ring \<Rightarrow> bytes \<Rightarrow> (ring_write_error + ring_write_outcome) \<times> telemetry_ring" where
  "ring_append r data =
     (if data = [] then
        (Ok \<lparr>rw_count = 0, rw_dropped_bytes = 0, rw_new_base = base_offset r\<rparr>, r)
      else if length data > capacity r then
        (Err (RingOversize (length data) (capacity r)), r)
      else
        let used = next_offset r - base_offset r;
            total_needed = sat_add used (length data);
            dropped = total_needed - capacity r;
            base = (if dropped > 0 then sat_add (base_offset r) dropped else base_offset r);
            r' = r\<lparr>base_offset := base,
                   buffer := ring_copy (capacity r) (next_offset r) data (buffer r),
                   next_offset := sat_add (next_offset r) (length data)\<rparr>
        in (Ok \<lparr>rw_count = length data mod 2 ^ 32, rw_dropped_bytes = dropped,
                rw_new_base = base\<rparr>, r'))"

text \<open>The array reads of \<open>read\<close>: up to the end of the array, then from its start.\<close>

definition ring_fetch :: "nat \<Rightarrow> nat \<Rightarrow> nat \<Rightarrow> bytes \<Rightarrow> bytes" where
  "ring_fetch cap offset len buf =
     (let start = offset mod cap;
          first_len = min (cap - start) len
      in slice start (start + first_len) buf @
         (if first_len < len then slice 0 (len - first_len) buf else []))"

definition ring_read :: "telemetry_ring \<Rightarrow> nat \<Rightarrow> nat \<Rightarrow> ring_read_error + bytes" where
  "ring_read r offset count =
     and_then
       (map_err
          (\<lambda>e. case e of
             OffsetStale requested available_start \<Rightarrow> RingStale requested available_start
           | OffsetInvalid _ _ \<Rightarrow> RingStale offset (base_offset r))
          (append_only_read_bounds offset (base_offset r) (next_offset r) count))
       (\<lambda>b. if arb_len b = 0 then Ok []
            else Ok (ring_fetch (capacity r) (arb_offset b) (arb_len b) (buffer r)))"

subsection \<open>Positions in the array\<close>

lemma mod_shift:
  fixes n j c :: nat
  assumes "j < c"
  shows "(n + j) mod c = (if n mod c + j < c then n mod c + j else n mod c + j - c)"
proof -
  define s where "s = n mod c"
  have s: "s < c" using assms by (simp add: s_def)
  have "(n + j) mod c = (s + j) mod c" by (simp add: s_def mod_add_left_eq)
  also have "\<dots> = (if s + j < c then s + j else s + j - c)"
    using s assms by (simp add: le_mod_geq)
  finally show ?thesis by (simp add: s_def)
qed

lemma length_ring_copy [simp]:
  assumes "length data \<le> cap" and "length buf = cap"
  shows "length (ring_copy cap n data buf) = cap"
proof (cases "cap = 0")
  case True
  then show ?thesis using assms by (simp add: ring_copy_def copy_at_def)
next
  case False
  then have "n mod cap < cap" by simp
  with assms show ?thesis by (simp add: ring_copy_def Let_def)
qed

lemma nth_ring_copy:
  assumes "length data \<le> cap" and "length buf = cap" and "k < cap"
  shows "ring_copy cap n data buf ! k =
    (let start = n mod cap; f = min (cap - start) (length data)
     in if start \<le> k \<and> k < start + f then data ! (k - start)
        else if k < length data - f then data ! (f + k)
        else buf ! k)"
proof -
  define s where "s = n mod cap"
  have s: "s < cap" using assms(3) by (simp add: s_def)
  show ?thesis
    unfolding ring_copy_def Let_def s_def [symmetric]
    using assms s by (simp add: nth_copy_at min_def) (auto simp: nth_copy_at)
qed

text \<open>A byte of the new data stands at its offset; an offset that is still in the window keeps its byte.\<close>

lemma ring_copy_new:
  assumes "length data \<le> cap" and "length buf = cap" and "j < length data"
  shows "ring_copy cap n data buf ! ((n + j) mod cap) = data ! j"
proof -
  define s where "s = n mod cap"
  have j: "j < cap" using assms by simp
  then have s: "s < cap" by (simp add: s_def)
  have p: "(n + j) mod cap = (if s + j < cap then s + j else s + j - cap)"
    using mod_shift [OF j, of n] by (simp only: s_def)
  have "(n + j) mod cap < cap" using j by simp
  from nth_ring_copy [OF assms(1,2) this, of n] show ?thesis
    unfolding s_def [symmetric] Let_def p using assms s j by (auto simp: min_def)
qed

lemma ring_copy_old:
  assumes "length data \<le> cap" and "length buf = cap" and "data \<noteq> []"
    and "k < n" and "n + length data \<le> k + cap"
  shows "ring_copy cap n data buf ! (k mod cap) = buf ! (k mod cap)"
proof -
  define d where "d = n - k"
  have len: "0 < length data" using assms by simp
  have n: "n = k + d" and d: "0 < d" "d < cap" "d + length data \<le> cap"
    using assms len unfolding d_def by linarith+
  define p where "p = k mod cap"
  have p: "p < cap" using d by (simp add: p_def)
  have s: "n mod cap = (if p + d < cap then p + d else p + d - cap)"
    using mod_shift [OF d(2), of k] by (simp only: n p_def)
  from nth_ring_copy [OF assms(1,2) p, of n] show ?thesis
    unfolding p_def [symmetric] Let_def s using assms d p by (auto simp: min_def split: if_splits)
qed

lemma ring_fetch_nth:
  assumes "length buf = cap" and "len \<le> cap" and "i < len"
  shows "ring_fetch cap offset len buf ! i = buf ! ((offset + i) mod cap)"
proof -
  define s where "s = offset mod cap"
  have i: "i < cap" using assms by simp
  then have s: "s < cap" by (simp add: s_def)
  show ?thesis
    unfolding mod_shift [OF i] ring_fetch_def Let_def s_def [symmetric]
    using assms s by (auto simp: nth_append slice_def min_def add.commute)
qed

lemma length_ring_fetch:
  assumes "length buf = cap" and "len \<le> cap" and "0 < cap"
  shows "length (ring_fetch cap offset len buf) = len"
proof -
  define s where "s = offset mod cap"
  have s: "s < cap" using assms by (simp add: s_def)
  show ?thesis
    unfolding ring_fetch_def Let_def s_def [symmetric] using assms s by (auto simp: slice_def min_def)
qed

subsection \<open>The ring is a window of the stream\<close>

definition ring_inv :: "telemetry_ring \<Rightarrow> bool" where
  "ring_inv r \<longleftrightarrow> 0 < capacity r \<and> length (buffer r) = capacity r \<and>
     base_offset r \<le> next_offset r \<and> next_offset r \<le> base_offset r + capacity r"

definition ring_rep :: "telemetry_ring \<Rightarrow> bytes \<Rightarrow> bool" where
  "ring_rep r s \<longleftrightarrow>
     ring_inv r \<and> next_offset r = length s \<and> base_offset r = length s - capacity r \<and>
     (\<forall>k. base_offset r \<le> k \<longrightarrow> k < length s \<longrightarrow> buffer r ! (k mod capacity r) = s ! k)"

lemma ring_rep_new: "ring_rep (ring_new cap) []"
  by (simp add: ring_rep_def ring_inv_def ring_new_def Let_def)

lemma ring_append_refused:
  "capacity r < length d \<Longrightarrow>
    ring_append r d = (Err (RingOversize (length d) (capacity r)), r)"
  by (auto simp: ring_append_def)

lemma ring_append_capacity [simp]: "capacity (snd (ring_append r d)) = capacity r"
  by (simp add: ring_append_def Let_def)

text \<open>What a fitting append does: the window advances by the bytes that no longer fit.\<close>

lemma ring_append_fits:
  assumes rep: "ring_rep r s" and d: "d \<noteq> []" "length d \<le> capacity r"
    and u: "length s + length d \<le> u64_max"
  shows "ring_append r d =
    (Ok \<lparr>rw_count = length d mod 2 ^ 32,
         rw_dropped_bytes = min (length s) (capacity r) + length d - capacity r,
         rw_new_base = length s + length d - capacity r\<rparr>,
     r\<lparr>base_offset := length s + length d - capacity r,
       buffer := ring_copy (capacity r) (length s) d (buffer r),
       next_offset := length s + length d\<rparr>)"
proof -
  from rep have r: "next_offset r = length s" "base_offset r = length s - capacity r"
    by (simp_all add: ring_rep_def)
  have used: "length s - (length s - capacity r) = min (length s) (capacity r)" by simp
  have tot: "sat_add (min (length s) (capacity r)) (length d)
      = min (length s) (capacity r) + length d"
    using u by (intro sat_add_exact) simp
  show ?thesis
    using d u unfolding ring_append_def Let_def r used tot
    by (auto simp: min_def sat_add_def)
qed

lemma ring_append_rep:
  assumes rep: "ring_rep r s" and d: "length d \<le> capacity r"
    and u: "length s + length d \<le> u64_max"
  shows "is_ok (fst (ring_append r d)) \<and> ring_rep (snd (ring_append r d)) (s @ d)"
proof (cases "d = []")
  case True
  with rep show ?thesis by (simp add: ring_append_def)
next
  case False
  note app = ring_append_fits [OF rep False d u]
  from rep have inv: "0 < capacity r" "length (buffer r) = capacity r"
    and old: "\<And>k. length s - capacity r \<le> k \<Longrightarrow> k < length s \<Longrightarrow>
      buffer r ! (k mod capacity r) = s ! k"
    by (simp_all add: ring_rep_def ring_inv_def)
  let ?buf = "ring_copy (capacity r) (length s) d (buffer r)"
  have "?buf ! (k mod capacity r) = (s @ d) ! k"
    if k: "length s + length d - capacity r \<le> k" "k < length s + length d" for k
  proof (cases "k < length s")
    case True
    with k inv d False show ?thesis by (simp add: ring_copy_old old nth_append)
  next
    case new: False
    then obtain j where "k = length s + j" using le_Suc_ex by (metis not_less)
    with k inv d show ?thesis by (simp add: ring_copy_new)
  qed
  with app inv d show ?thesis by (auto simp: ring_rep_def ring_inv_def)
qed

lemma ring_fetch_rep:
  assumes rep: "ring_rep r s" and n: "length s - capacity r \<le> off"
    and len: "len = min n (length s - off)"
  shows "ring_fetch (capacity r) off len (buffer r) = take n (drop off s)"
proof -
  from rep have inv: "0 < capacity r" "length (buffer r) = capacity r"
    and old: "\<And>k. length s - capacity r \<le> k \<Longrightarrow> k < length s \<Longrightarrow>
      buffer r ! (k mod capacity r) = s ! k"
    by (simp_all add: ring_rep_def ring_inv_def)
  have l: "len \<le> capacity r" using n len by simp
  show ?thesis
  proof (rule nth_equalityI)
    show "length (ring_fetch (capacity r) off len (buffer r)) = length (take n (drop off s))"
      using inv l len by (simp add: length_ring_fetch min_def)
  next
    fix i assume "i < length (ring_fetch (capacity r) off len (buffer r))"
    then have i: "i < len" using inv l by (simp add: length_ring_fetch)
    then have "i < n" and "off + i < length s" using len by auto
    with i show "ring_fetch (capacity r) off len (buffer r) ! i = take n (drop off s) ! i"
      using inv l n old [of "off + i"] by (simp add: ring_fetch_nth)
  qed
qed

lemma ring_read_rep:
  assumes rep: "ring_rep r s"
  shows "ring_read r off n =
    (if off < length s - capacity r then Err (RingStale off (length s - capacity r))
     else Ok (take n (drop off s)))"
proof -
  from rep have r: "next_offset r = length s" "base_offset r = length s - capacity r"
    by (simp_all add: ring_rep_def)
  show ?thesis
  proof (cases "off < length s - capacity r")
    case True
    then show ?thesis by (simp add: ring_read_def append_only_read_bounds_def r)
  next
    case False
    with ring_fetch_rep [OF rep _ refl, of off n] show ?thesis
      by (auto simp: ring_read_def append_only_read_bounds_def r Let_def)
  qed
qed

interpretation ring: windowed_log ring_rep capacity ring_append ring_read
proof
  fix r s d off n
  show "ring_rep r s \<Longrightarrow> length d \<le> capacity r \<Longrightarrow> length s + length d \<le> u64_max \<Longrightarrow>
      is_ok (fst (ring_append r d)) \<and> ring_rep (snd (ring_append r d)) (s @ d)"
    by (rule ring_append_rep)
qed (auto simp: ring_append_refused ring_read_rep)

text \<open>
  After any sequence of appends to a new ring, a read answers from the stream of the
  accepted payloads (a payload larger than the capacity is refused and leaves no trace):
  at an offset older than the last \<open>capacity\<close> bytes it is refused as stale, with the
  oldest retained offset; anywhere else it returns exactly the requested bytes of the
  stream, cut at its end. The appended bytes must total at most \<open>u64::MAX\<close>, where the
  offsets saturate.
\<close>

theorem ring_is_window_of_stream:
  assumes "length (concat ds) \<le> u64_max"
  shows "ring_read (foldl (\<lambda>r d. snd (ring_append r d)) (ring_new cap) ds) off n =
    (let s = accepted (max cap 1) ds; base = length s - max cap 1
     in if off < base then Err (RingStale off base) else Ok (take n (drop off s)))"
proof -
  let ?r = "foldl (\<lambda>r d. snd (ring_append r d)) (ring_new cap) ds"
  have c: "capacity (ring_new cap) = max cap 1" by (simp add: ring_new_def Let_def)
  have "ring_rep ?r (accepted (max cap 1) ds)"
    using ring.run_rep [OF ring_rep_new, of ds cap] assms c by simp
  moreover have "capacity ?r = max cap 1" using ring.run_window c by simp
  ultimately show ?thesis by (simp add: ring_read_rep Let_def)
qed

theorem ring_is_window_of_stream_witness:
  "ring_read (foldl (\<lambda>r d. snd (ring_append r d)) (ring_new 4) [[1, 2, 3], [9, 9, 9, 9, 9], [4, 5]]) 2 8
     = Ok [3, 4, 5] \<and>
   ring_read (foldl (\<lambda>r d. snd (ring_append r d)) (ring_new 4) [[1, 2, 3], [9, 9, 9, 9, 9], [4, 5]]) 0 8
     = Err (RingStale 0 1)"
  by (subst ring_is_window_of_stream, simp add: u64_max_def)+ (simp add: accepted_def)

text \<open>A snapshot restores to the same ring.\<close>

lemma ring_rep_inv: "ring_rep r s \<Longrightarrow> ring_inv r"
  by (simp add: ring_rep_def)

lemma ring_restore_snapshot: "ring_inv r \<Longrightarrow> ring_restore (ring_snapshot r) = Some r"
  by (auto simp: ring_restore_def ring_snapshot_def ring_inv_def)

lemma ring_restore_inv: "ring_restore s = Some r \<Longrightarrow> ring_inv r"
  by (auto simp: ring_restore_def ring_inv_def split: if_splits)

end
