(* ===== verification/Telemetry_File.thy ===== *)
theory Telemetry_File
  imports Telemetry_Ring
begin

section \<open>Telemetry files\<close>

text \<open>
  The worker telemetry files of \<open>apps/nine-door/src/host/telemetry/mod.rs\<close> and their read
  cursors (\<open>cursor.rs\<close>): a ring, a cursor that bounds how far a reader may go back, and a
  manifest store that carries a file over a reboot. A file is specified by the stream
  of its accepted frames and the reader's last offset (\<open>file_spec\<close>), without ring or
  audit lines.
\<close>

subsection \<open>Audit lines and errors\<close>

datatype telemetry_audit_level = AuditInfo | AuditWarn

record telemetry_audit =
  ta_level :: telemetry_audit_level
  ta_message :: string

definition telemetry_audit_new :: "telemetry_audit_level \<Rightarrow> string \<Rightarrow> telemetry_audit" where
  "telemetry_audit_new l m = \<lparr>ta_level = l, ta_message = m\<rparr>"

datatype telemetry_frame_schema = LegacyPlaintext | CborV1

record telemetry_config =
  ring_bytes_per_worker :: nat
  tc_frame_schema :: telemetry_frame_schema
  tc_retain_on_boot :: bool

definition telemetry_config_default :: telemetry_config where
  "telemetry_config_default = \<lparr>ring_bytes_per_worker = 1024,
     tc_frame_schema = LegacyPlaintext, tc_retain_on_boot = False\<rparr>"

datatype telemetry_error_kind = InvalidOffset | InvalidFrame | QuotaExceeded | CursorStale

record telemetry_error =
  te_message :: string
  te_audit :: "telemetry_audit option"
  te_kind :: telemetry_error_kind

record telemetry_append_outcome =
  tao_count :: nat
  tao_audit :: "telemetry_audit option"

record telemetry_read_outcome =
  tro_data :: bytes
  tro_audit :: "telemetry_audit option"

subsection \<open>The cursor\<close>

definition default_max_rewind_bytes :: nat where
  "default_max_rewind_bytes = 1024"

record telemetry_cursor =
  retain_on_boot :: bool
  last_offset :: "nat option"
  max_rewind :: nat

datatype cursor_error =
  CurStale nat nat telemetry_audit
| CurRewindExceeded nat nat nat telemetry_audit

definition cursor_tracker_new :: "bool \<Rightarrow> nat \<Rightarrow> telemetry_cursor" where
  "cursor_tracker_new retain ring_capacity =
     \<lparr>retain_on_boot = retain, last_offset = None,
      max_rewind = min default_max_rewind_bytes ring_capacity\<rparr>"

definition cursor_snapshot :: "telemetry_cursor \<Rightarrow> nat option" where
  "cursor_snapshot c = last_offset c"

definition restore_last_offset ::
  "telemetry_cursor \<Rightarrow> nat option \<Rightarrow> nat \<Rightarrow> nat \<Rightarrow> telemetry_cursor" where
  "restore_last_offset c lst base next = (case lst of
     None \<Rightarrow> c
   | Some offset \<Rightarrow>
       if offset < base \<or> offset > next then c else c\<lparr>last_offset := Some offset\<rparr>)"

definition cursor_clamp ::
  "nat \<Rightarrow> nat \<Rightarrow> cursor_error + (nat \<times> telemetry_audit option)" where
  "cursor_clamp requested next =
     (if requested > next then
        Ok (next, Some (telemetry_audit_new AuditInfo
          (''telemetry cursor clamped requested='' @ show_nat requested
             @ '' end='' @ show_nat next)))
      else Ok (requested, None))"

definition cursor_resolve ::
  "telemetry_cursor \<Rightarrow> nat \<Rightarrow> nat \<Rightarrow> nat \<Rightarrow> cursor_error + (nat \<times> telemetry_audit option)" where
  "cursor_resolve c requested base next =
     (if requested < base then
        Err (CurStale requested base (telemetry_audit_new AuditWarn
          (''telemetry cursor stale requested='' @ show_nat requested
             @ '' rewind_to='' @ show_nat base
             @ '' retain_on_boot='' @ show_bool (retain_on_boot c))))
      else case last_offset c of
        None \<Rightarrow> cursor_clamp requested next
      | Some lst \<Rightarrow>
          if requested < lst then
            let rewind = lst - requested
            in if rewind > max_rewind c then
                 Err (CurRewindExceeded requested lst base (telemetry_audit_new AuditWarn
                   (''telemetry cursor rewind exceeded requested='' @ show_nat requested
                      @ '' last='' @ show_nat lst
                      @ '' max_rewind='' @ show_nat (max_rewind c)
                      @ '' rewind_to='' @ show_nat base
                      @ '' retain_on_boot='' @ show_bool (retain_on_boot c))))
               else
                 Ok (requested, Some (telemetry_audit_new AuditInfo
                   (''telemetry cursor rewind requested='' @ show_nat requested
                      @ '' last='' @ show_nat lst
                      @ '' bytes='' @ show_nat rewind)))
          else cursor_clamp requested next)"

definition cursor_advance :: "telemetry_cursor \<Rightarrow> nat \<Rightarrow> telemetry_cursor" where
  "cursor_advance c offset = c\<lparr>last_offset := Some offset\<rparr>"

subsection \<open>Files\<close>

record telemetry_file =
  tf_ring :: telemetry_ring
  tf_cursor :: telemetry_cursor
  tf_frame_schema :: telemetry_frame_schema

record telemetry_manifest_entry =
  me_ring :: telemetry_ring_snapshot
  me_cursor :: "nat option"
  me_frame_schema :: telemetry_frame_schema

definition telemetry_file_new :: "telemetry_config \<Rightarrow> telemetry_file" where
  "telemetry_file_new config =
     (let r = ring_new (ring_bytes_per_worker config)
      in \<lparr>tf_ring = r, tf_cursor = cursor_tracker_new (tc_retain_on_boot config) (capacity r),
          tf_frame_schema = tc_frame_schema config\<rparr>)"

definition telemetry_file_restore ::
  "telemetry_config \<Rightarrow> telemetry_manifest_entry \<Rightarrow> telemetry_file option" where
  "telemetry_file_restore config m =
     (if me_frame_schema m \<noteq> tc_frame_schema config then None
      else if s_capacity (me_ring m) \<noteq> ring_bytes_per_worker config then None
      else case ring_restore (me_ring m) of
        None \<Rightarrow> None
      | Some r \<Rightarrow>
          let c = cursor_tracker_new (tc_retain_on_boot config) (capacity r);
              c' = (if tc_retain_on_boot config
                    then restore_last_offset c (me_cursor m) (base_offset r) (next_offset r)
                    else c)
          in Some \<lparr>tf_ring = r, tf_cursor = c', tf_frame_schema = tc_frame_schema config\<rparr>)"

definition telemetry_file_snapshot :: "telemetry_file \<Rightarrow> telemetry_manifest_entry" where
  "telemetry_file_snapshot f = \<lparr>me_ring = ring_snapshot (tf_ring f),
     me_cursor = cursor_snapshot (tf_cursor f), me_frame_schema = tf_frame_schema f\<rparr>"

definition quota_error :: "nat \<Rightarrow> nat \<Rightarrow> telemetry_error" where
  "quota_error requested cap =
     \<lparr>te_message = ''telemetry frame exceeds ring quota: '' @ show_nat requested
        @ '' > '' @ show_nat cap,
      te_audit = Some (telemetry_audit_new AuditWarn
        (''telemetry quota reject bytes='' @ show_nat requested @ '' quota='' @ show_nat cap)),
      te_kind = QuotaExceeded\<rparr>"

definition offset_rejected :: "append_only_offset_error \<Rightarrow> telemetry_error" where
  "offset_rejected e =
     (let m = ''telemetry append offset rejected: '' @ append_only_offset_error_display e
      in \<lparr>te_message = m, te_audit = Some (telemetry_audit_new AuditWarn m),
          te_kind = InvalidOffset\<rparr>)"

definition non_utf8_error :: telemetry_error where
  "non_utf8_error =
     \<lparr>te_message = ''telemetry frame must be UTF-8 under legacy schema'',
      te_audit = Some (telemetry_audit_new AuditWarn
        ''telemetry frame rejected: non-utf8 payload under legacy schema''),
      te_kind = InvalidFrame\<rparr>"

definition telemetry_append ::
  "telemetry_file \<Rightarrow> nat \<Rightarrow> bytes \<Rightarrow> (telemetry_error + telemetry_append_outcome) \<times> telemetry_file" where
  "telemetry_append f offset data =
     (if tf_frame_schema f = LegacyPlaintext \<and> from_utf8 data = None then (Err non_utf8_error, f)
      else
        let expected = next_offset (tf_ring f);
            provided = (if offset = u64_max then expected else offset)
        in case append_only_write_bounds expected provided (capacity (tf_ring f)) (length data) of
             Inl e \<Rightarrow> (Err (offset_rejected e), f)
           | Inr b \<Rightarrow>
               if awb_short b then (Err (quota_error (length data) (capacity (tf_ring f))), f)
               else case ring_append (tf_ring f) data of
                 (Inl (RingOversize requested cap), r) \<Rightarrow>
                   (Err (quota_error requested cap), f\<lparr>tf_ring := r\<rparr>)
               | (Inr out, r) \<Rightarrow>
                   (Ok \<lparr>tao_count = rw_count out,
                        tao_audit =
                          (if rw_dropped_bytes out > 0 then
                             Some (telemetry_audit_new AuditWarn
                               (''telemetry ring wrap dropped_bytes=''
                                  @ show_nat (rw_dropped_bytes out)
                                  @ '' new_base='' @ show_nat (rw_new_base out)))
                           else None)\<rparr>,
                    f\<lparr>tf_ring := r\<rparr>))"

definition cursor_refused :: "cursor_error \<Rightarrow> telemetry_error" where
  "cursor_refused e = (case e of
     CurStale requested rewind_to audit \<Rightarrow>
       \<lparr>te_message = ''telemetry cursor stale requested='' @ show_nat requested
          @ '' rewind_to='' @ show_nat rewind_to,
        te_audit = Some audit, te_kind = CursorStale\<rparr>
   | CurRewindExceeded requested lst rewind_to audit \<Rightarrow>
       \<lparr>te_message = ''telemetry cursor rewind exceeded requested='' @ show_nat requested
          @ '' last='' @ show_nat lst @ '' rewind_to='' @ show_nat rewind_to,
        te_audit = Some audit, te_kind = CursorStale\<rparr>)"

definition ring_refused :: "ring_read_error \<Rightarrow> telemetry_error" where
  "ring_refused e = (case e of RingStale requested available_start \<Rightarrow>
     let m = ''telemetry cursor stale requested='' @ show_nat requested
               @ '' rewind_to='' @ show_nat available_start
     in \<lparr>te_message = m, te_audit = Some (telemetry_audit_new AuditWarn m),
         te_kind = CursorStale\<rparr>)"

definition telemetry_read ::
  "telemetry_file \<Rightarrow> nat \<Rightarrow> nat \<Rightarrow> (telemetry_error + telemetry_read_outcome) \<times> telemetry_file" where
  "telemetry_read f offset count =
     (case cursor_resolve (tf_cursor f) offset
             (base_offset (tf_ring f)) (next_offset (tf_ring f)) of
        Inl e \<Rightarrow> (Err (cursor_refused e), f)
      | Inr (offset', audit) \<Rightarrow>
          (case ring_read (tf_ring f) offset' count of
             Inl e \<Rightarrow> (Err (ring_refused e), f)
           | Inr data \<Rightarrow>
               (Ok \<lparr>tro_data = data, tro_audit = audit\<rparr>,
                f\<lparr>tf_cursor := cursor_advance (tf_cursor f) (sat_add offset' (length data))\<rparr>)))"

subsection \<open>The manifest store\<close>

type_synonym telemetry_manifest_store = "string \<rightharpoonup> telemetry_manifest_entry"

definition restore_file ::
  "telemetry_manifest_store \<Rightarrow> string \<Rightarrow> telemetry_config \<Rightarrow> telemetry_file option" where
  "restore_file store worker_id config =
     (if \<not> tc_retain_on_boot config then None
      else case store worker_id of
        None \<Rightarrow> None
      | Some entry \<Rightarrow> telemetry_file_restore config entry)"

definition persist_snapshot ::
  "telemetry_manifest_store \<Rightarrow> string \<Rightarrow> telemetry_manifest_entry \<Rightarrow> telemetry_manifest_store" where
  "persist_snapshot store worker_id entry = store(worker_id \<mapsto> entry)"

definition clear_worker :: "telemetry_manifest_store \<Rightarrow> string \<Rightarrow> telemetry_manifest_store" where
  "clear_worker store worker_id = store(worker_id := None)"

subsection \<open>The file as a stream\<close>

record file_spec =
  fp_stream :: bytes
  fp_last :: "nat option"

definition spec_append ::
  "nat \<Rightarrow> telemetry_frame_schema \<Rightarrow> file_spec \<Rightarrow> nat \<Rightarrow> bytes \<Rightarrow>
    (telemetry_error_kind + nat) \<times> file_spec" where
  "spec_append cap schema sp offset data =
     (if schema = LegacyPlaintext \<and> \<not> utf8_valid data then (Err InvalidFrame, sp)
      else if offset \<noteq> u64_max \<and> offset \<noteq> length (fp_stream sp) then (Err InvalidOffset, sp)
      else if cap < length data then (Err QuotaExceeded, sp)
      else (Ok (length data mod 2 ^ 32), sp\<lparr>fp_stream := fp_stream sp @ data\<rparr>))"

definition spec_read ::
  "nat \<Rightarrow> file_spec \<Rightarrow> nat \<Rightarrow> nat \<Rightarrow> (telemetry_error_kind + bytes) \<times> file_spec" where
  "spec_read cap sp offset count =
     (let s = fp_stream sp;
          back = (case fp_last sp of None \<Rightarrow> 0 | Some l \<Rightarrow> l - offset);
          data = take count (drop offset s)
      in if offset < length s - cap \<or> back > min default_max_rewind_bytes cap
         then (Err CursorStale, sp)
         else (Ok data, sp\<lparr>fp_last := Some (min offset (length s) + length data)\<rparr>))"

datatype file_event = FileAppend nat bytes | FileRead nat nat

datatype 'e file_outcome = Appended "'e + nat" | Fetched "'e + bytes"

primrec file_event_size :: "file_event \<Rightarrow> nat" where
  "file_event_size (FileAppend offset data) = length data"
| "file_event_size (FileRead offset count) = 0"

primrec spec_exec ::
  "nat \<Rightarrow> telemetry_frame_schema \<Rightarrow> file_spec \<Rightarrow> file_event \<Rightarrow>
    telemetry_error_kind file_outcome \<times> file_spec" where
  "spec_exec cap schema sp (FileAppend offset data) =
     map_prod Appended id (spec_append cap schema sp offset data)"
| "spec_exec cap schema sp (FileRead offset count) =
     map_prod Fetched id (spec_read cap sp offset count)"

primrec file_exec :: "telemetry_file \<Rightarrow> file_event \<Rightarrow> telemetry_error file_outcome \<times> telemetry_file" where
  "file_exec f (FileAppend offset data) =
     map_prod (Appended \<circ> map_sum id tao_count) id (telemetry_append f offset data)"
| "file_exec f (FileRead offset count) =
     map_prod (Fetched \<circ> map_sum id tro_data) id (telemetry_read f offset count)"

text \<open>The outcomes of a sequence of operations.\<close>

primrec run_outcomes :: "('s \<Rightarrow> 'e \<Rightarrow> 'o \<times> 's) \<Rightarrow> 's \<Rightarrow> 'e list \<Rightarrow> 'o list" where
  "run_outcomes step s [] = []"
| "run_outcomes step s (e # es) =
     (case step s e of (out, s') \<Rightarrow> out # run_outcomes step s' es)"

definition file_rel :: "telemetry_file \<Rightarrow> file_spec \<Rightarrow> bool" where
  "file_rel f sp \<longleftrightarrow>
     ring_rep (tf_ring f) (fp_stream sp) \<and> length (fp_stream sp) \<le> u64_max \<and>
     last_offset (tf_cursor f) = fp_last sp \<and>
     (\<forall>l. fp_last sp = Some l \<longrightarrow> l \<le> length (fp_stream sp)) \<and>
     max_rewind (tf_cursor f) = min default_max_rewind_bytes (capacity (tf_ring f))"

lemma file_rel_new:
  "file_rel (telemetry_file_new config) \<lparr>fp_stream = [], fp_last = None\<rparr>"
  by (simp add: file_rel_def telemetry_file_new_def cursor_tracker_new_def Let_def ring_rep_new)

lemma telemetry_append_sim:
  fixes offset :: nat
  assumes rel: "file_rel f sp" and u: "length (fp_stream sp) + length data \<le> u64_max"
  defines "m \<equiv> telemetry_append f offset data"
    and "a \<equiv> spec_append (capacity (tf_ring f)) (tf_frame_schema f) sp offset data"
  shows "map_sum te_kind tao_count (fst m) = fst a" and "file_rel (snd m) (snd a)"
    and "capacity (tf_ring (snd m)) = capacity (tf_ring f)"
    and "tf_frame_schema (snd m) = tf_frame_schema f"
proof -
  from rel have rep: "ring_rep (tf_ring f) (fp_stream sp)"
    and n: "next_offset (tf_ring f) = length (fp_stream sp)"
    by (auto simp: file_rel_def ring_rep_def)
  note fits = ring_append_rep [OF rep _ u]
  have cnt: "fst (ring_append (tf_ring f) data) = Inr out \<Longrightarrow> rw_count out = length data mod 2 ^ 32"
    for out
    by (auto simp: ring_append_def Let_def split: if_splits)
  note defs = m_def a_def telemetry_append_def spec_append_def Let_def
    append_only_write_bounds_def n from_utf8_def non_utf8_error_def offset_rejected_def
    quota_error_def
  consider "capacity (tf_ring f) < length data"
    | out r where "length data \<le> capacity (tf_ring f)" "ring_append (tf_ring f) data = (Inr out, r)"
      "ring_rep r (fp_stream sp @ data)" "capacity r = capacity (tf_ring f)"
    using fits ring_append_capacity [of "tf_ring f" data]
    by (cases "ring_append (tf_ring f) data"; cases "fst (ring_append (tf_ring f) data)") force+
  then have "map_sum te_kind tao_count (fst m) = fst a \<and> file_rel (snd m) (snd a) \<and>
      capacity (tf_ring (snd m)) = capacity (tf_ring f) \<and> tf_frame_schema (snd m) = tf_frame_schema f"
  proof cases
    case 1
    then show ?thesis using rel by (auto simp: defs)
  next
    case 2
    then have "rw_count out = length data mod 2 ^ 32" using cnt by simp
    with 2 show ?thesis using rel u by (auto simp: defs file_rel_def)
  qed
  then show "map_sum te_kind tao_count (fst m) = fst a" "file_rel (snd m) (snd a)"
    "capacity (tf_ring (snd m)) = capacity (tf_ring f)" "tf_frame_schema (snd m) = tf_frame_schema f"
    by simp_all
qed

lemma telemetry_read_sim:
  fixes offset count :: nat
  assumes rel: "file_rel f sp"
  defines "m \<equiv> telemetry_read f offset count"
    and "a \<equiv> spec_read (capacity (tf_ring f)) sp offset count"
  shows "map_sum te_kind tro_data (fst m) = fst a" and "file_rel (snd m) (snd a)"
    and "tf_ring (snd m) = tf_ring f" and "tf_frame_schema (snd m) = tf_frame_schema f"
proof -
  from rel have rep: "ring_rep (tf_ring f) (fp_stream sp)"
    and n: "next_offset (tf_ring f) = length (fp_stream sp)"
    and b: "base_offset (tf_ring f) = length (fp_stream sp) - capacity (tf_ring f)"
    by (auto simp: file_rel_def ring_rep_def)
  have "map_sum te_kind tro_data (fst m) = fst a \<and> file_rel (snd m) (snd a) \<and>
      tf_ring (snd m) = tf_ring f \<and> tf_frame_schema (snd m) = tf_frame_schema f"
    using rel
    by (cases "fp_last sp")
      (auto simp: m_def a_def telemetry_read_def spec_read_def Let_def cursor_resolve_def n b
        ring_read_rep [OF rep] cursor_clamp_def cursor_refused_def ring_refused_def file_rel_def
        cursor_advance_def min_def sat_add_def)
  then show "map_sum te_kind tro_data (fst m) = fst a" "file_rel (snd m) (snd a)"
    "tf_ring (snd m) = tf_ring f" "tf_frame_schema (snd m) = tf_frame_schema f"
    by simp_all
qed

abbreviation exec_state :: "telemetry_file \<Rightarrow> file_event \<Rightarrow> telemetry_file" where
  "exec_state f e \<equiv> snd (file_exec f e)"

definition same_config :: "telemetry_file \<Rightarrow> telemetry_file \<Rightarrow> bool" where
  "same_config f g \<longleftrightarrow> capacity (tf_ring f) = capacity (tf_ring g) \<and>
     tf_frame_schema f = tf_frame_schema g \<and>
     retain_on_boot (tf_cursor f) = retain_on_boot (tf_cursor g)"

lemma telemetry_append_cursor [simp]: "tf_cursor (snd (telemetry_append f offset data)) = tf_cursor f"
  by (auto simp: telemetry_append_def Let_def split: sum.splits prod.splits ring_write_error.splits)

lemma telemetry_read_retain [simp]:
  "retain_on_boot (tf_cursor (snd (telemetry_read f offset count))) = retain_on_boot (tf_cursor f)"
  by (auto simp: telemetry_read_def cursor_advance_def split: sum.splits prod.splits)

lemma file_exec_sim:
  assumes rel: "file_rel f sp" and u: "length (fp_stream sp) + file_event_size e \<le> u64_max"
  obtains f' sp' out where
    "file_exec f e = (out, f')"
    "spec_exec (capacity (tf_ring f)) (tf_frame_schema f) sp e = (map_file_outcome te_kind out, sp')"
    "file_rel f' sp'" "same_config f' f"
    "length (fp_stream sp') \<le> length (fp_stream sp) + file_event_size e"
proof (cases e)
  case (FileAppend offset data)
  let ?m = "telemetry_append f offset data"
    and ?a = "spec_append (capacity (tf_ring f)) (tf_frame_schema f) sp offset data"
  have u': "length (fp_stream sp) + length data \<le> u64_max" using u FileAppend by simp
  note sim = telemetry_append_sim [OF rel u', of offset]
  have "map_sum te_kind id (map_sum id tao_count (fst ?m)) = fst ?a"
    using sim(1) by (simp add: sum.map_comp)
  moreover have "length (fp_stream (snd ?a)) \<le> length (fp_stream sp) + length data"
    by (simp add: spec_append_def)
  ultimately show ?thesis
    using sim(2-4) FileAppend
    by (intro that [of "Appended (map_sum id tao_count (fst ?m))" "snd ?m" "snd ?a"])
      (simp_all add: same_config_def map_prod_def split_beta)
next
  case (FileRead offset count)
  let ?m = "telemetry_read f offset count" and ?a = "spec_read (capacity (tf_ring f)) sp offset count"
  note sim = telemetry_read_sim [OF rel, of offset count]
  have "map_sum te_kind id (map_sum id tro_data (fst ?m)) = fst ?a"
    using sim(1) by (simp add: sum.map_comp)
  moreover have "fp_stream (snd ?a) = fp_stream sp"
    by (simp add: spec_read_def Let_def)
  ultimately show ?thesis
    using sim(2-4) FileRead
    by (intro that [of "Fetched (map_sum id tro_data (fst ?m))" "snd ?m" "snd ?a"])
      (simp_all add: same_config_def map_prod_def split_beta)
qed

lemma file_run_sim:
  "file_rel f sp \<Longrightarrow> length (fp_stream sp) + sum_list (map file_event_size es) \<le> u64_max \<Longrightarrow>
    map (map_file_outcome te_kind) (run_outcomes file_exec f es) =
      run_outcomes (spec_exec (capacity (tf_ring f)) (tf_frame_schema f)) sp es"
proof (induction es arbitrary: f sp)
  case (Cons e es)
  from Cons.prems have "length (fp_stream sp) + file_event_size e \<le> u64_max" by simp
  from file_exec_sim [OF Cons.prems(1) this] obtain f' sp' out where
    step: "file_exec f e = (out, f')"
      "spec_exec (capacity (tf_ring f)) (tf_frame_schema f) sp e = (map_file_outcome te_kind out, sp')"
    and rel: "file_rel f' sp'" and cfg: "same_config f' f"
    and len: "length (fp_stream sp') \<le> length (fp_stream sp) + file_event_size e" .
  from len Cons.prems(2) have "length (fp_stream sp') + sum_list (map file_event_size es) \<le> u64_max"
    by simp
  from Cons.IH [OF rel this] step cfg show ?case by (simp add: same_config_def)
qed simp

lemma file_run_rel:
  "file_rel f sp \<Longrightarrow> length (fp_stream sp) + sum_list (map file_event_size es) \<le> u64_max \<Longrightarrow>
    \<exists>sp'. file_rel (foldl exec_state f es) sp' \<and> same_config (foldl exec_state f es) f"
proof (induction es arbitrary: f sp)
  case Nil
  then show ?case by (auto simp: same_config_def)
next
  case (Cons e es)
  from Cons.prems have "length (fp_stream sp) + file_event_size e \<le> u64_max" by simp
  from file_exec_sim [OF Cons.prems(1) this] obtain f' sp' out where
    step: "file_exec f e = (out, f')" and rel: "file_rel f' sp'" and cfg: "same_config f' f"
    and len: "length (fp_stream sp') \<le> length (fp_stream sp) + file_event_size e" .
  from len Cons.prems(2) have "length (fp_stream sp') + sum_list (map file_event_size es) \<le> u64_max"
    by simp
  from Cons.IH [OF rel this] step cfg show ?case by (auto simp: same_config_def)
qed

lemma capacity_file_new [simp]:
  "capacity (tf_ring (telemetry_file_new config)) = max (ring_bytes_per_worker config) 1"
  "tf_frame_schema (telemetry_file_new config) = tc_frame_schema config"
  "retain_on_boot (tf_cursor (telemetry_file_new config)) = tc_retain_on_boot config"
  by (simp_all add: telemetry_file_new_def ring_new_def cursor_tracker_new_def Let_def)

text \<open>
  C4: A telemetry file behaves as the stream of its accepted frames. For every sequence of
  appends and reads at any offsets, each append and each read of the file returns what
  the stream specification returns: a frame is refused when it is not UTF-8 under the
  legacy schema, not at the end of the stream (\<open>u64::MAX\<close> stands for the end) or larger
  than the ring; a read returns the bytes of the stream at its offset, and is refused
  exactly when the offset has left the ring's window or goes back further than the
  rewind bound from the last byte read.
\<close>

theorem telemetry_file_refines_stream:
  assumes "sum_list (map file_event_size es) \<le> u64_max"
  shows "map (map_file_outcome te_kind) (run_outcomes file_exec (telemetry_file_new config) es) =
    run_outcomes (spec_exec (max (ring_bytes_per_worker config) 1) (tc_frame_schema config))
      \<lparr>fp_stream = [], fp_last = None\<rparr> es"
  using file_run_sim [OF file_rel_new, of es config] assms by simp

theorem telemetry_file_refines_stream_witness:
  "map (map_file_outcome te_kind)
     (run_outcomes file_exec (telemetry_file_new telemetry_config_default)
       [FileAppend 0 [104, 105], FileAppend 0 [33], FileAppend u64_max [33], FileRead 1 9]) =
   [Appended (Ok 2), Appended (Err InvalidOffset), Appended (Ok 1), Fetched (Ok [105, 33])]"
  by (subst telemetry_file_refines_stream)
    (simp_all add: u64_max_def telemetry_config_default_def spec_append_def spec_read_def
      default_max_rewind_bytes_def)

subsection \<open>Rewind hints\<close>

text \<open>
  The offset a refused rewind tells the reader to go to is refused as well. When a
  read is refused because it goes back too far, its \<open>rewind_to\<close> is the base of the ring,
  which is at least as far back: a reader that follows the hint gets the same refusal.
\<close>

theorem rewind_hint_refused:
  assumes "cursor_resolve c requested base next = Err (CurRewindExceeded r l rewind_to audit)"
  shows "\<exists>audit'. cursor_resolve c rewind_to base next =
    Err (CurRewindExceeded rewind_to l rewind_to audit')"
  using assms
  by (auto simp: cursor_resolve_def cursor_clamp_def Let_def split: if_splits option.splits)

theorem rewind_hint_refused_witness:
  "\<exists>audit'. cursor_resolve (cursor_advance (cursor_tracker_new False 4096) 3000) 0 0 3000 =
    Err (CurRewindExceeded 0 3000 0 audit')"
proof -
  have "cursor_resolve (cursor_advance (cursor_tracker_new False 4096) 3000) 100 0 3000 =
      Err (CurRewindExceeded 100 3000 0 (telemetry_audit_new AuditWarn
        (''telemetry cursor rewind exceeded requested='' @ show_nat 100 @ '' last='' @ show_nat 3000
          @ '' max_rewind='' @ show_nat 1024 @ '' rewind_to='' @ show_nat 0
          @ '' retain_on_boot='' @ show_bool False)))"
    by (simp add: cursor_resolve_def cursor_advance_def cursor_tracker_new_def
        default_max_rewind_bytes_def Let_def)
  then show ?thesis by (rule rewind_hint_refused)
qed

subsection \<open>Reboots\<close>

text \<open>
  Two files a reader cannot tell apart: the last offset may be forgotten once it has left
  the window, since then no read the ring still serves goes back from it.
\<close>

definition same_view :: "telemetry_file \<Rightarrow> telemetry_file \<Rightarrow> bool" where
  "same_view f g \<longleftrightarrow>
     tf_ring f = tf_ring g \<and> tf_frame_schema f = tf_frame_schema g \<and>
     base_offset (tf_ring f) \<le> u64_max \<and>
     (tf_cursor f = tf_cursor g \<or>
      (\<exists>l. last_offset (tf_cursor f) = Some l \<and> l < base_offset (tf_ring f) \<and>
         tf_cursor g = tf_cursor f\<lparr>last_offset := None\<rparr>))"

lemma ring_append_base:
  "base_offset r \<le> u64_max \<Longrightarrow>
    base_offset r \<le> base_offset (snd (ring_append r d)) \<and>
    base_offset (snd (ring_append r d)) \<le> u64_max"
  by (auto simp: ring_append_def Let_def sat_add_def)

lemma telemetry_append_ring:
  "tf_ring (snd (telemetry_append f offset data)) = tf_ring f \<or>
   tf_ring (snd (telemetry_append f offset data)) = snd (ring_append (tf_ring f) data)"
  by (auto simp: telemetry_append_def Let_def split: sum.splits prod.splits ring_write_error.splits)

lemma telemetry_append_congs:
  assumes "tf_ring f = tf_ring g" and "tf_frame_schema f = tf_frame_schema g"
  shows "fst (telemetry_append f offset data) = fst (telemetry_append g offset data)"
    and "tf_ring (snd (telemetry_append f offset data)) = tf_ring (snd (telemetry_append g offset data))"
    and "tf_frame_schema (snd (telemetry_append f offset data)) = tf_frame_schema f"
  using assms
  by (auto simp: telemetry_append_def Let_def split: sum.splits prod.splits ring_write_error.splits)

lemma same_view_append:
  assumes "same_view f g"
  shows "fst (telemetry_append f offset data) = fst (telemetry_append g offset data)"
    and "same_view (snd (telemetry_append f offset data)) (snd (telemetry_append g offset data))"
proof -
  from assms have fg: "tf_ring f = tf_ring g" "tf_frame_schema f = tf_frame_schema g"
    and b: "base_offset (tf_ring f) \<le> u64_max"
    by (auto simp: same_view_def)
  note c = telemetry_append_congs [OF fg, of offset data]
    telemetry_append_congs(3) [OF refl refl, of g offset data]
  show "fst (telemetry_append f offset data) = fst (telemetry_append g offset data)" by (rule c)
  let ?r = "tf_ring (snd (telemetry_append f offset data))"
  have "base_offset (tf_ring f) \<le> base_offset ?r \<and> base_offset ?r \<le> u64_max"
    using telemetry_append_ring [of f offset data] ring_append_base [OF b, of data] b by auto
  then show "same_view (snd (telemetry_append f offset data)) (snd (telemetry_append g offset data))"
    using assms c by (auto simp: same_view_def)
qed

lemma same_view_read:
  assumes "same_view f g"
  shows "fst (telemetry_read f offset count) = fst (telemetry_read g offset count)"
    and "same_view (snd (telemetry_read f offset count)) (snd (telemetry_read g offset count))"
proof -
  let ?b = "base_offset (tf_ring f)" and ?n = "next_offset (tf_ring f)"
  have r: "cursor_resolve (tf_cursor f) offset ?b ?n = cursor_resolve (tf_cursor g) offset ?b ?n"
  proof (cases "tf_cursor f = tf_cursor g")
    case False
    with assms obtain l where "last_offset (tf_cursor f) = Some l" "l < ?b"
      "tf_cursor g = tf_cursor f\<lparr>last_offset := None\<rparr>"
      by (auto simp: same_view_def)
    then show ?thesis by (simp add: cursor_resolve_def)
  qed simp
  have a: "cursor_advance (tf_cursor f) k = cursor_advance (tf_cursor g) k" for k
    using assms by (auto simp: same_view_def cursor_advance_def)
  from assms have fg: "tf_ring g = tf_ring f" "tf_frame_schema g = tf_frame_schema f"
    by (simp_all add: same_view_def)
  show "fst (telemetry_read f offset count) = fst (telemetry_read g offset count)"
    unfolding telemetry_read_def fg r by (simp split: sum.split prod.split)
  show "same_view (snd (telemetry_read f offset count)) (snd (telemetry_read g offset count))"
    using assms unfolding telemetry_read_def fg r a
    by (auto simp: same_view_def split: sum.split)
qed

lemma same_view_run:
  "same_view f g \<Longrightarrow> run_outcomes file_exec f es = run_outcomes file_exec g es"
proof (induction es arbitrary: f g)
  case (Cons e es)
  show ?case
  proof (cases e)
    case (FileAppend offset data)
    with same_view_append [OF Cons.prems, of offset data] Cons.IH show ?thesis
      by (simp add: split_beta)
  next
    case (FileRead offset count)
    with same_view_read [OF Cons.prems, of offset count] Cons.IH show ?thesis
      by (simp add: split_beta)
  qed
qed simp

text \<open>
  C21: A reboot is invisible to a worker's telemetry. With \<open>retain_on_boot\<close>, a file that was
  used in any way, persisted as a snapshot and restored from the manifest store under
  the same configuration answers every later sequence of appends and reads as the file
  before the reboot would have.
\<close>

theorem telemetry_reboot_invisible:
  assumes "tc_retain_on_boot config" and "0 < ring_bytes_per_worker config"
    and "sum_list (map file_event_size es) \<le> u64_max"
  defines "f \<equiv> foldl exec_state (telemetry_file_new config) es"
  shows "\<exists>g. restore_file (persist_snapshot store w (telemetry_file_snapshot f)) w config = Some g \<and>
    run_outcomes file_exec g later = run_outcomes file_exec f later"
proof -
  obtain sp where rel: "file_rel f sp" and cfg: "same_config f (telemetry_file_new config)"
    using file_run_rel [OF file_rel_new, of es config] assms(3) by (auto simp: f_def)
  then have rep: "ring_rep (tf_ring f) (fp_stream sp)" and inv: "ring_inv (tf_ring f)"
    by (auto simp: file_rel_def ring_rep_inv)
  from rel rep have b: "base_offset (tf_ring f) \<le> u64_max"
    and n: "next_offset (tf_ring f) = length (fp_stream sp)"
    by (auto simp: file_rel_def ring_rep_def)
  let ?c = "cursor_tracker_new True (capacity (tf_ring f))"
  let ?g = "\<lparr>tf_ring = tf_ring f, tf_cursor = restore_last_offset ?c (last_offset (tf_cursor f))
      (base_offset (tf_ring f)) (next_offset (tf_ring f)), tf_frame_schema = tf_frame_schema f\<rparr>"
  have "restore_file (persist_snapshot store w (telemetry_file_snapshot f)) w config = Some ?g"
    using cfg assms(1,2) ring_restore_snapshot [OF inv]
    by (simp add: restore_file_def persist_snapshot_def telemetry_file_snapshot_def cursor_snapshot_def
        telemetry_file_restore_def same_config_def ring_snapshot_def)
  moreover have "same_view f ?g"
    using rel cfg assms(1) b n
    by (cases "tf_cursor f"; cases "fp_last sp")
      (auto simp: same_view_def restore_last_offset_def cursor_tracker_new_def file_rel_def
        same_config_def)
  then have "run_outcomes file_exec ?g later = run_outcomes file_exec f later"
    using same_view_run by metis
  ultimately show ?thesis by blast
qed

theorem telemetry_reboot_invisible_witness:
  "\<exists>g. restore_file
      (persist_snapshot Map.empty ''worker-1'' (telemetry_file_snapshot
        (foldl exec_state (telemetry_file_new (telemetry_config_default\<lparr>tc_retain_on_boot := True\<rparr>))
          [FileAppend 0 [104, 105], FileRead 0 1])))
      ''worker-1'' (telemetry_config_default\<lparr>tc_retain_on_boot := True\<rparr>) = Some g \<and>
    run_outcomes file_exec g [FileRead 1 4] =
      run_outcomes file_exec (foldl exec_state
        (telemetry_file_new (telemetry_config_default\<lparr>tc_retain_on_boot := True\<rparr>))
        [FileAppend 0 [104, 105], FileRead 0 1]) [FileRead 1 4]"
  by (rule telemetry_reboot_invisible) (simp_all add: telemetry_config_default_def u64_max_def)

end
