(* ===== verification/Telemetry_Ingest.thy ===== *)
theory Telemetry_Ingest
  imports Cohesix_Prelude "HOL-Library.Multiset"
begin

section \<open>Telemetry ingest\<close>

text \<open>
  The segment accounting of \<open>apps/nine-door/src/host/telemetry/ingest.rs\<close>: per device a
  queue of segments with their sizes, quotas on their number and bytes, and an
  eviction policy. The lemmas show that the quotas hold in every reachable state and
  that eviction is oldest-first and no larger than needed.
\<close>

definition max_telemetry_record_bytes :: nat where
  "max_telemetry_record_bytes = 4096"

datatype eviction_policy = Refuse | EvictOldest

record ingest_config =
  max_segments_per_device :: nat
  max_bytes_per_segment :: nat
  max_total_bytes_per_device :: nat
  eviction_policy :: eviction_policy

definition ingest_enabled :: "ingest_config \<Rightarrow> bool" where
  "ingest_enabled c \<longleftrightarrow>
     0 < max_segments_per_device c \<and> 0 < max_bytes_per_segment c \<and>
     0 < max_total_bytes_per_device c"

definition ingest_config_default :: ingest_config where
  "ingest_config_default = \<lparr>max_segments_per_device = 4, max_bytes_per_segment = 32 * 1024,
     max_total_bytes_per_device = 128 * 1024, eviction_policy = EvictOldest\<rparr>"

datatype ingest_error_kind = IngestDisabled | IngestQuotaExceeded | IngestSegmentMissing

record ingest_error =
  ie_kind :: ingest_error_kind
  ie_message :: string

record segment_state =
  seg_id :: string
  seg_bytes :: nat

record device_state =
  next_id :: nat
  total_bytes :: nat
  segments :: "segment_state list"

definition device_new :: device_state where
  "device_new = \<lparr>next_id = 1, total_bytes = 0, segments = []\<rparr>"

definition allocate_id :: "device_state \<Rightarrow> string \<times> device_state" where
  "allocate_id d = (''seg-'' @ show_nat_06 (next_id d), d\<lparr>next_id := sat_add (next_id d) 1\<rparr>)"

record ingest_state =
  ig_config :: ingest_config
  ig_devices :: "string \<rightharpoonup> device_state"

definition ingest_new :: "ingest_config \<Rightarrow> ingest_state" where
  "ingest_new c = \<lparr>ig_config = c, ig_devices = Map.empty\<rparr>"

definition device_entry :: "ingest_state \<Rightarrow> string \<Rightarrow> device_state" where
  "device_entry st dev = (case ig_devices st dev of None \<Rightarrow> device_new | Some d \<Rightarrow> d)"

definition put_device :: "ingest_state \<Rightarrow> string \<Rightarrow> device_state \<Rightarrow> ingest_state" where
  "put_device st dev d = st\<lparr>ig_devices := (ig_devices st)(dev \<mapsto> d)\<rparr>"

definition ensure_device :: "ingest_state \<Rightarrow> string \<Rightarrow> ingest_state" where
  "ensure_device st dev = put_device st dev (device_entry st dev)"

text \<open>The eviction loop of \<open>create_segment\<close>: pop from the front until one more segment fits.\<close>

fun evict_front ::
  "nat \<Rightarrow> segment_state list \<Rightarrow> nat \<Rightarrow> string list \<Rightarrow> segment_state list \<times> nat \<times> string list" where
  "evict_front limit [] tot evicted = ([], tot, evicted)"
| "evict_front limit (s # ss) tot evicted =
     (if sat_add (length (s # ss)) 1 > limit
      then evict_front limit ss (tot - seg_bytes s) (evicted @ [seg_id s])
      else (s # ss, tot, evicted))"

definition create_segment ::
  "ingest_state \<Rightarrow> string \<Rightarrow> (ingest_error + (string \<times> string list)) \<times> ingest_state" where
  "create_segment st dev =
     (let c = ig_config st
      in if \<not> ingest_enabled c then
           (Err \<lparr>ie_kind = IngestDisabled, ie_message = ''telemetry ingest is disabled''\<rparr>, st)
         else
           let d = device_entry st dev;
               st = put_device st dev d;
               limit = max_segments_per_device c
           in if limit = 0 then
                (Err \<lparr>ie_kind = IngestDisabled, ie_message = ''telemetry ingest is disabled''\<rparr>, st)
              else if sat_add (length (segments d)) 1 > limit \<and> eviction_policy c = Refuse then
                (Err \<lparr>ie_kind = IngestQuotaExceeded,
                      ie_message = ''telemetry segment quota exceeded''\<rparr>, st)
              else
                let (segs, tot, evicted) =
                      (if sat_add (length (segments d)) 1 > limit
                       then evict_front limit (segments d) (total_bytes d) []
                       else (segments d, total_bytes d, []));
                    (new_id, d') = allocate_id (d\<lparr>segments := segs, total_bytes := tot\<rparr>);
                    d'' = d'\<lparr>segments := segments d' @ [\<lparr>seg_id = new_id, seg_bytes = 0\<rparr>]\<rparr>
                in (Ok (new_id, evicted), put_device st dev d''))"

text \<open>
  The eviction loop of \<open>append_record\<close>, with its index \<open>scan\<close>: the segment that is written
  to is skipped, every other one is removed until enough bytes are free. The index
  stays below the queue's length, so its \<open>saturating_add\<close> is an addition.
\<close>

function evict_scan ::
  "nat \<Rightarrow> string \<Rightarrow> segment_state list \<Rightarrow> nat \<Rightarrow> nat \<Rightarrow> nat \<Rightarrow> string list \<Rightarrow>
    segment_state list \<times> nat \<times> nat \<times> string list" where
  "evict_scan needed sid segs scan tot freed evicted =
     (if freed < needed \<and> scan < length segs then
        if seg_id (segs ! scan) = sid
        then evict_scan needed sid segs (scan + 1) tot freed evicted
        else evict_scan needed sid (take scan segs @ drop (scan + 1) segs) scan
               (tot - seg_bytes (segs ! scan)) (sat_add freed (seg_bytes (segs ! scan)))
               (evicted @ [seg_id (segs ! scan)])
      else (segs, tot, freed, evicted))"
  by pat_completeness auto
termination
  by (relation "measure (\<lambda>(needed, sid, segs, scan, tot, freed, evicted). length segs - scan)") auto

declare evict_scan.simps [simp del]

text \<open>The first segment with the id, with \<open>bytes\<close> added to its size (\<open>iter_mut().find\<close>).\<close>

fun add_bytes :: "string \<Rightarrow> nat \<Rightarrow> segment_state list \<Rightarrow> segment_state list" where
  "add_bytes sid n [] = []"
| "add_bytes sid n (s # ss) =
     (if seg_id s = sid then s\<lparr>seg_bytes := sat_add (seg_bytes s) n\<rparr> # ss
      else s # add_bytes sid n ss)"

definition write_record :: "device_state \<Rightarrow> string \<Rightarrow> nat \<Rightarrow> device_state" where
  "write_record d sid n =
     (if find (\<lambda>s. seg_id s = sid) (segments d) = None then d
      else d\<lparr>segments := add_bytes sid n (segments d),
             total_bytes := sat_add (total_bytes d) n\<rparr>)"

definition total_quota_error :: ingest_error where
  "total_quota_error =
     \<lparr>ie_kind = IngestQuotaExceeded, ie_message = ''telemetry total byte quota exceeded''\<rparr>"

definition append_record ::
  "ingest_state \<Rightarrow> string \<Rightarrow> string \<Rightarrow> nat \<Rightarrow> (ingest_error + string list) \<times> ingest_state" where
  "append_record st dev sid n =
     (let c = ig_config st
      in if \<not> ingest_enabled c then
           (Err \<lparr>ie_kind = IngestDisabled, ie_message = ''telemetry ingest is disabled''\<rparr>, st)
         else case ig_devices st dev of
           None \<Rightarrow>
             (Err \<lparr>ie_kind = IngestSegmentMissing,
                   ie_message = ''telemetry device '' @ dev @ '' not found''\<rparr>, st)
         | Some d \<Rightarrow>
             (case find (\<lambda>s. seg_id s = sid) (segments d) of
                None \<Rightarrow>
                  (Err \<lparr>ie_kind = IngestSegmentMissing,
                        ie_message = ''telemetry segment '' @ sid @ '' not found''\<rparr>, st)
              | Some s \<Rightarrow>
                  if sat_add (seg_bytes s) n > max_bytes_per_segment c then
                    (Err \<lparr>ie_kind = IngestQuotaExceeded,
                          ie_message = ''telemetry segment size quota exceeded''\<rparr>, st)
                  else
                    let total_after = sat_add (total_bytes d) n
                    in if total_after > max_total_bytes_per_device c then
                         (case eviction_policy c of
                            Refuse \<Rightarrow> (Err total_quota_error, st)
                          | EvictOldest \<Rightarrow>
                              let needed = total_after - max_total_bytes_per_device c;
                                  (segs, tot, freed, evicted) =
                                    evict_scan needed sid (segments d) 0 (total_bytes d) 0 [];
                                  d' = d\<lparr>segments := segs, total_bytes := tot\<rparr>
                              in if freed < needed
                                 then (Err total_quota_error, put_device st dev d')
                                 else (Ok evicted, put_device st dev (write_record d' sid n)))
                       else (Ok [], put_device st dev (write_record d sid n))))"

subsection \<open>Eviction\<close>

abbreviation bytes_of :: "segment_state list \<Rightarrow> nat" where
  "bytes_of ss \<equiv> sum_list (map seg_bytes ss)"

text \<open>The front eviction drops a prefix, the fewest segments that make room for one more.\<close>

lemma evict_front_drop:
  assumes "limit < u64_max" and "0 < limit"
  shows "evict_front limit ss (bytes_of ss) ev =
    (let k = length ss + 1 - limit
     in (drop k ss, bytes_of (drop k ss), ev @ map seg_id (take k ss)))"
proof (induction ss arbitrary: ev)
  case (Cons s ss)
  have "sat_add (length (s # ss)) 1 > limit \<longleftrightarrow> length (s # ss) + 1 > limit"
    using sat_add_le_below [OF assms(1), of "length (s # ss)" 1] by (simp add: not_le [symmetric])
  then show ?case
    using Cons [of "ev @ [seg_id s]"] assms(2)
    by (cases "length (s # ss) + 1 > limit") (auto simp: Let_def Suc_diff_le not_less)
qed (use assms in \<open>simp add: Let_def\<close>)

text \<open>The scan as a recursion over the queue: what stays and what is evicted.\<close>

fun evict_list :: "nat \<Rightarrow> string \<Rightarrow> segment_state list \<Rightarrow> segment_state list \<times> segment_state list" where
  "evict_list needed sid [] = ([], [])"
| "evict_list needed sid (s # ss) =
     (if needed = 0 then (s # ss, [])
      else if seg_id s = sid then map_prod ((#) s) id (evict_list needed sid ss)
      else map_prod id ((#) s) (evict_list (needed - seg_bytes s) sid ss))"

lemma evict_scan_list:
  assumes "freed + bytes_of ss \<le> u64_max"
  shows "evict_scan needed sid (pre @ ss) (length pre) tot freed ev =
    (case evict_list (needed - freed) sid ss of (keep, gone) \<Rightarrow>
       (pre @ keep, tot - bytes_of gone, freed + bytes_of gone, ev @ map seg_id gone))"
  using assms
proof (induction ss arbitrary: pre tot freed ev)
  case Nil
  then show ?case by (simp add: evict_scan.simps)
next
  case (Cons s ss)
  show ?case
  proof (cases "freed < needed")
    case False
    then show ?thesis by (simp add: evict_scan.simps)
  next
    case True
    show ?thesis
    proof (cases "seg_id s = sid")
      case sid: True
      with True Cons.IH [of freed "pre @ [s]" tot ev] Cons.prems show ?thesis
        by (subst evict_scan.simps) (simp add: case_prod_beta)
    next
      case False
      with True Cons.IH [of "freed + seg_bytes s" pre "tot - seg_bytes s" "ev @ [seg_id s]"]
        Cons.prems show ?thesis
        by (subst evict_scan.simps) (simp add: case_prod_beta add.assoc diff_diff_left)
    qed
  qed
qed

text \<open>
  What the scan evicts is the shortest prefix of the other segments, in their order, that
  frees the needed bytes, or all of them when they are not enough.
\<close>

lemma evict_list_gone:
  "\<exists>k. snd (evict_list needed sid ss) = take k (filter (\<lambda>s. seg_id s \<noteq> sid) ss) \<and>
     (\<forall>j < k. bytes_of (take j (filter (\<lambda>s. seg_id s \<noteq> sid) ss)) < needed)"
proof (induction needed sid ss rule: evict_list.induct)
  case (1 needed sid)
  show ?case by (intro exI [of _ 0]) simp
next
  case (2 needed sid s ss)
  show ?case
  proof (cases "needed = 0")
    case True
    then show ?thesis by (intro exI [of _ 0]) simp
  next
    case nz: False
    show ?thesis
    proof (cases "seg_id s = sid")
      case True
      with nz 2 show ?thesis by simp
    next
      case False
      with nz 2 obtain k where k: "snd (evict_list (needed - seg_bytes s) sid ss) =
            take k (filter (\<lambda>s. seg_id s \<noteq> sid) ss)"
          "\<forall>j < k. bytes_of (take j (filter (\<lambda>s. seg_id s \<noteq> sid) ss)) < needed - seg_bytes s"
        by auto
      then show ?thesis using nz False
        by (intro exI [of _ "Suc k"]) (auto simp: less_Suc_eq_0_disj)
    qed
  qed
qed

lemma evict_list_enough:
  "needed \<le> bytes_of (filter (\<lambda>s. seg_id s \<noteq> sid) ss) \<Longrightarrow>
    needed \<le> bytes_of (snd (evict_list needed sid ss))"
  by (induction needed sid ss rule: evict_list.induct) (auto simp: le_diff_conv add.commute)

lemma evict_list_perm:
  "mset ss = mset (fst (evict_list needed sid ss)) + mset (snd (evict_list needed sid ss))"
  by (induction needed sid ss rule: evict_list.induct) auto

lemma evict_list_keeps:
  "filter (\<lambda>s. seg_id s = sid) (fst (evict_list needed sid ss)) = filter (\<lambda>s. seg_id s = sid) ss"
  by (induction needed sid ss rule: evict_list.induct) auto

lemma find_filter: "find P xs = (case filter P xs of [] \<Rightarrow> None | x # _ \<Rightarrow> Some x)"
  by (induction xs) auto

lemma evict_list_subseq: "subseq (fst (evict_list needed sid ss)) ss"
  by (induction needed sid ss rule: evict_list.induct) auto

lemma evict_list_bytes:
  "bytes_of (fst (evict_list needed sid ss)) + bytes_of (snd (evict_list needed sid ss)) = bytes_of ss"
  by (induction needed sid ss rule: evict_list.induct) auto

lemma evict_list_gone_sub: "set (snd (evict_list needed sid ss)) \<subseteq> set ss"
  by (induction needed sid ss rule: evict_list.induct) auto

lemma evict_list_filter:
  "distinct (map seg_id ss) \<Longrightarrow>
    fst (evict_list needed sid ss) =
      filter (\<lambda>t. seg_id t \<notin> seg_id ` set (snd (evict_list needed sid ss))) ss"
proof (induction needed sid ss rule: evict_list.induct)
  case (2 needed sid s ss)
  have sub: "seg_id ` set (snd (evict_list m sid ss)) \<subseteq> seg_id ` set ss" for m
    using evict_list_gone_sub by (rule image_mono)
  from 2 have IH: "fst (evict_list m sid ss) =
      filter (\<lambda>t. seg_id t \<notin> seg_id ` set (snd (evict_list m sid ss))) ss"
    if "needed \<noteq> 0" "m = (if seg_id s = sid then needed else needed - seg_bytes s)" for m
    using that by auto
  show ?case
  proof (cases "needed = 0 \<or> seg_id s = sid")
    case True
    with 2(3) IH [of needed] sub [of needed] show ?thesis by auto
  next
    case False
    with 2(3) have "filter (\<lambda>t. seg_id t \<noteq> seg_id s \<and> P t) ss = filter P ss" for P
      by (intro filter_cong) (auto simp: image_iff)
    with False IH [of "needed - seg_bytes s"] show ?thesis by simp
  qed
qed simp

subsection \<open>The device invariant\<close>

definition config_ok :: "ingest_config \<Rightarrow> bool" where
  "config_ok c \<longleftrightarrow> max_segments_per_device c < u64_max \<and>
     max_total_bytes_per_device c + max_bytes_per_segment c < u64_max"

definition quotas_ok :: "ingest_config \<Rightarrow> device_state \<Rightarrow> bool" where
  "quotas_ok c d \<longleftrightarrow>
     total_bytes d = bytes_of (segments d) \<and>
     total_bytes d \<le> max_total_bytes_per_device c \<and>
     length (segments d) \<le> max_segments_per_device c \<and>
     (\<forall>s \<in> set (segments d). seg_bytes s \<le> max_bytes_per_segment c)"

definition fresh_ids :: "nat \<Rightarrow> string list \<Rightarrow> bool" where
  "fresh_ids n ids \<longleftrightarrow> n \<le> u64_max \<and>
     (n < u64_max \<longrightarrow> distinct ids \<and>
       (\<forall>i \<in> set ids. \<exists>k < n. i = ''seg-'' @ show_nat_06 k))"

definition ids_ok :: "device_state \<Rightarrow> bool" where
  "ids_ok d \<longleftrightarrow> fresh_ids (next_id d) (map seg_id (segments d))"

definition device_inv :: "ingest_config \<Rightarrow> device_state \<Rightarrow> bool" where
  "device_inv c d \<longleftrightarrow> quotas_ok c d \<and> ids_ok d"

definition ingest_inv :: "ingest_state \<Rightarrow> bool" where
  "ingest_inv st \<longleftrightarrow> config_ok (ig_config st) \<and>
     (\<forall>dev d. ig_devices st dev = Some d \<longrightarrow> device_inv (ig_config st) d)"

lemma device_inv_new: "device_inv c device_new"
  by (simp add: device_inv_def quotas_ok_def ids_ok_def fresh_ids_def device_new_def u64_max_def)

lemma device_inv_entry: "ingest_inv st \<Longrightarrow> device_inv (ig_config st) (device_entry st dev)"
  by (simp add: ingest_inv_def device_entry_def device_inv_new split: option.split)

lemma ingest_inv_put:
  "ingest_inv st \<Longrightarrow> device_inv (ig_config st) d \<Longrightarrow> ingest_inv (put_device st dev d)"
  by (simp add: ingest_inv_def put_device_def)

lemma ingest_config_put [simp]: "ig_config (put_device st dev d) = ig_config st"
  by (simp add: put_device_def)

lemma subseq_subset: "subseq xs ys \<Longrightarrow> set xs \<subseteq> set ys"
  by (induction rule: list_emb.induct) auto

lemma subseq_distinct_map:
  "subseq xs ys \<Longrightarrow> distinct (map f ys) \<Longrightarrow> distinct (map f xs)"
proof (induction rule: list_emb.induct)
  case (list_emb_Cons2 x y xs ys)
  with subseq_subset [of xs ys] show ?case by (simp add: image_iff) blast
qed simp_all

lemma device_inv_subseq:
  assumes "device_inv c d" and "subseq segs (segments d)" and "tot = bytes_of segs"
    and "tot \<le> total_bytes d"
  shows "device_inv c (d\<lparr>segments := segs, total_bytes := tot\<rparr>)"
proof -
  have "set segs \<subseteq> set (segments d)" "length segs \<le> length (segments d)"
    "distinct (map seg_id (segments d)) \<Longrightarrow> distinct (map seg_id segs)"
    using list_emb_length [OF assms(2)] subseq_distinct_map [OF assms(2)]
      subseq_subset [OF assms(2)] by simp_all
  with assms show ?thesis
    by (auto simp: device_inv_def quotas_ok_def ids_ok_def fresh_ids_def)
qed

lemma ids_ok_fresh:
  "ids_ok d \<Longrightarrow> next_id d < u64_max \<Longrightarrow>
    ''seg-'' @ show_nat_06 (next_id d) \<notin> seg_id ` set (segments d)"
  by (auto simp: ids_ok_def fresh_ids_def)

lemma device_inv_push:
  assumes inv: "device_inv c d" and len: "length (segments d) < max_segments_per_device c"
  shows "device_inv c (case allocate_id d of (i, d') \<Rightarrow>
    d'\<lparr>segments := segments d' @ [\<lparr>seg_id = i, seg_bytes = 0\<rparr>]\<rparr>)" (is "device_inv c ?d")
proof -
  have "quotas_ok c ?d"
    using inv len by (auto simp: device_inv_def quotas_ok_def allocate_id_def)
  moreover have "ids_ok ?d"
  proof (cases "next_id d < u64_max")
    case True
    with inv ids_ok_fresh [of d] show ?thesis
      by (auto simp: device_inv_def ids_ok_def fresh_ids_def allocate_id_def less_Suc_eq)
  next
    case False
    with inv show ?thesis by (simp add: device_inv_def ids_ok_def fresh_ids_def allocate_id_def sat_add_def)
  qed
  ultimately show ?thesis by (simp add: device_inv_def)
qed

lemma evict_front_inv:
  assumes inv: "device_inv c d" and c: "config_ok c" "0 < max_segments_per_device c"
    and e: "evict_front (max_segments_per_device c) (segments d) (total_bytes d) [] = (segs, tot, ev)"
  shows "device_inv c (d\<lparr>segments := segs, total_bytes := tot\<rparr>)"
    and "length segs < max_segments_per_device c"
proof -
  let ?k = "length (segments d) + 1 - max_segments_per_device c"
  from inv have "total_bytes d = bytes_of (segments d)"
    by (simp add: device_inv_def quotas_ok_def)
  with evict_front_drop [of "max_segments_per_device c" "segments d" "[]"] c e
  have segs: "segs = drop ?k (segments d)" "tot = bytes_of (drop ?k (segments d))"
    by (auto simp: config_ok_def Let_def)
  have "bytes_of (take ?k (segments d)) + bytes_of (drop ?k (segments d)) = bytes_of (segments d)"
    by (metis append_take_drop_id map_append sum_list_append)
  with segs \<open>total_bytes d = _\<close> have "tot \<le> total_bytes d" by linarith
  with segs device_inv_subseq [OF inv, of segs tot]
  show "device_inv c (d\<lparr>segments := segs, total_bytes := tot\<rparr>)"
    by (simp add: suffix_drop suffix_imp_subseq)
  from inv have "length (segments d) \<le> max_segments_per_device c"
    by (simp add: device_inv_def quotas_ok_def)
  with c(2) segs show "length segs < max_segments_per_device c" by simp
qed

lemma create_segment_inv:
  assumes inv: "ingest_inv st"
  shows "ingest_inv (snd (create_segment st dev))"
proof -
  let ?c = "ig_config st" and ?d = "device_entry st dev"
  have c: "config_ok ?c" and d: "device_inv ?c ?d"
    using inv device_inv_entry by (auto simp: ingest_inv_def)
  let ?e = "if sat_add (length (segments ?d)) 1 > max_segments_per_device ?c
    then evict_front (max_segments_per_device ?c) (segments ?d) (total_bytes ?d) []
    else (segments ?d, total_bytes ?d, [])"
  obtain segs tot ev where e: "?e = (segs, tot, ev)" by (cases ?e) auto
  have "device_inv ?c (?d\<lparr>segments := segs, total_bytes := tot\<rparr>)
      \<and> length segs < max_segments_per_device ?c" if "0 < max_segments_per_device ?c"
  proof (cases "sat_add (length (segments ?d)) 1 > max_segments_per_device ?c")
    case True
    with e evict_front_inv [OF d c that] show ?thesis by simp
  next
    case False
    then have "length (segments ?d) + 1 \<le> max_segments_per_device ?c"
      using c sat_add_le_below by (simp add: config_ok_def not_less)
    with False e d show ?thesis by auto
  qed
  then have "0 < max_segments_per_device ?c \<Longrightarrow> device_inv ?c
      (case allocate_id (?d\<lparr>segments := segs, total_bytes := tot\<rparr>) of (i, d') \<Rightarrow>
        d'\<lparr>segments := segments d' @ [\<lparr>seg_id = i, seg_bytes = 0\<rparr>]\<rparr>)"
    by (intro device_inv_push) simp_all
  then show ?thesis
    unfolding create_segment_def Let_def e
    using inv d ingest_inv_put [OF inv d, of dev]
    by (auto simp: allocate_id_def intro!: ingest_inv_put)
qed

lemma add_bytes_sum:
  assumes "find (\<lambda>s. seg_id s = sid) ss = Some s" and "seg_bytes s + n \<le> u64_max"
  shows "bytes_of (add_bytes sid n ss) = bytes_of ss + n"
  using assms by (induction sid n ss rule: add_bytes.induct) (auto split: if_splits)

lemma add_bytes_ids [simp]: "map seg_id (add_bytes sid n ss) = map seg_id ss"
  by (induction sid n ss rule: add_bytes.induct) auto

lemma add_bytes_bound:
  assumes "find (\<lambda>s. seg_id s = sid) ss = Some s" and "seg_bytes s + n \<le> m"
    and "\<forall>s \<in> set ss. seg_bytes s \<le> m"
  shows "\<forall>s \<in> set (add_bytes sid n ss). seg_bytes s \<le> m"
  using assms by (induction sid n ss rule: add_bytes.induct)
    (auto split: if_splits intro: order_trans [OF sat_add_le])

lemma write_record_inv:
  assumes inv: "device_inv c d" and c: "config_ok c"
    and s: "find (\<lambda>s. seg_id s = sid) (segments d) = Some s"
    and n: "seg_bytes s + n \<le> max_bytes_per_segment c"
      "total_bytes d + n \<le> max_total_bytes_per_device c"
  shows "device_inv c (write_record d sid n)"
proof -
  have len: "length (add_bytes sid n (segments d)) = length (segments d)"
    by (metis add_bytes_ids length_map)
  have u: "seg_bytes s + n \<le> u64_max" "total_bytes d + n \<le> u64_max"
    using n c by (simp_all add: config_ok_def)
  have "quotas_ok c (write_record d sid n)"
    using inv s n u add_bytes_sum [OF s u(1)] add_bytes_bound [OF s n(1)] len
    by (simp add: device_inv_def quotas_ok_def write_record_def)
  moreover have "ids_ok (write_record d sid n)"
    using inv s by (simp add: device_inv_def ids_ok_def write_record_def)
  ultimately show ?thesis by (simp add: device_inv_def)
qed

text \<open>What the scan of an append leaves of a device.\<close>

lemma evict_scan_inv:
  assumes inv: "device_inv c d" and c: "config_ok c"
    and e: "evict_scan needed sid (segments d) 0 (total_bytes d) 0 [] = (segs, tot, freed, ev)"
  shows "segs = fst (evict_list needed sid (segments d))"
    and "freed = bytes_of (snd (evict_list needed sid (segments d)))"
    and "ev = map seg_id (snd (evict_list needed sid (segments d)))"
    and "tot + freed = total_bytes d"
    and "device_inv c (d\<lparr>segments := segs, total_bytes := tot\<rparr>)"
    and "find (\<lambda>s. seg_id s = sid) segs = find (\<lambda>s. seg_id s = sid) (segments d)"
proof -
  from inv have total: "total_bytes d = bytes_of (segments d)"
    and u: "bytes_of (segments d) \<le> u64_max"
    using c by (auto simp: device_inv_def quotas_ok_def config_ok_def)
  note scan = evict_scan_list [of 0 "segments d" needed sid "[]" "total_bytes d" "[]"]
  note bytes = evict_list_bytes [of needed sid "segments d"]
  show segs: "segs = fst (evict_list needed sid (segments d))"
    and freed: "freed = bytes_of (snd (evict_list needed sid (segments d)))"
    and "ev = map seg_id (snd (evict_list needed sid (segments d)))"
    using scan u e by (simp_all add: case_prod_beta)
  have "tot = bytes_of (segments d) - freed"
    using scan u e total by (auto simp: case_prod_beta)
  then have tot: "tot = bytes_of segs" using bytes segs freed by simp
  then show "tot + freed = total_bytes d" using bytes segs freed total by simp
  then show "device_inv c (d\<lparr>segments := segs, total_bytes := tot\<rparr>)"
    using device_inv_subseq [OF inv, of segs tot] evict_list_subseq segs tot by simp
  show "find (\<lambda>s. seg_id s = sid) segs = find (\<lambda>s. seg_id s = sid) (segments d)"
    unfolding find_filter segs evict_list_keeps ..
qed

lemma sat_add_exceeds:
  assumes "config_ok c" and "sat_add b n \<le> max_bytes_per_segment c"
  shows "b + n \<le> max_bytes_per_segment c"
  using assms sat_add_le_below [of "max_bytes_per_segment c" b n] by (simp add: config_ok_def)

text \<open>An append to a segment of the device, on the branch where it succeeds.\<close>

lemma append_record_evicts:
  assumes inv: "device_inv c d" and c: "config_ok c"
    and s: "find (\<lambda>s. seg_id s = sid) (segments d) = Some s"
    and n: "seg_bytes s + n \<le> max_bytes_per_segment c"
    and over: "total_bytes d + n > max_total_bytes_per_device c"
    and e: "evict_scan (total_bytes d + n - max_total_bytes_per_device c) sid
      (segments d) 0 (total_bytes d) 0 [] = (segs, tot, freed, ev)"
    and f: "total_bytes d + n - max_total_bytes_per_device c \<le> freed"
  shows "device_inv c (write_record (d\<lparr>segments := segs, total_bytes := tot\<rparr>) sid n)"
proof -
  note scan = evict_scan_inv [OF inv c e]
  have "tot + n \<le> max_total_bytes_per_device c" using scan(4) f over by linarith
  with write_record_inv [OF scan(5) c, of sid s n] scan(6) s n show ?thesis by simp
qed

lemma append_record_inv:
  assumes inv: "ingest_inv st"
  shows "ingest_inv (snd (append_record st dev sid n))"
proof (cases "ig_devices st dev")
  case None
  with inv show ?thesis by (simp add: append_record_def Let_def)
next
  case (Some d)
  let ?c = "ig_config st" and ?m = "max_total_bytes_per_device (ig_config st)"
  have c: "config_ok ?c" and d: "device_inv ?c d"
    using inv Some by (auto simp: ingest_inv_def)
  have total: "total_bytes d \<le> ?m" using d by (simp add: device_inv_def quotas_ok_def)
  show ?thesis
  proof (cases "find (\<lambda>s. seg_id s = sid) (segments d)")
    case None
    with inv Some show ?thesis by (simp add: append_record_def Let_def)
  next
    case s: (Some s)
    show ?thesis
    proof (cases "seg_bytes s + n \<le> max_bytes_per_segment ?c")
      case False
      then have "sat_add (seg_bytes s) n > max_bytes_per_segment ?c"
        using sat_add_exceeds [OF c, of "seg_bytes s" n] by linarith
      with inv Some s show ?thesis by (simp add: append_record_def Let_def)
    next
      case n: True
      then have sat: "sat_add (seg_bytes s) n = seg_bytes s + n" "sat_add (total_bytes d) n = total_bytes d + n"
        using c total by (simp_all add: config_ok_def)
      obtain segs tot freed ev where
        e: "evict_scan (total_bytes d + n - ?m) sid (segments d) 0 (total_bytes d) 0 [] = (segs, tot, freed, ev)"
        by (metis prod_cases4)
      note fits = write_record_inv [OF d c s n]
      note evicts = append_record_evicts [OF d c s n _ e] and left = evict_scan_inv(5) [OF d c e]
      show ?thesis
        using inv fits evicts left
        by (auto simp: append_record_def Let_def Some s sat e not_less split: eviction_policy.split
            intro!: ingest_inv_put)
    qed
  qed
qed

datatype ingest_event =
  IngestEnsure string | IngestCreate string | IngestAppend string string nat

fun ingest_step :: "ingest_state \<Rightarrow> ingest_event \<Rightarrow> ingest_state" where
  "ingest_step st (IngestEnsure dev) = ensure_device st dev"
| "ingest_step st (IngestCreate dev) = snd (create_segment st dev)"
| "ingest_step st (IngestAppend dev sid n) = snd (append_record st dev sid n)"

interpretation ingest: step_invariant ingest_step ingest_inv
proof
  fix st e assume "ingest_inv st"
  then show "ingest_inv (ingest_step st e)"
    by (cases e)
      (simp_all add: ensure_device_def ingest_inv_put device_inv_entry create_segment_inv append_record_inv)
qed

lemma create_segment_config [simp]: "ig_config (snd (create_segment st dev)) = ig_config st"
  by (simp add: create_segment_def Let_def case_prod_beta)

lemma append_record_config [simp]: "ig_config (snd (append_record st dev sid n)) = ig_config st"
  by (simp add: append_record_def Let_def case_prod_beta split: option.split eviction_policy.split)

lemma ingest_step_config [simp]: "ig_config (ingest_step st e) = ig_config st"
  by (cases e) (simp_all add: ensure_device_def)

lemma ingest_run_config [simp]: "ig_config (foldl ingest_step st es) = ig_config st"
  by (induction es arbitrary: st) simp_all

lemma ingest_inv_new: "config_ok c \<Longrightarrow> ingest_inv (ingest_new c)"
  by (simp add: ingest_inv_def ingest_new_def)

text \<open>
  C9: The ingest quotas hold in every reachable state. After any sequence of device
  registrations, segment creations and record appends, under either eviction policy,
  each device's byte count is the sum of its segments' sizes and within the total
  quota, the number of its segments is within the segment quota, and no segment is
  larger than the segment size quota. The quotas must be below the saturation point of
  \<open>usize\<close>.
\<close>

theorem ingest_quotas_hold:
  assumes "config_ok c" and "ig_devices (foldl ingest_step (ingest_new c) es) dev = Some d"
  shows "total_bytes d = sum_list (map seg_bytes (segments d)) \<and>
    total_bytes d \<le> max_total_bytes_per_device c \<and>
    length (segments d) \<le> max_segments_per_device c \<and>
    (\<forall>s \<in> set (segments d). seg_bytes s \<le> max_bytes_per_segment c)"
proof -
  have "ingest_inv (foldl ingest_step (ingest_new c) es)"
    by (rule ingest.run_inv [OF ingest_inv_new [OF assms(1)]])
  with assms(2) have "device_inv c d"
    by (auto simp: ingest_inv_def) (simp add: ingest_new_def)
  then show ?thesis by (auto simp: device_inv_def quotas_ok_def)
qed

theorem ingest_quotas_hold_witness:
  "ig_devices (foldl ingest_step (ingest_new ingest_config_default)
      [IngestEnsure ''dev-1'']) ''dev-1'' = Some device_new \<and>
   length (segments device_new) \<le> max_segments_per_device ingest_config_default"
proof -
  have d: "ig_devices (foldl ingest_step (ingest_new ingest_config_default)
      [IngestEnsure ''dev-1'']) ''dev-1'' = Some device_new"
    by (simp add: ensure_device_def put_device_def device_entry_def ingest_new_def)
  moreover have "config_ok ingest_config_default"
    by (simp add: config_ok_def ingest_config_default_def u64_max_def)
  ultimately show ?thesis using ingest_quotas_hold by blast
qed

lemma add_bytes_map:
  "distinct (map seg_id ss) \<Longrightarrow>
    add_bytes sid n ss =
      map (\<lambda>s. if seg_id s = sid then s\<lparr>seg_bytes := sat_add (seg_bytes s) n\<rparr> else s) ss"
  by (induction sid n ss rule: add_bytes.induct) (auto simp: image_iff intro!: map_idI [symmetric])

lemma find_segment:
  "distinct (map seg_id ss) \<Longrightarrow> s \<in> set ss \<Longrightarrow> find (\<lambda>t. seg_id t = seg_id s) ss = Some s"
  by (induction ss) (auto simp: image_iff)

lemma bytes_of_others:
  "distinct (map seg_id ss) \<Longrightarrow> s \<in> set ss \<Longrightarrow>
    bytes_of ss = seg_bytes s + bytes_of (filter (\<lambda>t. seg_id t \<noteq> seg_id s) ss)"
proof (induction ss)
  case (Cons t ss)
  show ?case
  proof (cases "t = s")
    case True
    with Cons.prems have "\<forall>u \<in> set ss. seg_id u \<noteq> seg_id s" by (auto simp: image_iff)
    then have "filter (\<lambda>t. seg_id t \<noteq> seg_id s) ss = ss" by (simp add: filter_id_conv)
    with True show ?thesis by simp
  next
    case False
    with Cons.prems have "s \<in> set ss" "seg_id t \<noteq> seg_id s" by (auto simp: image_iff)
    with Cons show ?thesis by simp
  qed
qed simp

lemma write_record_segments:
  assumes inv: "device_inv c d" and c: "config_ok c" "max_bytes_per_segment c \<le> max_total_bytes_per_device c"
    and d: "next_id d < u64_max" "s \<in> set (segments d)" and n: "n \<le> max_bytes_per_segment c"
  shows "segments (write_record d (seg_id s) n) =
    map (\<lambda>t. if seg_id t = seg_id s then t\<lparr>seg_bytes := seg_bytes t + n\<rparr> else t) (segments d)"
proof -
  from inv d have dist: "distinct (map seg_id (segments d))"
    and b: "\<forall>t \<in> set (segments d). seg_bytes t \<le> max_bytes_per_segment c"
    by (simp_all add: device_inv_def ids_ok_def fresh_ids_def quotas_ok_def)
  have "sat_add (seg_bytes t) n = seg_bytes t + n" if "t \<in> set (segments d)" for t
    using b that n c by (force simp: config_ok_def intro: sat_add_exact)
  with dist d(2) show ?thesis
    by (simp add: write_record_def find_segment add_bytes_map)
qed

lemma device_inv_total:
  assumes "device_inv c d" and "next_id d < u64_max"
  shows "distinct (map seg_id (segments d))" and "total_bytes d \<le> max_total_bytes_per_device c"
    and "total_bytes d = bytes_of (segments d)"
  using assms by (auto simp: device_inv_def ids_ok_def fresh_ids_def quotas_ok_def)

lemma append_record_makes_room:
  assumes d: "ig_devices st dev = Some d" "device_inv (ig_config st) d" "next_id d < u64_max"
    and c: "config_ok (ig_config st)" "ingest_enabled (ig_config st)"
      "eviction_policy (ig_config st) = EvictOldest"
      "max_bytes_per_segment (ig_config st) \<le> max_total_bytes_per_device (ig_config st)"
    and s: "s \<in> set (segments d)" "seg_bytes s + n \<le> max_bytes_per_segment (ig_config st)"
    and over: "\<not> total_bytes d + n \<le> max_total_bytes_per_device (ig_config st)"
  defines "others \<equiv> filter (\<lambda>t. seg_id t \<noteq> seg_id s) (segments d)"
  shows "\<exists>k d'. append_record st dev (seg_id s) n = (Ok (map seg_id (take k others)), put_device st dev d') \<and>
    (\<forall>j < k. max_total_bytes_per_device (ig_config st) < total_bytes d + n - bytes_of (take j others)) \<and>
    segments d' = map (\<lambda>t. if seg_id t = seg_id s then t\<lparr>seg_bytes := seg_bytes t + n\<rparr> else t)
      (filter (\<lambda>t. seg_id t \<notin> seg_id ` set (take k others)) (segments d))"
proof -
  let ?c = "ig_config st" and ?m = "max_total_bytes_per_device (ig_config st)"
  let ?need = "total_bytes d + n - ?m"
  note inv = device_inv_total [OF d(2,3)]
  have sat: "sat_add (seg_bytes s) n = seg_bytes s + n" "sat_add (total_bytes d) n = total_bytes d + n"
    using c inv s(2) by (simp_all add: config_ok_def)
  obtain segs tot freed ev where
    e: "evict_scan ?need (seg_id s) (segments d) 0 (total_bytes d) 0 [] = (segs, tot, freed, ev)"
    by (metis prod_cases4)
  note scan = evict_scan_inv [OF d(2) c(1) e]
  obtain k where k: "snd (evict_list ?need (seg_id s) (segments d)) = take k others"
      "\<forall>j < k. bytes_of (take j others) < ?need"
    using evict_list_gone unfolding others_def by blast
  have "?need \<le> bytes_of others"
    using bytes_of_others [OF inv(1) s(1)] inv c(4) s(2) by (simp add: others_def)
  then have f: "?need \<le> freed" using evict_list_enough scan(2) by (simp add: others_def)
  let ?d = "d\<lparr>segments := segs, total_bytes := tot\<rparr>"
  have segs: "segs = filter (\<lambda>t. seg_id t \<notin> seg_id ` set (take k others)) (segments d)"
    using scan(1) evict_list_filter [OF inv(1)] k(1) by simp
  then have "s \<in> set (segments ?d)"
    using s(1) by (auto simp: others_def dest: in_set_takeD)
  with write_record_segments [OF scan(5) c(1,4), of s n] d(3) s(2) segs
  have w: "segments (write_record ?d (seg_id s) n) =
    map (\<lambda>t. if seg_id t = seg_id s then t\<lparr>seg_bytes := seg_bytes t + n\<rparr> else t)
      (filter (\<lambda>t. seg_id t \<notin> seg_id ` set (take k others)) (segments d))" by simp
  have "append_record st dev (seg_id s) n =
      (Ok (map seg_id (take k others)), put_device st dev (write_record ?d (seg_id s) n))"
    using d(1) c s(2) sat find_segment [OF inv(1) s(1)] over e f scan(3) k(1)
    by (simp add: append_record_def Let_def)
  moreover have "\<forall>j < k. ?m < total_bytes d + n - bytes_of (take j others)" using k(2) by auto
  ultimately show ?thesis using w by blast
qed

text \<open>
  C24: Eviction is oldest-first, minimal and never in vain. Under \<open>EvictOldest\<close>, with a
  segment quota not above the device quota, a record that fits its segment is always
  accepted. The evicted segments are the oldest others, and every shorter run of them
  would have left the device over its quota; the record is added to its segment, and
  every remaining segment stays as it was.
\<close>

theorem append_record_evicts_oldest:
  assumes "ingest_inv st" and "ig_devices st dev = Some d" and "next_id d < u64_max"
    and "ingest_enabled (ig_config st)" and "eviction_policy (ig_config st) = EvictOldest"
    and "max_bytes_per_segment (ig_config st) \<le> max_total_bytes_per_device (ig_config st)"
    and "s \<in> set (segments d)" and "seg_bytes s + n \<le> max_bytes_per_segment (ig_config st)"
  shows "\<exists>k gone d'. gone = take k (filter (\<lambda>t. seg_id t \<noteq> seg_id s) (segments d)) \<and>
    append_record st dev (seg_id s) n = (Ok (map seg_id gone), put_device st dev d') \<and>
    (\<forall>j < k. total_bytes d + n - sum_list (map seg_bytes
        (take j (filter (\<lambda>t. seg_id t \<noteq> seg_id s) (segments d))))
      > max_total_bytes_per_device (ig_config st)) \<and>
    segments d' = map (\<lambda>t. if seg_id t = seg_id s then t\<lparr>seg_bytes := seg_bytes t + n\<rparr> else t)
      (filter (\<lambda>t. seg_id t \<notin> seg_id ` set gone) (segments d))"
proof -
  have c: "config_ok (ig_config st)" and d: "device_inv (ig_config st) d"
    using assms(1,2) by (auto simp: ingest_inv_def)
  note inv = device_inv_total [OF d assms(3)]
  show ?thesis
  proof (cases "total_bytes d + n \<le> max_total_bytes_per_device (ig_config st)")
    case True
    have "sat_add (seg_bytes s) n = seg_bytes s + n" "sat_add (total_bytes d) n = total_bytes d + n"
      using c inv assms(6,8) by (simp_all add: config_ok_def)
    with True write_record_segments [OF d c assms(6,3,7), of n] show ?thesis
      using assms(2,4,8) find_segment [OF inv(1) assms(7)]
      by (intro exI [of _ 0] exI [of _ "[]"] exI [of _ "write_record d (seg_id s) n"])
        (simp add: append_record_def Let_def)
  next
    case False
    from append_record_makes_room [OF assms(2) d assms(3) c assms(4-8) this] show ?thesis by blast
  qed
qed

definition device_example :: device_state where
  "device_example = \<lparr>next_id = 3, total_bytes = 12, segments =
     [\<lparr>seg_id = ''seg-000001'', seg_bytes = 5\<rparr>, \<lparr>seg_id = ''seg-000002'', seg_bytes = 7\<rparr>]\<rparr>"

definition ingest_example :: ingest_state where
  "ingest_example = put_device (ingest_new \<lparr>max_segments_per_device = 4, max_bytes_per_segment = 10,
     max_total_bytes_per_device = 12, eviction_policy = EvictOldest\<rparr>) ''dev-1'' device_example"

lemma ingest_example_inv: "ingest_inv ingest_example"
proof -
  have "''seg-000001'' = ''seg-'' @ show_nat_06 1" "''seg-000002'' = ''seg-'' @ show_nat_06 2"
    by code_simp+
  then have "ids_ok device_example"
    unfolding ids_ok_def fresh_ids_def device_example_def
    by (auto simp: u64_max_def intro: exI [of _ "1 :: nat"] exI [of _ "2 :: nat"])
  then have "device_inv (ig_config ingest_example) device_example"
    by (simp add: device_inv_def quotas_ok_def device_example_def ingest_example_def ingest_new_def)
  then show ?thesis
    by (simp add: ingest_inv_def config_ok_def ingest_example_def put_device_def ingest_new_def u64_max_def)
qed

theorem append_record_evicts_oldest_witness:
  "\<exists>gone st. append_record ingest_example ''dev-1'' ''seg-000002'' 3 = (Ok gone, st)"
  using append_record_evicts_oldest [OF ingest_example_inv, of "''dev-1''" device_example
      "\<lparr>seg_id = ''seg-000002'', seg_bytes = 7\<rparr>" 3]
  by (auto simp: ingest_example_def put_device_def device_example_def ingest_new_def
      ingest_enabled_def u64_max_def)

end
