(* ===== verification/Lifecycle.thy ===== *)
theory Lifecycle
  imports Cohesix_Prelude
begin

section \<open>The node lifecycle\<close>

text \<open>
  The state machine of \<open>apps/nine-door/src/host/lifecycle.rs\<close>: states, control commands with
  their lease guard, automatic transitions and the gates the server consults before it
  accepts work. The documented transitions of \<open>LifecycleCommand\<close> are the inductive
  relation \<open>transition\<close>; the code implements exactly that relation. An \<open>Instant\<close> is a number
  of nanoseconds.
\<close>

datatype lifecycle_state = Booting | Degraded | Online | Draining | Quiesced | Offline

definition lifecycle_state_str :: "lifecycle_state \<Rightarrow> string" where
  "lifecycle_state_str s = (case s of
     Booting \<Rightarrow> ''BOOTING'' | Degraded \<Rightarrow> ''DEGRADED'' | Online \<Rightarrow> ''ONLINE''
   | Draining \<Rightarrow> ''DRAINING'' | Quiesced \<Rightarrow> ''QUIESCED'' | Offline \<Rightarrow> ''OFFLINE'')"

datatype lifecycle_command = Cordon | Drain | Resume | Quiesce | Reset

datatype lifecycle_error =
  InvalidCommand | InvalidTransition | AutoTransitionDenied | OutstandingLeases nat

record lifecycle_transition =
  lt_from :: lifecycle_state
  lt_to :: lifecycle_state
  lt_reason :: string

record lifecycle_snapshot =
  ls_state :: lifecycle_state
  ls_reason :: string
  ls_since_ms :: nat

record lifecycle_gate =
  gate_name :: string
  allow_online :: bool
  allow_degraded :: bool
  allow_draining :: bool

definition gate_allows_state :: "lifecycle_gate \<Rightarrow> lifecycle_state \<Rightarrow> bool" where
  "gate_allows_state g s = (case s of
     Online \<Rightarrow> allow_online g
   | Degraded \<Rightarrow> allow_degraded g
   | Draining \<Rightarrow> allow_draining g
   | Booting \<Rightarrow> False | Quiesced \<Rightarrow> False | Offline \<Rightarrow> False)"

definition GATE_NEW_WORK :: lifecycle_gate where
  "GATE_NEW_WORK = \<lparr>gate_name = ''new-work'', allow_online = True, allow_degraded = True,
     allow_draining = False\<rparr>"

definition GATE_TELEMETRY_INGEST :: lifecycle_gate where
  "GATE_TELEMETRY_INGEST = \<lparr>gate_name = ''telemetry-ingest'', allow_online = True,
     allow_degraded = True, allow_draining = True\<rparr>"

definition GATE_WORKER_ATTACH :: lifecycle_gate where
  "GATE_WORKER_ATTACH = \<lparr>gate_name = ''worker-attach'', allow_online = True,
     allow_degraded = True, allow_draining = True\<rparr>"

definition GATE_WORKER_TELEMETRY :: lifecycle_gate where
  "GATE_WORKER_TELEMETRY = \<lparr>gate_name = ''worker-telemetry'', allow_online = True,
     allow_degraded = True, allow_draining = True\<rparr>"

definition GATE_WORKER_JOB :: lifecycle_gate where
  "GATE_WORKER_JOB = \<lparr>gate_name = ''worker-job'', allow_online = True, allow_degraded = True,
     allow_draining = False\<rparr>"

definition GATE_HOST_PUBLISH :: lifecycle_gate where
  "GATE_HOST_PUBLISH = \<lparr>gate_name = ''host-publish'', allow_online = True, allow_degraded = True,
     allow_draining = False\<rparr>"

record lifecycle_auto_transition =
  at_from :: lifecycle_state
  at_to :: lifecycle_state

record lifecycle_config =
  initial_state :: lifecycle_state
  auto_transitions :: "lifecycle_auto_transition list"

definition lifecycle_config_default :: lifecycle_config where
  "lifecycle_config_default = \<lparr>initial_state = Booting,
     auto_transitions = [\<lparr>at_from = Booting, at_to = Online\<rparr>]\<rparr>"

record lifecycle_machine =
  lm_config :: lifecycle_config
  lm_state :: lifecycle_state
  lm_reason :: string
  lm_since :: nat

definition lifecycle_new :: "nat \<Rightarrow> lifecycle_machine" where
  "lifecycle_new now =
     (let config = lifecycle_config_default;
          state = initial_state config;
          reason = (if state = Booting then ''boot'' else ''manifest'')
      in \<lparr>lm_config = config, lm_state = state, lm_reason = reason, lm_since = now\<rparr>)"

text \<open>\<open>as_millis() as u64\<close> keeps the low 64 bits.\<close>

definition lifecycle_snap :: "lifecycle_machine \<Rightarrow> nat \<Rightarrow> lifecycle_snapshot" where
  "lifecycle_snap m now = \<lparr>ls_state = lm_state m, ls_reason = lm_reason m,
     ls_since_ms = ((now - lm_since m) div 10 ^ 6) mod 2 ^ 64\<rparr>"

definition command_target :: "lifecycle_command \<Rightarrow> lifecycle_state \<times> string" where
  "command_target c = (case c of
     Cordon \<Rightarrow> (Draining, ''cordon'')
   | Drain \<Rightarrow> (Quiesced, ''drain'')
   | Resume \<Rightarrow> (Online, ''resume'')
   | Quiesce \<Rightarrow> (Quiesced, ''quiesce'')
   | Reset \<Rightarrow> (Booting, ''reset''))"

definition command_allowed :: "lifecycle_state \<Rightarrow> lifecycle_command \<Rightarrow> bool" where
  "command_allowed s c = (case c of
     Cordon \<Rightarrow> s = Online \<or> s = Degraded
   | Drain \<Rightarrow> s = Draining
   | Resume \<Rightarrow> s \<noteq> Online
   | Quiesce \<Rightarrow> s = Online \<or> s = Degraded \<or> s = Draining
   | Reset \<Rightarrow> s \<noteq> Booting)"

definition auto_transition_allowed ::
  "lifecycle_config \<Rightarrow> lifecycle_state \<Rightarrow> lifecycle_state \<Rightarrow> bool" where
  "auto_transition_allowed config from to =
     list_ex (\<lambda>t. at_from t = from \<and> at_to t = to) (auto_transitions config)"

definition apply_command ::
  "lifecycle_machine \<Rightarrow> lifecycle_command \<Rightarrow> nat \<Rightarrow> nat \<Rightarrow>
    (lifecycle_error + lifecycle_transition) \<times> lifecycle_machine" where
  "apply_command m command now outstanding_leases =
     (let from = lm_state m;
          (to, reason) = command_target command
      in if from = to then (Err InvalidTransition, m)
         else if \<not> command_allowed from command then (Err InvalidTransition, m)
         else if (command = Drain \<or> command = Quiesce \<or> command = Reset) \<and> outstanding_leases > 0
         then (Err (OutstandingLeases outstanding_leases), m)
         else (Ok \<lparr>lt_from = from, lt_to = to, lt_reason = reason\<rparr>,
               m\<lparr>lm_state := to, lm_reason := reason, lm_since := now\<rparr>))"

definition apply_auto_transition ::
  "lifecycle_machine \<Rightarrow> lifecycle_state \<Rightarrow> string \<Rightarrow> nat \<Rightarrow>
    (lifecycle_error + lifecycle_transition) \<times> lifecycle_machine" where
  "apply_auto_transition m target reason now =
     (let from = lm_state m
      in if from = target then (Err InvalidTransition, m)
         else if \<not> auto_transition_allowed (lm_config m) from target
         then (Err AutoTransitionDenied, m)
         else (Ok \<lparr>lt_from = from, lt_to = target, lt_reason = reason\<rparr>,
               m\<lparr>lm_state := target, lm_reason := reason, lm_since := now\<rparr>))"

definition auto_boot_complete ::
  "lifecycle_machine \<Rightarrow> nat \<Rightarrow> (lifecycle_error + lifecycle_transition) \<times> lifecycle_machine" where
  "auto_boot_complete m now = apply_auto_transition m Online ''boot-complete'' now"

definition gate_allows :: "lifecycle_machine \<Rightarrow> lifecycle_gate \<Rightarrow> bool" where
  "gate_allows m g = gate_allows_state g (lm_state m)"

definition parse_command :: "string \<Rightarrow> lifecycle_error + lifecycle_command" where
  "parse_command line =
     (let trimmed = trim line
      in if trimmed = [] then Err InvalidCommand
         else if eq_ignore_ascii_case trimmed ''cordon'' then Ok Cordon
         else if eq_ignore_ascii_case trimmed ''drain'' then Ok Drain
         else if eq_ignore_ascii_case trimmed ''resume'' then Ok Resume
         else if eq_ignore_ascii_case trimmed ''quiesce'' then Ok Quiesce
         else if eq_ignore_ascii_case trimmed ''reset'' then Ok Reset
         else Err InvalidCommand)"

definition format_transition_log :: "lifecycle_transition \<Rightarrow> string" where
  "format_transition_log t =
     ''lifecycle transition old='' @ lifecycle_state_str (lt_from t)
       @ '' new='' @ lifecycle_state_str (lt_to t) @ '' reason='' @ lt_reason t"

definition format_denied_log :: "lifecycle_state \<Rightarrow> string \<Rightarrow> lifecycle_error \<Rightarrow> string" where
  "format_denied_log s action e =
     ''lifecycle denied action='' @ action @ '' state='' @ lifecycle_state_str s @ (case e of
        OutstandingLeases leases \<Rightarrow> '' reason=outstanding-leases leases='' @ show_nat leases
      | InvalidCommand \<Rightarrow> '' reason=invalid-command''
      | AutoTransitionDenied \<Rightarrow> '' reason=auto-transition-denied''
      | InvalidTransition \<Rightarrow> '' reason=invalid-transition'')"

definition format_gate_denied_log :: "lifecycle_state \<Rightarrow> string \<Rightarrow> string" where
  "format_gate_denied_log s action =
     ''lifecycle denied action='' @ action @ '' state='' @ lifecycle_state_str s
       @ '' reason=gate-denied''"

subsection \<open>The documented transitions\<close>

inductive transition :: "lifecycle_state \<Rightarrow> lifecycle_command \<Rightarrow> nat \<Rightarrow> lifecycle_state \<Rightarrow> bool" where
  cordon: "s = Online \<or> s = Degraded \<Longrightarrow> transition s Cordon leases Draining"
| drain: "transition Draining Drain 0 Quiesced"
| resume: "s \<noteq> Online \<Longrightarrow> transition s Resume leases Online"
| quiesce: "s = Online \<or> s = Degraded \<or> s = Draining \<Longrightarrow> transition s Quiesce 0 Quiesced"
| reset: "s \<noteq> Booting \<Longrightarrow> transition s Reset 0 Booting"

inductive_simps transition_simps:
  "transition s Cordon n t" "transition s Drain n t" "transition s Resume n t"
  "transition s Quiesce n t" "transition s Reset n t"

inductive_cases transitionE: "transition s c n t"

lemma transition_functional: "transition s c n t \<Longrightarrow> transition s c n u \<Longrightarrow> t = u"
  by (cases c) (auto simp: transition_simps)


subsection \<open>Runs\<close>

datatype lifecycle_event =
  Command lifecycle_command nat nat
| BootComplete nat
| AutoTo lifecycle_state string nat

fun lifecycle_step :: "lifecycle_machine \<Rightarrow> lifecycle_event \<Rightarrow> lifecycle_machine" where
  "lifecycle_step m (Command c now leases) = snd (apply_command m c now leases)"
| "lifecycle_step m (BootComplete now) = snd (auto_boot_complete m now)"
| "lifecycle_step m (AutoTo target reason now) = snd (apply_auto_transition m target reason now)"

definition lifecycle_inv :: "lifecycle_machine \<Rightarrow> bool" where
  "lifecycle_inv m \<longleftrightarrow> lm_config m = lifecycle_config_default \<and>
     lm_state m \<in> {Booting, Online, Draining, Quiesced}"

lemma apply_auto_inv: "lifecycle_inv m \<Longrightarrow> lifecycle_inv (snd (apply_auto_transition m t r now))"
  by (auto simp: lifecycle_inv_def apply_auto_transition_def auto_transition_allowed_def
      lifecycle_config_default_def Let_def)

interpretation lifecycle: step_invariant lifecycle_step lifecycle_inv
proof
  fix m e assume inv: "lifecycle_inv m"
  show "lifecycle_inv (lifecycle_step m e)"
  proof (cases e)
    case (Command c now leases)
    with inv show ?thesis
      by (cases c) (auto simp: lifecycle_inv_def apply_command_def command_target_def Let_def)
  qed (use inv apply_auto_inv in \<open>simp_all add: auto_boot_complete_def\<close>)
qed

lemma lifecycle_inv_new: "lifecycle_inv (lifecycle_new now)"
  by (simp add: lifecycle_inv_def lifecycle_new_def lifecycle_config_default_def Let_def)

text \<open>
  No sequence of commands and automatic transitions ever brings the host's machine into
  DEGRADED or OFFLINE: with the only configuration the host builds, those states (and
  the guards that mention them) are dead.
\<close>

theorem lifecycle_degraded_offline_unreachable:
  "lm_state (foldl lifecycle_step (lifecycle_new now) es) \<in> {Booting, Online, Draining, Quiesced}"
  using lifecycle.run_inv [OF lifecycle_inv_new, of now es] by (simp add: lifecycle_inv_def)

definition reopens :: "lifecycle_event \<Rightarrow> bool" where
  "reopens e = (case e of Command c _ _ \<Rightarrow> c = Resume | BootComplete _ \<Rightarrow> True | AutoTo _ _ _ \<Rightarrow> True)"

definition closed_inv :: "lifecycle_machine \<Rightarrow> bool" where
  "closed_inv m \<longleftrightarrow> lm_state m \<in> {Booting, Draining, Quiesced}"

interpretation cordoned: step_invariant
  "\<lambda>m e. if reopens e then m else lifecycle_step m e" closed_inv
proof
  fix m e assume "closed_inv m"
  then show "closed_inv (if reopens e then m else lifecycle_step m e)"
    by (cases e; cases "case e of Command c _ _ \<Rightarrow> c | _ \<Rightarrow> Cordon")
      (auto simp: closed_inv_def reopens_def apply_command_def command_target_def command_allowed_def Let_def)
qed

lemma foldl_no_reopens:
  "list_all (\<lambda>e. \<not> reopens e) es \<Longrightarrow>
    foldl lifecycle_step m es = foldl (\<lambda>m e. if reopens e then m else lifecycle_step m e) m es"
  by (induction es arbitrary: m) simp_all

text \<open>
  A cordon holds. Once a cordon has been carried out, no sequence of further commands
  other than \<open>resume\<close>, and without an automatic transition, lets new work, worker jobs
  or host publishes through their gates again.
\<close>

theorem cordon_closes_new_work:
  assumes "fst (apply_command m Cordon now leases) = Ok t" and "list_all (\<lambda>e. \<not> reopens e) es"
  defines "m' \<equiv> foldl lifecycle_step (snd (apply_command m Cordon now leases)) es"
  shows "\<not> gate_allows m' GATE_NEW_WORK \<and> \<not> gate_allows m' GATE_WORKER_JOB \<and>
    \<not> gate_allows m' GATE_HOST_PUBLISH"
proof -
  have "closed_inv (snd (apply_command m Cordon now leases))"
    using assms(1)
    by (auto simp: closed_inv_def apply_command_def command_target_def Let_def split: if_splits)
  then have "closed_inv m'"
    using cordoned.run_inv foldl_no_reopens [OF assms(2)] by (simp add: m'_def)
  then show ?thesis
    by (auto simp: closed_inv_def gate_allows_def gate_allows_state_def GATE_NEW_WORK_def
        GATE_WORKER_JOB_def GATE_HOST_PUBLISH_def)
qed

theorem cordon_closes_new_work_witness:
  "\<not> gate_allows (foldl lifecycle_step
      (snd (apply_command (snd (auto_boot_complete (lifecycle_new 0) 5)) Cordon 7 2))
      [Command Drain 8 2, Command Quiesce 9 0, Command Reset 10 0]) GATE_NEW_WORK"
proof -
  let ?m = "snd (auto_boot_complete (lifecycle_new 0) 5)"
  have "fst (apply_command ?m Cordon 7 2) =
      Ok \<lparr>lt_from = Online, lt_to = Draining, lt_reason = ''cordon''\<rparr>"
    by (simp add: apply_command_def command_target_def command_allowed_def auto_boot_complete_def
        apply_auto_transition_def auto_transition_allowed_def lifecycle_new_def
        lifecycle_config_default_def Let_def)
  from cordon_closes_new_work [OF this, of "[Command Drain 8 2, Command Quiesce 9 0, Command Reset 10 0]"]
  show ?thesis by (simp add: reopens_def)
qed

end
