(* ===== verification/Session_Phase.thy ===== *)
theory Session_Phase
  imports Lifecycle
begin

section \<open>Session phases\<close>

text \<open>
  The per-session phase tracker of \<open>apps/nine-door/src/host/session.rs\<close>, which the server
  shows under \<open>/proc/9p/session\<close>. An \<open>Instant\<close> is a number of nanoseconds.
\<close>

datatype session_phase = PhSetup | PhActive | PhDraining | PhClosed

definition session_phase_str :: "session_phase \<Rightarrow> string" where
  "session_phase_str p = (case p of
     PhSetup \<Rightarrow> ''SETUP'' | PhActive \<Rightarrow> ''ACTIVE'' | PhDraining \<Rightarrow> ''DRAINING'' | PhClosed \<Rightarrow> ''CLOSED'')"

record session_lifecycle =
  sl_phase :: session_phase
  sl_since :: nat
  sl_owner :: "string option"

definition session_lifecycle_new :: "nat \<Rightarrow> session_lifecycle" where
  "session_lifecycle_new now = \<lparr>sl_phase = PhSetup, sl_since = now, sl_owner = None\<rparr>"

definition since_ms :: "session_lifecycle \<Rightarrow> nat \<Rightarrow> nat" where
  "since_ms l now = ((now - sl_since l) div 10 ^ 6) mod 2 ^ 64"

definition mark_active :: "session_lifecycle \<Rightarrow> nat \<Rightarrow> string option \<Rightarrow> session_lifecycle" where
  "mark_active l now owner =
     (if sl_phase l = PhClosed then l
      else let l = l\<lparr>sl_phase := PhActive, sl_since := now\<rparr>
           in if owner \<noteq> None then l\<lparr>sl_owner := owner\<rparr> else l)"

definition mark_closed :: "session_lifecycle \<Rightarrow> nat \<Rightarrow> session_lifecycle" where
  "mark_closed l now =
     (if sl_phase l = PhClosed then l else l\<lparr>sl_phase := PhClosed, sl_since := now\<rparr>)"

definition refresh_for_lifecycle ::
  "session_lifecycle \<Rightarrow> lifecycle_state \<Rightarrow> nat \<Rightarrow> session_lifecycle" where
  "refresh_for_lifecycle l state now =
     (if sl_phase l = PhClosed \<or> sl_phase l = PhSetup then l
      else let draining = (state = Draining)
           in if sl_phase l = PhActive \<and> draining then l\<lparr>sl_phase := PhDraining, sl_since := now\<rparr>
              else if sl_phase l = PhDraining \<and> \<not> draining
              then l\<lparr>sl_phase := PhActive, sl_since := now\<rparr>
              else l)"

datatype phase_event =
  MarkActive nat "string option" | MarkClosed nat | Refresh lifecycle_state nat

fun phase_step :: "session_lifecycle \<Rightarrow> phase_event \<Rightarrow> session_lifecycle" where
  "phase_step l (MarkActive now owner) = mark_active l now owner"
| "phase_step l (MarkClosed now) = mark_closed l now"
| "phase_step l (Refresh state now) = refresh_for_lifecycle l state now"

text \<open>A closed tracker is a fixed point of every operation.\<close>

interpretation closed_phase: step_invariant phase_step "\<lambda>l. l = \<lparr>sl_phase = PhClosed, sl_since = t, sl_owner = o'\<rparr>"
  for t o'
proof
  fix l :: session_lifecycle and e
  assume "l = \<lparr>sl_phase = PhClosed, sl_since = t, sl_owner = o'\<rparr>"
  then show "phase_step l e = \<lparr>sl_phase = PhClosed, sl_since = t, sl_owner = o'\<rparr>"
    by (cases e) (simp_all add: mark_active_def mark_closed_def refresh_for_lifecycle_def)
qed

lemma closed_run:
  assumes "sl_phase l = PhClosed"
  shows "foldl phase_step l es = l"
  using closed_phase.run_inv [of l "sl_since l" "sl_owner l" es] assms
  by (cases l) simp

text \<open>
  What a session's tracker shows after the node's lifecycle was taken into account: after
  any history, refreshing it with the node's state leaves a closed session closed (and
  any later history leaves it as it was closed), and shows an attached session as
  draining exactly when the node is draining.
\<close>

theorem session_phase_follows_node:
  fixes es later :: "phase_event list" and t now :: nat and state :: lifecycle_state
  defines "l \<equiv> refresh_for_lifecycle (foldl phase_step (session_lifecycle_new t) es) state now"
  shows "(sl_phase l = PhClosed \<longrightarrow> foldl phase_step l later = l) \<and>
    (sl_phase l \<in> {PhActive, PhDraining} \<longrightarrow> (sl_phase l = PhDraining \<longleftrightarrow> state = Draining))"
proof -
  have "sl_phase l \<in> {PhActive, PhDraining} \<longrightarrow> (sl_phase l = PhDraining \<longleftrightarrow> state = Draining)"
    unfolding l_def by (cases "sl_phase (foldl phase_step (session_lifecycle_new t) es)")
      (auto simp: refresh_for_lifecycle_def Let_def split: if_splits)
  with closed_run show ?thesis by blast
qed

theorem session_phase_follows_node_witness:
  "sl_phase (refresh_for_lifecycle (foldl phase_step (session_lifecycle_new 0) [MarkActive 1 None]) Draining 2)
     = PhDraining \<and>
   foldl phase_step (refresh_for_lifecycle (foldl phase_step (session_lifecycle_new 0) [MarkClosed 1]) Online 2)
     [MarkActive 3 None] =
   refresh_for_lifecycle (foldl phase_step (session_lifecycle_new 0) [MarkClosed 1]) Online 2"
proof -
  let ?a = "refresh_for_lifecycle (foldl phase_step (session_lifecycle_new 0) [MarkActive 1 None]) Draining 2"
  let ?c = "refresh_for_lifecycle (foldl phase_step (session_lifecycle_new 0) [MarkClosed 1]) Online 2"
  have "sl_phase ?a \<in> {PhActive, PhDraining}"
    by (simp add: refresh_for_lifecycle_def session_lifecycle_new_def mark_active_def Let_def)
  moreover have "sl_phase ?c = PhClosed"
    by (simp add: refresh_for_lifecycle_def session_lifecycle_new_def mark_closed_def)
  ultimately show ?thesis
    using session_phase_follows_node [of 0 "[MarkActive 1 None]" Draining 2 "[]"]
      session_phase_follows_node [of 0 "[MarkClosed 1]" Online 2 "[MarkActive 3 None]"] by blast
qed

end
