(* ===== verification/Ticket.thy ===== *)
theory Ticket
  imports Wire_Cursor
begin

unbundle bit_operations_syntax

section \<open>Capability tickets\<close>

text \<open>
  The ticket claims, their byte encoding and the signed text form of
  \<open>crates/cohesix-ticket/src/lib.rs\<close>. The \<open>hex\<close> and \<open>blake3\<close> crates are parameters of the
  operations that call them; what the ticket code relies on is \<open>hex_ok\<close> (decoding undoes
  encoding, and the text holds no dot) and \<open>mac_ok\<close> (a hash is 32 bytes long).
\<close>

subsection \<open>Claims\<close>

definition CLAIMS_VERSION :: byte where
  "CLAIMS_VERSION = 1"

definition TICKET_PREFIX :: string where
  "TICKET_PREFIX = ''cohesix-ticket-''"

definition MAX_MOUNT_FIELD_LEN :: nat where
  "MAX_MOUNT_FIELD_LEN = 255"

definition MAX_SCOPE_COUNT :: nat where
  "MAX_SCOPE_COUNT = 16"

definition FLAG_TICKS :: byte where
  "FLAG_TICKS = 1"

definition FLAG_OPS :: byte where
  "FLAG_OPS = 2"

definition FLAG_TTL :: byte where
  "FLAG_TTL = 4"

definition FLAG_SUBJECT :: byte where
  "FLAG_SUBJECT = 8"

definition FLAG_SCOPES :: byte where
  "FLAG_SCOPES = 16"

definition FLAG_QUOTAS :: byte where
  "FLAG_QUOTAS = 32"

lemmas flag_defs = FLAG_TICKS_def FLAG_OPS_def FLAG_TTL_def FLAG_SUBJECT_def FLAG_SCOPES_def
  FLAG_QUOTAS_def

datatype ticket_error =
  MissingPrefix | MalformedToken | InvalidMacLength nat | MacMismatch | UnsupportedVersion byte
| UnsupportedRole byte | MountTooLarge | InvalidScopeVerb byte | ScopeTooMany | TicketTruncated
| TrailingData

datatype role = Queen | WorkerHeartbeat | WorkerGpu | WorkerBus | WorkerLora

definition role_as_u8 :: "role \<Rightarrow> byte" where
  "role_as_u8 r = (case r of
     Queen \<Rightarrow> 0 | WorkerHeartbeat \<Rightarrow> 1 | WorkerGpu \<Rightarrow> 2 | WorkerBus \<Rightarrow> 3 | WorkerLora \<Rightarrow> 4)"

definition role_from_u8 :: "byte \<Rightarrow> ticket_error + role" where
  "role_from_u8 v =
     (if v = 0 then Ok Queen
      else if v = 1 then Ok WorkerHeartbeat
      else if v = 2 then Ok WorkerGpu
      else if v = 3 then Ok WorkerBus
      else if v = 4 then Ok WorkerLora
      else Err (UnsupportedRole v))"

record budget_spec =
  bs_ticks :: "u64 option"
  bs_ops :: "u64 option"
  bs_ttl_s :: "u64 option"

definition budget_unbounded :: budget_spec where
  "budget_unbounded = \<lparr>bs_ticks = None, bs_ops = None, bs_ttl_s = None\<rparr>"

definition budget_default_heartbeat :: budget_spec where
  "budget_default_heartbeat = \<lparr>bs_ticks = Some 1000, bs_ops = Some 10000, bs_ttl_s = Some 300\<rparr>"

definition budget_default_gpu :: budget_spec where
  "budget_default_gpu = \<lparr>bs_ticks = None, bs_ops = Some 64, bs_ttl_s = Some 120\<rparr>"

definition with_ticks :: "budget_spec \<Rightarrow> u64 option \<Rightarrow> budget_spec" where
  "with_ticks b v = b\<lparr>bs_ticks := v\<rparr>"

definition with_ops :: "budget_spec \<Rightarrow> u64 option \<Rightarrow> budget_spec" where
  "with_ops b v = b\<lparr>bs_ops := v\<rparr>"

definition with_ttl :: "budget_spec \<Rightarrow> u64 option \<Rightarrow> budget_spec" where
  "with_ttl b v = b\<lparr>bs_ttl_s := v\<rparr>"

record mount_spec =
  ms_service :: string
  ms_at :: string

definition mount_empty :: mount_spec where
  "mount_empty = \<lparr>ms_service = [], ms_at = []\<rparr>"

definition mount_is_empty :: "mount_spec \<Rightarrow> bool" where
  "mount_is_empty m \<longleftrightarrow> ms_service m = [] \<and> ms_at m = []"

datatype ticket_verb = VRead | VWrite | VReadWrite

definition verb_as_u8 :: "ticket_verb \<Rightarrow> byte" where
  "verb_as_u8 v = (case v of VRead \<Rightarrow> 0 | VWrite \<Rightarrow> 1 | VReadWrite \<Rightarrow> 2)"

definition verb_from_u8 :: "byte \<Rightarrow> ticket_error + ticket_verb" where
  "verb_from_u8 v =
     (if v = 0 then Ok VRead
      else if v = 1 then Ok VWrite
      else if v = 2 then Ok VReadWrite
      else Err (InvalidScopeVerb v))"

record ticket_scope =
  sc_path :: string
  sc_verb :: ticket_verb
  sc_rate_per_s :: u32

record ticket_quotas =
  tq_bandwidth_bytes :: "u64 option"
  tq_cursor_resumes :: "u32 option"
  tq_cursor_advances :: "u32 option"

definition quotas_unbounded :: ticket_quotas where
  "quotas_unbounded = \<lparr>tq_bandwidth_bytes = None, tq_cursor_resumes = None, tq_cursor_advances = None\<rparr>"

definition quotas_has_any :: "ticket_quotas \<Rightarrow> bool" where
  "quotas_has_any q \<longleftrightarrow>
     tq_bandwidth_bytes q \<noteq> None \<or> tq_cursor_resumes q \<noteq> None \<or> tq_cursor_advances q \<noteq> None"

definition unwrap_or :: "'a option \<Rightarrow> 'a \<Rightarrow> 'a" where
  "unwrap_or v d = (case v of None \<Rightarrow> d | Some x \<Rightarrow> x)"

definition quotas_encode :: "ticket_quotas \<Rightarrow> bytes" where
  "quotas_encode q =
     to_le_bytes (unwrap_or (tq_bandwidth_bytes q) 0) @
     to_le_bytes (unwrap_or (tq_cursor_resumes q) 0) @
     to_le_bytes (unwrap_or (tq_cursor_advances q) 0)"

record ticket_claims =
  tc_role :: role
  tc_budget :: budget_spec
  tc_subject :: "string option"
  tc_mounts :: mount_spec
  tc_issued_at_ms :: u64
  tc_scopes :: "ticket_scope list"
  tc_quotas :: ticket_quotas

definition ticket_claims_new ::
  "role \<Rightarrow> budget_spec \<Rightarrow> string option \<Rightarrow> mount_spec \<Rightarrow> u64 \<Rightarrow> ticket_claims" where
  "ticket_claims_new r b s m t = \<lparr>tc_role = r, tc_budget = b, tc_subject = s, tc_mounts = m,
     tc_issued_at_ms = t, tc_scopes = [], tc_quotas = quotas_unbounded\<rparr>"

definition with_scopes :: "ticket_claims \<Rightarrow> ticket_scope list \<Rightarrow> ticket_claims" where
  "with_scopes c s = c\<lparr>tc_scopes := s\<rparr>"

definition with_quotas :: "ticket_claims \<Rightarrow> ticket_quotas \<Rightarrow> ticket_claims" where
  "with_quotas c q = c\<lparr>tc_quotas := q\<rparr>"

subsection \<open>Encoding\<close>

definition t_encode_string :: "string \<Rightarrow> ticket_error + bytes" where
  "t_encode_string v =
     (if length v > MAX_MOUNT_FIELD_LEN then Err MountTooLarge
      else if length v > u16_max then Err MountTooLarge
      else Ok (to_le_bytes (word_of_nat (length v) :: u16) @ str_bytes v))"

fun encode_scope_list :: "ticket_scope list \<Rightarrow> ticket_error + bytes" where
  "encode_scope_list [] = Ok []"
| "encode_scope_list (s # ss) =
     and_then (t_encode_string (sc_path s)) (\<lambda>p.
     and_then (encode_scope_list ss) (\<lambda>r.
       Ok (p @ [verb_as_u8 (sc_verb s)] @ to_le_bytes (sc_rate_per_s s) @ r)))"

definition encode_scopes :: "ticket_scope list \<Rightarrow> ticket_error + bytes" where
  "encode_scopes ss =
     (if length ss > MAX_SCOPE_COUNT then Err ScopeTooMany
      else and_then (encode_scope_list ss) (\<lambda>r. Ok (word_of_nat (length ss) # r)))"

definition claims_flags :: "ticket_claims \<Rightarrow> byte" where
  "claims_flags c =
     (let flags = 0;
          flags = (if bs_ticks (tc_budget c) \<noteq> None then flags OR FLAG_TICKS else flags);
          flags = (if bs_ops (tc_budget c) \<noteq> None then flags OR FLAG_OPS else flags);
          flags = (if bs_ttl_s (tc_budget c) \<noteq> None then flags OR FLAG_TTL else flags);
          flags = (if tc_subject c \<noteq> None then flags OR FLAG_SUBJECT else flags);
          flags = (if tc_scopes c \<noteq> [] then flags OR FLAG_SCOPES else flags);
          flags = (if quotas_has_any (tc_quotas c) then flags OR FLAG_QUOTAS else flags)
      in flags)"

definition opt_u64 :: "u64 option \<Rightarrow> bytes" where
  "opt_u64 v = (case v of None \<Rightarrow> [] | Some x \<Rightarrow> to_le_bytes x)"

definition encode_payload :: "ticket_claims \<Rightarrow> ticket_error + bytes" where
  "encode_payload c =
     (let flags = claims_flags c;
          head = [CLAIMS_VERSION, role_as_u8 (tc_role c), flags]
            @ opt_u64 (bs_ticks (tc_budget c)) @ opt_u64 (bs_ops (tc_budget c))
            @ opt_u64 (bs_ttl_s (tc_budget c))
      in and_then (case tc_subject c of None \<Rightarrow> Ok [] | Some s \<Rightarrow> t_encode_string s) (\<lambda>subject.
         and_then (t_encode_string (ms_service (tc_mounts c))) (\<lambda>service.
         and_then (t_encode_string (ms_at (tc_mounts c))) (\<lambda>at.
         and_then (if flags AND FLAG_SCOPES \<noteq> 0 then encode_scopes (tc_scopes c) else Ok []) (\<lambda>scopes.
           Ok (head @ subject @ to_le_bytes (tc_issued_at_ms c) @ service @ at @ scopes
               @ (if flags AND FLAG_QUOTAS \<noteq> 0 then quotas_encode (tc_quotas c) else [])))))))"

subsection \<open>Decoding\<close>

record payload_cursor =
  pc_bytes :: bytes
  pc_pos :: nat

definition payload_cursor_new :: "bytes \<Rightarrow> payload_cursor" where
  "payload_cursor_new bs = \<lparr>pc_bytes = bs, pc_pos = 0\<rparr>"

definition t_read_exact :: "nat \<Rightarrow> payload_cursor \<Rightarrow> ticket_error + bytes \<times> payload_cursor" where
  "t_read_exact len c =
     (let stop = sat_add (pc_pos c) len
      in if stop > length (pc_bytes c) then Err TicketTruncated
         else Ok (slice (pc_pos c) stop (pc_bytes c), c\<lparr>pc_pos := stop\<rparr>))"

definition t_read_u8 :: "payload_cursor \<Rightarrow> ticket_error + byte \<times> payload_cursor" where
  "t_read_u8 c = and_then (t_read_exact 1 c) (\<lambda>(bs, c). Ok (hd bs, c))"

definition t_read_u64 :: "payload_cursor \<Rightarrow> ticket_error + u64 \<times> payload_cursor" where
  "t_read_u64 c = and_then (t_read_exact 8 c) (\<lambda>(bs, c). Ok (from_le_bytes bs, c))"

definition t_read_u32 :: "payload_cursor \<Rightarrow> ticket_error + u32 \<times> payload_cursor" where
  "t_read_u32 c = and_then (t_read_exact 4 c) (\<lambda>(bs, c). Ok (from_le_bytes bs, c))"

definition t_read_string :: "payload_cursor \<Rightarrow> ticket_error + string \<times> payload_cursor" where
  "t_read_string c =
     and_then (t_read_exact 2 c) (\<lambda>(lb, c).
       let len = unat (from_le_bytes lb :: u16)
       in if len > MAX_MOUNT_FIELD_LEN then Err MountTooLarge
          else and_then (t_read_exact len c) (\<lambda>(bs, c).
            and_then (ok_or (from_utf8 bs) MalformedToken) (\<lambda>v. Ok (v, c))))"

definition ensure_empty :: "payload_cursor \<Rightarrow> ticket_error + unit" where
  "ensure_empty c = (if pc_pos c = length (pc_bytes c) then Ok () else Err TrailingData)"

definition quotas_decode :: "payload_cursor \<Rightarrow> ticket_error + ticket_quotas \<times> payload_cursor" where
  "quotas_decode c =
     and_then (t_read_u64 c) (\<lambda>(bw, c).
     and_then (t_read_u32 c) (\<lambda>(res, c).
     and_then (t_read_u32 c) (\<lambda>(adv, c).
       Ok (\<lparr>tq_bandwidth_bytes = then_some (bw > 0) bw,
            tq_cursor_resumes = then_some (res > 0) res,
            tq_cursor_advances = then_some (adv > 0) adv\<rparr>, c))))"

definition decode_scope :: "payload_cursor \<Rightarrow> ticket_error + ticket_scope \<times> payload_cursor" where
  "decode_scope c =
     and_then (t_read_string c) (\<lambda>(path, c).
     and_then (t_read_u8 c) (\<lambda>(v, c).
     and_then (verb_from_u8 v) (\<lambda>verb.
     and_then (t_read_u32 c) (\<lambda>(rate, c).
       Ok (\<lparr>sc_path = path, sc_verb = verb, sc_rate_per_s = rate\<rparr>, c)))))"

definition decode_scopes :: "payload_cursor \<Rightarrow> ticket_error + ticket_scope list \<times> payload_cursor" where
  "decode_scopes c =
     and_then (t_read_u8 c) (\<lambda>(n, c).
       if unat n > MAX_SCOPE_COUNT then Err ScopeTooMany
       else read_many decode_scope (unat n) c)"

definition read_some ::
  "bool \<Rightarrow> (payload_cursor \<Rightarrow> ticket_error + 'a \<times> payload_cursor) \<Rightarrow> payload_cursor \<Rightarrow>
    ticket_error + 'a option \<times> payload_cursor" where
  "read_some b rd c =
     (if b then and_then (rd c) (\<lambda>(x, c). Ok (Some x, c)) else Ok (None, c))"

definition read_or ::
  "bool \<Rightarrow> (payload_cursor \<Rightarrow> ticket_error + 'a \<times> payload_cursor) \<Rightarrow> 'a \<Rightarrow> payload_cursor \<Rightarrow>
    ticket_error + 'a \<times> payload_cursor" where
  "read_or b rd d c = (if b then rd c else Ok (d, c))"

definition decode_payload :: "bytes \<Rightarrow> ticket_error + ticket_claims" where
  "decode_payload bs =
     and_then (t_read_u8 (payload_cursor_new bs)) (\<lambda>(version, c).
     if version \<noteq> CLAIMS_VERSION then Err (UnsupportedVersion version) else
     and_then (t_read_u8 c) (\<lambda>(r, c).
     and_then (role_from_u8 r) (\<lambda>role.
     and_then (t_read_u8 c) (\<lambda>(flags, c).
     and_then (read_some (flags AND FLAG_TICKS \<noteq> 0) t_read_u64 c) (\<lambda>(ticks, c).
     and_then (read_some (flags AND FLAG_OPS \<noteq> 0) t_read_u64 c) (\<lambda>(ops, c).
     and_then (read_some (flags AND FLAG_TTL \<noteq> 0) t_read_u64 c) (\<lambda>(ttl_s, c).
     and_then (read_some (flags AND FLAG_SUBJECT \<noteq> 0) t_read_string c) (\<lambda>(subject, c).
     and_then (t_read_u64 c) (\<lambda>(issued, c).
     and_then (t_read_string c) (\<lambda>(service, c).
     and_then (t_read_string c) (\<lambda>(at, c).
     and_then (read_or (flags AND FLAG_SCOPES \<noteq> 0) decode_scopes [] c) (\<lambda>(scopes, c).
     and_then (read_or (flags AND FLAG_QUOTAS \<noteq> 0) quotas_decode quotas_unbounded c) (\<lambda>(quotas, c).
     and_then (ensure_empty c) (\<lambda>_.
       Ok \<lparr>tc_role = role,
           tc_budget = \<lparr>bs_ticks = ticks, bs_ops = ops, bs_ttl_s = ttl_s\<rparr>,
           tc_subject = subject,
           tc_mounts = \<lparr>ms_service = service, ms_at = at\<rparr>,
           tc_issued_at_ms = issued, tc_scopes = scopes, tc_quotas = quotas\<rparr>))))))))))))))"

subsection \<open>Tokens\<close>

type_synonym ticket_key = bytes
type_synonym keyed_hash = "bytes \<Rightarrow> bytes \<Rightarrow> bytes"

record ticket_token =
  tt_claims :: ticket_claims
  tt_mac :: bytes

definition key_from_secret :: "(bytes \<Rightarrow> bytes) \<Rightarrow> string \<Rightarrow> ticket_key" where
  "key_from_secret blake3_hash secret = blake3_hash (str_bytes secret)"

definition keyed_mac :: "keyed_hash \<Rightarrow> ticket_key \<Rightarrow> bytes \<Rightarrow> bytes" where
  "keyed_mac blake3_keyed key payload = blake3_keyed key payload"

definition token_encode :: "(bytes \<Rightarrow> string) \<Rightarrow> ticket_token \<Rightarrow> ticket_error + string" where
  "token_encode hex_encode t =
     and_then (encode_payload (tt_claims t)) (\<lambda>payload.
       Ok (TICKET_PREFIX @ hex_encode payload @ ''.'' @ hex_encode (tt_mac t)))"

definition parse_token :: "(string \<Rightarrow> bytes option) \<Rightarrow> string \<Rightarrow> ticket_error + bytes \<times> bytes" where
  "parse_token hex_decode token =
     and_then (ok_or (strip_prefix TICKET_PREFIX token) MissingPrefix) (\<lambda>payload.
     and_then (ok_or (split_once (CHR ''.'') payload) MalformedToken) (\<lambda>(payload_hex, mac_hex).
     and_then (ok_or (hex_decode payload_hex) MalformedToken) (\<lambda>payload_bytes.
     and_then (ok_or (hex_decode mac_hex) MalformedToken) (\<lambda>mac_bytes.
       if length mac_bytes \<noteq> 32 then Err (InvalidMacLength (length mac_bytes))
       else Ok (payload_bytes, mac_bytes)))))"

definition token_decode ::
  "(string \<Rightarrow> bytes option) \<Rightarrow> keyed_hash \<Rightarrow> string \<Rightarrow> ticket_key \<Rightarrow> ticket_error + ticket_token" where
  "token_decode hex_decode blake3_keyed token key =
     and_then (parse_token hex_decode token) (\<lambda>(payload, mac).
       let expected = keyed_mac blake3_keyed key payload
       in if expected \<noteq> mac then Err MacMismatch
          else and_then (decode_payload payload) (\<lambda>claims.
            Ok \<lparr>tt_claims = claims, tt_mac = mac\<rparr>))"

definition token_decode_unverified ::
  "(string \<Rightarrow> bytes option) \<Rightarrow> string \<Rightarrow> ticket_error + ticket_claims" where
  "token_decode_unverified hex_decode token =
     and_then (parse_token hex_decode token) (\<lambda>(payload, _). decode_payload payload)"

definition issuer_new :: "(bytes \<Rightarrow> bytes) \<Rightarrow> string \<Rightarrow> ticket_key" where
  "issuer_new blake3_hash secret = key_from_secret blake3_hash secret"

definition ticket_issue ::
  "keyed_hash \<Rightarrow> ticket_key \<Rightarrow> ticket_claims \<Rightarrow> ticket_error + ticket_token" where
  "ticket_issue blake3_keyed key claims =
     and_then (encode_payload claims) (\<lambda>payload.
       Ok \<lparr>tt_claims = claims, tt_mac = keyed_mac blake3_keyed key payload\<rparr>)"

subsection \<open>The fields of the claims format\<close>

definition pay_at :: "bytes \<Rightarrow> bytes \<Rightarrow> payload_cursor" where
  "pay_at pre rest = \<lparr>pc_bytes = pre @ rest, pc_pos = length pre\<rparr>"

definition pay_ok :: "payload_cursor \<Rightarrow> bool" where
  "pay_ok c \<longleftrightarrow> pc_pos c \<le> length (pc_bytes c) \<and> fits (pc_bytes c)"

definition pay_left :: "payload_cursor \<Rightarrow> bytes" where
  "pay_left c = drop (pc_pos c) (pc_bytes c)"

lemma payload_cursor_new_at: "payload_cursor_new bs = pay_at [] bs"
  by (simp add: payload_cursor_new_def pay_at_def)

lemma ensure_empty_at [simp]: "ensure_empty (pay_at pre rest) = (if rest = [] then Ok () else Err TrailingData)"
  by (simp add: ensure_empty_def pay_at_def)

interpretation pay: wire_cursor pay_at pay_ok pay_left
proof
  fix c
  assume "pay_ok c"
  then show "\<exists>pre. c = pay_at pre (pay_left c) \<and> fits (pre @ pay_left c)"
    by (intro exI [of _ "take (pc_pos c) (pc_bytes c)"])
      (simp add: pay_at_def pay_left_def pay_ok_def min_absorb2)
qed (simp_all add: pay_ok_def pay_at_def pay_left_def)

lemma t_read_exact_at:
  assumes "fits (pre @ s)"
  shows "t_read_exact n (pay_at pre s) =
    (if n \<le> length s then Ok (take n s, pay_at (pre @ take n s) (drop n s)) else Err TicketTruncated)"
proof -
  have f: "length pre + length s < u64_max" using assms by (simp add: fits_def)
  then have "n \<le> length s \<Longrightarrow> sat_add (length pre) n = length pre + n"
    and "\<not> n \<le> length s \<Longrightarrow> sat_add (length pre) n > length pre + length s"
    by (simp, simp add: sat_add_def)
  then show ?thesis
    by (cases "n \<le> length s") (simp_all add: t_read_exact_def pay_at_def Let_def slice_def min_absorb2)
qed

interpretation pexact: wire_field pay_at pay_ok pay_left "\<lambda>bs. bs" "t_read_exact n" "\<lambda>bs. length bs = n" for n
proof
  fix pre s x c
  assume a: "t_read_exact n (pay_at pre s) = Ok (x, c)" "fits (pre @ s)"
  then have "n \<le> length s" "x = take n s" "c = pay_at (pre @ take n s) (drop n s)"
    by (auto simp: t_read_exact_at split: if_splits)
  then show "length x = n \<and> (\<exists>rest. s = x @ rest \<and> c = pay_at (pre @ x) rest)"
    by (intro conjI exI [of _ "drop n s"]) simp_all
qed (simp add: t_read_exact_at)

interpretation p8: wire_field pay_at pay_ok pay_left "\<lambda>b. [b]" t_read_u8 "\<lambda>_. True"
  unfolding t_read_u8_def [abs_def]
  by (rule pexact.mapped_field [where enc = "\<lambda>b. [b]"]) (auto simp: length_Suc_conv)

interpretation p32: wire_field pay_at pay_ok pay_left "to_le_bytes :: u32 \<Rightarrow> bytes" t_read_u32 "\<lambda>_. True"
  unfolding t_read_u32_def [abs_def]
  by (rule pexact.mapped_field) (simp_all add: to_from_le_bytes)

interpretation p64: wire_field pay_at pay_ok pay_left "to_le_bytes :: u64 \<Rightarrow> bytes" t_read_u64 "\<lambda>_. True"
  unfolding t_read_u64_def [abs_def]
  by (rule pexact.mapped_field) (simp_all add: to_from_le_bytes)

definition field_ok :: "string \<Rightarrow> bool" where
  "field_ok s \<longleftrightarrow> utf8_str s \<and> length s \<le> MAX_MOUNT_FIELD_LEN"

definition field_wire :: "string \<Rightarrow> bytes" where
  "field_wire v = to_le_bytes (word_of_nat (length v) :: u16) @ str_bytes v"

lemma unat_field_len: "field_ok s \<Longrightarrow> unat (word_of_nat (length s) :: u16) = length s"
  by (simp add: field_ok_def MAX_MOUNT_FIELD_LEN_def unat_of_nat)

lemma t_encode_string_Ok: "length s \<le> MAX_MOUNT_FIELD_LEN \<Longrightarrow> t_encode_string s = Ok (field_wire s)"
  by (simp add: t_encode_string_def field_wire_def MAX_MOUNT_FIELD_LEN_def u16_max_def)

interpretation pstr: wire_field pay_at pay_ok pay_left field_wire t_read_string field_ok
proof
  fix x pre rest
  assume ok: "field_ok x" and "fits (pre @ field_wire x @ rest)"
  then have f: "fits (pre @ to_le_bytes (word_of_nat (length x) :: u16) @ str_bytes x @ rest)"
    by (simp add: field_wire_def)
  from ok show "t_read_string (pay_at pre (field_wire x @ rest)) = Ok (x, pay_at (pre @ field_wire x) rest)"
    using pexact.get_put [OF _ f, of 2]
      pexact.get_put [of "str_bytes x" "length x" "pre @ to_le_bytes (word_of_nat (length x) :: u16)" rest] f
    by (simp add: t_read_string_def field_wire_def unat_field_len Let_def) (simp add: field_ok_def)
next
  fix pre s x c
  assume a: "t_read_string (pay_at pre s) = Ok (x, c)" and f: "fits (pre @ s)"
  then obtain lb c1 b where
    1: "t_read_exact 2 (pay_at pre s) = Ok (lb, c1)" and
    len: "unat (from_le_bytes lb :: u16) \<le> MAX_MOUNT_FIELD_LEN" and
    2: "t_read_exact (unat (from_le_bytes lb :: u16)) c1 = Ok (b, c)" and x: "from_utf8 b = Some x"
    by (auto simp: t_read_string_def outcome_splits Let_def split: if_splits)
  from pexact.get_inv [OF 1 f] obtain r1 where
    r1: "length lb = 2" "s = lb @ r1" "c1 = pay_at (pre @ lb) r1" by blast
  with 2 f pexact.get_inv [of "unat (from_le_bytes lb :: u16)" "pre @ lb" r1 b c] obtain r2 where
    r2: "length b = unat (from_le_bytes lb :: u16)" "r1 = b @ r2" "c = pay_at (pre @ lb @ b) r2"
    by auto
  from x have b: "utf8_str x" "str_bytes x = b" by (simp_all add: from_utf8_Some)
  then have l: "length x = unat (from_le_bytes lb :: u16)" using r2(1) by (metis length_str_bytes)
  then have "field_ok x" "field_wire x = lb @ b"
    using b len r1(1) by (simp_all add: field_ok_def field_wire_def to_from_le_bytes)
  with r1 r2 show "field_ok x \<and> (\<exists>rest. s = field_wire x @ rest \<and> c = pay_at (pre @ field_wire x) rest)"
    by simp
qed

lemma verb_from_u8_Ok: "verb_from_u8 b = Ok v \<longleftrightarrow> b = verb_as_u8 v"
  by (cases v) (auto simp: verb_from_u8_def verb_as_u8_def)

lemma role_from_u8_Ok: "role_from_u8 b = Ok r \<longleftrightarrow> b = role_as_u8 r"
  by (cases r) (auto simp: role_from_u8_def role_as_u8_def)

definition scope_wire :: "ticket_scope \<Rightarrow> bytes" where
  "scope_wire s = field_wire (sc_path s) @ [verb_as_u8 (sc_verb s)] @ to_le_bytes (sc_rate_per_s s)"

definition scope_ok :: "ticket_scope \<Rightarrow> bool" where
  "scope_ok s \<longleftrightarrow> field_ok (sc_path s)"

interpretation pverb: wire_field pay_at pay_ok pay_left "\<lambda>v. [verb_as_u8 v]"
  "\<lambda>c. and_then (t_read_u8 c) (\<lambda>(b, c). and_then (verb_from_u8 b) (\<lambda>v. Ok (v, c)))" "\<lambda>_. True"
  by (rule p8.checked_field) (simp_all add: verb_from_u8_Ok)

lemma wire_field_pscope: "wire_field pay_at pay_ok pay_left scope_wire decode_scope scope_ok"
proof -
  let ?enc = "\<lambda>s. (sc_path s, sc_verb s, sc_rate_per_s s)"
  let ?dec = "\<lambda>(p, v, r). \<lparr>sc_path = p, sc_verb = v, sc_rate_per_s = r\<rparr>"
  note triple = pstr.field_then [OF pverb.field_then [OF p32.wire_field_axioms]]
  note field = wire_field.mapped_field [OF triple, of scope_ok ?enc ?dec]
  show ?thesis
    using field
    by (simp add: scope_wire_def [abs_def] scope_ok_def decode_scope_def [abs_def] and_then_def
        case_prod_beta sum.case_distrib [of "case_sum _ _"] cong: sum.case_cong)
qed

interpretation pscope: wire_field pay_at pay_ok pay_left scope_wire decode_scope scope_ok
  by (rule wire_field_pscope)

text \<open>The wire form of quotas has no room for a limit of zero: zero stands for no limit.\<close>

definition quotas_ok :: "ticket_quotas \<Rightarrow> bool" where
  "quotas_ok q \<longleftrightarrow> tq_bandwidth_bytes q \<noteq> Some 0 \<and> tq_cursor_resumes q \<noteq> Some 0 \<and>
     tq_cursor_advances q \<noteq> Some 0"

lemma then_some_unwrap [simp]:
  "v \<noteq> Some 0 \<Longrightarrow> then_some (unwrap_or v 0 > 0) (unwrap_or v 0) = (v :: 'a::len word option)"
  by (cases v) (auto simp: then_some_def unwrap_or_def word_neq_0_conv)

lemma unwrap_then_some [simp]: "unwrap_or (then_some (x > 0) x) 0 = (x :: 'a::len word)"
  by (simp add: then_some_def unwrap_or_def word_neq_0_conv [symmetric])

lemma then_some_nonzero [simp]: "then_some (x > 0) x \<noteq> Some (0 :: 'a::len word)"
  by (auto simp: then_some_def)

lemma wire_field_pquotas: "wire_field pay_at pay_ok pay_left quotas_encode quotas_decode quotas_ok"
proof -
  let ?enc = "\<lambda>q. (unwrap_or (tq_bandwidth_bytes q) 0, unwrap_or (tq_cursor_resumes q) 0,
    unwrap_or (tq_cursor_advances q) 0)"
  let ?dec = "\<lambda>(b, r, a). \<lparr>tq_bandwidth_bytes = then_some (b > 0) b,
    tq_cursor_resumes = then_some (r > 0) r, tq_cursor_advances = then_some (a > 0) a\<rparr>"
  note triple = p64.field_then [OF p32.field_then [OF p32.wire_field_axioms]]
  note field = wire_field.mapped_field [OF triple, of quotas_ok ?enc ?dec]
  show ?thesis
    using field
    by (simp add: quotas_encode_def [abs_def] quotas_ok_def quotas_decode_def [abs_def] and_then_def
        case_prod_beta sum.case_distrib [of "case_sum _ _"] cong: sum.case_cong)
qed

interpretation pquotas: wire_field pay_at pay_ok pay_left quotas_encode quotas_decode quotas_ok
  by (rule wire_field_pquotas)

definition scopes_wire :: "ticket_scope list \<Rightarrow> bytes" where
  "scopes_wire ss = word_of_nat (length ss) # concat (map scope_wire ss)"

definition scopes_ok :: "ticket_scope list \<Rightarrow> bool" where
  "scopes_ok ss \<longleftrightarrow> length ss \<le> MAX_SCOPE_COUNT \<and> (\<forall>s \<in> set ss. scope_ok s)"

lemma unat_scope_count: "n \<le> MAX_SCOPE_COUNT \<Longrightarrow> unat (word_of_nat n :: byte) = n"
  by (simp add: MAX_SCOPE_COUNT_def unat_of_nat)

interpretation pscopes: wire_field pay_at pay_ok pay_left scopes_wire decode_scopes scopes_ok
proof
  fix ss pre rest
  assume ok: "scopes_ok ss" and "fits (pre @ scopes_wire ss @ rest)"
  then have f: "fits (pre @ [word_of_nat (length ss)] @ concat (map scope_wire ss) @ rest)"
    by (simp add: scopes_wire_def)
  then have f2: "fits ((pre @ [word_of_nat (length ss)]) @ concat (map scope_wire ss) @ rest)" by simp
  show "decode_scopes (pay_at pre (scopes_wire ss @ rest)) = Ok (ss, pay_at (pre @ scopes_wire ss) rest)"
    using ok p8.get_put [OF TrueI f] pscope.get_many [OF _ f2]
    by (simp add: decode_scopes_def scopes_wire_def scopes_ok_def unat_scope_count)
next
  fix pre s ss c
  assume a: "decode_scopes (pay_at pre s) = Ok (ss, c)" and f: "fits (pre @ s)"
  then obtain n c1 where 1: "t_read_u8 (pay_at pre s) = Ok (n, c1)" and n: "unat n \<le> MAX_SCOPE_COUNT"
    and 2: "read_many decode_scope (unat n) c1 = Ok (ss, c)"
    by (auto simp: decode_scopes_def outcome_splits split: if_splits)
  from p8.get_inv [OF 1 f] obtain r1 where r1: "s = [n] @ r1" "c1 = pay_at (pre @ [n]) r1" by blast
  with 2 f pscope.get_many_inv [of "unat n" "pre @ [n]" r1 ss c] obtain r2 where
    r2: "length ss = unat n" "\<forall>s \<in> set ss. scope_ok s" "r1 = concat (map scope_wire ss) @ r2"
      "c = pay_at (pre @ [n] @ concat (map scope_wire ss)) r2"
    by auto
  with r1 n show "scopes_ok ss \<and> (\<exists>rest. s = scopes_wire ss @ rest \<and> c = pay_at (pre @ scopes_wire ss) rest)"
    by (simp add: scopes_ok_def scopes_wire_def)
qed

subsection \<open>Claims as a sequence of fields\<close>

text \<open>A field under a flag whose value is an option.\<close>

definition some_wire :: "('a \<Rightarrow> bytes) \<Rightarrow> bool \<Rightarrow> 'a option \<Rightarrow> bytes" where
  "some_wire w b v = (if b then w (the v) else [])"

definition some_ok :: "('a \<Rightarrow> bool) \<Rightarrow> bool \<Rightarrow> 'a option \<Rightarrow> bool" where
  "some_ok P b v = (if b then v \<noteq> None \<and> P (the v) else v = None)"

lemma some_field:
  assumes "wire_field pay_at pay_ok pay_left w rd P"
  shows "wire_field pay_at pay_ok pay_left (some_wire w b) (read_some b rd) (some_ok P b)"
proof -
  have "wire_field pay_at pay_ok pay_left (\<lambda>v. w (the v))
      (\<lambda>c. and_then (rd c) (\<lambda>(x, c). Ok (Some x, c))) (\<lambda>v. v \<noteq> None \<and> P (the v))"
    by (rule wire_field.mapped_field [OF assms]) auto
  from wire_field.flagged_field [OF this, of b None] show ?thesis
    by (simp add: some_wire_def [abs_def] read_some_def [abs_def] some_ok_def [abs_def])
qed

interpretation psome64: wire_field pay_at pay_ok pay_left
  "some_wire to_le_bytes b" "read_some b t_read_u64" "some_ok (\<lambda>_ :: u64. True) b" for b
  by (rule some_field) (rule p64.wire_field_axioms)

interpretation psomestr: wire_field pay_at pay_ok pay_left
  "some_wire field_wire b" "read_some b t_read_string" "some_ok field_ok b" for b
  by (rule some_field) (rule pstr.wire_field_axioms)

definition or_wire :: "('a \<Rightarrow> bytes) \<Rightarrow> bool \<Rightarrow> 'a \<Rightarrow> bytes" where
  "or_wire w b x = (if b then w x else [])"

definition or_ok :: "('a \<Rightarrow> bool) \<Rightarrow> 'a \<Rightarrow> bool \<Rightarrow> 'a \<Rightarrow> bool" where
  "or_ok P d b x = (if b then P x else x = d)"

lemma or_field:
  assumes "wire_field pay_at pay_ok pay_left w rd P"
  shows "wire_field pay_at pay_ok pay_left (or_wire w b) (read_or b rd d) (or_ok P d b)"
  using wire_field.flagged_field [OF assms, of b d]
  by (simp add: or_wire_def [abs_def] read_or_def [abs_def] or_ok_def [abs_def])

interpretation porscopes: wire_field pay_at pay_ok pay_left
  "or_wire scopes_wire b" "read_or b decode_scopes []" "or_ok scopes_ok [] b" for b
  by (rule or_field) (rule pscopes.wire_field_axioms)

interpretation porquotas: wire_field pay_at pay_ok pay_left
  "or_wire quotas_encode b" "read_or b quotas_decode quotas_unbounded" "or_ok quotas_ok quotas_unbounded b" for b
  by (rule or_field) (rule pquotas.wire_field_axioms)

definition claims_ok :: "ticket_claims \<Rightarrow> bool" where
  "claims_ok c \<longleftrightarrow>
     (\<forall>s. tc_subject c = Some s \<longrightarrow> field_ok s) \<and>
     field_ok (ms_service (tc_mounts c)) \<and> field_ok (ms_at (tc_mounts c)) \<and>
     scopes_ok (tc_scopes c) \<and> quotas_ok (tc_quotas c)"

lemma claims_flags_bits:
  "claims_flags c AND FLAG_TICKS \<noteq> 0 \<longleftrightarrow> bs_ticks (tc_budget c) \<noteq> None"
  "claims_flags c AND FLAG_OPS \<noteq> 0 \<longleftrightarrow> bs_ops (tc_budget c) \<noteq> None"
  "claims_flags c AND FLAG_TTL \<noteq> 0 \<longleftrightarrow> bs_ttl_s (tc_budget c) \<noteq> None"
  "claims_flags c AND FLAG_SUBJECT \<noteq> 0 \<longleftrightarrow> tc_subject c \<noteq> None"
  "claims_flags c AND FLAG_SCOPES \<noteq> 0 \<longleftrightarrow> tc_scopes c \<noteq> []"
  "claims_flags c AND FLAG_QUOTAS \<noteq> 0 \<longleftrightarrow> quotas_has_any (tc_quotas c)"
  by (simp_all add: claims_flags_def Let_def flag_defs)

definition claims_wire :: "ticket_claims \<Rightarrow> bytes" where
  "claims_wire c =
     [CLAIMS_VERSION] @ [role_as_u8 (tc_role c)] @ [claims_flags c]
     @ some_wire to_le_bytes (bs_ticks (tc_budget c) \<noteq> None) (bs_ticks (tc_budget c))
     @ some_wire to_le_bytes (bs_ops (tc_budget c) \<noteq> None) (bs_ops (tc_budget c))
     @ some_wire to_le_bytes (bs_ttl_s (tc_budget c) \<noteq> None) (bs_ttl_s (tc_budget c))
     @ some_wire field_wire (tc_subject c \<noteq> None) (tc_subject c)
     @ to_le_bytes (tc_issued_at_ms c)
     @ field_wire (ms_service (tc_mounts c)) @ field_wire (ms_at (tc_mounts c))
     @ or_wire scopes_wire (tc_scopes c \<noteq> []) (tc_scopes c)
     @ or_wire quotas_encode (quotas_has_any (tc_quotas c)) (tc_quotas c)"

text \<open>What the encoder accepts: every string at most 255 bytes long, at most 16 scopes.\<close>

definition claims_encodable :: "ticket_claims \<Rightarrow> bool" where
  "claims_encodable c \<longleftrightarrow>
     (\<forall>s. tc_subject c = Some s \<longrightarrow> length s \<le> MAX_MOUNT_FIELD_LEN) \<and>
     length (ms_service (tc_mounts c)) \<le> MAX_MOUNT_FIELD_LEN \<and>
     length (ms_at (tc_mounts c)) \<le> MAX_MOUNT_FIELD_LEN \<and>
     length (tc_scopes c) \<le> MAX_SCOPE_COUNT \<and>
     (\<forall>s \<in> set (tc_scopes c). length (sc_path s) \<le> MAX_MOUNT_FIELD_LEN)"

lemma t_encode_string_iff:
  "t_encode_string s = (if length s \<le> MAX_MOUNT_FIELD_LEN then Ok (field_wire s) else Err MountTooLarge)"
  by (simp add: t_encode_string_Ok) (simp add: t_encode_string_def)

lemma encode_scope_list_iff:
  "encode_scope_list ss =
    (if \<forall>s \<in> set ss. length (sc_path s) \<le> MAX_MOUNT_FIELD_LEN then Ok (concat (map scope_wire ss))
     else Err MountTooLarge)"
proof (induction ss)
  case (Cons s ss)
  then show ?case by (auto simp: t_encode_string_iff scope_wire_def [of s])
qed simp

lemma opt_u64_wire: "opt_u64 v = some_wire to_le_bytes (v \<noteq> None) v"
  by (cases v) (simp_all add: opt_u64_def some_wire_def)

lemma encode_payload_Ok: "claims_encodable c \<Longrightarrow> encode_payload c = Ok (claims_wire c)"
  by (cases "tc_subject c")
    (auto simp: claims_encodable_def encode_payload_def Let_def t_encode_string_iff encode_scopes_def
      encode_scope_list_iff scopes_wire_def claims_flags_bits claims_wire_def opt_u64_wire some_wire_def
      or_wire_def)

lemma encode_payload_Err: "\<not> claims_encodable c \<Longrightarrow> \<not> is_ok (encode_payload c)"
  by (cases "tc_subject c")
    (auto simp: claims_encodable_def encode_payload_def Let_def t_encode_string_iff encode_scopes_def
      encode_scope_list_iff claims_flags_bits not_le split: if_splits)

lemma length_field_wire [simp]: "length (field_wire s) = length s + 2"
  by (simp add: field_wire_def)

lemma length_scopes_wire:
  "\<forall>s \<in> set ss. length (sc_path s) \<le> MAX_MOUNT_FIELD_LEN \<Longrightarrow>
    length (concat (map scope_wire ss)) \<le> 262 * length ss"
  by (induction ss) (auto simp: scope_wire_def MAX_MOUNT_FIELD_LEN_def)

lemma claims_wire_fits:
  assumes ok: "claims_ok (c\<lparr>tc_quotas := q\<rparr>)"
  shows "fits (claims_wire c)"
proof -
  have s: "length (concat (map scope_wire (tc_scopes c))) \<le> 262 * 16"
    using ok length_scopes_wire [of "tc_scopes c"]
    by (auto simp: claims_ok_def scopes_ok_def scope_ok_def field_ok_def MAX_SCOPE_COUNT_def)
  have "length (claims_wire c) \<le> 8192"
    using ok s
    by (cases "tc_subject c")
      (auto simp: claims_wire_def some_wire_def or_wire_def claims_ok_def field_ok_def scopes_wire_def
        quotas_encode_def MAX_MOUNT_FIELD_LEN_def)
  then show ?thesis by (simp add: fits_def u64_max_def)
qed

lemma p8_put: "fits (pre @ b # rest) \<Longrightarrow> t_read_u8 (pay_at pre (b # rest)) = Ok (b, pay_at (pre @ [b]) rest)"
  using p8.get_put [of pre b rest] by simp

lemmas pay_put = p8_put psome64.get_put psomestr.get_put p64.get_put pstr.get_put
  porscopes.get_put porquotas.get_put_end

text \<open>What the wire form keeps of a quota: a limit of zero is lost.\<close>

definition nonzero :: "'a::len word option \<Rightarrow> 'a word option" where
  "nonzero v = (if v = Some 0 then None else v)"

definition wire_quotas :: "ticket_quotas \<Rightarrow> ticket_quotas" where
  "wire_quotas q = \<lparr>tq_bandwidth_bytes = nonzero (tq_bandwidth_bytes q),
     tq_cursor_resumes = nonzero (tq_cursor_resumes q),
     tq_cursor_advances = nonzero (tq_cursor_advances q)\<rparr>"

lemma unwrap_nonzero [simp]: "unwrap_or (nonzero v) 0 = unwrap_or v 0"
  by (simp add: nonzero_def unwrap_or_def)

lemma quotas_encode_wire: "quotas_encode (wire_quotas q) = quotas_encode q"
  by (simp add: quotas_encode_def wire_quotas_def)

lemma quotas_ok_wire [simp]: "quotas_ok (wire_quotas q)"
  by (simp add: quotas_ok_def wire_quotas_def nonzero_def)

lemma wire_quotas_id: "quotas_ok q \<Longrightarrow> wire_quotas q = q"
  by (simp add: quotas_ok_def wire_quotas_def nonzero_def)

lemma decode_claims_wire:
  assumes ok: "claims_ok (c\<lparr>tc_quotas := q\<rparr>)" and q: "q = wire_quotas (tc_quotas c)"
  shows "decode_payload (claims_wire c) = Ok (c\<lparr>tc_quotas := q\<rparr>)"
proof -
  have f: "fits (claims_wire c)" using ok by (rule claims_wire_fits)
  have q': "or_ok quotas_ok quotas_unbounded (quotas_has_any (tc_quotas c)) q"
    using quotas_ok_wire [of "tc_quotas c"]
    by (simp add: q or_ok_def) (simp add: wire_quotas_def quotas_has_any_def quotas_unbounded_def nonzero_def)
  have e: "or_wire quotas_encode b (tc_quotas c) = or_wire quotas_encode b q" for b
    by (simp add: q or_wire_def quotas_encode_wire)
  have sc: "or_ok scopes_ok [] (tc_scopes c \<noteq> []) (tc_scopes c)"
    using ok by (simp add: claims_ok_def or_ok_def)
  have sub: "some_ok field_ok (tc_subject c \<noteq> None) (tc_subject c)"
    using ok by (auto simp: claims_ok_def some_ok_def)
  have o64: "some_ok (\<lambda>_. True) (v \<noteq> None) v" for v :: "u64 option"
    by (simp add: some_ok_def)
  have "role_from_u8 (role_as_u8 (tc_role c)) = Ok (tc_role c)" by (simp add: role_from_u8_Ok)
  then show ?thesis
    using f q' sc sub o64 ok
    by (simp add: decode_payload_def payload_cursor_new_at claims_wire_def claims_ok_def
        pay_put claims_flags_bits e)
qed

lemmas pay_left_rules = p8.get_left psome64.get_left psomestr.get_left p64.get_left pstr.get_left
  porscopes.get_left porquotas.get_left

lemma pay_ok_new: "fits bs \<Longrightarrow> pay_ok (payload_cursor_new bs)"
  by (simp add: pay_ok_def payload_cursor_new_def)

lemma quotas_unbounded_ok: "quotas_ok quotas_unbounded"
  by (simp add: quotas_ok_def quotas_unbounded_def)

lemma decode_payload_ok:
  assumes d: "decode_payload bs = Ok c" and f: "fits bs"
  shows "claims_ok c"
proof -
  from d obtain c1 c2 c3 c4 c5 c6 c7 c8 c9 c10 c11 c12 r flags ticks ops ttl sub iss svc at sc q role where
    "t_read_u8 (payload_cursor_new bs) = Ok (CLAIMS_VERSION, c1)"
    "t_read_u8 c1 = Ok (r, c2)" "t_read_u8 c2 = Ok (flags, c3)"
    "read_some (flags AND FLAG_TICKS \<noteq> 0) t_read_u64 c3 = Ok (ticks, c4)"
    "read_some (flags AND FLAG_OPS \<noteq> 0) t_read_u64 c4 = Ok (ops, c5)"
    "read_some (flags AND FLAG_TTL \<noteq> 0) t_read_u64 c5 = Ok (ttl, c6)"
    and s: "read_some (flags AND FLAG_SUBJECT \<noteq> 0) t_read_string c6 = Ok (sub, c7)"
    and "t_read_u64 c7 = Ok (iss, c8)"
    and m: "t_read_string c8 = Ok (svc, c9)" "t_read_string c9 = Ok (at, c10)"
    and v: "read_or (flags AND FLAG_SCOPES \<noteq> 0) decode_scopes [] c10 = Ok (sc, c11)"
      "read_or (flags AND FLAG_QUOTAS \<noteq> 0) quotas_decode quotas_unbounded c11 = Ok (q, c12)"
    and c: "c = \<lparr>tc_role = role, tc_budget = \<lparr>bs_ticks = ticks, bs_ops = ops, bs_ttl_s = ttl\<rparr>,
      tc_subject = sub, tc_mounts = \<lparr>ms_service = svc, ms_at = at\<rparr>, tc_issued_at_ms = iss,
      tc_scopes = sc, tc_quotas = q\<rparr>"
    by (simp add: decode_payload_def outcome_splits split_paired_Ex split: if_splits) (elim exE conjE, auto)
  then have "pay_ok c6" "pay_ok c8" using s pay_ok_new [OF f] pay_left_rules by metis+
  with s m v have "some_ok field_ok (flags AND FLAG_SUBJECT \<noteq> 0) sub" "field_ok svc" "field_ok at"
    "or_ok scopes_ok [] (flags AND FLAG_SCOPES \<noteq> 0) sc"
    "or_ok quotas_ok quotas_unbounded (flags AND FLAG_QUOTAS \<noteq> 0) q"
    using pay_left_rules by metis+
  then show ?thesis
    by (auto simp: c claims_ok_def some_ok_def or_ok_def scopes_ok_def quotas_unbounded_ok split: if_splits)
qed

lemma claims_ok_encodable: "claims_ok (c\<lparr>tc_quotas := q\<rparr>) \<Longrightarrow> claims_encodable c"
  by (auto simp: claims_ok_def claims_encodable_def scopes_ok_def scope_ok_def field_ok_def)

lemma claims_ok_roundtrip:
  assumes "claims_ok c"
  shows "encode_payload c = Ok (claims_wire c)" and "decode_payload (claims_wire c) = Ok c"
proof -
  have c: "c\<lparr>tc_quotas := wire_quotas (tc_quotas c)\<rparr> = c"
    using assms by (simp add: claims_ok_def wire_quotas_id)
  show "encode_payload c = Ok (claims_wire c)"
    using claims_ok_encodable [where c = c and q = "tc_quotas c"] assms by (simp add: encode_payload_Ok)
  show "decode_payload (claims_wire c) = Ok c"
    using decode_claims_wire [where c = c, OF _ refl] assms c by simp
qed

subsection \<open>Signed tokens\<close>

definition hex_ok :: "(bytes \<Rightarrow> string) \<Rightarrow> (string \<Rightarrow> bytes option) \<Rightarrow> bool" where
  "hex_ok hex_encode hex_decode \<longleftrightarrow>
     (\<forall>bs. hex_decode (hex_encode bs) = Some bs) \<and> (\<forall>bs. CHR ''.'' \<notin> set (hex_encode bs))"

definition mac_ok :: "keyed_hash \<Rightarrow> bool" where
  "mac_ok blake3_keyed \<longleftrightarrow> (\<forall>key payload. length (blake3_keyed key payload) = 32)"

lemma parse_token_text:
  assumes "hex_ok enc dec" and "length mac = 32"
  shows "parse_token dec (TICKET_PREFIX @ enc payload @ ''.'' @ enc mac) = Ok (payload, mac)"
  using assms by (simp add: parse_token_def hex_ok_def split_once_append)

text \<open>
  C5: A ticket survives its text form. For all well-formed claims (strings at most 255 bytes
  of UTF-8, at most 16 scopes, no quota of zero), issuing a ticket and encoding it
  succeeds, and decoding the text with the issuer's key accepts the MAC and returns the
  issued token with exactly the claims it was issued for. The hex and hash functions
  are those of the \<open>hex\<close> and \<open>blake3\<close> crates, of which only \<open>hex_ok\<close> and \<open>mac_ok\<close> are used.
\<close>

theorem ticket_roundtrip:
  assumes "hex_ok enc dec" and "mac_ok mac" and "claims_ok c"
  shows "\<exists>tok text. ticket_issue mac key c = Ok tok \<and> tt_claims tok = c \<and>
    token_encode enc tok = Ok text \<and> token_decode dec mac text key = Ok tok"
  using assms claims_ok_roundtrip [OF assms(3)] parse_token_text [OF assms(1), of "mac key (claims_wire c)" "claims_wire c"]
  by (simp add: ticket_issue_def token_encode_def token_decode_def keyed_mac_def mac_ok_def Let_def)

text \<open>A concrete hex codec, for the examples.\<close>

definition hex_digit :: "char \<Rightarrow> nat option" where
  "hex_digit ch = (let n = of_char ch :: nat in
     if 48 \<le> n \<and> n \<le> 57 then Some (n - 48) else if 97 \<le> n \<and> n \<le> 102 then Some (n - 87) else None)"

fun hex_parse :: "string \<Rightarrow> bytes option" where
  "hex_parse [] = Some []"
| "hex_parse (a # b # s) = (case (hex_digit a, hex_digit b, hex_parse s) of
     (Some x, Some y, Some bs) \<Rightarrow> Some (word_of_nat (16 * x + y) # bs) | _ \<Rightarrow> None)"
| "hex_parse [a] = None"

definition hex_show :: "bytes \<Rightarrow> string" where
  "hex_show bs = concat (map show_byte_02x bs)"

lemma hex_digit_char: "n < 16 \<Longrightarrow> hex_digit (digit_char n) = Some n"
  by (auto simp: hex_digit_def digit_char_def of_char_of Let_def)

lemma hex_show_ok: "hex_ok hex_show hex_parse"
proof -
  have "hex_digit (CHR ''.'') = None" by (simp add: hex_digit_def)
  then have dot: "n < 16 \<Longrightarrow> CHR ''.'' \<noteq> digit_char n" for n
    using hex_digit_char [of n] by (metis option.distinct(1))
  have b: "unat b div 16 < 16" "16 * (unat b div 16) + unat b mod 16 = unat b" for b :: byte
    using unat_bounds(1) [of b] by simp_all
  have "hex_parse (hex_show bs) = Some bs" for bs
    by (induction bs) (simp_all add: hex_show_def show_byte_02x_def hex_digit_char b)
  moreover have "CHR ''.'' \<notin> set (hex_show bs)" for bs
    by (induction bs) (simp_all add: hex_show_def show_byte_02x_def b dot)
  ultimately show ?thesis by (simp add: hex_ok_def)
qed

definition worker_claims :: ticket_claims where
  "worker_claims = with_scopes
     (ticket_claims_new WorkerHeartbeat budget_default_heartbeat (Some ''worker-1'') mount_empty 42)
     [\<lparr>sc_path = ''/log'', sc_verb = VRead, sc_rate_per_s = 4\<rparr>]"

lemma worker_claims_ok: "claims_ok worker_claims"
  by (simp add: claims_ok_def worker_claims_def with_scopes_def ticket_claims_new_def mount_empty_def
      quotas_unbounded_ok scopes_ok_def scope_ok_def field_ok_def MAX_MOUNT_FIELD_LEN_def
      MAX_SCOPE_COUNT_def utf8_str_def str_bytes_def char_byte_def)

theorem ticket_roundtrip_witness:
  "\<exists>tok text. ticket_issue (\<lambda>k p. replicate 32 7) [1, 2] worker_claims = Ok tok \<and>
    tt_claims tok = worker_claims \<and> token_encode hex_show tok = Ok text \<and>
    token_decode hex_parse (\<lambda>k p. replicate 32 7) text [1, 2] = Ok tok"
  by (rule ticket_roundtrip [OF hex_show_ok _ worker_claims_ok]) (simp add: mac_ok_def)

text \<open>
  The claims of an accepted ticket are well-formed: whatever text decodes under a key,
  the claims it yields can be issued again, and the reissued payload decodes to the
  same claims. (The payload of the text is a Rust buffer, hence shorter than
  \<open>usize::MAX\<close>.)
\<close>

theorem decoded_ticket_reissues:
  assumes "token_decode dec mac text key = Ok tok" and "parse_token dec text = Ok (payload, m)"
    and "fits payload"
  shows "m = mac key payload \<and> tt_mac tok = m \<and> claims_ok (tt_claims tok) \<and>
    (\<exists>p. encode_payload (tt_claims tok) = Ok p \<and> decode_payload p = Ok (tt_claims tok))"
proof -
  have d: "decode_payload payload = Ok (tt_claims tok)" and m: "m = mac key payload" "tt_mac tok = m"
    using assms(1,2) by (auto simp: token_decode_def keyed_mac_def Let_def outcome_splits split: if_splits)
  have "claims_ok (tt_claims tok)" by (rule decode_payload_ok [OF d assms(3)])
  with m claims_ok_roundtrip [OF this] show ?thesis by blast
qed

theorem decoded_ticket_reissues_witness:
  "\<exists>text tok. token_decode hex_parse (\<lambda>k p. replicate 32 7) text [1, 2] = Ok tok \<and>
    (\<exists>p. encode_payload (tt_claims tok) = Ok p \<and> decode_payload p = Ok (tt_claims tok))"
proof -
  let ?mac = "replicate 32 7 :: bytes" and ?p = "claims_wire worker_claims"
  let ?text = "TICKET_PREFIX @ hex_show ?p @ ''.'' @ hex_show ?mac"
  have p: "parse_token hex_parse ?text = Ok (?p, ?mac)"
    by (rule parse_token_text [OF hex_show_ok]) simp
  have d: "decode_payload ?p = Ok worker_claims" by (rule claims_ok_roundtrip [OF worker_claims_ok])
  have t: "token_decode hex_parse (\<lambda>k p. ?mac) ?text [1, 2] = Ok \<lparr>tt_claims = worker_claims, tt_mac = ?mac\<rparr>"
    by (simp add: token_decode_def p keyed_mac_def d del: append.simps append_assoc)
  have "fits ?p" using claims_wire_fits [where c = worker_claims and q = "tc_quotas worker_claims"] worker_claims_ok by simp
  from decoded_ticket_reissues [OF t p this] t show ?thesis by blast
qed



end
