(* ===== verification/Ticket_Security.thy ===== *)
theory Ticket_Security
  imports Ticket
begin

section \<open>Ticket enforcement\<close>

text \<open>
  The scope, rate and quota enforcement of \<open>apps/nine-door/src/host/security.rs\<close>. The state is
  built once from the claims of an accepted ticket and the manifest's limits, and
  checked and charged by every later operation of the session. Counters and limits are
  natural numbers (subtraction saturates at zero as in the source), an \<open>Instant\<close> is a
  number of nanoseconds, a path is the list of its components.
\<close>

definition RATE_WINDOW :: nat where
  "RATE_WINDOW = 10 ^ 9"

record ticket_limits =
  tl_max_scopes :: nat
  tl_max_scope_path_len :: nat
  tl_max_scope_rate_per_s :: nat
  tl_bandwidth_bytes :: nat
  tl_cursor_resumes :: nat
  tl_cursor_advances :: nat

definition ticket_limits_default :: ticket_limits where
  "ticket_limits_default = \<lparr>tl_max_scopes = 8, tl_max_scope_path_len = 128,
     tl_max_scope_rate_per_s = 64, tl_bandwidth_bytes = 131072, tl_cursor_resumes = 16,
     tl_cursor_advances = 256\<rparr>"

datatype ticket_claim_error =
  ScopeCount nat nat
| ScopePath string nat
| ScopeRate nat nat
| BandwidthQuota nat nat
| CursorResumesQuota nat nat
| CursorAdvancesQuota nat nat

definition ticket_claim_error_display :: "ticket_claim_error \<Rightarrow> string" where
  "ticket_claim_error_display e = (case e of
     ScopeCount count m \<Rightarrow> ''scope count '' @ show_nat count @ '' exceeds '' @ show_nat m
   | ScopePath path m \<Rightarrow>
       ''scope path '' @ [CHR 0x27] @ path @ [CHR 0x27] @ '' exceeds '' @ show_nat m @ '' bytes''
   | ScopeRate rate m \<Rightarrow> ''scope rate '' @ show_nat rate @ '' exceeds '' @ show_nat m
   | BandwidthQuota v m \<Rightarrow> ''bandwidth quota '' @ show_nat v @ '' exceeds '' @ show_nat m
   | CursorResumesQuota v m \<Rightarrow> ''cursor resume quota '' @ show_nat v @ '' exceeds '' @ show_nat m
   | CursorAdvancesQuota v m \<Rightarrow>
       ''cursor advance quota '' @ show_nat v @ '' exceeds '' @ show_nat m)"

datatype ticket_deny =
  DenyScope
| DenyRate nat
| DenyBandwidth nat nat nat
| DenyCursorResume nat
| DenyCursorAdvance nat

record scope_state =
  ss_path :: "string list"
  ss_verb :: ticket_verb
  ss_rate_limit :: "nat option"
  ss_window_start :: nat
  ss_window_count :: nat

definition allows_verb :: "scope_state \<Rightarrow> ticket_verb \<Rightarrow> bool" where
  "allows_verb s v = (case ss_verb s of
     VRead \<Rightarrow> v = VRead | VWrite \<Rightarrow> v = VWrite | VReadWrite \<Rightarrow> True)"

definition matches_path :: "scope_state \<Rightarrow> string list \<Rightarrow> bool \<Rightarrow> bool" where
  "matches_path s path allow_ancestor =
     (if prefix (ss_path s) path then True
      else if allow_ancestor \<and> prefix path (ss_path s) then True
      else False)"

definition check_rate :: "scope_state \<Rightarrow> nat \<Rightarrow> (ticket_deny + unit) \<times> scope_state" where
  "check_rate s now = (case ss_rate_limit s of
     None \<Rightarrow> (Ok (), s)
   | Some limit \<Rightarrow>
       let s = (if now - ss_window_start s \<ge> RATE_WINDOW
                then s\<lparr>ss_window_start := now, ss_window_count := 0\<rparr> else s)
       in if ss_window_count s \<ge> limit then (Err (DenyRate limit), s)
          else (Ok (), s\<lparr>ss_window_count := sat_add32 (ss_window_count s) 1\<rparr>))"

record quota_state =
  qs_bandwidth_limit :: "nat option"
  qs_bandwidth_remaining :: "nat option"
  qs_cursor_resume_limit :: "nat option"
  qs_cursor_resume_remaining :: "nat option"
  qs_cursor_advance_limit :: "nat option"
  qs_cursor_advance_remaining :: "nat option"

definition q_check_bandwidth :: "quota_state \<Rightarrow> nat \<Rightarrow> ticket_deny + unit" where
  "q_check_bandwidth q requested = (case qs_bandwidth_remaining q of
     None \<Rightarrow> Ok ()
   | Some remaining \<Rightarrow>
       if requested > remaining
       then Err (DenyBandwidth (unwrap_or (qs_bandwidth_limit q) remaining) remaining requested)
       else Ok ())"

definition q_consume_bandwidth :: "quota_state \<Rightarrow> nat \<Rightarrow> quota_state" where
  "q_consume_bandwidth q consumed =
     q\<lparr>qs_bandwidth_remaining := map_option (\<lambda>r. r - consumed) (qs_bandwidth_remaining q)\<rparr>"

definition q_check_cursor :: "quota_state \<Rightarrow> bool \<Rightarrow> ticket_deny + unit" where
  "q_check_cursor q is_resume =
     (if qs_cursor_advance_remaining q = Some 0
      then Err (DenyCursorAdvance (unwrap_or (qs_cursor_advance_limit q) 0))
      else if is_resume \<and> qs_cursor_resume_remaining q = Some 0
      then Err (DenyCursorResume (unwrap_or (qs_cursor_resume_limit q) 0))
      else Ok ())"

definition q_consume_cursor :: "quota_state \<Rightarrow> bool \<Rightarrow> quota_state" where
  "q_consume_cursor q is_resume =
     (let q = q\<lparr>qs_cursor_advance_remaining :=
                  map_option (\<lambda>r. r - 1) (qs_cursor_advance_remaining q)\<rparr>
      in if is_resume
         then q\<lparr>qs_cursor_resume_remaining :=
                  map_option (\<lambda>r. r - 1) (qs_cursor_resume_remaining q)\<rparr>
         else q)"

definition has_limits :: "quota_state \<Rightarrow> bool" where
  "has_limits q \<longleftrightarrow> qs_bandwidth_limit q \<noteq> None \<or> qs_cursor_resume_limit q \<noteq> None \<or>
     qs_cursor_advance_limit q \<noteq> None"

record ticket_usage =
  tu_scopes :: "scope_state list"
  tu_quotas :: quota_state
  tu_cursor_offsets :: "string \<rightharpoonup> nat"

definition split_scope_path :: "string \<Rightarrow> nat \<Rightarrow> ticket_claim_error + string list" where
  "split_scope_path path max_len =
     (if path = [] \<or> path = ''/'' then Ok []
      else
        let components = filter (\<lambda>s. s \<noteq> [])
              (split_on (CHR ''/'') (dropWhile (\<lambda>ch. ch = CHR ''/'') path))
        in if list_ex (\<lambda>s. s = ''..'') components then Err (ScopePath path max_len)
           else Ok components)"

definition resolve_quota ::
  "nat option \<Rightarrow> nat \<Rightarrow> (nat \<Rightarrow> nat \<Rightarrow> ticket_claim_error) \<Rightarrow> ticket_claim_error + nat option" where
  "resolve_quota v m err = (case v of
     Some x \<Rightarrow> if m > 0 \<and> x > m then Err (err x m) else Ok (Some x)
   | None \<Rightarrow> Ok (then_some (m > 0) m))"

definition resolve_quotas :: "ticket_quotas \<Rightarrow> ticket_limits \<Rightarrow> ticket_claim_error + quota_state" where
  "resolve_quotas q l =
     and_then (resolve_quota (map_option unat (tq_bandwidth_bytes q)) (tl_bandwidth_bytes l) BandwidthQuota) (\<lambda>b.
     and_then (resolve_quota (map_option unat (tq_cursor_resumes q)) (tl_cursor_resumes l) CursorResumesQuota) (\<lambda>r.
     and_then (resolve_quota (map_option unat (tq_cursor_advances q)) (tl_cursor_advances l) CursorAdvancesQuota) (\<lambda>a.
       Ok \<lparr>qs_bandwidth_limit = b, qs_bandwidth_remaining = b, qs_cursor_resume_limit = r,
           qs_cursor_resume_remaining = r, qs_cursor_advance_limit = a,
           qs_cursor_advance_remaining = a\<rparr>)))"

text \<open>One round of the loop over the claimed scopes.\<close>

definition scope_from_claim ::
  "ticket_limits \<Rightarrow> nat \<Rightarrow> ticket_scope \<Rightarrow> ticket_claim_error + scope_state" where
  "scope_from_claim l now s =
     (let path = trim (sc_path s); rate = unat (sc_rate_per_s s)
      in if length path > tl_max_scope_path_len l \<or> (path \<noteq> [] \<and> \<not> prefix ''/'' path)
         then Err (ScopePath path (tl_max_scope_path_len l))
         else if tl_max_scope_rate_per_s l > 0 \<and> rate > tl_max_scope_rate_per_s l
         then Err (ScopeRate rate (tl_max_scope_rate_per_s l))
         else and_then (split_scope_path path (tl_max_scope_path_len l)) (\<lambda>components.
           Ok \<lparr>ss_path = components, ss_verb = sc_verb s, ss_rate_limit = then_some (rate > 0) rate,
               ss_window_start = now, ss_window_count = 0\<rparr>))"

fun map_ok :: "('a \<Rightarrow> 'e + 'b) \<Rightarrow> 'a list \<Rightarrow> 'e + 'b list" where
  "map_ok f [] = Ok []"
| "map_ok f (x # xs) = and_then (f x) (\<lambda>y. and_then (map_ok f xs) (\<lambda>ys. Ok (y # ys)))"

definition from_claims ::
  "ticket_claims \<Rightarrow> ticket_limits \<Rightarrow> nat \<Rightarrow> ticket_claim_error + ticket_usage" where
  "from_claims c l now =
     (if length (tc_scopes c) > tl_max_scopes l
      then Err (ScopeCount (length (tc_scopes c)) (tl_max_scopes l))
      else
        and_then (map_ok (scope_from_claim l now) (tc_scopes c)) (\<lambda>scopes.
        and_then (resolve_quotas (tc_quotas c) l) (\<lambda>quotas.
          Ok \<lparr>tu_scopes = scopes, tu_quotas = quotas, tu_cursor_offsets = Map.empty\<rparr>)))"

definition has_enforcement :: "ticket_usage \<Rightarrow> bool" where
  "has_enforcement u \<longleftrightarrow> tu_scopes u \<noteq> [] \<or> has_limits (tu_quotas u)"

text \<open>The loop of \<open>best_scope_index\<close>, with the index it has reached and the best so far.\<close>

fun best_scope_loop ::
  "string list \<Rightarrow> ticket_verb \<Rightarrow> bool \<Rightarrow> nat \<Rightarrow> (nat \<times> nat) option \<Rightarrow> scope_state list \<Rightarrow>
    (nat \<times> nat) option" where
  "best_scope_loop path verb anc idx best [] = best"
| "best_scope_loop path verb anc idx best (s # ss) =
     best_scope_loop path verb anc (Suc idx)
       (if \<not> allows_verb s verb then best
        else if \<not> matches_path s path anc then best
        else if (case best of None \<Rightarrow> True | Some (_, best_len) \<Rightarrow> length (ss_path s) > best_len)
        then Some (idx, length (ss_path s))
        else best) ss"

definition best_scope_index ::
  "ticket_usage \<Rightarrow> string list \<Rightarrow> ticket_verb \<Rightarrow> bool \<Rightarrow> nat option" where
  "best_scope_index u path verb anc =
     map_option fst (best_scope_loop path verb anc 0 None (tu_scopes u))"

definition check_scope ::
  "ticket_usage \<Rightarrow> string list \<Rightarrow> ticket_verb \<Rightarrow> bool \<Rightarrow> nat \<Rightarrow> (ticket_deny + unit) \<times> ticket_usage" where
  "check_scope u path verb anc now =
     (if tu_scopes u = [] then (Ok (), u)
      else case best_scope_index u path verb anc of
        None \<Rightarrow> (Err DenyScope, u)
      | Some i \<Rightarrow>
          (case check_rate (tu_scopes u ! i) now of
             (r, s) \<Rightarrow> (r, u\<lparr>tu_scopes := (tu_scopes u)[i := s]\<rparr>)))"

definition check_scope_no_rate ::
  "ticket_usage \<Rightarrow> string list \<Rightarrow> ticket_verb \<Rightarrow> bool \<Rightarrow> ticket_deny + unit" where
  "check_scope_no_rate u path verb anc =
     (if tu_scopes u = [] then Ok ()
      else if best_scope_index u path verb anc \<noteq> None then Ok ()
      else Err DenyScope)"

definition check_bandwidth :: "ticket_usage \<Rightarrow> nat \<Rightarrow> ticket_deny + unit" where
  "check_bandwidth u requested = q_check_bandwidth (tu_quotas u) requested"

definition consume_bandwidth :: "ticket_usage \<Rightarrow> nat \<Rightarrow> ticket_usage" where
  "consume_bandwidth u consumed = u\<lparr>tu_quotas := q_consume_bandwidth (tu_quotas u) consumed\<rparr>"

definition check_cursor :: "ticket_usage \<Rightarrow> string \<Rightarrow> nat \<Rightarrow> ticket_deny + bool" where
  "check_cursor u path_key offset =
     (let is_resume = (case tu_cursor_offsets u path_key of None \<Rightarrow> False | Some l \<Rightarrow> offset < l)
      in and_then (q_check_cursor (tu_quotas u) is_resume) (\<lambda>_. Ok is_resume))"

definition record_cursor :: "ticket_usage \<Rightarrow> string \<Rightarrow> nat \<Rightarrow> nat \<Rightarrow> bool \<Rightarrow> ticket_usage" where
  "record_cursor u path_key offset len is_resume =
     u\<lparr>tu_cursor_offsets := (tu_cursor_offsets u)(path_key \<mapsto> sat_add offset len),
       tu_quotas := q_consume_cursor (tu_quotas u) is_resume\<rparr>"

subsection \<open>The best scope\<close>

definition eligible :: "string list \<Rightarrow> ticket_verb \<Rightarrow> bool \<Rightarrow> scope_state \<Rightarrow> bool" where
  "eligible path verb anc s \<longleftrightarrow> allows_verb s verb \<and> matches_path s path anc"

definition best_of :: "(scope_state \<Rightarrow> bool) \<Rightarrow> scope_state list \<Rightarrow> (nat \<times> nat) option \<Rightarrow> bool" where
  "best_of E ss b = (case b of
     None \<Rightarrow> \<forall>s \<in> set ss. \<not> E s
   | Some (i, n) \<Rightarrow> i < length ss \<and> E (ss ! i) \<and> n = length (ss_path (ss ! i)) \<and>
       (\<forall>j < length ss. E (ss ! j) \<longrightarrow> length (ss_path (ss ! j)) \<le> n) \<and>
       (\<forall>j < i. E (ss ! j) \<longrightarrow> length (ss_path (ss ! j)) < n))"

lemma best_of_snoc:
  assumes "best_of E ss b"
  shows "best_of E (ss @ [s])
    (if \<not> E s then b
     else if (case b of None \<Rightarrow> True | Some (_, n) \<Rightarrow> length (ss_path s) > n)
     then Some (length ss, length (ss_path s)) else b)"
proof (cases b)
  case None
  with assms show ?thesis by (auto simp: best_of_def nth_append less_Suc_eq)
next
  case (Some p)
  then obtain i n where b: "b = Some (i, n)" by (cases p) simp
  with assms have i: "i < length ss" "E (ss ! i)" "n = length (ss_path (ss ! i))"
    and le: "\<And>j. j < length ss \<Longrightarrow> E (ss ! j) \<Longrightarrow> length (ss_path (ss ! j)) \<le> n"
    and lt: "\<And>j. j < i \<Longrightarrow> E (ss ! j) \<Longrightarrow> length (ss_path (ss ! j)) < n"
    by (auto simp: best_of_def)
  show ?thesis
  proof (cases "E s \<and> length (ss_path s) > n")
    case True
    with le have "length (ss_path (ss ! j)) < length (ss_path s)" if "j < length ss" "E (ss ! j)" for j
      using that by (meson order_le_less_trans)
    with True show ?thesis
      by (auto simp: b best_of_def nth_append less_Suc_eq intro: less_imp_le)
  next
    case False
    then show ?thesis
      using i le lt by (auto simp: b best_of_def nth_append less_Suc_eq)
  qed
qed

lemma best_scope_loop_best:
  "best_of (eligible path verb anc) pre b \<Longrightarrow>
    best_of (eligible path verb anc) (pre @ ss) (best_scope_loop path verb anc (length pre) b ss)"
proof (induction ss arbitrary: pre b)
  case (Cons s ss)
  let ?b = "if \<not> allows_verb s verb then b else if \<not> matches_path s path anc then b
    else if (case b of None \<Rightarrow> True | Some (_, n) \<Rightarrow> length (ss_path s) > n)
    then Some (length pre, length (ss_path s)) else b"
  have "best_of (eligible path verb anc) (pre @ [s]) ?b"
    using best_of_snoc [OF Cons.prems, of s] by (auto simp: eligible_def [of path verb anc s] split: if_splits)
  from Cons.IH [OF this] show ?case by simp
qed simp

lemma best_scope_best:
  "best_of (eligible path verb anc) (tu_scopes u) (best_scope_loop path verb anc 0 None (tu_scopes u))"
  using best_scope_loop_best [of path verb anc "[]" None "tu_scopes u"] by (simp add: best_of_def)

text \<open>
  C11: A scope check is decided by the longest matching scope. With scopes in the ticket, an
  operation is denied for its scope exactly when no scope of the ticket allows its verb
  on its path; otherwise the rate limit of the first scope of greatest length among
  those that do decides.
\<close>

theorem check_scope_longest_match:
  assumes "tu_scopes u \<noteq> []"
  shows "case best_scope_index u path verb anc of
    None \<Rightarrow> check_scope u path verb anc now = (Err DenyScope, u) \<and>
      (\<forall>s \<in> set (tu_scopes u). \<not> (allows_verb s verb \<and> matches_path s path anc))
  | Some i \<Rightarrow> i < length (tu_scopes u) \<and>
      allows_verb (tu_scopes u ! i) verb \<and> matches_path (tu_scopes u ! i) path anc \<and>
      (\<forall>j < length (tu_scopes u). allows_verb (tu_scopes u ! j) verb \<and> matches_path (tu_scopes u ! j) path anc \<longrightarrow>
         length (ss_path (tu_scopes u ! j)) < length (ss_path (tu_scopes u ! i)) \<or>
         (length (ss_path (tu_scopes u ! j)) = length (ss_path (tu_scopes u ! i)) \<and> i \<le> j)) \<and>
      fst (check_scope u path verb anc now) = fst (check_rate (tu_scopes u ! i) now)"
proof (cases "best_scope_loop path verb anc 0 None (tu_scopes u)")
  case None
  with best_scope_best [of path verb anc u] assms show ?thesis
    by (auto simp: best_scope_index_def check_scope_def best_of_def eligible_def)
next
  case (Some p)
  then obtain i n where i: "best_scope_loop path verb anc 0 None (tu_scopes u) = Some (i, n)"
    by (cases p) simp
  with best_scope_best [of path verb anc u] have b: "best_of (eligible path verb anc) (tu_scopes u) (Some (i, n))"
    by simp
  have "fst (check_scope u path verb anc now) = fst (check_rate (tu_scopes u ! i) now)"
    using assms by (simp add: check_scope_def best_scope_index_def i case_prod_beta)
  with b show ?thesis
    by (auto simp: best_scope_index_def i best_of_def eligible_def) (meson le_neq_implies_less not_le_imp_less)
qed

definition two_scopes :: ticket_usage where
  "two_scopes = \<lparr>tu_scopes =
     [\<lparr>ss_path = [''log''], ss_verb = VReadWrite, ss_rate_limit = None, ss_window_start = 0, ss_window_count = 0\<rparr>,
      \<lparr>ss_path = [''log'', ''queen''], ss_verb = VRead, ss_rate_limit = Some 1, ss_window_start = 0, ss_window_count = 0\<rparr>],
     tu_quotas = \<lparr>qs_bandwidth_limit = None, qs_bandwidth_remaining = None, qs_cursor_resume_limit = None,
       qs_cursor_resume_remaining = None, qs_cursor_advance_limit = None, qs_cursor_advance_remaining = None\<rparr>,
     tu_cursor_offsets = Map.empty\<rparr>"

theorem check_scope_longest_match_witness:
  "best_scope_index two_scopes [''log'', ''queen'', ''x''] VRead False = Some 1 \<and>
   fst (check_scope two_scopes [''log'', ''queen'', ''x''] VRead False 5) = Ok ()"
proof -
  have b: "best_scope_index two_scopes [''log'', ''queen'', ''x''] VRead False = Some 1"
    by (simp add: best_scope_index_def two_scopes_def allows_verb_def matches_path_def)
  have "tu_scopes two_scopes \<noteq> []" by (simp add: two_scopes_def)
  from check_scope_longest_match [OF this, of "[''log'', ''queen'', ''x'']" VRead False 5] b show ?thesis
    by (simp add: two_scopes_def check_rate_def RATE_WINDOW_def)
qed

subsection \<open>Rate limits\<close>

lemma check_rate_frame [simp]:
  "ss_path (snd (check_rate s now)) = ss_path s" "ss_verb (snd (check_rate s now)) = ss_verb s"
  "ss_rate_limit (snd (check_rate s now)) = ss_rate_limit s"
  by (simp_all add: check_rate_def Let_def split: option.split)

primrec rate_run :: "scope_state \<Rightarrow> nat list \<Rightarrow> nat" where
  "rate_run s [] = 0"
| "rate_run s (t # ts) =
     (if is_ok (fst (check_rate s t)) then 1 else 0) + rate_run (snd (check_rate s t)) ts"

text \<open>Within one window no more operations are let through than the limit has left.\<close>

lemma rate_run_window:
  "ss_rate_limit s = Some limit \<Longrightarrow> limit \<le> u32_max \<Longrightarrow> a \<le> ss_window_start s \<Longrightarrow>
    \<forall>t \<in> set ts. t < a + RATE_WINDOW \<Longrightarrow> rate_run s ts \<le> limit - ss_window_count s"
proof (induction ts arbitrary: s)
  case (Cons t ts)
  have "\<not> t - ss_window_start s \<ge> RATE_WINDOW" using Cons.prems(3,4) by (auto simp: RATE_WINDOW_def)
  then have r: "check_rate s t =
      (if ss_window_count s \<ge> limit then (Err (DenyRate limit), s)
       else (Ok (), s\<lparr>ss_window_count := ss_window_count s + 1\<rparr>))"
    using Cons.prems(1,2) by (simp add: check_rate_def)
  show ?case
    using Cons.IH [of s] Cons.IH [of "s\<lparr>ss_window_count := ss_window_count s + 1\<rparr>"] Cons.prems
    by (cases "ss_window_count s \<ge> limit") (auto simp: r)
qed simp

lemma rate_run_second:
  "ss_rate_limit s = Some limit \<Longrightarrow> limit \<le> u32_max \<Longrightarrow>
    \<forall>t \<in> set ts. a \<le> t \<and> t < a + RATE_WINDOW \<Longrightarrow> rate_run s ts \<le> (limit - ss_window_count s) + limit"
proof (induction ts arbitrary: s)
  case (Cons t ts)
  show ?case
  proof (cases "t - ss_window_start s \<ge> RATE_WINDOW")
    case True
    let ?s = "s\<lparr>ss_window_start := t, ss_window_count := 0\<rparr>"
    have "rate_run s (t # ts) = rate_run ?s (t # ts)"
      using True Cons.prems(1) by (simp add: check_rate_def Let_def RATE_WINDOW_def)
    also have "\<dots> \<le> limit - ss_window_count ?s"
      using Cons.prems by (intro rate_run_window [of _ _ a]) simp_all
    finally show ?thesis by simp
  next
    case False
    then have "check_rate s t =
        (if ss_window_count s \<ge> limit then (Err (DenyRate limit), s)
         else (Ok (), s\<lparr>ss_window_count := ss_window_count s + 1\<rparr>))"
      using Cons.prems(1,2) by (simp add: check_rate_def)
    then show ?thesis
      using Cons.IH [of s] Cons.IH [of "s\<lparr>ss_window_count := ss_window_count s + 1\<rparr>"] Cons.prems
      by (cases "ss_window_count s \<ge> limit") auto
  qed
qed simp

text \<open>The scope checks of one path and verb, and how many of them are let through.\<close>

primrec scope_run :: "ticket_usage \<Rightarrow> string list \<Rightarrow> ticket_verb \<Rightarrow> bool \<Rightarrow> nat list \<Rightarrow> nat" where
  "scope_run u path verb anc [] = 0"
| "scope_run u path verb anc (t # ts) =
     (if is_ok (fst (check_scope u path verb anc t)) then 1 else 0) +
     scope_run (snd (check_scope u path verb anc t)) path verb anc ts"

lemma best_scope_loop_cong:
  "list_all2 (\<lambda>s s'. ss_path s = ss_path s' \<and> ss_verb s = ss_verb s') ss ss' \<Longrightarrow>
    best_scope_loop path verb anc i b ss = best_scope_loop path verb anc i b ss'"
proof (induction ss ss' arbitrary: i b rule: list_all2_induct)
  case (Cons s ss s' ss')
  then have "allows_verb s verb = allows_verb s' verb" "matches_path s path anc = matches_path s' path anc"
    "ss_path s = ss_path s'"
    by (simp_all add: allows_verb_def matches_path_def)
  with Cons.IH show ?case by (simp only: best_scope_loop.simps)
qed simp

lemma best_scope_index_update:
  assumes "ss_path s = ss_path (tu_scopes u ! i)" and "ss_verb s = ss_verb (tu_scopes u ! i)"
  shows "best_scope_index (u\<lparr>tu_scopes := (tu_scopes u)[i := s]\<rparr>) path verb anc = best_scope_index u path verb anc"
  unfolding best_scope_index_def
  by (intro arg_cong [where f = "map_option fst"] best_scope_loop_cong)
    (simp add: list_all2_conv_all_nth, metis assms nth_list_update_eq nth_list_update_neq)

lemma scope_run_rate:
  "best_scope_index u path verb anc = Some i \<Longrightarrow> i < length (tu_scopes u) \<Longrightarrow>
    scope_run u path verb anc ts = rate_run (tu_scopes u ! i) ts"
proof (induction ts arbitrary: u)
  case (Cons t ts)
  let ?s = "snd (check_rate (tu_scopes u ! i) t)"
  let ?u = "u\<lparr>tu_scopes := (tu_scopes u)[i := ?s]\<rparr>"
  have step: "check_scope u path verb anc t = (fst (check_rate (tu_scopes u ! i) t), ?u)"
    using Cons.prems by (auto simp: check_scope_def case_prod_beta)
  have "best_scope_index ?u path verb anc = Some i"
    using best_scope_index_update [of ?s u i] Cons.prems by simp
  with Cons.IH [of ?u] Cons.prems(2) step show ?case by simp
qed simp

text \<open>
  C19: A rate limit bounds what passes in any second. However the checks of a path and verb
  are spread over a time span of one second, and whatever was checked before, at most
  twice the limit of the deciding scope are let through: the limit once for the window
  the span starts in, and once for the window that opens inside it.
\<close>

theorem scope_rate_bounds_second:
  assumes "best_scope_index u path verb anc = Some i" and "ss_rate_limit (tu_scopes u ! i) = Some limit"
    and "limit \<le> u32_max" and "\<forall>t \<in> set ts. a \<le> t \<and> t < a + RATE_WINDOW"
  shows "scope_run u path verb anc ts \<le> 2 * limit"
proof -
  have "i < length (tu_scopes u)"
    using assms(1) best_scope_best [of path verb anc u] by (auto simp: best_scope_index_def best_of_def)
  with scope_run_rate [OF assms(1)] rate_run_second [OF assms(2-4)] show ?thesis by simp
qed

theorem scope_rate_bounds_second_witness:
  "scope_run two_scopes [''log'', ''queen''] VRead False [5, 6, 1000000003, 1000000004] \<le> 2"
proof -
  have "best_scope_index two_scopes [''log'', ''queen''] VRead False = Some 1"
    by (simp add: best_scope_index_def two_scopes_def allows_verb_def matches_path_def)
  from scope_rate_bounds_second [OF this, of 1 "[5, 6, 1000000003, 1000000004]" 5] show ?thesis
    by (simp add: two_scopes_def RATE_WINDOW_def u32_max_def)
qed

subsection \<open>Quotas\<close>

lemma resolve_quota_bound:
  "resolve_quota v m err = Ok r \<Longrightarrow> 0 < m \<Longrightarrow> \<exists>n. r = Some n \<and> n \<le> m \<and> (\<forall>x. v = Some x \<longrightarrow> n = x)"
  by (auto simp: resolve_quota_def then_some_def split: option.splits if_splits)

text \<open>
  A session's transfers: each asks for a number of bytes and, once allowed, is charged
  for those it really moved. The sum counts what was charged.
\<close>

primrec bandwidth_run :: "ticket_usage \<Rightarrow> (nat \<times> nat) list \<Rightarrow> nat" where
  "bandwidth_run u [] = 0"
| "bandwidth_run u (t # ts) = (case t of (requested, moved) \<Rightarrow>
     if is_ok (check_bandwidth u requested)
     then moved + bandwidth_run (consume_bandwidth u moved) ts
     else bandwidth_run u ts)"

lemma bandwidth_run_remaining:
  "qs_bandwidth_remaining (tu_quotas u) = Some n \<Longrightarrow> \<forall>(requested, moved) \<in> set ts. moved \<le> requested \<Longrightarrow>
    bandwidth_run u ts \<le> n"
proof (induction ts arbitrary: u n)
  case (Cons t ts)
  obtain requested moved where t: "t = (requested, moved)" by (cases t)
  show ?case
  proof (cases "requested \<le> n")
    case True
    with Cons.prems(2) have "moved \<le> n" by (auto simp: t)
    moreover have "bandwidth_run (consume_bandwidth u moved) ts \<le> n - moved"
      using Cons.prems by (intro Cons.IH) (auto simp: consume_bandwidth_def q_consume_bandwidth_def)
    ultimately show ?thesis
      using Cons.prems(1) True by (simp add: t check_bandwidth_def q_check_bandwidth_def)
  next
    case False
    with Cons.IH [OF Cons.prems(1)] Cons.prems show ?thesis
      by (simp add: t check_bandwidth_def q_check_bandwidth_def)
  qed
qed simp


definition quota_claims :: ticket_claims where
  "quota_claims = with_quotas worker_claims (quotas_unbounded\<lparr>tq_bandwidth_bytes := Some 100\<rparr>)"


lemma map_ok_Ok: "map_ok f xs = Ok ys \<longleftrightarrow> list_all2 (\<lambda>x y. f x = Ok y) xs ys"
proof (induction xs arbitrary: ys)
  case (Cons x xs)
  then show ?case by (cases ys) (auto simp: outcome_splits)
qed auto

text \<open>
  An accepted ticket stays within the manifest. When the server builds its enforcement
  state, there are no more scopes than the manifest allows, every scope's path has no
  empty and no parent component, its rate limit is within the manifest's maximum rate
  where there is one, and every quota the manifest bounds is set and within its bound.
\<close>

theorem accepted_claims_within_limits:
  assumes "from_claims c l now = Ok u"
  shows "length (tu_scopes u) \<le> tl_max_scopes l \<and>
    (\<forall>s \<in> set (tu_scopes u). [] \<notin> set (ss_path s) \<and> ''..'' \<notin> set (ss_path s) \<and>
      (\<forall>r. ss_rate_limit s = Some r \<longrightarrow> 0 < tl_max_scope_rate_per_s l \<longrightarrow> r \<le> tl_max_scope_rate_per_s l)) \<and>
    (0 < tl_bandwidth_bytes l \<longrightarrow> (\<exists>n \<le> tl_bandwidth_bytes l. qs_bandwidth_limit (tu_quotas u) = Some n)) \<and>
    (0 < tl_cursor_resumes l \<longrightarrow> (\<exists>n \<le> tl_cursor_resumes l. qs_cursor_resume_limit (tu_quotas u) = Some n)) \<and>
    (0 < tl_cursor_advances l \<longrightarrow> (\<exists>n \<le> tl_cursor_advances l. qs_cursor_advance_limit (tu_quotas u) = Some n))"
proof -
  from assms obtain scopes quotas where
    len: "length (tc_scopes c) \<le> tl_max_scopes l"
    and m: "list_all2 (\<lambda>x y. scope_from_claim l now x = Ok y) (tc_scopes c) scopes"
    and q: "resolve_quotas (tc_quotas c) l = Ok quotas"
    and u: "u = \<lparr>tu_scopes = scopes, tu_quotas = quotas, tu_cursor_offsets = Map.empty\<rparr>"
    by (auto simp: from_claims_def outcome_splits map_ok_Ok split: if_splits)
  have "[] \<notin> set (ss_path s) \<and> ''..'' \<notin> set (ss_path s) \<and>
      (\<forall>r. ss_rate_limit s = Some r \<longrightarrow> 0 < tl_max_scope_rate_per_s l \<longrightarrow> r \<le> tl_max_scope_rate_per_s l)"
    if "scope_from_claim l now x = Ok s" for x s
    using that
    by (auto simp: scope_from_claim_def split_scope_path_def Let_def outcome_splits then_some_def list_ex_iff
        split: if_splits)
  with m have "\<forall>s \<in> set scopes. [] \<notin> set (ss_path s) \<and> ''..'' \<notin> set (ss_path s) \<and>
      (\<forall>r. ss_rate_limit s = Some r \<longrightarrow> 0 < tl_max_scope_rate_per_s l \<longrightarrow> r \<le> tl_max_scope_rate_per_s l)"
    by (induction rule: list_all2_induct) auto
  moreover have "length scopes \<le> tl_max_scopes l" using len list_all2_lengthD [OF m] by simp
  moreover from q have
    "0 < tl_bandwidth_bytes l \<longrightarrow> (\<exists>n \<le> tl_bandwidth_bytes l. qs_bandwidth_limit quotas = Some n)"
    "0 < tl_cursor_resumes l \<longrightarrow> (\<exists>n \<le> tl_cursor_resumes l. qs_cursor_resume_limit quotas = Some n)"
    "0 < tl_cursor_advances l \<longrightarrow> (\<exists>n \<le> tl_cursor_advances l. qs_cursor_advance_limit quotas = Some n)"
    by (auto simp: resolve_quotas_def outcome_splits dest!: resolve_quota_bound)
  ultimately show ?thesis by (simp add: u)
qed

theorem accepted_claims_within_limits_witness:
  "\<exists>u. from_claims (quota_claims\<lparr>tc_scopes := []\<rparr>) ticket_limits_default 0 = Ok u \<and>
     length (tu_scopes u) \<le> 8"
proof -
  obtain u where u: "from_claims (quota_claims\<lparr>tc_scopes := []\<rparr>) ticket_limits_default 0 = Ok u"
    by (simp add: from_claims_def quota_claims_def with_quotas_def worker_claims_def with_scopes_def
        ticket_claims_new_def quotas_unbounded_def resolve_quotas_def resolve_quota_def
        ticket_limits_default_def)
  with accepted_claims_within_limits [OF u] show ?thesis by (simp add: ticket_limits_default_def)
qed

end
