(* ===== verification/Pipeline.thy ===== *)
theory Pipeline
  imports Secure9P_Session
begin

section \<open>The write pipeline\<close>

text \<open>
  The batching and short-write policy of \<open>apps/nine-door/src/host/pipeline.rs\<close>. The transport
  (an \<open>impl Write\<close>) is a parameter: a function from the writer's state and a buffer to
  the number of bytes taken or an error, and the new state. What the pipeline relies on
  is the documented contract of \<open>std::io::Write::write\<close> (\<open>writer_ok\<close>): on success it
  has taken a prefix of the buffer of the returned length, on an error nothing. The
  event counters are natural numbers (they are \<open>u64\<close> in the source, so they would need
  \<open>2^64\<close> events to differ); the delays slept are returned as a list.
\<close>

record pipeline_config =
  pl_batch_frames :: nat
  pl_queue_depth :: nat
  pl_short_write_policy :: short_write_policy

definition pipeline_from_limits :: "session_limits \<Rightarrow> pipeline_config" where
  "pipeline_from_limits l = \<lparr>pl_batch_frames = max (batch_frames l) 1,
     pl_queue_depth = max (queue_depth_limit l) 1,
     pl_short_write_policy = session_limits.short_write_policy l\<rparr>"

record pipeline_metrics =
  pm_queue_depth :: nat
  pm_queue_limit :: nat
  pm_backpressure_events :: nat
  pm_short_writes :: nat
  pm_short_write_retries :: nat
  pm_ui_reads :: nat
  pm_ui_denies :: nat

record pipeline =
  pp_config :: pipeline_config
  pp_metrics :: pipeline_metrics

definition pipeline_new :: "pipeline_config \<Rightarrow> pipeline" where
  "pipeline_new c = \<lparr>pp_config = c, pp_metrics = \<lparr>pm_queue_depth = 0, pm_queue_limit = pl_queue_depth c,
     pm_backpressure_events = 0, pm_short_writes = 0, pm_short_write_retries = 0, pm_ui_reads = 0,
     pm_ui_denies = 0\<rparr>\<rparr>"

abbreviation upd_metrics :: "(pipeline_metrics \<Rightarrow> pipeline_metrics) \<Rightarrow> pipeline \<Rightarrow> pipeline" where
  "upd_metrics f p \<equiv> p\<lparr>pp_metrics := f (pp_metrics p)\<rparr>"

definition record_queue_depth :: "pipeline \<Rightarrow> nat \<Rightarrow> pipeline" where
  "record_queue_depth p depth = upd_metrics (\<lambda>m. m\<lparr>pm_queue_depth := depth\<rparr>) p"

definition record_backpressure :: "pipeline \<Rightarrow> pipeline" where
  "record_backpressure p =
     upd_metrics (\<lambda>m. m\<lparr>pm_backpressure_events := pm_backpressure_events m + 1\<rparr>) p"

definition record_ui_read :: "pipeline \<Rightarrow> pipeline" where
  "record_ui_read p = upd_metrics (\<lambda>m. m\<lparr>pm_ui_reads := sat_add (pm_ui_reads m) 1\<rparr>) p"

definition record_ui_deny :: "pipeline \<Rightarrow> pipeline" where
  "record_ui_deny p = upd_metrics (\<lambda>m. m\<lparr>pm_ui_denies := sat_add (pm_ui_denies m) 1\<rparr>) p"

datatype 'e write_error = WriterError 'e | WriteZero string

type_synonym ('w, 'e) writer = "'w \<Rightarrow> bytes \<Rightarrow> ('e + nat) \<times> 'w"

definition count_short :: "pipeline \<Rightarrow> pipeline" where
  "count_short p = upd_metrics (\<lambda>m. m\<lparr>pm_short_writes := pm_short_writes m + 1\<rparr>) p"

definition count_retry :: "pipeline \<Rightarrow> pipeline" where
  "count_retry p = upd_metrics (\<lambda>m. m\<lparr>pm_short_write_retries := pm_short_write_retries m + 1\<rparr>) p"

lemma retry_delay_Some:
  "retry_delay_ms pol a = Some d \<Longrightarrow> pol = Retry \<and> a < 3 \<and> d = 5 * 2 ^ a"
  by (auto simp: retry_delay_ms_def DEFAULT_SHORT_WRITE_RETRIES_def DEFAULT_SHORT_WRITE_BACKOFF_MS_def
      sat_mul_def u64_max_def less_Suc_eq numeral_3_eq_3 not_le split: short_write_policy.splits if_splits)

text \<open>
  The loop of \<open>write_with_policy\<close>. \<open>attempts\<close> is a \<open>u8\<close> that saturates; \<open>offset\<close> never
  passes the buffer's length by more than a writer claims to have taken, so the
  \<open>saturating_add\<close> on it is an addition.
\<close>

function write_loop ::
  "('w, 'e) writer \<Rightarrow> bytes \<Rightarrow> nat \<Rightarrow> nat \<Rightarrow> pipeline \<Rightarrow> 'w \<Rightarrow> nat list \<Rightarrow>
    ('e write_error + unit) \<times> pipeline \<times> 'w \<times> nat list" where
  "write_loop wr buf offset attempts p w slept =
     (if offset < length buf then
        case wr w (drop offset buf) of
          (Inl e, w) \<Rightarrow> (Err (WriterError e), p, w, slept)
        | (Inr written, w) \<Rightarrow>
            if written = 0 \<or> written < length buf - offset then
              (let p = count_short p
               in case retry_delay_ms (pl_short_write_policy (pp_config p)) attempts of
                    None \<Rightarrow> (Err (WriteZero ''short write policy exhausted''), p, w, slept)
                  | Some delay_ms \<Rightarrow>
                      write_loop wr buf (offset + written) (min (attempts + 1) 255)
                        (count_retry p) w (if delay_ms > 0 then slept @ [delay_ms] else slept))
            else write_loop wr buf (offset + written) attempts p w slept
      else (Ok (), p, w, slept))"
  by pat_completeness auto

termination
  by (relation "measure (\<lambda>(wr, buf, offset, attempts, p, w, slept).
      if offset < length buf then Suc (4 - attempts) else 0)")
    (auto dest!: retry_delay_Some)

declare write_loop.simps [simp del]

definition write_with_policy ::
  "('w, 'e) writer \<Rightarrow> pipeline \<Rightarrow> 'w \<Rightarrow> bytes \<Rightarrow> ('e write_error + unit) \<times> pipeline \<times> 'w \<times> nat list" where
  "write_with_policy wr p w buf = write_loop wr buf 0 0 p w []"

fun write_batch ::
  "('w, 'e) writer \<Rightarrow> pipeline \<Rightarrow> 'w \<Rightarrow> bytes list \<Rightarrow> ('e write_error + unit) \<times> pipeline \<times> 'w \<times> nat list" where
  "write_batch wr p w [] = (Ok (), p, w, [])"
| "write_batch wr p w (f # fs) =
     (case write_with_policy wr p w f of
        (Inl e, p, w, slept) \<Rightarrow> (Err e, p, w, slept)
      | (Inr _, p, w, slept) \<Rightarrow>
          (case write_batch wr p w fs of (r, p, w, slept') \<Rightarrow> (r, p, w, slept @ slept')))"

subsection \<open>What reaches the transport\<close>

definition writer_ok :: "('w, 'e) writer \<Rightarrow> ('w \<Rightarrow> bytes) \<Rightarrow> bool" where
  "writer_ok wr out \<longleftrightarrow>
     (\<forall>w buf n w'. wr w buf = (Inr n, w') \<longrightarrow> n \<le> length buf \<and> out w' = out w @ take n buf) \<and>
     (\<forall>w buf e w'. wr w buf = (Inl e, w') \<longrightarrow> out w' = out w)"

text \<open>The loop has taken a prefix of what is left of the buffer, all of it when it succeeds.\<close>

lemma take_min_length: "take (min n (length xs)) xs = take n xs"
  by (cases "n \<le> length xs") (simp_all add: min_def)

lemma taken_on:
  assumes "out w1 = out w @ take k (drop offset buf)"
    and "\<exists>n. out w' = out w1 @ take n (drop (offset + k) buf) \<and> (b \<longrightarrow> length buf - (offset + k) \<le> n)"
  shows "\<exists>n. out w' = out w @ take n (drop offset buf) \<and> (b \<longrightarrow> length buf - offset \<le> n)"
proof -
  from assms(2) obtain n where n: "out w' = out w1 @ take n (drop (offset + k) buf)"
    "b \<longrightarrow> length buf - (offset + k) \<le> n" by blast
  have "take (k + n) (drop offset buf) = take k (drop offset buf) @ take n (drop (offset + k) buf)"
    by (simp add: take_add add.commute)
  with n assms(1) show ?thesis by (intro exI [of _ "k + n"]) auto
qed

lemma write_loop_output:
  "writer_ok wr out \<Longrightarrow> write_loop wr buf offset attempts p w slept = (r, p', w', slept') \<Longrightarrow>
    \<exists>n. out w' = out w @ take n (drop offset buf) \<and> (is_ok r \<longrightarrow> length buf - offset \<le> n)"
proof (induction wr buf offset attempts p w slept rule: write_loop.induct)
  case (1 wr buf offset attempts p w slept)
  show ?case
  proof (cases "offset < length buf")
    case False
    with "1.prems"(2) show ?thesis by (intro exI [of _ 0]) (simp add: write_loop.simps)
  next
    case True
    obtain res w1 where wr: "wr w (drop offset buf) = (res, w1)" by (cases "wr w (drop offset buf)")
    show ?thesis
    proof (cases res)
      case (Inl e)
      with wr True "1.prems" show ?thesis
        by (intro exI [of _ 0]) (auto simp: write_loop.simps writer_ok_def)
    next
      case (Inr k)
      with wr "1.prems"(1) have w1: "out w1 = out w @ take k (drop offset buf)"
        by (auto simp: writer_ok_def)
      note on = taken_on [where out = out and w' = w' and b = "is_ok r", OF w1]
      show ?thesis
      proof (cases "k = 0 \<or> k < length buf - offset")
        case short: True
        show ?thesis
        proof (cases "retry_delay_ms (pl_short_write_policy (pp_config (count_short p))) attempts")
          case None
          with wr Inr True short "1.prems"(2) w1 show ?thesis
            by (intro exI [of _ k]) (auto simp: write_loop.simps [of wr buf offset])
        next
          case (Some d)
          with wr Inr True short "1.prems"(2) show ?thesis
            by (intro on "1.IH"(1) [OF True wr [symmetric] _ short refl Some "1.prems"(1)])
              (auto simp: write_loop.simps [of wr buf offset])
        qed
      next
        case False
        with wr Inr True "1.prems"(2) show ?thesis
          by (intro on "1.IH"(2) [OF True wr [symmetric] _ False "1.prems"(1)])
            (auto simp: write_loop.simps [of wr buf offset])
      qed
    qed
  qed
qed

lemma write_loop_slept:
  "write_loop wr buf offset attempts p w slept = (r, p', w', slept') \<Longrightarrow> attempts \<le> 3 \<Longrightarrow>
    sum_list slept' \<le> sum_list slept + 5 * (8 - 2 ^ attempts)"
proof (induction wr buf offset attempts p w slept rule: write_loop.induct)
  case (1 wr buf offset attempts p w slept)
  show ?case
  proof (cases "offset < length buf")
    case False
    with "1.prems" show ?thesis by (simp add: write_loop.simps)
  next
    case True
    obtain res w1 where wr: "wr w (drop offset buf) = (res, w1)" by (cases "wr w (drop offset buf)")
    show ?thesis
    proof (cases res)
      case (Inl e)
      with wr True "1.prems" show ?thesis by (simp add: write_loop.simps)
    next
      case (Inr k)
      show ?thesis
      proof (cases "k = 0 \<or> k < length buf - offset")
        case short: True
        show ?thesis
        proof (cases "retry_delay_ms (pl_short_write_policy (pp_config (count_short p))) attempts")
          case None
          with wr Inr True short "1.prems"(1) show ?thesis
            by (auto simp: write_loop.simps [of wr buf offset])
        next
          case (Some d)
          from retry_delay_Some [OF this] have d: "d = 5 * 2 ^ attempts" "attempts < 3" by simp_all
          have "sum_list slept' \<le> sum_list (slept @ [d]) + 5 * (8 - 2 ^ min (attempts + 1) 255)"
            using wr Inr True short "1.prems"(1) Some d
              "1.IH"(1) [OF True wr [symmetric] _ short refl Some]
            by (auto simp: write_loop.simps [of wr buf offset])
          with d show ?thesis by (auto simp: less_Suc_eq numeral_3_eq_3)
        qed
      next
        case False
        with wr Inr True "1.prems" "1.IH"(2) [OF True wr [symmetric] _ False] show ?thesis
          by (auto simp: write_loop.simps [of wr buf offset])
      qed
    qed
  qed
qed

lemma write_batch_output:
  "writer_ok wr out \<Longrightarrow> write_batch wr p w frames = (r, p', w', slept) \<Longrightarrow>
    \<exists>n. out w' = out w @ take n (concat frames) \<and> (is_ok r \<longrightarrow> length (concat frames) \<le> n)"
proof (induction frames arbitrary: p w r p' w' slept)
  case (Cons f fs)
  obtain r1 p1 w1 s1 where 1: "write_with_policy wr p w f = (r1, p1, w1, s1)"
    by (cases "write_with_policy wr p w f") auto
  with write_loop_output [OF Cons.prems(1), of f 0 0 p w "[]"] obtain n where
    n: "out w1 = out w @ take n f" "is_ok r1 \<longrightarrow> length f \<le> n" by (auto simp: write_with_policy_def)
  show ?case
  proof (cases r1)
    case (Inl e)
    with Cons.prems(2) 1 n show ?thesis by (intro exI [of _ "min n (length f)"]) (auto simp: take_min_length)
  next
    case (Inr u)
    obtain r2 p2 w2 s2 where 2: "write_batch wr p1 w1 fs = (r2, p2, w2, s2)"
      by (cases "write_batch wr p1 w1 fs") auto
    from Cons.IH [OF Cons.prems(1) 2] obtain m where
      m: "out w2 = out w1 @ take m (concat fs)" "is_ok r2 \<longrightarrow> length (concat fs) \<le> m" by auto
    from Inr n have "take n f = f" by simp
    with Cons.prems(2) 1 2 Inr m n show ?thesis by (intro exI [of _ "length f + m"]) auto
  qed
qed simp

lemma write_batch_slept:
  "write_batch wr p w frames = (r, p', w', slept) \<Longrightarrow> sum_list slept \<le> 35 * length frames"
proof (induction frames arbitrary: p w r p' w' slept)
  case (Cons f fs)
  obtain r1 p1 w1 s1 where 1: "write_with_policy wr p w f = (r1, p1, w1, s1)"
    by (cases "write_with_policy wr p w f") auto
  then have s1: "sum_list s1 \<le> 35"
    using write_loop_slept [of wr f 0 0 p w "[]" r1 p1 w1 s1] by (simp add: write_with_policy_def)
  obtain r2 p2 w2 s2 where 2: "write_batch wr p1 w1 fs = (r2, p2, w2, s2)"
    by (cases "write_batch wr p1 w1 fs") auto
  from Cons.IH [OF 2] s1 1 2 Cons.prems show ?case by (cases r1) auto
qed simp

text \<open>
  C22: A batch reaches the transport as it is. With a transport that keeps the contract of
  \<open>std::io::Write\<close>, however often it takes only part of a buffer, writing a batch always
  comes to an end, what it has added to the transport's output is a prefix of the
  frames in their order, without gap or repetition, and all of them when the batch
  succeeds; the retries sleep at most 35 milliseconds per frame.
\<close>

theorem write_batch_exact:
  assumes "writer_ok wr out" and "write_batch wr p w frames = (r, p', w', slept)"
  shows "(\<exists>rest. out w @ concat frames = out w' @ rest) \<and>
    (is_ok r \<longrightarrow> out w' = out w @ concat frames) \<and> sum_list slept \<le> 35 * length frames"
proof -
  from write_batch_output [OF assms] obtain n where
    n: "out w' = out w @ take n (concat frames)" "is_ok r \<longrightarrow> length (concat frames) \<le> n" by blast
  then have "out w @ concat frames = out w' @ drop n (concat frames)" by simp
  moreover have "is_ok r \<Longrightarrow> out w' = out w @ concat frames" using n by simp
  ultimately show ?thesis using write_batch_slept [OF assms(2)] by blast
qed

text \<open>A transport that takes at most four bytes at a time.\<close>

definition four_bytes :: "(bytes, string) writer" where
  "four_bytes w buf = (Inr (min 4 (length buf)), w @ take 4 buf)"

theorem write_batch_exact_witness:
  "\<exists>p' slept. write_batch four_bytes
      (pipeline_new \<lparr>pl_batch_frames = 2, pl_queue_depth = 2, pl_short_write_policy = Retry\<rparr>)
      [] [[1, 2, 3], [4, 5, 6, 7, 8, 9]] = (Ok (), p', [1, 2, 3, 4, 5, 6, 7, 8, 9], slept) \<and>
    sum_list slept \<le> 70"
proof -
  let ?p = "pipeline_new \<lparr>pl_batch_frames = 2, pl_queue_depth = 2, pl_short_write_policy = Retry\<rparr>"
  obtain r p' w' slept where
    b: "write_batch four_bytes ?p [] [[1, 2, 3], [4, 5, 6, 7, 8, 9]] = (r, p', w', slept)"
    by (metis prod_cases4)
  have "r = Ok ()"
    using b by (simp add: write_with_policy_def write_loop.simps four_bytes_def pipeline_new_def
        count_short_def count_retry_def retry_delay_ms_def DEFAULT_SHORT_WRITE_RETRIES_def Let_def
        DEFAULT_SHORT_WRITE_BACKOFF_MS_def split: prod.splits)
  moreover have "writer_ok four_bytes (\<lambda>w. w)" by (auto simp: writer_ok_def four_bytes_def take_min_length)
  ultimately show ?thesis using write_batch_exact [OF _ b, of "\<lambda>w. w"] b by simp
qed

end
