(* ===== verification/Shard_Layout.thy ===== *)
theory Shard_Layout
  imports Cohesix_Prelude
begin

section \<open>Where a worker's files are\<close>

text \<open>
  \<open>ShardLayout\<close> of \<open>apps/nine-door/src/host/namespace.rs\<close>: the paths of the worker
  directories, flat under \<open>/worker\<close> or spread over \<open>/shard/<label>/worker\<close> by the first
  bits of the SHA-256 digest of the worker's id, and the recognition of a worker's
  telemetry file from a path. A path is the list of its components. The digest comes
  from the \<open>sha2\<close> crate and is a parameter \<open>sha256\<close> of the operations that use it.
  The shard count is the exact power of two: the constructor asserts that there are at
  most eight shard bits, so \<open>1usize << shard_bits\<close> does not overflow.
\<close>

type_synonym path = "string list"

record shard_layout =
  sl_enabled :: bool
  sl_shard_bits :: nat
  sl_legacy_worker_alias :: bool

definition layout_disabled :: shard_layout where
  "layout_disabled = \<lparr>sl_enabled = False, sl_shard_bits = 0, sl_legacy_worker_alias = False\<rparr>"

definition layout_enabled :: "nat \<Rightarrow> bool \<Rightarrow> shard_layout" where
  "layout_enabled shard_bits legacy_worker_alias =
     \<lparr>sl_enabled = True, sl_shard_bits = shard_bits, sl_legacy_worker_alias = legacy_worker_alias\<rparr>"

definition legacy_worker_alias_enabled :: "shard_layout \<Rightarrow> bool" where
  "legacy_worker_alias_enabled l \<longleftrightarrow> sl_enabled l \<and> sl_legacy_worker_alias l"

definition shard_count :: "shard_layout \<Rightarrow> nat" where
  "shard_count l = (if sl_enabled l then 2 ^ sl_shard_bits l else 1)"

definition shard_label :: "byte \<Rightarrow> string" where
  "shard_label shard = show_byte_02x shard"

definition worker_shard :: "(bytes \<Rightarrow> bytes) \<Rightarrow> shard_layout \<Rightarrow> string \<Rightarrow> byte" where
  "worker_shard sha256 l worker_id =
     (if \<not> sl_enabled l \<or> sl_shard_bits l = 0 then 0
      else let shard = sha256 (str_bytes worker_id) ! 0
           in if sl_shard_bits l < 8 then drop_bit (8 - sl_shard_bits l) shard else shard)"

definition worker_shard_label :: "(bytes \<Rightarrow> bytes) \<Rightarrow> shard_layout \<Rightarrow> string \<Rightarrow> string" where
  "worker_shard_label sha256 l worker_id = shard_label (worker_shard sha256 l worker_id)"

definition shard_labels :: "shard_layout \<Rightarrow> string list" where
  "shard_labels l = map (\<lambda>idx. shard_label (word_of_nat idx)) [0..<shard_count l]"

definition worker_parent :: "(bytes \<Rightarrow> bytes) \<Rightarrow> shard_layout \<Rightarrow> string \<Rightarrow> path" where
  "worker_parent sha256 l worker_id =
     (if sl_enabled l then [''shard'', worker_shard_label sha256 l worker_id, ''worker'']
      else [''worker''])"

definition worker_root :: "(bytes \<Rightarrow> bytes) \<Rightarrow> shard_layout \<Rightarrow> string \<Rightarrow> path" where
  "worker_root sha256 l worker_id = worker_parent sha256 l worker_id @ [worker_id]"

definition worker_telemetry_path :: "(bytes \<Rightarrow> bytes) \<Rightarrow> shard_layout \<Rightarrow> string \<Rightarrow> path" where
  "worker_telemetry_path sha256 l worker_id = worker_root sha256 l worker_id @ [''telemetry'']"

text \<open>The two slice patterns of the source: a path of five or of three components.\<close>

definition flat_telemetry_id :: "path \<Rightarrow> string option" where
  "flat_telemetry_id p = (case p of
     [first, wid, leaf] \<Rightarrow> if first = ''worker'' \<and> leaf = ''telemetry'' then Some wid else None
   | _ \<Rightarrow> None)"

definition is_worker_telemetry_path ::
  "(bytes \<Rightarrow> bytes) \<Rightarrow> shard_layout \<Rightarrow> path \<Rightarrow> string \<Rightarrow> bool" where
  "is_worker_telemetry_path sha256 l p worker_id =
     (if sl_enabled l then
        (case p of
           [first, shard, mid, wid, leaf] \<Rightarrow>
             first = ''shard'' \<and> mid = ''worker'' \<and> leaf = ''telemetry'' \<and> wid = worker_id \<and>
             shard = worker_shard_label sha256 l worker_id
         | _ \<Rightarrow> False) \<or>
        legacy_worker_alias_enabled l \<and>
          (case p of
             [first, wid, leaf] \<Rightarrow> first = ''worker'' \<and> wid = worker_id \<and> leaf = ''telemetry''
           | _ \<Rightarrow> False)
      else
        (case p of
           [first, wid, leaf] \<Rightarrow> first = ''worker'' \<and> wid = worker_id \<and> leaf = ''telemetry''
         | _ \<Rightarrow> False))"

definition worker_id_from_telemetry_path ::
  "(bytes \<Rightarrow> bytes) \<Rightarrow> shard_layout \<Rightarrow> path \<Rightarrow> string option" where
  "worker_id_from_telemetry_path sha256 l p =
     (if sl_enabled l then
        (case p of
           [first, shard, mid, wid, leaf] \<Rightarrow>
             if first = ''shard'' \<and> mid = ''worker'' \<and> leaf = ''telemetry'' \<and>
               shard = worker_shard_label sha256 l wid then Some wid else None
         | _ \<Rightarrow> if legacy_worker_alias_enabled l then flat_telemetry_id p else None)
      else flat_telemetry_id p)"

definition max_worker_path_depth :: "shard_layout \<Rightarrow> nat" where
  "max_worker_path_depth l = (if sl_enabled l then 5 else 3)"

definition shard_layout_default :: shard_layout where
  "shard_layout_default = layout_enabled 8 True"

subsection \<open>Shards\<close>

lemma digit_char_inject: "m < 16 \<Longrightarrow> n < 16 \<Longrightarrow> digit_char m = digit_char n \<longleftrightarrow> m = n"
  by (auto simp: digit_char_def)

lemma shard_label_inject: "shard_label a = shard_label b \<longleftrightarrow> a = b"
proof
  assume "shard_label a = shard_label b"
  moreover have "unat a div 16 < 16" "unat b div 16 < 16"
    using unat_bounds(1) [of a] unat_bounds(1) [of b] by simp_all
  ultimately have "unat a div 16 = unat b div 16" "unat a mod 16 = unat b mod 16"
    by (simp_all add: shard_label_def show_byte_02x_def digit_char_inject)
  then have "unat a = unat b" by (metis div_mult_mod_eq)
  then show "a = b" by (simp only: word_unat_eq_iff)
qed simp

lemma unat_drop_bit_byte: "unat (drop_bit k (b :: byte)) = unat b div 2 ^ k"
  by (simp only: unat_drop_bit_eq) (simp add: drop_bit_eq_div)

lemma worker_shard_bound:
  assumes "sl_shard_bits l \<le> 8"
  shows "unat (worker_shard sha256 l w) < shard_count l"
proof (cases "sl_enabled l \<and> 0 < sl_shard_bits l \<and> sl_shard_bits l < 8")
  case True
  let ?b = "sha256 (str_bytes w) ! 0"
  have "(2::nat) ^ 8 = 2 ^ sl_shard_bits l * 2 ^ (8 - sl_shard_bits l)"
    using assms by (simp flip: power_add)
  with unat_bounds(1) [of ?b] have "unat ?b div 2 ^ (8 - sl_shard_bits l) < 2 ^ sl_shard_bits l"
    by (simp add: less_mult_imp_div_less)
  with True show ?thesis
    by (simp add: worker_shard_def shard_count_def Let_def unat_drop_bit_byte)
next
  case False
  with assms consider "\<not> sl_enabled l \<or> sl_shard_bits l = 0" | "sl_enabled l" "sl_shard_bits l = 8"
    by linarith
  then show ?thesis
    using unat_bounds(1) [of "sha256 (str_bytes w) ! 0"]
    by cases (simp_all add: worker_shard_def shard_count_def Let_def)
qed

lemma shard_count_bound: "sl_shard_bits l \<le> 8 \<Longrightarrow> shard_count l \<le> 256"
  using power_increasing [of "sl_shard_bits l" 8 "2::nat"] by (simp add: shard_count_def)

subsection \<open>Properties\<close>

text \<open>
  Every worker has a place. With at most eight shard bits there are as many distinct
  shard labels as shards, and whatever the digest function, every worker's directory
  lies under one of these labels.
\<close>

theorem worker_shard_exists:
  assumes "sl_shard_bits l \<le> 8"
  shows "worker_shard_label sha256 l w \<in> set (shard_labels l) \<and>
    distinct (shard_labels l) \<and> length (shard_labels l) = shard_count l"
proof -
  have "worker_shard_label sha256 l w \<in> set (shard_labels l)"
    using worker_shard_bound [OF assms, of sha256 w]
    by (auto simp: worker_shard_label_def shard_labels_def intro!: image_eqI [of _ _ "unat (worker_shard sha256 l w)"])
  moreover have "inj_on (\<lambda>idx. shard_label (word_of_nat idx)) {0..<shard_count l}"
    using shard_count_bound [OF assms]
    by (auto simp: inj_on_def shard_label_inject word_of_nat_eq_iff take_bit_eq_mod)
  ultimately show ?thesis
    by (simp add: shard_labels_def distinct_map)
qed

theorem worker_shard_exists_witness:
  "worker_shard_label (\<lambda>m. replicate 32 0xC4) (layout_enabled 3 False) ''worker-7'' = ''06'' \<and>
   worker_shard_label (\<lambda>m. replicate 32 0xC4) (layout_enabled 3 False) ''worker-7''
     \<in> set (shard_labels (layout_enabled 3 False))"
proof -
  have "sl_shard_bits (layout_enabled 3 False) \<le> 8" by (simp add: layout_enabled_def)
  note worker_shard_exists [OF this, of "\<lambda>m. replicate 32 0xC4" "''worker-7''"]
  moreover have "worker_shard_label (\<lambda>m. replicate 32 0xC4) (layout_enabled 3 False) ''worker-7'' = ''06''"
    by code_simp
  ultimately show ?thesis by blast
qed

text \<open>
  A telemetry path names one worker. A path is recognised as the telemetry file of a
  worker exactly when the worker's id is what is read off it, so no path belongs to two
  workers; the canonical path of every worker is read back as that worker's, and it is
  never deeper than the layout's maximum.
\<close>

theorem telemetry_path_owner:
  "(is_worker_telemetry_path sha256 l p w \<longleftrightarrow> worker_id_from_telemetry_path sha256 l p = Some w) \<and>
   worker_id_from_telemetry_path sha256 l (worker_telemetry_path sha256 l w) = Some w \<and>
   length (worker_telemetry_path sha256 l w) = max_worker_path_depth l"
  by (auto simp: is_worker_telemetry_path_def worker_id_from_telemetry_path_def flat_telemetry_id_def
      worker_telemetry_path_def worker_root_def worker_parent_def max_worker_path_depth_def
      split: list.splits if_splits)

end
