(* ===== verification/NineDoor_Error.thy ===== *)
theory NineDoor_Error
  imports Pipeline Lifecycle Ticket_Security
begin

section \<open>Errors and labels of the NineDoor server\<close>

text \<open>
  \<open>NineDoorError\<close> of \<open>apps/nine-door/src/host/mod.rs\<close>, the conversions of component errors
  to protocol errors and the role names of attach requests, from \<open>core.rs\<close> and
  \<open>apps/cohesix-proto/src/lib.rs\<close>. The payload of \<open>NineDoorError::Pipeline\<close> is an
  \<open>io::Error\<close>: the pipeline's own, or one of the transport, which stands for its text.
\<close>

datatype ninedoor_error =
  UnknownSession session_id
| CodecFailure codec_error
| Protocol error_code string
| PipelineFailure "string write_error"

text \<open>The dispatch loop turns protocol errors, and no others, into error responses.\<close>

fun is_protocol :: "ninedoor_error \<Rightarrow> bool" where
  "is_protocol (Protocol code message) = True"
| "is_protocol e = False"

definition show_u32 :: "u32 \<Rightarrow> string" where
  "show_u32 n = show_nat (unat n)"

text \<open>The texts of the errors (\<open>Display\<close>).\<close>

definition codec_error_display :: "codec_error \<Rightarrow> string" where
  "codec_error_display e = (case e of
     Truncated \<Rightarrow> ''truncated frame''
   | Unsupported t \<Rightarrow> ''unsupported message type '' @ show_nat (unat t)
   | InvalidUtf8 \<Rightarrow> ''invalid utf8 in string field''
   | LengthMismatch declared actual \<Rightarrow>
       ''length mismatch: declared '' @ show_u32 declared @ '' actual '' @ show_nat actual
   | InvalidPath \<Rightarrow> ''invalid path component''
   | InvalidOpenMode m \<Rightarrow> ''invalid open mode '' @ show_nat (unat m)
   | FrameTooLarge declared maximum \<Rightarrow>
       ''frame length '' @ show_u32 declared @ '' exceeds maximum '' @ show_u32 maximum)"

definition ninedoor_error_display :: "ninedoor_error \<Rightarrow> string" where
  "ninedoor_error_display e = (case e of
     UnknownSession sid \<Rightarrow> ''unknown session SessionId('' @ show_nat (unat (into_raw sid)) @ '')''
   | CodecFailure c \<Rightarrow> ''codec error: '' @ codec_error_display c
   | Protocol code message \<Rightarrow> error_code_display code @ '': '' @ message
   | PipelineFailure w \<Rightarrow> ''pipeline error: '' @
       (case w of WriterError t \<Rightarrow> t | WriteZero t \<Rightarrow> t))"

definition fid_insert_error :: "u32 \<Rightarrow> fid_error \<Rightarrow> ninedoor_error" where
  "fid_insert_error fid err = (case err of
     FidInUse \<Rightarrow> Protocol EBusy (''fid '' @ show_u32 fid @ '' already in use'')
   | FidRetired \<Rightarrow> Protocol EInvalid (''fid '' @ show_u32 fid @ '' was clunked''))"

definition lifecycle_error_to_protocol :: "lifecycle_error \<Rightarrow> ninedoor_error" where
  "lifecycle_error_to_protocol err = (case err of
     OutstandingLeases leases \<Rightarrow> Protocol EBusy (''lifecycle outstanding leases '' @ show_nat leases)
   | InvalidCommand \<Rightarrow> Protocol EInvalid ''invalid lifecycle command''
   | InvalidTransition \<Rightarrow> Protocol EInvalid ''invalid lifecycle transition''
   | AutoTransitionDenied \<Rightarrow> Protocol EInvalid ''lifecycle auto transition denied'')"

definition ticket_denial_error :: "ticket_deny \<Rightarrow> ninedoor_error" where
  "ticket_denial_error denial = (case denial of
     DenyScope \<Rightarrow> Protocol EPermission ''EPERM''
   | _ \<Rightarrow> Protocol ETooBig ''ELIMIT'')"

definition ticket_deny_reason :: "ticket_deny \<Rightarrow> string" where
  "ticket_deny_reason denial = (case denial of
     DenyScope \<Rightarrow> ''scope''
   | DenyRate _ \<Rightarrow> ''rate''
   | DenyBandwidth _ _ _ \<Rightarrow> ''bandwidth''
   | DenyCursorResume _ \<Rightarrow> ''cursor-resume''
   | DenyCursorAdvance _ \<Rightarrow> ''cursor-advance'')"

definition ticket_verb_label :: "ticket_verb \<Rightarrow> string" where
  "ticket_verb_label verb = (case verb of
     VRead \<Rightarrow> ''read'' | VWrite \<Rightarrow> ''write'' | VReadWrite \<Rightarrow> ''read-write'')"

subsection \<open>Role names\<close>

definition role_label :: "role \<Rightarrow> string" where
  "role_label r = (case r of
     Queen \<Rightarrow> ''queen''
   | WorkerHeartbeat \<Rightarrow> ''worker-heartbeat''
   | WorkerGpu \<Rightarrow> ''worker-gpu''
   | WorkerBus \<Rightarrow> ''worker-bus''
   | WorkerLora \<Rightarrow> ''worker-lora'')"

datatype proto_role = ProtoQueen | ProtoWorker | ProtoGpuWorker | ProtoBusWorker | ProtoLoraWorker

definition proto_role_label :: "proto_role \<Rightarrow> string" where
  "proto_role_label r = (case r of
     ProtoQueen \<Rightarrow> ''queen''
   | ProtoWorker \<Rightarrow> ''worker-heartbeat''
   | ProtoGpuWorker \<Rightarrow> ''worker-gpu''
   | ProtoBusWorker \<Rightarrow> ''worker-bus''
   | ProtoLoraWorker \<Rightarrow> ''worker-lora'')"

text \<open>\<open>uname.strip_prefix(label).and_then(|value| value.strip_prefix(':'))\<close>.\<close>

definition identity_after :: "proto_role \<Rightarrow> string \<Rightarrow> string option" where
  "identity_after r uname =
     Option.bind (strip_prefix (proto_role_label r) uname) (strip_prefix '':'')"

definition with_identity ::
  "role \<Rightarrow> string \<Rightarrow> string \<Rightarrow> ninedoor_error + role \<times> string option" where
  "with_identity r empty_message rest =
     (if rest = [] then Err (Protocol EInvalid empty_message) else Ok (r, Some rest))"

definition parse_role_from_uname :: "string \<Rightarrow> ninedoor_error + role \<times> string option" where
  "parse_role_from_uname uname =
     (if uname = proto_role_label ProtoQueen then Ok (Queen, None)
      else case identity_after ProtoWorker uname of
        Some rest \<Rightarrow> with_identity WorkerHeartbeat ''worker-heartbeat identity cannot be empty'' rest
      | None \<Rightarrow> (case identity_after ProtoGpuWorker uname of
        Some rest \<Rightarrow> with_identity WorkerGpu ''worker-gpu identity cannot be empty'' rest
      | None \<Rightarrow> (case identity_after ProtoBusWorker uname of
        Some rest \<Rightarrow> with_identity WorkerBus ''worker-bus identity cannot be empty'' rest
      | None \<Rightarrow> (case identity_after ProtoLoraWorker uname of
        Some rest \<Rightarrow> with_identity WorkerLora ''worker-lora identity cannot be empty'' rest
      | None \<Rightarrow> Err (Protocol EInvalid (''unknown role string '' @ [CHR 0x27] @ uname @ [CHR 0x27]))))))"

definition labelled_identity ::
  "proto_role \<Rightarrow> string \<Rightarrow> string option \<Rightarrow> ninedoor_error + string" where
  "labelled_identity r missing_message identity = (case identity of
     Some wid \<Rightarrow> if wid \<noteq> [] then Ok (proto_role_label r @ '':'' @ wid)
       else Err (Protocol EInvalid missing_message)
   | None \<Rightarrow> Err (Protocol EInvalid missing_message))"

definition role_to_uname :: "role \<Rightarrow> string option \<Rightarrow> ninedoor_error + string" where
  "role_to_uname r identity = (case r of
     Queen \<Rightarrow> Ok (proto_role_label ProtoQueen)
   | WorkerHeartbeat \<Rightarrow>
       labelled_identity ProtoWorker ''worker-heartbeat attach requires identity'' identity
   | WorkerGpu \<Rightarrow> labelled_identity ProtoGpuWorker ''worker-gpu attach requires identity'' identity
   | WorkerBus \<Rightarrow> labelled_identity ProtoBusWorker ''worker-bus attach requires identity'' identity
   | WorkerLora \<Rightarrow> labelled_identity ProtoLoraWorker ''worker-lora attach requires identity'' identity)"

lemma identity_after_iff:
  "identity_after r u = Some i \<longleftrightarrow> u = proto_role_label r @ CHR '':'' # i"
  by (auto simp: identity_after_def bind_eq_Some_conv strip_prefix_Some)

lemma identity_after_label:
  "identity_after r (proto_role_label q @ CHR '':'' # i) = (if q = r then Some i else None)"
  by (cases r; cases q) (simp_all add: identity_after_def proto_role_label_def strip_prefix_def)

lemma label_not_queen: "proto_role_label q @ CHR '':'' # i \<noteq> proto_role_label ProtoQueen"
  by (cases q) (simp_all add: proto_role_label_def)

lemma labelled_identity_Ok:
  "labelled_identity r m identity = Ok u \<longleftrightarrow>
     (\<exists>i. identity = Some i \<and> i \<noteq> [] \<and> u = proto_role_label r @ CHR '':'' # i)"
  by (auto simp: labelled_identity_def split: option.splits)

text \<open>
  Role names and attach names are two forms of the same thing. A user name parses to a
  role and an identity exactly when it is the name made from that role and identity,
  where the queen has no identity and a worker a non-empty one.
\<close>

theorem uname_iff_role:
  "(parse_role_from_uname u = Ok (r, identity)) =
     (role_to_uname r identity = Ok u \<and> (r = Queen) = (identity = None))"
proof
  assume "parse_role_from_uname u = Ok (r, identity)"
  then show "role_to_uname r identity = Ok u \<and>
      (r = Queen) = (identity = None)"
    by (auto simp: parse_role_from_uname_def role_to_uname_def with_identity_def labelled_identity_Ok
        identity_after_iff split: option.splits if_splits)
next
  assume "role_to_uname r identity = Ok u \<and>
      (r = Queen) = (identity = None)"
  then show "parse_role_from_uname u = Ok (r, identity)"
    by (cases r) (auto simp: role_to_uname_def labelled_identity_Ok parse_role_from_uname_def
        with_identity_def identity_after_label label_not_queen)
qed

end
