(* ===== verification/Budget.thy ===== *)
theory Budget
  imports Ticket
begin

section \<open>Session budgets\<close>

text \<open>
  \<open>BudgetState\<close> of \<open>apps/nine-door/src/host/core.rs\<close> and the clamping of a ticket's budget
  against the one registered for the worker. An \<open>Instant\<close> is a number of nanoseconds; adding a
  \<open>Duration\<close> to it panics where the seconds leave the signed 64-bit range of the
  platform's time value, and the model of the constructor has no value there. The
  remaining counts are natural numbers: they start below \<open>2^64\<close> and only count down.
\<close>

datatype budget_verdict = BudgetActive | BudgetRevoked string

record budget_state =
  bu_ticks_remaining :: "nat option"
  bu_ops_remaining :: "nat option"
  bu_deadline :: "nat option"
  bu_revoked :: "string option"

definition NANOS_PER_SEC :: nat where
  "NANOS_PER_SEC = 10 ^ 9"

definition instant_add_secs :: "nat \<Rightarrow> nat \<Rightarrow> nat option" where
  "instant_add_secs now secs =
     (if now div NANOS_PER_SEC + secs < 2 ^ 63 then Some (now + secs * NANOS_PER_SEC) else None)"

definition budget_new :: "budget_spec \<Rightarrow> nat \<Rightarrow> budget_state option" where
  "budget_new spec now =
     (let mk = (\<lambda>deadline. \<lparr>bu_ticks_remaining = map_option unat (bs_ticks spec),
                 bu_ops_remaining = map_option unat (bs_ops spec),
                 bu_deadline = deadline, bu_revoked = None\<rparr>)
      in case bs_ttl_s spec of
           None \<Rightarrow> Some (mk None)
         | Some ttl \<Rightarrow> map_option (\<lambda>d. mk (Some d)) (instant_add_secs now (unat ttl)))"

definition budget_check :: "budget_state \<Rightarrow> nat \<Rightarrow> budget_verdict \<times> budget_state" where
  "budget_check b now = (case bu_revoked b of
     Some reason \<Rightarrow> (BudgetRevoked reason, b)
   | None \<Rightarrow>
       (case bu_deadline b of
          Some deadline \<Rightarrow>
            if now \<ge> deadline
            then (BudgetRevoked ''ticket ttl expired'', b\<lparr>bu_revoked := Some ''ticket ttl expired''\<rparr>)
            else (BudgetActive, b)
        | None \<Rightarrow> (BudgetActive, b)))"

definition budget_consume_op :: "budget_state \<Rightarrow> budget_verdict \<times> budget_state" where
  "budget_consume_op b = (case bu_revoked b of
     Some reason \<Rightarrow> (BudgetRevoked reason, b)
   | None \<Rightarrow>
       (case bu_ops_remaining b of
          Some ops \<Rightarrow>
            if ops = 0
            then (BudgetRevoked ''operation budget exhausted'',
                  b\<lparr>bu_revoked := Some ''operation budget exhausted''\<rparr>)
            else (BudgetActive, b\<lparr>bu_ops_remaining := Some (ops - 1)\<rparr>)
        | None \<Rightarrow> (BudgetActive, b)))"

definition budget_consume_tick :: "budget_state \<Rightarrow> budget_verdict \<times> budget_state" where
  "budget_consume_tick b = (case bu_revoked b of
     Some reason \<Rightarrow> (BudgetRevoked reason, b)
   | None \<Rightarrow>
       (case bu_ticks_remaining b of
          Some ticks \<Rightarrow>
            if ticks = 0
            then (BudgetRevoked ''tick budget exhausted'',
                  b\<lparr>bu_revoked := Some ''tick budget exhausted''\<rparr>)
            else (BudgetActive, b\<lparr>bu_ticks_remaining := Some (ticks - 1)\<rparr>)
        | None \<Rightarrow> (BudgetActive, b)))"

definition budget_revoke :: "budget_state \<Rightarrow> string \<Rightarrow> budget_state" where
  "budget_revoke b reason = b\<lparr>bu_revoked := Some reason\<rparr>"

definition budget_evaluate :: "budget_state \<Rightarrow> budget_verdict \<Rightarrow> (string + unit) \<times> budget_state" where
  "budget_evaluate b verdict = (case verdict of
     BudgetActive \<Rightarrow> (Ok (), b)
   | BudgetRevoked reason \<Rightarrow> (Err reason, b\<lparr>bu_revoked := Some reason\<rparr>))"

text \<open>The session evaluates every verdict at once; this is one charge to the budget.\<close>

definition charge ::
  "(budget_state \<Rightarrow> budget_verdict \<times> budget_state) \<Rightarrow> budget_state \<Rightarrow> (string + unit) \<times> budget_state" where
  "charge f b = (case f b of (verdict, b) \<Rightarrow> budget_evaluate b verdict)"

subsection \<open>Clamping\<close>

definition min_budget_field :: "u64 option \<Rightarrow> u64 option \<Rightarrow> u64 option" where
  "min_budget_field registered override = (case (registered, override) of
     (Some r, Some v) \<Rightarrow> Some (min r v)
   | (Some r, None) \<Rightarrow> Some r
   | (None, Some v) \<Rightarrow> Some v
   | (None, None) \<Rightarrow> None)"

definition clamp_budget :: "budget_spec \<Rightarrow> budget_spec \<Rightarrow> budget_spec" where
  "clamp_budget registered override =
     with_ttl
       (with_ops
         (with_ticks budget_unbounded (min_budget_field (bs_ticks registered) (bs_ticks override)))
         (min_budget_field (bs_ops registered) (bs_ops override)))
       (min_budget_field (bs_ttl_s registered) (bs_ttl_s override))"

definition format_budget_value :: "u64 option \<Rightarrow> string" where
  "format_budget_value v = (case v of
     None \<Rightarrow> [CHR 0xE2, CHR 0x88, CHR 0x9E]
   | Some n \<Rightarrow> show_nat (unat n))"

subsection \<open>Runs\<close>

datatype budget_event = CheckAt nat | ConsumeOp | ConsumeTick | RevokeFor string

fun budget_exec :: "budget_state \<Rightarrow> budget_event \<Rightarrow> (string + unit) \<times> budget_state" where
  "budget_exec b (CheckAt now) = charge (\<lambda>b. budget_check b now) b"
| "budget_exec b ConsumeOp = charge budget_consume_op b"
| "budget_exec b ConsumeTick = charge budget_consume_tick b"
| "budget_exec b (RevokeFor reason) = (Ok (), budget_revoke b reason)"

definition budget_step :: "budget_state \<Rightarrow> budget_event \<Rightarrow> budget_state" where
  "budget_step b e = snd (budget_exec b e)"

definition granted :: "budget_event \<Rightarrow> budget_state \<Rightarrow> budget_event \<Rightarrow> nat" where
  "granted k b e = (if e = k \<and> is_ok (fst (budget_exec b e)) then 1 else 0)"

lemmas budget_defs = charge_def budget_check_def budget_consume_op_def budget_consume_tick_def
  budget_evaluate_def budget_revoke_def

text \<open>
  The remaining count of operations (or ticks) is the level the grants come out of. An
  unbounded budget has no level, and nothing is charged to it.
\<close>

fun ops_level :: "budget_state \<Rightarrow> nat" where
  "ops_level b = (case bu_ops_remaining b of None \<Rightarrow> 0 | Some n \<Rightarrow> n)"

fun ticks_level :: "budget_state \<Rightarrow> nat" where
  "ticks_level b = (case bu_ticks_remaining b of None \<Rightarrow> 0 | Some n \<Rightarrow> n)"

interpretation op_meter: metered budget_step
    "\<lambda>b e. if bu_ops_remaining b = None then 0 else granted ConsumeOp b e" ops_level "\<lambda>_. True"
proof (unfold_locales, goal_cases)
  case (1 b e)
  show ?case
    by (cases e) (auto simp: granted_def budget_step_def budget_defs split: option.splits)
qed simp

interpretation tick_meter: metered budget_step
    "\<lambda>b e. if bu_ticks_remaining b = None then 0 else granted ConsumeTick b e" ticks_level "\<lambda>_. True"
proof (unfold_locales, goal_cases)
  case (1 b e)
  show ?case
    by (cases e) (auto simp: granted_def budget_step_def budget_defs split: option.splits)
qed simp

lemma bounded_stays:
  "(bu_ops_remaining (budget_step b e) = None) = (bu_ops_remaining b = None)"
  "(bu_ticks_remaining (budget_step b e) = None) = (bu_ticks_remaining b = None)"
  by (cases e; auto simp: budget_step_def budget_defs split: option.splits)+

lemma granted_bounded:
  "bu_ops_remaining b = Some n \<Longrightarrow> total_cost budget_step (granted ConsumeOp) b es \<le> n"
  "bu_ticks_remaining b = Some m \<Longrightarrow> total_cost budget_step (granted ConsumeTick) b es \<le> m"
proof -
  assume b: "bu_ops_remaining b = Some n"
  then have "total_cost budget_step (granted ConsumeOp) b es =
      total_cost budget_step (\<lambda>b e. if bu_ops_remaining b = None then 0 else granted ConsumeOp b e) b es"
    by (intro total_cost_cong [where P = "\<lambda>b. bu_ops_remaining b \<noteq> None"]) (auto simp add: bounded_stays simp flip: not_None_eq)
  with b show "total_cost budget_step (granted ConsumeOp) b es \<le> n"
    using op_meter.run_cost [of b es] by simp
next
  assume b: "bu_ticks_remaining b = Some m"
  then have "total_cost budget_step (granted ConsumeTick) b es =
      total_cost budget_step (\<lambda>b e. if bu_ticks_remaining b = None then 0 else granted ConsumeTick b e) b es"
    by (intro total_cost_cong [where P = "\<lambda>b. bu_ticks_remaining b \<noteq> None"]) (auto simp add: bounded_stays simp flip: not_None_eq)
  with b show "total_cost budget_step (granted ConsumeTick) b es \<le> m"
    using tick_meter.run_cost [of b es] by simp
qed

text \<open>A revoked budget stays revoked.\<close>

interpretation revoked: step_invariant budget_step "\<lambda>b. bu_revoked b \<noteq> None"
proof
  fix b :: budget_state and e
  assume "bu_revoked b \<noteq> None"
  then show "bu_revoked (budget_step b e) \<noteq> None"
    by (cases e) (auto simp: budget_step_def budget_defs split: option.splits)
qed

lemma charge_refused: "fst (budget_exec b e) = Err r \<Longrightarrow> bu_revoked (budget_step b e) = Some r"
  by (cases e) (auto simp: budget_step_def budget_defs split: option.splits if_splits)

lemma deadline_kept: "bu_deadline b = d \<Longrightarrow> bu_deadline (foldl budget_step b es) = d"
proof (induction es arbitrary: b)
  case (Cons e es)
  have "bu_deadline (budget_step b e) = bu_deadline b"
    by (cases e) (auto simp: budget_step_def budget_defs split: option.splits)
  with Cons show ?case by simp
qed simp

lemma budget_new_fields:
  assumes "budget_new spec now = Some b"
  shows "bu_ops_remaining b = map_option unat (bs_ops spec)"
    and "bu_ticks_remaining b = map_option unat (bs_ticks spec)"
    and "bu_deadline b = map_option (\<lambda>ttl. now + unat ttl * NANOS_PER_SEC) (bs_ttl_s spec)"
    and "bu_revoked b = None"
  using assms by (auto simp: budget_new_def Let_def instant_add_secs_def split: option.splits if_splits)

subsection \<open>Properties\<close>

lemma clamp_budget_fields:
  "bs_ops (clamp_budget r v) = min_budget_field (bs_ops r) (bs_ops v)"
  "bs_ticks (clamp_budget r v) = min_budget_field (bs_ticks r) (bs_ticks v)"
  by (simp_all add: clamp_budget_def with_ttl_def with_ops_def with_ticks_def)

lemma min_budget_field_le:
  "x = Some n \<or> y = Some n \<Longrightarrow> \<exists>m. min_budget_field x y = Some m \<and> unat m \<le> unat n"
  by (auto simp: min_budget_field_def min_def word_le_nat_alt split: option.splits)

text \<open>
  C28: Neither budget of a worker is exceeded. A worker's session is given the budget that is
  registered for the worker, clamped by the budget of its ticket. Whatever the session then
  does, in any order of checks, operations, ticks and revocations, it is granted at most
  as many operations and at most as many ticks as either of the two budgets allows,
  where they bound them.
\<close>

theorem budget_bounds_session:
  assumes "budget_new (clamp_budget registered claimed) now = Some b"
    and "spec = registered \<or> spec = claimed"
  shows "(\<forall>n. bs_ops spec = Some n \<longrightarrow> total_cost budget_step (granted ConsumeOp) b es \<le> unat n) \<and>
    (\<forall>n. bs_ticks spec = Some n \<longrightarrow> total_cost budget_step (granted ConsumeTick) b es \<le> unat n)"
proof (intro conjI allI impI)
  note new = budget_new_fields [OF assms(1)]
  fix n assume "bs_ops spec = Some n"
  with assms(2) have "bs_ops registered = Some n \<or> bs_ops claimed = Some n" by blast
  then obtain m where "min_budget_field (bs_ops registered) (bs_ops claimed) = Some m" "unat m \<le> unat n"
    using min_budget_field_le by blast
  with new(1) have "bu_ops_remaining b = Some (unat m)" "unat m \<le> unat n"
    by (simp_all add: clamp_budget_fields)
  then show "total_cost budget_step (granted ConsumeOp) b es \<le> unat n"
    using granted_bounded(1) le_trans by blast
next
  note new = budget_new_fields [OF assms(1)]
  fix n assume "bs_ticks spec = Some n"
  with assms(2) have "bs_ticks registered = Some n \<or> bs_ticks claimed = Some n" by blast
  then obtain m where "min_budget_field (bs_ticks registered) (bs_ticks claimed) = Some m" "unat m \<le> unat n"
    using min_budget_field_le by blast
  with new(2) have "bu_ticks_remaining b = Some (unat m)" "unat m \<le> unat n"
    by (simp_all add: clamp_budget_fields)
  then show "total_cost budget_step (granted ConsumeTick) b es \<le> unat n"
    using granted_bounded(2) le_trans by blast
qed

theorem budget_bounds_session_witness:
  "\<exists>b. budget_new (clamp_budget budget_default_heartbeat budget_default_gpu) 5 = Some b \<and>
    total_cost budget_step (granted ConsumeOp) b (replicate 100 ConsumeOp) \<le> 64"
proof -
  obtain b where b: "budget_new (clamp_budget budget_default_heartbeat budget_default_gpu) 5 = Some b"
    by (simp add: budget_new_def clamp_budget_def min_budget_field_def with_ttl_def with_ops_def
        with_ticks_def budget_unbounded_def budget_default_gpu_def budget_default_heartbeat_def
        instant_add_secs_def NANOS_PER_SEC_def Let_def)
  from budget_bounds_session [OF this, of budget_default_gpu "replicate 100 ConsumeOp"]
  have "total_cost budget_step (granted ConsumeOp) b (replicate 100 ConsumeOp) \<le> 64"
    by (simp add: budget_default_gpu_def)
  with b show ?thesis by blast
qed

text \<open>
  A refusal is final, and time runs out. Once a budget has refused anything, every
  later check, operation and tick is refused too, after any further use; and a check at
  or after the end of the ticket's lifetime is refused, with the time to live counted
  from the attach.
\<close>

theorem budget_refusal_final:
  "(fst (budget_exec b e) = Err r \<longrightarrow>
      k \<in> {CheckAt t, ConsumeOp, ConsumeTick} \<longrightarrow>
      \<not> is_ok (fst (budget_exec (foldl budget_step (budget_step b e) es) k))) \<and>
   (budget_new spec now = Some b \<and> bs_ttl_s spec = Some ttl \<and> now + unat ttl * NANOS_PER_SEC \<le> t \<longrightarrow>
      \<not> is_ok (fst (budget_exec (foldl budget_step b es) (CheckAt t))))"
proof (intro conjI impI)
  assume "fst (budget_exec b e) = Err r" and k: "k \<in> {CheckAt t, ConsumeOp, ConsumeTick}"
  then have "bu_revoked (foldl budget_step (budget_step b e) es) \<noteq> None"
    by (intro revoked.run_inv) (simp add: charge_refused)
  with k show "\<not> is_ok (fst (budget_exec (foldl budget_step (budget_step b e) es) k))"
    by (auto simp: budget_defs)
next
  assume a: "budget_new spec now = Some b \<and> bs_ttl_s spec = Some ttl \<and> now + unat ttl * NANOS_PER_SEC \<le> t"
  then have "bu_deadline b = Some (now + unat ttl * NANOS_PER_SEC)"
    using budget_new_fields(3) [of spec now b] by simp
  then have "bu_deadline (foldl budget_step b es) = Some (now + unat ttl * NANOS_PER_SEC)"
    by (rule deadline_kept)
  with a show "\<not> is_ok (fst (budget_exec (foldl budget_step b es) (CheckAt t)))"
    by (auto simp: budget_defs split: option.splits)
qed

theorem budget_refusal_final_witness:
  "\<not> is_ok (fst (budget_exec (foldl budget_step
      (budget_step \<lparr>bu_ticks_remaining = None, bu_ops_remaining = Some 0, bu_deadline = None,
         bu_revoked = None\<rparr> ConsumeOp) [RevokeFor ''killed'', CheckAt 9]) ConsumeTick))"
  by (rule budget_refusal_final [THEN conjunct1, rule_format, where t = 0 and r = "''operation budget exhausted''"])
    (simp_all add: budget_defs)

end
