(* ===== verification/Mount_Table.thy ===== *)
theory Mount_Table
  imports NineDoor_Error Shard_Layout
begin

section \<open>Session mounts\<close>

text \<open>
  \<open>MountTable\<close> of \<open>apps/nine-door/src/host/core.rs\<close>: the binds and mounts of a session, in a
  list kept sorted by the length of the mount point, longest first, so that resolving a
  path takes the first entry that is a prefix of it. The abstract table is a map from
  mount points to targets in which the longest mounted prefix of a path decides.
\<close>

record mount_entry =
  me_target :: path
  me_mount :: path

type_synonym mount_table = "mount_entry list"

text \<open>\<open>sort_by\<close> is stable and compares the lengths the other way round.\<close>

definition mount_bind ::
  "mount_table \<Rightarrow> path \<Rightarrow> path \<Rightarrow> (ninedoor_error + unit) \<times> mount_table" where
  "mount_bind t target mount =
     (if mount = [] then (Err (Protocol EInvalid ''mount point must not be root''), t)
      else (Ok (), sort_key (\<lambda>e. - int (length (me_mount e)))
              (filter (\<lambda>e. me_mount e \<noteq> mount) t @ [\<lparr>me_target = target, me_mount = mount\<rparr>])))"

fun mount_resolve :: "mount_table \<Rightarrow> path \<Rightarrow> path" where
  "mount_resolve [] view_path = view_path"
| "mount_resolve (e # t) view_path =
     (if prefix (me_mount e) view_path then me_target e @ drop (length (me_mount e)) view_path
      else mount_resolve t view_path)"

subsection \<open>The abstract table\<close>

definition spec_bind :: "(path \<rightharpoonup> path) \<Rightarrow> path \<Rightarrow> path \<Rightarrow> (path \<rightharpoonup> path)" where
  "spec_bind m target mount = (if mount = [] then m else m(mount \<mapsto> target))"

text \<open>The longest mounted prefix of at most \<open>k\<close> components.\<close>

fun spec_resolve_upto :: "nat \<Rightarrow> (path \<rightharpoonup> path) \<Rightarrow> path \<Rightarrow> path" where
  "spec_resolve_upto 0 m v = v"
| "spec_resolve_upto (Suc k) m v =
     (case m (take (Suc k) v) of
        Some target \<Rightarrow> target @ drop (Suc k) v
      | None \<Rightarrow> spec_resolve_upto k m v)"

definition spec_resolve :: "(path \<rightharpoonup> path) \<Rightarrow> path \<Rightarrow> path" where
  "spec_resolve m v = spec_resolve_upto (length v) m v"

definition mount_abs :: "mount_table \<Rightarrow> (path \<rightharpoonup> path)" where
  "mount_abs t = map_of (map (\<lambda>e. (me_mount e, me_target e)) t)"

definition mount_inv :: "mount_table \<Rightarrow> bool" where
  "mount_inv t \<longleftrightarrow> sorted (map (\<lambda>e. - int (length (me_mount e))) t) \<and>
     distinct (map me_mount t) \<and> [] \<notin> me_mount ` set t"

subsection \<open>Refinement\<close>

lemma mount_abs_Some:
  "distinct (map me_mount t) \<Longrightarrow>
    mount_abs t mount = Some target \<longleftrightarrow> \<lparr>me_target = target, me_mount = mount\<rparr> \<in> set t"
proof (induction t)
  case (Cons e t)
  show ?case
  proof (cases "me_mount e = mount")
    case True
    with Cons.prems have "\<lparr>me_target = target, me_mount = mount\<rparr> \<notin> set t" by (auto simp: image_iff)
    with True show ?thesis by (cases e) (auto simp: mount_abs_def)
  next
    case False
    with Cons show ?thesis by (auto simp: mount_abs_def)
  qed
qed (simp add: mount_abs_def)

lemma mount_bind_inv:
  assumes "mount_inv t"
  shows "mount_inv (snd (mount_bind t target mount))"
proof -
  have "distinct (map me_mount (filter (\<lambda>e. me_mount e \<noteq> mount) t @ [\<lparr>me_target = target, me_mount = mount\<rparr>]))"
    using assms by (auto simp: mount_inv_def distinct_map_filter)
  moreover have "distinct (map me_mount (sort_key k xs)) \<longleftrightarrow> distinct (map me_mount xs)"
    for k :: "mount_entry \<Rightarrow> int" and xs
    by (simp add: distinct_map)
  ultimately show ?thesis
    using assms by (auto simp: mount_inv_def mount_bind_def)
qed

lemma mount_bind_abs:
  assumes "mount_inv t"
  shows "mount_abs (snd (mount_bind t target mount)) = spec_bind (mount_abs t) target mount"
proof (rule ext)
  fix p
  note d = mount_bind_inv [OF assms, of target mount, unfolded mount_inv_def]
  have "mount_abs (snd (mount_bind t target mount)) p = Some q \<longleftrightarrow>
      spec_bind (mount_abs t) target mount p = Some q" for q
    using assms d
    by (simp only: mount_abs_Some mount_inv_def spec_bind_def fun_upd_apply)
      (auto simp: mount_abs_Some mount_bind_def)
  then show "mount_abs (snd (mount_bind t target mount)) p = spec_bind (mount_abs t) target mount p"
    by (metis option.exhaust option.distinct(1))
qed

lemma spec_resolve_upto_skip:
  "\<forall>j. k < j \<and> j \<le> n \<longrightarrow> m (take j v) = None \<Longrightarrow> k \<le> n \<Longrightarrow>
    spec_resolve_upto n m v = spec_resolve_upto k m v"
  by (induction n) (auto simp: le_Suc_eq)

text \<open>The first matching entry of a sorted table is the longest mounted prefix.\<close>

lemma mount_resolve_longest:
  assumes "sorted (map (\<lambda>e. - int (length (me_mount e))) t)" and "[] \<notin> me_mount ` set t"
  shows "mount_resolve t v = spec_resolve (mount_abs t) v"
  using assms
proof (induction t)
  case Nil
  have "spec_resolve_upto n Map.empty v = v" for n by (induction n) auto
  then show ?case by (simp add: spec_resolve_def mount_abs_def)
next
  case (Cons e t)
  let ?n = "length (me_mount e)"
  have shorter: "\<forall>f \<in> set t. length (me_mount f) \<le> ?n" using Cons.prems(1) by auto
  have longer: "mount_abs (e # t) (take j v) = None" if "?n < j" "j \<le> length v" for j
  proof (rule ccontr)
    assume "mount_abs (e # t) (take j v) \<noteq> None"
    then have "take j v \<in> me_mount ` set (e # t)"
      by (auto simp: mount_abs_def map_of_eq_None_iff dest!: map_of_SomeD split: if_splits)
    then obtain f where "f \<in> set (e # t)" "length (take j v) = length (me_mount f)"
      by (metis (no_types, lifting) imageE)
    with shorter that show False by auto
  qed
  show ?case
  proof (cases "prefix (me_mount e) v")
    case True
    then have "?n \<le> length v" and t: "take ?n v = me_mount e"
      by (auto simp: prefix_def)
    moreover obtain k where "?n = Suc k" using Cons.prems(2) by (cases "me_mount e") auto
    ultimately show ?thesis
      using True spec_resolve_upto_skip [of ?n "length v" "mount_abs (e # t)" v] longer
      by (simp add: spec_resolve_def) (simp add: mount_abs_def)
  next
    case False
    then have "take j v \<noteq> me_mount e" for j using take_is_prefix by metis
    then have other: "mount_abs (e # t) (take j v) = mount_abs t (take j v)" for j
      by (simp add: mount_abs_def)
    have "spec_resolve_upto n (mount_abs (e # t)) v = spec_resolve_upto n (mount_abs t) v" for n
      by (induction n) (simp_all add: other split: option.split)
    with False Cons show ?thesis by (simp add: spec_resolve_def)
  qed
qed

interpretation mounts: step_invariant "\<lambda>t b. snd (mount_bind t (fst b) (snd b))" mount_inv
  by unfold_locales (rule mount_bind_inv)

lemma mount_run_abs:
  "mount_inv t \<Longrightarrow> mount_abs (foldl (\<lambda>t b. snd (mount_bind t (fst b) (snd b))) t bs) =
    foldl (\<lambda>m b. spec_bind m (fst b) (snd b)) (mount_abs t) bs"
  by (induction bs arbitrary: t) (simp_all add: mount_bind_abs mount_bind_inv)

text \<open>
  C29: Mounts resolve by the longest prefix and the last bind. After any sequence of binds and
  mounts in a session, resolving a path replaces the longest mounted prefix of the path
  by the target last bound to it, and leaves the path alone when no prefix is mounted.
\<close>

theorem mount_table_refines:
  "mount_resolve (foldl (\<lambda>t b. snd (mount_bind t (fst b) (snd b))) [] bs) view_path =
     spec_resolve (foldl (\<lambda>m b. spec_bind m (fst b) (snd b)) Map.empty bs) view_path"
proof -
  let ?t = "foldl (\<lambda>t b. snd (mount_bind t (fst b) (snd b))) [] bs"
  have "mount_inv []" by (simp add: mount_inv_def)
  then have i: "mount_inv ?t"
    and a: "mount_abs ?t = foldl (\<lambda>m b. spec_bind m (fst b) (snd b)) (mount_abs []) bs"
    by (rule mounts.run_inv, rule mount_run_abs)
  from i a show ?thesis
    using mount_resolve_longest [of ?t] by (simp add: mount_inv_def mount_abs_def)
qed

end
