(* ===== verification/Root_State.thy ===== *)
theory Root_State
  imports Lifecycle
begin

unbundle bit_operations_syntax

section \<open>Reachability of the root\<close>

text \<open>
  \<open>RootState\<close> of \<open>apps/nine-door/src/host/core.rs\<close>: the number of attached queen sessions and,
  when there is none, why the last one was cut, as shown under \<open>/proc/root\<close>. Times are
  milliseconds.
\<close>

definition ROOT_FLAG_NETWORK :: byte where
  "ROOT_FLAG_NETWORK = 1"

definition ROOT_FLAG_POLICY :: byte where
  "ROOT_FLAG_POLICY = push_bit 1 1"

definition ROOT_FLAG_REVOKED :: byte where
  "ROOT_FLAG_REVOKED = push_bit 2 1"

datatype root_cut_reason =
  CutNone | NetworkUnreachable | SessionRevoked | PolicyDenied | LifecycleOffline

definition root_cut_reason_str :: "root_cut_reason \<Rightarrow> string" where
  "root_cut_reason_str r = (case r of
     CutNone \<Rightarrow> ''none'' | NetworkUnreachable \<Rightarrow> ''network_unreachable''
   | SessionRevoked \<Rightarrow> ''session_revoked'' | PolicyDenied \<Rightarrow> ''policy_denied''
   | LifecycleOffline \<Rightarrow> ''lifecycle_offline'')"

record root_view =
  rs_reachable :: bool
  rs_last_seen_ms :: nat
  rs_cut_reason :: root_cut_reason

record root_state =
  rt_active_sessions :: nat
  rt_last_seen_ms :: nat
  rt_flags :: byte

definition root_new :: root_state where
  "root_new = \<lparr>rt_active_sessions = 0, rt_last_seen_ms = 0, rt_flags = 0\<rparr>"

definition mark_session_active :: "root_state \<Rightarrow> nat \<Rightarrow> root_state" where
  "mark_session_active s now_ms =
     \<lparr>rt_active_sessions = sat_add32 (rt_active_sessions s) 1, rt_last_seen_ms = now_ms, rt_flags = 0\<rparr>"

definition record_activity :: "root_state \<Rightarrow> nat \<Rightarrow> root_state" where
  "record_activity s now_ms =
     (if rt_active_sessions s > 0 then s\<lparr>rt_last_seen_ms := now_ms\<rparr> else s)"

definition mark_cut :: "root_state \<Rightarrow> root_cut_reason \<Rightarrow> root_state" where
  "mark_cut s reason =
     (let s = (if rt_active_sessions s > 0
               then s\<lparr>rt_active_sessions := rt_active_sessions s - 1\<rparr> else s)
      in if rt_active_sessions s > 0 then s
         else (case reason of
             NetworkUnreachable \<Rightarrow> s\<lparr>rt_flags := rt_flags s OR ROOT_FLAG_NETWORK\<rparr>
           | SessionRevoked \<Rightarrow> s\<lparr>rt_flags := rt_flags s OR ROOT_FLAG_REVOKED\<rparr>
           | PolicyDenied \<Rightarrow> s\<lparr>rt_flags := rt_flags s OR ROOT_FLAG_POLICY\<rparr>
           | LifecycleOffline \<Rightarrow> s
           | CutNone \<Rightarrow> s))"

definition mark_policy_denied :: "root_state \<Rightarrow> root_state" where
  "mark_policy_denied s =
     (if rt_active_sessions s = 0 then s\<lparr>rt_flags := rt_flags s OR ROOT_FLAG_POLICY\<rparr> else s)"

definition root_snapshot :: "root_state \<Rightarrow> lifecycle_state \<Rightarrow> root_view" where
  "root_snapshot s state =
     (let offline = (state = Offline);
          reachable = (rt_active_sessions s > 0 \<and> \<not> offline)
      in \<lparr>rs_reachable = reachable, rs_last_seen_ms = rt_last_seen_ms s,
          rs_cut_reason =
            (if reachable then CutNone
             else if offline then LifecycleOffline
             else if rt_flags s AND ROOT_FLAG_REVOKED \<noteq> 0 then SessionRevoked
             else if rt_flags s AND ROOT_FLAG_POLICY \<noteq> 0 then PolicyDenied
             else if rt_flags s AND ROOT_FLAG_NETWORK \<noteq> 0 then NetworkUnreachable
             else NetworkUnreachable)\<rparr>)"

subsection \<open>Runs\<close>

datatype root_event =
  RootActive nat | RootActivity nat | RootCut root_cut_reason | RootPolicyDenied

fun root_step :: "root_state \<Rightarrow> root_event \<Rightarrow> root_state" where
  "root_step s (RootActive now) = mark_session_active s now"
| "root_step s (RootActivity now) = record_activity s now"
| "root_step s (RootCut reason) = mark_cut s reason"
| "root_step s RootPolicyDenied = mark_policy_denied s"

fun is_activation :: "root_event \<Rightarrow> bool" where
  "is_activation (RootActive now) = True"
| "is_activation e = False"

lemma root_flag_bits:
  "x AND ROOT_FLAG_NETWORK \<noteq> 0 \<longleftrightarrow> bit x 0"
  "x AND ROOT_FLAG_POLICY \<noteq> 0 \<longleftrightarrow> bit x 1"
  "x AND ROOT_FLAG_REVOKED \<noteq> 0 \<longleftrightarrow> bit x 2"
  "bit ROOT_FLAG_NETWORK n \<longleftrightarrow> n = 0"
  "bit ROOT_FLAG_POLICY n \<longleftrightarrow> n = 1"
  "bit ROOT_FLAG_REVOKED n \<longleftrightarrow> n = 2"
proof -
  have f: "ROOT_FLAG_NETWORK = 2 ^ 0" "ROOT_FLAG_POLICY = 2 ^ 1" "ROOT_FLAG_REVOKED = 2 ^ 2"
    by (simp_all add: ROOT_FLAG_NETWORK_def ROOT_FLAG_POLICY_def ROOT_FLAG_REVOKED_def)
  show "x AND ROOT_FLAG_NETWORK \<noteq> 0 \<longleftrightarrow> bit x 0" "x AND ROOT_FLAG_POLICY \<noteq> 0 \<longleftrightarrow> bit x 1"
    "x AND ROOT_FLAG_REVOKED \<noteq> 0 \<longleftrightarrow> bit x 2"
    unfolding f by (simp_all only: and_exp_eq_0_iff_not_bit not_not)
  show "bit ROOT_FLAG_NETWORK n \<longleftrightarrow> n = 0" "bit ROOT_FLAG_POLICY n \<longleftrightarrow> n = 1"
    "bit ROOT_FLAG_REVOKED n \<longleftrightarrow> n = 2"
    unfolding f by (auto simp only: bit_exp_iff) (simp_all add: possible_bit_word)
qed

lemmas root_defs = mark_session_active_def record_activity_def mark_cut_def mark_policy_denied_def

text \<open>The root is down for a revoked session: nobody is attached, and the flag is set.\<close>

definition revoked_down :: "root_state \<Rightarrow> bool" where
  "revoked_down s \<longleftrightarrow> rt_active_sessions s = 0 \<and> bit (rt_flags s) 2"

text \<open>Every event other than an activation keeps it so; an activation is the identity here.\<close>

definition quiet_step :: "root_state \<Rightarrow> root_event \<Rightarrow> root_state" where
  "quiet_step s e = (if is_activation e then s else root_step s e)"

interpretation down: step_invariant quiet_step revoked_down
proof
  fix s e
  assume "revoked_down s"
  then show "revoked_down (quiet_step s e)"
    by (cases e)
      (auto simp: revoked_down_def quiet_step_def root_defs root_flag_bits bit_simps Let_def
        split: root_cut_reason.split)
qed

lemma quiet_run:
  "list_all (\<lambda>e. \<not> is_activation e) es \<Longrightarrow> foldl root_step s es = foldl quiet_step s es"
  by (induction es arbitrary: s) (simp_all add: quiet_step_def)

text \<open>
  A revocation stays visible. When the last queen session is cut because it was revoked,
  the root is shown as unreachable with that reason, or as offline while the node is,
  after any further activity, cuts and denials, until a queen attaches again.
\<close>

theorem root_revocation_sticky:
  assumes "rt_active_sessions s \<le> 1" and "list_all (\<lambda>e. \<not> is_activation e) es"
  shows "\<not> rs_reachable (root_snapshot (foldl root_step (mark_cut s SessionRevoked) es) state) \<and>
    rs_cut_reason (root_snapshot (foldl root_step (mark_cut s SessionRevoked) es) state) =
      (if state = Offline then LifecycleOffline else SessionRevoked)"
proof -
  have "revoked_down (mark_cut s SessionRevoked)"
    using assms(1) by (simp add: revoked_down_def mark_cut_def Let_def bit_simps root_flag_bits)
  then have "revoked_down (foldl root_step (mark_cut s SessionRevoked) es)"
    using down.run_inv quiet_run [OF assms(2)] by simp
  then show ?thesis
    by (simp add: root_snapshot_def revoked_down_def root_flag_bits Let_def)
qed

theorem root_revocation_sticky_witness:
  "rs_cut_reason (root_snapshot (foldl root_step (mark_cut (mark_session_active root_new 10) SessionRevoked)
     [RootPolicyDenied, RootActivity 12, RootCut NetworkUnreachable]) Online) = SessionRevoked"
proof -
  have "rt_active_sessions (mark_session_active root_new 10) \<le> 1"
    by (simp add: mark_session_active_def root_new_def sat_add32_def)
  from root_revocation_sticky [OF this, of "[RootPolicyDenied, RootActivity 12, RootCut NetworkUnreachable]" Online]
  show ?thesis by simp
qed

end
