(* ===== verification/Access_Policy.thy ===== *)
theory Access_Policy
  imports NineDoor_Error Shard_Layout
begin

section \<open>Who may go where\<close>

text \<open>
  \<open>AccessPolicy\<close> and its path predicates from \<open>apps/nine-door/src/host/core.rs\<close>, with the
  sidecar scopes of \<open>namespace.rs\<close>. The ten parameters every check of the source takes
  along are one record \<open>access\<close>; the digest that places a worker on a shard is the
  parameter \<open>sha256\<close>.
\<close>

record sidecar_scope =
  sc_scope :: string
  sc_mount_root :: path

definition scope_matches_prefix :: "sidecar_scope \<Rightarrow> path \<Rightarrow> bool" where
  "scope_matches_prefix s p \<longleftrightarrow> prefix (sc_mount_root s) p \<or> prefix p (sc_mount_root s)"

definition scope_contains_path :: "sidecar_scope \<Rightarrow> path \<Rightarrow> bool" where
  "scope_contains_path s p \<longleftrightarrow> prefix (sc_mount_root s) p"

record access =
  ac_shards :: shard_layout
  ac_role :: "role option"
  ac_worker_id :: "string option"
  ac_gpu_scope :: "string option"
  ac_bus_scope :: "string option"
  ac_lora_scope :: "string option"
  ac_host_mount :: "path option"
  ac_sidecar_bus_scopes :: "sidecar_scope list"
  ac_sidecar_lora_scopes :: "sidecar_scope list"

subsection \<open>Path predicates\<close>

definition worker_common_prefix :: "path \<Rightarrow> bool" where
  "worker_common_prefix p \<longleftrightarrow> (case p of
     [first] \<Rightarrow> first = ''proc'' \<or> first = ''log''
   | [first, second] \<Rightarrow> first = ''proc'' \<and> second = ''boot'' \<or> first = ''log'' \<and> second = ''queen.log''
   | _ \<Rightarrow> False)"

definition worker_common_path :: "path \<Rightarrow> bool" where
  "worker_common_path p = worker_common_prefix p"

text \<open>A \<open>match\<close> whose arms return: \<open>None\<close> where it falls through.\<close>

definition shard_prefix_arms :: "string \<Rightarrow> string \<Rightarrow> path \<Rightarrow> bool option" where
  "shard_prefix_arms label wid p = (case p of
     [first] \<Rightarrow> if first = ''shard'' then Some True else None
   | [first, shard] \<Rightarrow> if first = ''shard'' then Some (shard = label) else None
   | [first, shard, second] \<Rightarrow>
       if first = ''shard'' \<and> second = ''worker'' then Some (shard = label) else None
   | [first, shard, second, worker] \<Rightarrow>
       if first = ''shard'' \<and> second = ''worker'' then Some (shard = label \<and> worker = wid) else None
   | [first, shard, second, worker, leaf] \<Rightarrow>
       if first = ''shard'' \<and> second = ''worker'' \<and> leaf = ''telemetry''
       then Some (shard = label \<and> worker = wid) else None
   | _ \<Rightarrow> None)"

definition flat_prefix_arms :: "string \<Rightarrow> path \<Rightarrow> bool" where
  "flat_prefix_arms wid p = (case p of
     [first] \<Rightarrow> first = ''worker''
   | [first, worker] \<Rightarrow> first = ''worker'' \<and> worker = wid
   | [first, worker, leaf] \<Rightarrow> first = ''worker'' \<and> leaf = ''telemetry'' \<and> worker = wid
   | _ \<Rightarrow> False)"

definition worker_allowed_prefix ::
  "(bytes \<Rightarrow> bytes) \<Rightarrow> shard_layout \<Rightarrow> string option \<Rightarrow> path \<Rightarrow> bool" where
  "worker_allowed_prefix sha256 shards worker_id p = (case worker_id of
     None \<Rightarrow> False
   | Some wid \<Rightarrow>
       if p = [] then True
       else if worker_common_prefix p then True
       else if sl_enabled shards then
         (case shard_prefix_arms (worker_shard_label sha256 shards wid) wid p of
            Some b \<Rightarrow> b
          | None \<Rightarrow> if legacy_worker_alias_enabled shards then flat_prefix_arms wid p else False)
       else flat_prefix_arms wid p)"

definition host_allowed_prefix :: "path option \<Rightarrow> path \<Rightarrow> bool" where
  "host_allowed_prefix host_mount p = (case host_mount of None \<Rightarrow> False | Some mount \<Rightarrow> prefix mount p)"

definition host_allowed_path :: "path option \<Rightarrow> path \<Rightarrow> bool" where
  "host_allowed_path host_mount p = host_allowed_prefix host_mount p"

definition worker_allowed_path ::
  "(bytes \<Rightarrow> bytes) \<Rightarrow> shard_layout \<Rightarrow> string option \<Rightarrow> path \<Rightarrow> bool" where
  "worker_allowed_path sha256 shards worker_id p =
     (worker_allowed_prefix sha256 shards worker_id p \<and>
      (case p of
         [first] \<Rightarrow> first \<noteq> ''worker'' \<and> \<not> (sl_enabled shards \<and> first = ''shard'')
       | [first, second] \<Rightarrow>
           \<not> (first = ''worker'' \<and> second = ''self'') \<and> \<not> (sl_enabled shards \<and> first = ''shard'')
       | [first, shard, second] \<Rightarrow> \<not> (sl_enabled shards \<and> first = ''shard'' \<and> second = ''worker'')
       | _ \<Rightarrow> True))"

definition worker_allowed_write ::
  "(bytes \<Rightarrow> bytes) \<Rightarrow> shard_layout \<Rightarrow> string option \<Rightarrow> path \<Rightarrow> bool" where
  "worker_allowed_write sha256 shards worker_id p = (case worker_id of
     Some wid \<Rightarrow> is_worker_telemetry_path sha256 shards p wid
   | None \<Rightarrow> False)"

definition is_gpu_path :: "string \<Rightarrow> path \<Rightarrow> string \<Rightarrow> bool" where
  "is_gpu_path leaf p scope \<longleftrightarrow> p = [''gpu'', scope, leaf]"

abbreviation is_gpu_job_path :: "path \<Rightarrow> string \<Rightarrow> bool" where
  "is_gpu_job_path \<equiv> is_gpu_path ''job''"

abbreviation is_gpu_status_path :: "path \<Rightarrow> string \<Rightarrow> bool" where
  "is_gpu_status_path \<equiv> is_gpu_path ''status''"

abbreviation is_gpu_info_path :: "path \<Rightarrow> string \<Rightarrow> bool" where
  "is_gpu_info_path \<equiv> is_gpu_path ''info''"

abbreviation is_gpu_ctl_path :: "path \<Rightarrow> string \<Rightarrow> bool" where
  "is_gpu_ctl_path \<equiv> is_gpu_path ''ctl''"

definition gpu_allowed_prefix :: "string option \<Rightarrow> path \<Rightarrow> bool" where
  "gpu_allowed_prefix gpu_scope p = (case gpu_scope of
     None \<Rightarrow> False
   | Some scope \<Rightarrow>
       (case p of
          [] \<Rightarrow> False
        | [single] \<Rightarrow> single = ''gpu''
        | first # second # rest \<Rightarrow> first = ''gpu'' \<and> second = scope))"

definition gpu_allowed_read :: "string option \<Rightarrow> path \<Rightarrow> bool" where
  "gpu_allowed_read gpu_scope p = (case gpu_scope of
     Some scope \<Rightarrow> is_gpu_info_path p scope \<or> is_gpu_status_path p scope \<or>
       is_gpu_ctl_path p scope \<or> is_gpu_job_path p scope
   | None \<Rightarrow> False)"

definition gpu_allowed_write :: "string option \<Rightarrow> path \<Rightarrow> bool" where
  "gpu_allowed_write gpu_scope p = (case gpu_scope of
     Some scope \<Rightarrow> is_gpu_job_path p scope
   | None \<Rightarrow> False)"

definition sidecar_scope_for :: "sidecar_scope list \<Rightarrow> string option \<Rightarrow> sidecar_scope option" where
  "sidecar_scope_for scopes scope =
     Option.bind scope (\<lambda>scope. find (\<lambda>entry. sc_scope entry = scope) scopes)"

definition sidecar_allowed_prefix :: "sidecar_scope list \<Rightarrow> string option \<Rightarrow> path \<Rightarrow> bool" where
  "sidecar_allowed_prefix scopes scope p = (case sidecar_scope_for scopes scope of
     Some entry \<Rightarrow> scope_matches_prefix entry p | None \<Rightarrow> False)"

definition sidecar_allowed_path :: "sidecar_scope list \<Rightarrow> string option \<Rightarrow> path \<Rightarrow> bool" where
  "sidecar_allowed_path scopes scope p = (case sidecar_scope_for scopes scope of
     Some entry \<Rightarrow> scope_contains_path entry p | None \<Rightarrow> False)"

subsection \<open>The policy\<close>

definition permission_denied :: "path \<Rightarrow> ninedoor_error" where
  "permission_denied p = Protocol EPermission (''access to /'' @ join ''/'' p @ '' denied'')"

definition attach_required :: ninedoor_error where
  "attach_required = Protocol EInvalid ''attach required before operation''"

definition allow_if :: "bool \<Rightarrow> path \<Rightarrow> ninedoor_error + unit" where
  "allow_if b p = (if b then Ok () else Err (permission_denied p))"

definition ensure_path :: "(bytes \<Rightarrow> bytes) \<Rightarrow> access \<Rightarrow> path \<Rightarrow> ninedoor_error + unit" where
  "ensure_path sha256 a p = (case ac_role a of
     Some Queen \<Rightarrow> Ok ()
   | Some WorkerHeartbeat \<Rightarrow>
       allow_if (host_allowed_prefix (ac_host_mount a) p \<or>
         worker_allowed_prefix sha256 (ac_shards a) (ac_worker_id a) p) p
   | Some WorkerGpu \<Rightarrow>
       allow_if (host_allowed_prefix (ac_host_mount a) p \<or>
         worker_allowed_prefix sha256 (ac_shards a) (ac_worker_id a) p \<or>
         gpu_allowed_prefix (ac_gpu_scope a) p) p
   | Some WorkerBus \<Rightarrow>
       allow_if (host_allowed_prefix (ac_host_mount a) p \<or> worker_common_prefix p \<or>
         sidecar_allowed_prefix (ac_sidecar_bus_scopes a) (ac_bus_scope a) p) p
   | Some WorkerLora \<Rightarrow>
       allow_if (host_allowed_prefix (ac_host_mount a) p \<or> worker_common_prefix p \<or>
         sidecar_allowed_prefix (ac_sidecar_lora_scopes a) (ac_lora_scope a) p) p
   | None \<Rightarrow> Err attach_required)"

definition ensure_read :: "(bytes \<Rightarrow> bytes) \<Rightarrow> access \<Rightarrow> path \<Rightarrow> ninedoor_error + unit" where
  "ensure_read sha256 a p = (case ac_role a of
     Some Queen \<Rightarrow> Ok ()
   | Some WorkerHeartbeat \<Rightarrow>
       allow_if (host_allowed_path (ac_host_mount a) p \<or>
         worker_allowed_path sha256 (ac_shards a) (ac_worker_id a) p) p
   | Some WorkerGpu \<Rightarrow>
       allow_if (host_allowed_path (ac_host_mount a) p \<or>
         worker_allowed_path sha256 (ac_shards a) (ac_worker_id a) p \<or>
         gpu_allowed_read (ac_gpu_scope a) p) p
   | Some WorkerBus \<Rightarrow>
       allow_if (host_allowed_path (ac_host_mount a) p \<or> worker_common_path p \<or>
         sidecar_allowed_path (ac_sidecar_bus_scopes a) (ac_bus_scope a) p) p
   | Some WorkerLora \<Rightarrow>
       allow_if (host_allowed_path (ac_host_mount a) p \<or> worker_common_path p \<or>
         sidecar_allowed_path (ac_sidecar_lora_scopes a) (ac_lora_scope a) p) p
   | None \<Rightarrow> Err attach_required)"

definition ensure_write :: "(bytes \<Rightarrow> bytes) \<Rightarrow> access \<Rightarrow> path \<Rightarrow> ninedoor_error + unit" where
  "ensure_write sha256 a p = (case ac_role a of
     Some Queen \<Rightarrow> Ok ()
   | Some WorkerHeartbeat \<Rightarrow>
       if host_allowed_path (ac_host_mount a) p then Err (permission_denied p)
       else allow_if (worker_allowed_write sha256 (ac_shards a) (ac_worker_id a) p) p
   | Some WorkerGpu \<Rightarrow>
       if host_allowed_path (ac_host_mount a) p then Err (permission_denied p)
       else allow_if (worker_allowed_write sha256 (ac_shards a) (ac_worker_id a) p \<or>
         gpu_allowed_write (ac_gpu_scope a) p) p
   | Some WorkerBus \<Rightarrow>
       if host_allowed_path (ac_host_mount a) p then Err (permission_denied p)
       else allow_if (sidecar_allowed_path (ac_sidecar_bus_scopes a) (ac_bus_scope a) p) p
   | Some WorkerLora \<Rightarrow>
       if host_allowed_path (ac_host_mount a) p then Err (permission_denied p)
       else allow_if (sidecar_allowed_path (ac_sidecar_lora_scopes a) (ac_lora_scope a) p) p
   | None \<Rightarrow> Err attach_required)"

definition ensure_open ::
  "(bytes \<Rightarrow> bytes) \<Rightarrow> access \<Rightarrow> path \<Rightarrow> open_mode \<Rightarrow> ninedoor_error + unit" where
  "ensure_open sha256 a p mode =
     and_then (ensure_path sha256 a p) (\<lambda>_.
     and_then (if allows_write mode then ensure_write sha256 a p else Ok ()) (\<lambda>_.
       if allows_read mode then ensure_read sha256 a p else Ok ()))"

subsection \<open>Well-known paths\<close>

definition is_gpu_bridge_ctl_path :: "path \<Rightarrow> bool" where
  "is_gpu_bridge_ctl_path p \<longleftrightarrow> p = [''gpu'', ''bridge'', ''ctl'']"

definition is_queen_ctl_path :: "path \<Rightarrow> bool" where
  "is_queen_ctl_path p \<longleftrightarrow> p = [''queen'', ''ctl'']"

definition is_queen_lifecycle_ctl_path :: "path \<Rightarrow> bool" where
  "is_queen_lifecycle_ctl_path p \<longleftrightarrow> p = [''queen'', ''lifecycle'', ''ctl'']"

definition is_telemetry_ingest_write_path :: "path \<Rightarrow> bool" where
  "is_telemetry_ingest_write_path p \<longleftrightarrow> (case p of
     [first, second, device, third] \<Rightarrow> first = ''queen'' \<and> second = ''telemetry'' \<and> third = ''ctl''
   | [first, second, device, third, seg] \<Rightarrow> first = ''queen'' \<and> second = ''telemetry'' \<and> third = ''seg''
   | _ \<Rightarrow> False)"

definition is_policy_ctl_path :: "path \<Rightarrow> bool" where
  "is_policy_ctl_path p \<longleftrightarrow> p = [''policy'', ''ctl'']"

definition is_actions_queue_path :: "path \<Rightarrow> bool" where
  "is_actions_queue_path p \<longleftrightarrow> p = [''actions'', ''queue'']"

definition is_audit_journal_path :: "path \<Rightarrow> bool" where
  "is_audit_journal_path p \<longleftrightarrow> p = [''audit'', ''journal'']"

definition is_audit_decisions_path :: "path \<Rightarrow> bool" where
  "is_audit_decisions_path p \<longleftrightarrow> p = [''audit'', ''decisions'']"

definition is_audit_export_path :: "path \<Rightarrow> bool" where
  "is_audit_export_path p \<longleftrightarrow> p = [''audit'', ''export'']"

definition is_replay_ctl_path :: "path \<Rightarrow> bool" where
  "is_replay_ctl_path p \<longleftrightarrow> p = [''replay'', ''ctl'']"

definition is_replay_status_path :: "path \<Rightarrow> bool" where
  "is_replay_status_path p \<longleftrightarrow> p = [''replay'', ''status'']"

subsection \<open>Walking to what may be opened\<close>

lemma allow_if_Ok [simp]: "allow_if b p = Ok u \<longleftrightarrow> b"
  by (simp add: allow_if_def)

lemma closed_prefix:
  assumes "\<And>q x. P (q @ [x]) \<Longrightarrow> P q" and "P q" and "prefix p q"
  shows "P p"
proof -
  obtain r where "q = p @ r" using assms(3) by (auto simp: prefix_def)
  with assms(2) show ?thesis
  proof (induction r arbitrary: q rule: rev_induct)
    case (snoc x r)
    with assms(1) [of "p @ r" x] show ?case by simp
  qed simp
qed

lemma worker_allowed_prefix_closed:
  assumes "worker_allowed_prefix sha256 l w q" and "prefix p q"
  shows "worker_allowed_prefix sha256 l w p"
proof (rule closed_prefix [of "worker_allowed_prefix sha256 l w", OF _ assms])
  fix q x
  assume "worker_allowed_prefix sha256 l w (q @ [x])"
  then show "worker_allowed_prefix sha256 l w q"
    by (auto simp: worker_allowed_prefix_def worker_common_prefix_def shard_prefix_arms_def
        flat_prefix_arms_def Cons_eq_append_conv append_eq_Cons_conv split: option.splits if_splits list.splits)
qed

lemma telemetry_path_allowed:
  "is_worker_telemetry_path sha256 l p w \<Longrightarrow> worker_allowed_prefix sha256 l (Some w) p"
  by (auto simp: is_worker_telemetry_path_def worker_allowed_prefix_def shard_prefix_arms_def
      flat_prefix_arms_def legacy_worker_alias_enabled_def split: list.splits if_splits)

lemma gpu_allowed_prefix_closed:
  "gpu_allowed_prefix g q \<Longrightarrow> prefix p q \<Longrightarrow> p \<noteq> [] \<Longrightarrow> gpu_allowed_prefix g p"
  by (auto simp: gpu_allowed_prefix_def prefix_def split: option.splits list.splits)

lemma gpu_allowed_read_prefix:
  "gpu_allowed_read g p \<Longrightarrow> gpu_allowed_prefix g p" "gpu_allowed_write g p \<Longrightarrow> gpu_allowed_prefix g p"
  by (auto simp: gpu_allowed_read_def gpu_allowed_write_def gpu_allowed_prefix_def is_gpu_path_def
      split: option.splits)

lemma sidecar_path_prefix:
  assumes "sidecar_allowed_path ss s q" and "prefix p q"
  shows "sidecar_allowed_prefix ss s p"
proof -
  obtain e where e: "sidecar_scope_for ss s = Some e" "prefix (sc_mount_root e) q"
    using assms(1) by (auto simp: sidecar_allowed_path_def scope_contains_path_def split: option.splits)
  then have "prefix (sc_mount_root e) p \<or> prefix p (sc_mount_root e)"
    using prefix_same_cases assms(2) by blast
  with e show ?thesis by (simp add: sidecar_allowed_prefix_def scope_matches_prefix_def)
qed

lemma worker_common_prefix_iff:
  "worker_common_prefix p \<longleftrightarrow>
    p \<in> {[''proc''], [''log''], [''proc'', ''boot''], [''log'', ''queen.log'']}"
  by (auto simp: worker_common_prefix_def split: list.splits)

lemma common_prefix_closed:
  "worker_common_prefix q \<Longrightarrow> prefix p q \<Longrightarrow> p \<noteq> [] \<Longrightarrow> worker_common_prefix p"
  unfolding worker_common_prefix_iff by (auto simp: prefix_Cons)

lemma host_prefix_closed:
  assumes "host_allowed_prefix h q" and "prefix p q" and "\<forall>m. h = Some m \<longrightarrow> length m \<le> 1" and "p \<noteq> []"
  shows "host_allowed_prefix h p"
proof -
  obtain m where m: "h = Some m" "prefix m q" "length m \<le> 1"
    using assms(1,3) by (auto simp: host_allowed_prefix_def split: option.splits)
  then have "length m \<le> length p" using assms(4) by (cases p) auto
  then have "prefix m p" using m(2) assms(2) prefix_length_prefix by blast
  then show ?thesis using m(1) by (simp add: host_allowed_prefix_def)
qed

text \<open>
  What an attach sets up: a heartbeat or GPU worker has an identity, a bus or LoRa worker
  a configured scope; the host tree is mounted at the top level.
\<close>

definition access_ok :: "access \<Rightarrow> bool" where
  "access_ok a \<longleftrightarrow>
     (case ac_role a of
        None \<Rightarrow> True
      | Some Queen \<Rightarrow> True
      | Some WorkerHeartbeat \<Rightarrow> ac_worker_id a \<noteq> None
      | Some WorkerGpu \<Rightarrow> ac_worker_id a \<noteq> None
      | Some WorkerBus \<Rightarrow> sidecar_scope_for (ac_sidecar_bus_scopes a) (ac_bus_scope a) \<noteq> None
      | Some WorkerLora \<Rightarrow> sidecar_scope_for (ac_sidecar_lora_scopes a) (ac_lora_scope a) \<noteq> None) \<and>
     (case ac_host_mount a of None \<Rightarrow> True | Some m \<Rightarrow> length m \<le> 1)"

lemma root_walkable:
  assumes "access_ok a" and "ac_role a = Some r"
  shows "ensure_path sha256 a [] = Ok ()"
proof -
  have "worker_allowed_prefix sha256 (ac_shards a) (ac_worker_id a) []" if "ac_worker_id a \<noteq> None"
    using that by (auto simp: worker_allowed_prefix_def)
  moreover have "sidecar_allowed_prefix ss s []" if "sidecar_scope_for ss s \<noteq> None" for ss s
    using that by (auto simp: sidecar_allowed_prefix_def scope_matches_prefix_def)
  ultimately show ?thesis
    using assms by (cases r) (simp_all add: access_ok_def ensure_path_def)
qed

lemma permitted_prefix:
  assumes "ensure_read sha256 a q = Ok () \<or> ensure_write sha256 a q = Ok ()"
    and "access_ok a" and "prefix p q" and "p \<noteq> []"
  shows "ensure_path sha256 a p = Ok ()"
proof -
  have h: "host_allowed_prefix (ac_host_mount a) q \<Longrightarrow> host_allowed_prefix (ac_host_mount a) p"
    using host_prefix_closed [OF _ assms(3) _ assms(4)] assms(2)
    by (auto simp: access_ok_def split: option.splits)
  have w: "worker_allowed_path sha256 (ac_shards a) (ac_worker_id a) q \<or>
      worker_allowed_write sha256 (ac_shards a) (ac_worker_id a) q \<Longrightarrow>
      worker_allowed_prefix sha256 (ac_shards a) (ac_worker_id a) p"
    using worker_allowed_prefix_closed [OF _ assms(3)] telemetry_path_allowed
    by (auto simp: worker_allowed_path_def worker_allowed_write_def split: option.splits)
  have g: "gpu_allowed_read (ac_gpu_scope a) q \<or> gpu_allowed_write (ac_gpu_scope a) q \<Longrightarrow>
      gpu_allowed_prefix (ac_gpu_scope a) p"
    using gpu_allowed_read_prefix gpu_allowed_prefix_closed [OF _ assms(3,4)] by blast
  note c = common_prefix_closed [OF _ assms(3,4)] and s = sidecar_path_prefix [OF _ assms(3)]
  show ?thesis
  proof (cases "ac_role a")
    case (Some r)
    with assms(1) h w g c s show ?thesis
      by (cases r)
        (auto simp: ensure_read_def ensure_write_def ensure_path_def host_allowed_path_def
          worker_common_path_def split: if_splits)
  qed (use assms(1) in \<open>simp add: ensure_read_def ensure_write_def\<close>)
qed

subsection \<open>Properties\<close>

text \<open>
  What may be opened may be walked to. In an attached session, every path that may be
  read or written passes the path check that each step of a walk makes, at every one of
  its prefixes, the root included; so opening it is refused only if reading or writing
  it is, and no permission is out of reach.
\<close>

theorem permitted_paths_walkable:
  assumes "ensure_read sha256 a q = Ok () \<or> ensure_write sha256 a q = Ok ()"
    and "access_ok a" and "prefix p q"
  shows "ensure_path sha256 a p = Ok ()"
proof (cases "p = []")
  case True
  obtain r where "ac_role a = Some r"
    using assms(1) by (cases "ac_role a") (simp_all add: ensure_read_def ensure_write_def)
  with True root_walkable [OF assms(2)] show ?thesis by simp
next
  case False
  then show ?thesis by (rule permitted_prefix [OF assms])
qed

definition access_example :: "role \<Rightarrow> access" where
  "access_example r = \<lparr>ac_shards = layout_disabled, ac_role = Some r, ac_worker_id = Some ''w1'',
     ac_gpu_scope = Some ''GPU-0'', ac_bus_scope = None, ac_lora_scope = None,
     ac_host_mount = Some [''host''], ac_sidecar_bus_scopes = [], ac_sidecar_lora_scopes = []\<rparr>"

theorem permitted_paths_walkable_witness:
  "ensure_write (\<lambda>m. []) (access_example WorkerGpu) [''gpu'', ''GPU-0'', ''job''] = Ok () \<and>
   ensure_path (\<lambda>m. []) (access_example WorkerGpu) [''gpu'', ''GPU-0''] = Ok ()"
proof -
  have w: "ensure_write (\<lambda>m. []) (access_example WorkerGpu) [''gpu'', ''GPU-0'', ''job''] = Ok ()"
    by (simp add: ensure_write_def access_example_def host_allowed_path_def host_allowed_prefix_def
        gpu_allowed_write_def is_gpu_path_def)
  have "access_ok (access_example WorkerGpu)" by (simp add: access_ok_def access_example_def)
  from permitted_paths_walkable [OF disjI2, OF w this, of "[''gpu'', ''GPU-0'']"] w show ?thesis by simp
qed

text \<open>
  C26: Workers write apart from each other. If two sessions of heartbeat or GPU workers may
  both open a path for writing, the sessions are of the same worker, or of two GPU
  workers with a lease on the same GPU and the path is that GPU's job file.
\<close>

theorem worker_writes_disjoint:
  assumes "ensure_open sha256 a p m = Ok ()" and "ensure_open sha256 b p n = Ok ()"
    and "allows_write m" and "allows_write n" and "ac_shards a = ac_shards b"
    and "ac_role a \<in> {Some WorkerHeartbeat, Some WorkerGpu}"
    and "ac_role b \<in> {Some WorkerHeartbeat, Some WorkerGpu}"
  shows "ac_worker_id a = ac_worker_id b \<and> ac_worker_id a \<noteq> None \<or>
    (\<exists>scope. ac_gpu_scope a = Some scope \<and> ac_gpu_scope b = Some scope \<and> is_gpu_job_path p scope)"
proof -
  have can_write: "(\<exists>w. ac_worker_id c = Some w \<and> is_worker_telemetry_path sha256 (ac_shards c) p w) \<or>
      (\<exists>scope. ac_gpu_scope c = Some scope \<and> is_gpu_job_path p scope)"
    if "ensure_open sha256 c p k = Ok ()" "allows_write k"
      "ac_role c \<in> {Some WorkerHeartbeat, Some WorkerGpu}" for c k
    using that
    by (auto simp: ensure_open_def ensure_write_def and_then_eq_Ok worker_allowed_write_def
        gpu_allowed_write_def split: if_splits option.splits)
  have one: "v = w" if "is_worker_telemetry_path sha256 l p v" "is_worker_telemetry_path sha256 l p w" for l v w
    using that by (auto simp: is_worker_telemetry_path_def split: list.splits if_splits)
  have not_gpu: "\<not> is_gpu_job_path p scope" if "is_worker_telemetry_path sha256 l p w" for l w scope
    using that by (auto simp: is_worker_telemetry_path_def is_gpu_path_def split: if_splits)
  have same: "s = t" if "is_gpu_job_path p s" "is_gpu_job_path p t" for s t
    using that by (simp add: is_gpu_path_def)
  show ?thesis
    using can_write [OF assms(1,3,6)] can_write [OF assms(2,4,7)] one not_gpu same assms(5)
    by (metis option.distinct(1))
qed

theorem worker_writes_disjoint_witness:
  "ensure_open (\<lambda>m. []) (access_example WorkerHeartbeat) [''worker'', ''w1'', ''telemetry''] write_append = Ok () \<and>
   ensure_open (\<lambda>m. []) (access_example WorkerHeartbeat\<lparr>ac_worker_id := Some ''w2''\<rparr>)
     [''worker'', ''w1'', ''telemetry''] write_append \<noteq> Ok ()"
proof -
  let ?a = "access_example WorkerHeartbeat"
  have w: "ensure_open (\<lambda>m. []) ?a [''worker'', ''w1'', ''telemetry''] write_append = Ok ()"
    by (simp add: ensure_open_def ensure_path_def ensure_write_def ensure_read_def access_example_def
        host_allowed_path_def host_allowed_prefix_def worker_allowed_write_def is_worker_telemetry_path_def
        worker_allowed_prefix_def worker_common_prefix_def flat_prefix_arms_def layout_disabled_def
        write_append_def allows_read_def allows_write_def allow_if_def)
  from worker_writes_disjoint [OF w, of "?a\<lparr>ac_worker_id := Some ''w2''\<rparr>" write_append] w
  show ?thesis
    by (auto simp: access_example_def write_append_def allows_write_def is_gpu_path_def)
qed

text \<open>
  C27: Workers do not control the node. No heartbeat or GPU worker may open for writing a
  control file of the queen, of the node lifecycle, of telemetry ingest, of the policy
  and action queues, of replay or of the GPU bridge, nor anything under the host mount:
  the open is refused with a permission error.
\<close>

theorem workers_cannot_control:
  assumes "ac_role a \<in> {Some WorkerHeartbeat, Some WorkerGpu}" and "allows_write m"
    and "is_queen_ctl_path p \<or> is_queen_lifecycle_ctl_path p \<or> is_telemetry_ingest_write_path p \<or>
      is_policy_ctl_path p \<or> is_actions_queue_path p \<or> is_replay_ctl_path p \<or>
      is_gpu_bridge_ctl_path p \<or> host_allowed_path (ac_host_mount a) p"
  shows "ensure_open sha256 a p m = Err (permission_denied p)"
proof -
  have "\<not> is_worker_telemetry_path sha256 l p w \<and> \<not> is_gpu_job_path p scope"
    if "\<not> host_allowed_path (ac_host_mount a) p" for l w scope
    using assms(3) that
    by (auto simp: is_queen_ctl_path_def is_queen_lifecycle_ctl_path_def is_policy_ctl_path_def
        is_actions_queue_path_def is_replay_ctl_path_def is_gpu_bridge_ctl_path_def is_gpu_path_def
        is_worker_telemetry_path_def is_telemetry_ingest_write_path_def split: list.splits if_splits)
  then have "ensure_write sha256 a p = Err (permission_denied p)"
    using assms(1)
    by (auto simp: ensure_write_def worker_allowed_write_def gpu_allowed_write_def allow_if_def
        split: option.splits)
  then show ?thesis
    using assms(1,2) by (auto simp: ensure_open_def ensure_path_def allow_if_def)
qed

theorem workers_cannot_control_witness:
  "ensure_open (\<lambda>m. []) (access_example WorkerGpu) [''queen'', ''ctl''] write_append =
     Err (permission_denied [''queen'', ''ctl''])"
  by (rule workers_cannot_control)
    (simp_all add: access_example_def write_append_def allows_write_def is_queen_ctl_path_def)

end
