(* ===== verification/Bounded_Writer.thy ===== *)
theory Bounded_Writer
  imports Cohesix_Prelude
begin

text \<open>
  The contract of a writer with a hard limit, as \<open>CborWriter\<close> and the JSON line of a trace event
  have it: a push appends all of its argument or, when it does not fit, fails. From it follows,
  once, that a sequence of pushes with the \<open>?\<close> operator emits the concatenation of what they push
  exactly when that fits.
\<close>

locale bounded_writer =
  fixes contents :: "'s \<Rightarrow> 'c list"
    and extend :: "'c list \<Rightarrow> 's \<Rightarrow> 's"
    and limit :: "'s \<Rightarrow> nat"
    and valid :: "'s \<Rightarrow> bool"
    and overflow :: 'e
    and push :: "'c list \<Rightarrow> ('s, 'e, unit) st_op"
  assumes contents_extend: "contents (extend v s) = contents s @ v"
    and limit_extend: "limit (extend v s) = limit s"
    and extend_extend: "extend v (extend u s) = extend (u @ v) s"
    and extend_Nil: "extend [] s = s"
    and valid_extend: "valid s \<Longrightarrow> length (contents s) + length v \<le> limit s \<Longrightarrow> valid (extend v s)"
    and valid_fits: "valid s \<Longrightarrow> length (contents s) \<le> limit s"
    and push_eq: "valid s \<Longrightarrow> push v s =
      (if length (contents s) + length v \<le> limit s then (Ok (), extend v s) else (Err overflow, s))"
begin

definition emits :: "('s, 'e, unit) st_op \<Rightarrow> 'c list \<Rightarrow> bool" where
  "emits m v \<longleftrightarrow> (\<forall>s. valid s \<longrightarrow>
     (if length (contents s) + length v \<le> limit s then m s = (Ok (), extend v s)
      else fst (m s) = Err overflow))"

lemma emitsD:
  "emits m v \<Longrightarrow> valid s \<Longrightarrow>
    if length (contents s) + length v \<le> limit s then m s = (Ok (), extend v s)
    else fst (m s) = Err overflow"
  by (simp add: emits_def)

lemma emits_push: "emits (push v) v"
  by (simp add: emits_def push_eq)

lemma emits_return: "emits (st_return ()) []"
  using valid_fits by (auto simp: emits_def st_return_def extend_Nil)

lemma emits_then:
  assumes "emits m u" and "emits k v"
  shows "emits (st_then m k) (u @ v)"
  unfolding emits_def
proof (intro allI impI)
  fix s
  assume s: "valid s"
  show "if length (contents s) + length (u @ v) \<le> limit s then st_then m k s = (Ok (), extend (u @ v) s)
      else fst (st_then m k s) = Err overflow"
  proof (cases "length (contents s) + length u \<le> limit s")
    case True
    with emitsD [OF assms(1) s] have "m s = (Ok (), extend u s)" by simp
    with emitsD [OF assms(2) valid_extend [OF s True]] show ?thesis
      by (auto simp: st_bind_def contents_extend limit_extend extend_extend add.assoc)
  next
    case False
    with emitsD [OF assms(1) s] have "fst (m s) = Err overflow" by simp
    with False show ?thesis by (cases "m s") (simp add: st_bind_def)
  qed
qed

lemma emits_for: "(\<And>x. emits (f x) (g x)) \<Longrightarrow> emits (st_for f xs) (concat (map g xs))"
  by (induction xs) (simp_all add: emits_return emits_then)

end

end
