(* ===== verification/Cbor.thy ===== *)
theory Cbor
  imports Bounded_Writer
begin

unbundle bit_operations_syntax

section \<open>The CBOR writer\<close>

text \<open>
  \<open>CborWriter\<close> of \<open>apps/nine-door/src/host/cbor.rs\<close>, with which the server renders its UI files:
  heads with the shortest length form, text, byte strings, integers, and a hard limit on
  the output. The reference is a decoder for the data items of RFC 8949 that the writer
  emits. Lengths and integers are \<open>u64\<close> values, as natural numbers below \<open>2^64\<close>.
\<close>

datatype cbor_error = TooLarge

record cbor_writer =
  cw_buffer :: bytes
  cw_max_len :: nat

type_synonym 'a cbor_op = "(cbor_writer, cbor_error, 'a) st_op"

definition cbor_new :: "nat \<Rightarrow> cbor_writer" where
  "cbor_new max_len = \<lparr>cw_buffer = [], cw_max_len = max_len\<rparr>"

definition cbor_push :: "bytes \<Rightarrow> unit cbor_op" where
  "cbor_push bs w =
     (if sat_add (length (cw_buffer w)) (length bs) > cw_max_len w then (Err TooLarge, w)
      else (Ok (), w\<lparr>cw_buffer := cw_buffer w @ bs\<rparr>))"

definition be_digits :: "nat \<Rightarrow> nat \<Rightarrow> bytes" where
  "be_digits n k = rev (le_digits n k)"

text \<open>The additional information of a head, and the bytes that follow it.\<close>

definition head_info :: "nat \<Rightarrow> byte \<times> bytes" where
  "head_info len =
     (if len \<le> 23 then (word_of_nat len, [])
      else if len \<le> 255 then (24, be_digits 1 len)
      else if len \<le> u16_max then (25, be_digits 2 len)
      else if len \<le> u32_max then (26, be_digits 4 len)
      else (27, be_digits 8 len))"

definition write_type_and_len :: "byte \<Rightarrow> nat \<Rightarrow> unit cbor_op" where
  "write_type_and_len major len =
     (let (info, extra) = head_info len
      in st_then (cbor_push [push_bit 5 major OR info])
           (if extra \<noteq> [] then cbor_push extra else st_return ()))"

definition cbor_map :: "nat \<Rightarrow> unit cbor_op" where
  "cbor_map len = write_type_and_len 5 len"

definition cbor_array :: "nat \<Rightarrow> unit cbor_op" where
  "cbor_array len = write_type_and_len 4 len"

definition cbor_text :: "string \<Rightarrow> unit cbor_op" where
  "cbor_text v = st_then (write_type_and_len 3 (length v)) (cbor_push (str_bytes v))"

definition cbor_bytes :: "bytes \<Rightarrow> unit cbor_op" where
  "cbor_bytes v = st_then (write_type_and_len 2 (length v)) (cbor_push v)"

definition cbor_unsigned :: "nat \<Rightarrow> unit cbor_op" where
  "cbor_unsigned v = write_type_and_len 0 v"

definition cbor_boolean :: "bool \<Rightarrow> unit cbor_op" where
  "cbor_boolean v = cbor_push [if v then 0xF5 else 0xF4]"

definition cbor_null :: "unit cbor_op" where
  "cbor_null = cbor_push [0xF6]"

subsection \<open>Data items\<close>

datatype cbor_item =
  CMap nat | CArray nat | CText string | CBytes bytes | CUnsigned nat | CBool bool | CNull

fun write_item :: "cbor_item \<Rightarrow> unit cbor_op" where
  "write_item (CMap n) = cbor_map n"
| "write_item (CArray n) = cbor_array n"
| "write_item (CText s) = cbor_text s"
| "write_item (CBytes b) = cbor_bytes b"
| "write_item (CUnsigned n) = cbor_unsigned n"
| "write_item (CBool b) = cbor_boolean b"
| "write_item CNull = cbor_null"

text \<open>The values the types of the source can hold.\<close>

fun item_ok :: "cbor_item \<Rightarrow> bool" where
  "item_ok (CMap n) = (n \<le> u64_max)"
| "item_ok (CArray n) = (n \<le> u64_max)"
| "item_ok (CText s) = (utf8_str s \<and> length s \<le> u64_max)"
| "item_ok (CBytes b) = (length b \<le> u64_max)"
| "item_ok (CUnsigned n) = (n \<le> u64_max)"
| "item_ok (CBool b) = True"
| "item_ok CNull = True"

text \<open>The bytes of an item.\<close>

definition head :: "byte \<Rightarrow> nat \<Rightarrow> bytes" where
  "head major len = (case head_info len of (info, extra) \<Rightarrow> (push_bit 5 major OR info) # extra)"

fun item_bytes :: "cbor_item \<Rightarrow> bytes" where
  "item_bytes (CMap n) = head 5 n"
| "item_bytes (CArray n) = head 4 n"
| "item_bytes (CText s) = head 3 (length s) @ str_bytes s"
| "item_bytes (CBytes b) = head 2 (length b) @ b"
| "item_bytes (CUnsigned n) = head 0 n"
| "item_bytes (CBool b) = [if b then 0xF5 else 0xF4]"
| "item_bytes CNull = [0xF6]"

subsection \<open>The reference decoder\<close>

definition be_value :: "bytes \<Rightarrow> nat" where
  "be_value bs = le_value (rev bs)"

definition extra_len :: "byte \<Rightarrow> nat option" where
  "extra_len info =
     (if info \<le> 23 then Some 0 else if info = 24 then Some 1 else if info = 25 then Some 2
      else if info = 26 then Some 4 else if info = 27 then Some 8 else None)"

definition decode_head :: "bytes \<Rightarrow> (byte \<times> nat \<times> bytes) option" where
  "decode_head bs = (case bs of
     [] \<Rightarrow> None
   | b # rest \<Rightarrow>
       let info = b AND 31 in
       Option.bind (extra_len info) (\<lambda>n.
         if length rest < n then None
         else Some (drop_bit 5 b, if n = 0 then unat info else be_value (take n rest), drop n rest)))"

definition decode_body :: "byte \<Rightarrow> nat \<Rightarrow> bytes \<Rightarrow> (cbor_item \<times> bytes) option" where
  "decode_body major n rest =
     (if major = 5 then Some (CMap n, rest)
      else if major = 4 then Some (CArray n, rest)
      else if major = 0 then Some (CUnsigned n, rest)
      else if length rest < n then None
      else if major = 2 then Some (CBytes (take n rest), drop n rest)
      else if major = 3 \<and> utf8_valid (take n rest)
        then Some (CText (str_of_bytes (take n rest)), drop n rest)
      else None)"

definition decode_item :: "bytes \<Rightarrow> (cbor_item \<times> bytes) option" where
  "decode_item bs = (case bs of
     [] \<Rightarrow> None
   | b # rest \<Rightarrow>
       if b = 0xF4 then Some (CBool False, rest)
       else if b = 0xF5 then Some (CBool True, rest)
       else if b = 0xF6 then Some (CNull, rest)
       else Option.bind (decode_head bs) (\<lambda>(major, n, rest). decode_body major n rest))"

fun decode_items :: "nat \<Rightarrow> bytes \<Rightarrow> cbor_item list option" where
  "decode_items fuel [] = Some []"
| "decode_items 0 (b # bs) = None"
| "decode_items (Suc fuel) (b # bs) =
     Option.bind (decode_item (b # bs)) (\<lambda>(i, rest). map_option ((#) i) (decode_items fuel rest))"

subsection \<open>The writer emits the bytes of its items\<close>

interpretation cborw: bounded_writer cw_buffer "\<lambda>v w. w\<lparr>cw_buffer := cw_buffer w @ v\<rparr>" cw_max_len
  "\<lambda>w. length (cw_buffer w) \<le> cw_max_len w \<and> cw_max_len w < u64_max" TooLarge cbor_push
  by unfold_locales (auto simp: cbor_push_def sat_add_def)

lemma emits_head: "cborw.emits (write_type_and_len major len) (head major len)"
proof -
  obtain info extra where h: "head_info len = (info, extra)" by force
  have "cborw.emits (if extra \<noteq> [] then cbor_push extra else st_return ()) extra"
    using cborw.emits_push cborw.emits_return by simp
  from cborw.emits_then [OF cborw.emits_push [of "[push_bit 5 major OR info]"] this] h show ?thesis
    by (simp add: write_type_and_len_def head_def)
qed

lemma emits_item: "cborw.emits (write_item i) (item_bytes i)"
  by (cases i)
    (simp_all add: cbor_map_def cbor_array_def cbor_text_def cbor_bytes_def cbor_unsigned_def
      cbor_boolean_def cbor_null_def emits_head cborw.emits_push cborw.emits_then)

lemma emits_items: "cborw.emits (st_for write_item is) (concat (map item_bytes is))"
  by (intro cborw.emits_for emits_item)

lemma write_items_new:
  assumes "limit < u64_max"
  shows "st_for write_item is (cbor_new limit) = (r, w) \<Longrightarrow>
    if length (concat (map item_bytes is)) \<le> limit
    then r = Ok () \<and> cw_buffer w = concat (map item_bytes is) else r = Err TooLarge"
  using cborw.emitsD [OF emits_items, of "cbor_new limit" "is"] assms
  by (auto simp: cbor_new_def split: if_splits)

subsection \<open>The decoder reads them back\<close>

lemma head_bits:
  fixes major info :: byte
  assumes "take_bit 3 major = major" and "take_bit 5 info = info"
  shows "(push_bit 5 major OR info) AND 31 = info" and "drop_bit 5 (push_bit 5 major OR info) = major"
proof -
  have i: "\<not> bit info n" if "5 \<le> n" for n
    using that by (subst assms(2) [symmetric]) (simp add: bit_take_bit_iff)
  have m: "\<not> bit major n" if "3 \<le> n" for n
    using that by (subst assms(1) [symmetric]) (simp add: bit_take_bit_iff)
  have 31: "(31 :: byte) = mask 5" by (simp add: mask_eq_exp_minus_1)
  show "(push_bit 5 major OR info) AND 31 = info"
    unfolding 31
  proof (rule bit_eqI)
    fix n
    show "bit ((push_bit 5 major OR info) AND mask 5) n = bit info n"
      using i [of n] by (cases "n < 5") (simp_all add: bit_and_iff bit_or_iff bit_push_bit_iff bit_mask_iff)
  qed
  show "drop_bit 5 (push_bit 5 major OR info) = major"
  proof (rule bit_eqI)
    fix n
    show "bit (drop_bit 5 (push_bit 5 major OR info)) n = bit major n"
      using i [of "5 + n"] m [of n]
      by (cases "3 \<le> n") (simp_all add: bit_drop_bit_eq bit_or_iff bit_push_bit_iff)
  qed
qed

lemma be_value_digits: "k < 256 ^ n \<Longrightarrow> be_value (be_digits n k) = k"
  by (simp add: be_value_def be_digits_def le_value_digits)

lemma small_info:
  assumes "n \<le> 23"
  shows "take_bit 5 (word_of_nat n :: byte) = word_of_nat n" and "(word_of_nat n :: byte) \<le> 23"
    and "unat (word_of_nat n :: byte) = n"
proof -
  have "take_bit 5 n = n" using assms by (simp add: take_bit_eq_mod)
  then show "take_bit 5 (word_of_nat n :: byte) = word_of_nat n" by (metis take_bit_of_nat)
  show u: "unat (word_of_nat n :: byte) = n" using assms by (simp add: unat_of_nat)
  show "(word_of_nat n :: byte) \<le> 23" using assms u by (simp add: word_le_nat_alt)
qed

lemma head_info_cases:
  assumes "n \<le> u64_max"
  obtains (small) "n \<le> 23" "head_info n = (word_of_nat n, [])"
  | (wide) k info where "(info, k) \<in> {(24, 1), (25, 2), (26, 4), (27, 8)}"
      "head_info n = (info, be_digits k n)" "n < 256 ^ k"
proof -
  consider "n \<le> 23" | "23 < n" "n \<le> 255" | "255 < n" "n \<le> u16_max" | "u16_max < n" "n \<le> u32_max" | "u32_max < n"
    by linarith
  then show thesis
  proof cases
    case 1
    then show thesis by (intro small) (simp_all add: head_info_def)
  next
    case 2
    then show thesis by (intro wide [of 24 1]) (simp_all add: head_info_def)
  next
    case 3
    then show thesis by (intro wide [of 25 2]) (simp_all add: head_info_def u16_max_def)
  next
    case 4
    then show thesis by (intro wide [of 26 4]) (simp_all add: head_info_def u16_max_def u32_max_def)
  next
    case 5
    then show thesis using assms
      by (intro wide [of 27 8]) (simp_all add: head_info_def u16_max_def u32_max_def u64_max_def)
  qed
qed

lemma decode_head_head:
  assumes "take_bit 3 major = major" and "n \<le> u64_max"
  shows "decode_head (head major n @ rest) = Some (major, n, rest)"
  using assms(2)
proof (cases n rule: head_info_cases)
  case small
  with head_bits [OF assms(1) small_info(1)] small_info(2,3) show ?thesis
    by (simp add: decode_head_def head_def extra_len_def Let_def)
next
  case (wide k info)
  have "take_bit 5 info = info" using wide(1) by auto
  from head_bits [OF assms(1) this] wide be_value_digits [OF wide(3)] show ?thesis
    by (auto simp: decode_head_def head_def extra_len_def Let_def be_digits_def)
qed

lemma decode_item_head:
  assumes "major \<in> {0, 2, 3, 4, 5}" and "n \<le> u64_max"
  shows "decode_item (head major n @ rs) = decode_body major n rs"
proof -
  obtain b bs where h: "head major n = b # bs" by (cases "head_info n") (simp add: head_def)
  have d: "decode_head (head major n @ rs) = Some (major, n, rs)"
    using assms by (intro decode_head_head) auto
  then have "drop_bit 5 b = major"
    by (auto simp: h decode_head_def Let_def bind_eq_Some_conv split: if_splits)
  then have "b \<notin> {0xF4, 0xF5, 0xF6}" using assms(1) by auto
  with d show ?thesis by (simp add: decode_item_def h)
qed

lemma decode_item_simple:
  "decode_item (0xF4 # r) = Some (CBool False, r)" "decode_item (0xF5 # r) = Some (CBool True, r)"
  "decode_item (0xF6 # r) = Some (CNull, r)"
  by (simp_all add: decode_item_def)

lemma decode_item_bytes: "item_ok i \<Longrightarrow> decode_item (item_bytes i @ rest) = Some (i, rest)"
  by (cases i) (simp_all add: decode_item_head decode_body_def decode_item_simple utf8_str_def)

lemma item_bytes_nonempty: "item_bytes i \<noteq> []"
  by (cases i) (simp_all add: head_def split: prod.split)

lemma decode_items_bytes:
  "list_all item_ok is \<Longrightarrow> length is \<le> fuel \<Longrightarrow>
    decode_items fuel (concat (map item_bytes is)) = Some is"
proof (induction "is" arbitrary: fuel)
  case (Cons i "is")
  then obtain f where f: "fuel = Suc f" by (cases fuel) auto
  obtain b bs where b: "item_bytes i @ concat (map item_bytes is) = b # bs"
    using item_bytes_nonempty [of i] by (cases "item_bytes i") auto
  have "decode_item (b # bs) = Some (i, concat (map item_bytes is))"
    unfolding b [symmetric] by (rule decode_item_bytes) (use Cons.prems(1) in simp)
  with Cons b f show ?case by simp
qed simp

subsection \<open>Property\<close>

text \<open>
  C30: What the server renders as CBOR is CBOR. Writing any sequence of items succeeds
  exactly when their encodings fit the writer's limit; the output then is within the
  limit and decodes, with the reference decoder, to the same items and nothing else.
\<close>

theorem cbor_writer_roundtrip:
  assumes "list_all item_ok is" and "limit < u64_max"
  shows "case st_for write_item is (cbor_new limit) of
      (Inr _, w) \<Rightarrow> decode_items (length is) (cw_buffer w) = Some is \<and> length (cw_buffer w) \<le> limit
    | (Inl e, w) \<Rightarrow> limit < length (concat (map item_bytes is))"
proof (cases "st_for write_item is (cbor_new limit)")
  case (Pair r w)
  from write_items_new [OF assms(2) this] decode_items_bytes [OF assms(1) order_refl] Pair
  show ?thesis by (auto split: sum.splits if_splits)
qed

theorem cbor_writer_roundtrip_witness:
  "\<exists>w. st_for write_item [CMap 1, CText ''total'', CUnsigned 300] (cbor_new 64) = (Ok (), w) \<and>
    decode_items 3 (cw_buffer w) = Some [CMap 1, CText ''total'', CUnsigned 300]"
proof -
  let ?is = "[CMap 1, CText ''total'', CUnsigned 300]"
  have "utf8_str ''total''"
    unfolding utf8_str_def by (rule utf8_valid_ascii) (simp add: str_bytes_def char_byte_def)
  then have ok: "list_all item_ok ?is" by (simp add: u64_max_def)
  have "\<not> 64 < length (concat (map item_bytes ?is))"
    by (simp add: head_def head_info_def u16_max_def be_digits_def)
  with cbor_writer_roundtrip [OF ok, of 64] show ?thesis
    by (auto simp: u64_max_def numeral_3_eq_3 split: prod.splits sum.splits)
qed

end
