(* ===== verification/Ui_Provider.thy ===== *)
theory Ui_Provider
  imports NineDoor_Error Cbor
begin

text \<open>
  The user-interface providers (\<open>src/apps/nine-door/src/host/ui.rs\<close>): their configuration,
  which canonical path is served by which provider and in which rendering, and the helpers the
  providers of \<open>policy.rs\<close>, \<open>observe.rs\<close> and \<open>cas.rs\<close> share, the bound of a rendered stream and
  the error of a CBOR rendering that does not fit. \<open>validate_epoch\<close> is the check of \<open>cas.rs\<close>
  on the epoch component of an update path.
\<close>

section \<open>Configuration\<close>

definition UI_MAX_READ_BYTES :: u32 where
  "UI_MAX_READ_BYTES = MAX_MSIZE"

definition UI_MAX_STREAM_BYTES :: nat where
  "UI_MAX_STREAM_BYTES = 32 * 1024"

record ui_provider_config =
  ui_proc_9p_sessions :: bool
  ui_proc_9p_outstanding :: bool
  ui_proc_9p_short_writes :: bool
  ui_proc_ingest_p50_ms :: bool
  ui_proc_ingest_p95_ms :: bool
  ui_proc_ingest_backpressure :: bool
  ui_policy_preflight_req :: bool
  ui_policy_preflight_diff :: bool
  ui_updates_manifest :: bool
  ui_updates_status :: bool

definition ui_all :: "bool \<Rightarrow> ui_provider_config" where
  "ui_all b =
     \<lparr>ui_proc_9p_sessions = b, ui_proc_9p_outstanding = b, ui_proc_9p_short_writes = b,
      ui_proc_ingest_p50_ms = b, ui_proc_ingest_p95_ms = b, ui_proc_ingest_backpressure = b,
      ui_policy_preflight_req = b, ui_policy_preflight_diff = b,
      ui_updates_manifest = b, ui_updates_status = b\<rparr>"

definition ui_disabled :: ui_provider_config where
  "ui_disabled = ui_all False"

definition ui_default :: ui_provider_config where
  "ui_default = ui_all True"

section \<open>Paths\<close>

datatype ui_variant = UiText | UiCbor

datatype ui_provider_kind =
  Proc9pSessions | Proc9pOutstanding | Proc9pShortWrites | ProcIngestP50 | ProcIngestP95
| ProcIngestBackpressure | PolicyPreflightReq | PolicyPreflightDiff | UpdatesManifest
| UpdatesStatus

definition ui_label :: "ui_provider_kind \<Rightarrow> string" where
  "ui_label kind = (case kind of
     Proc9pSessions \<Rightarrow> ''proc/9p/sessions''
   | Proc9pOutstanding \<Rightarrow> ''proc/9p/outstanding''
   | Proc9pShortWrites \<Rightarrow> ''proc/9p/short_writes''
   | ProcIngestP50 \<Rightarrow> ''proc/ingest/p50_ms''
   | ProcIngestP95 \<Rightarrow> ''proc/ingest/p95_ms''
   | ProcIngestBackpressure \<Rightarrow> ''proc/ingest/backpressure''
   | PolicyPreflightReq \<Rightarrow> ''policy/preflight/req''
   | PolicyPreflightDiff \<Rightarrow> ''policy/preflight/diff''
   | UpdatesManifest \<Rightarrow> ''updates/<epoch>/manifest.cbor''
   | UpdatesStatus \<Rightarrow> ''updates/<epoch>/status'')"

definition MAX_EPOCH_LEN :: nat where
  "MAX_EPOCH_LEN = 20"

definition validate_epoch :: "string \<Rightarrow> ninedoor_error + unit" where
  "validate_epoch epoch =
     (let trimmed = trim epoch
      in if trimmed = [] \<or> length trimmed > MAX_EPOCH_LEN
         then Err (Protocol EInvalid ''invalid update epoch'')
         else if \<not> list_all is_ascii_digit trimmed
         then Err (Protocol EInvalid ''invalid update epoch'')
         else Ok ())"

definition match_ui_provider :: "string list \<Rightarrow> (ui_provider_kind \<times> ui_variant) option" where
  "match_ui_provider path = (case path of
     [a, b, c] \<Rightarrow>
       if a = ''proc'' \<and> b = ''9p'' \<and> c = ''sessions'' then Some (Proc9pSessions, UiText)
       else if a = ''proc'' \<and> b = ''9p'' \<and> c = ''sessions.cbor'' then Some (Proc9pSessions, UiCbor)
       else if a = ''proc'' \<and> b = ''9p'' \<and> c = ''outstanding'' then Some (Proc9pOutstanding, UiText)
       else if a = ''proc'' \<and> b = ''9p'' \<and> c = ''outstanding.cbor'' then Some (Proc9pOutstanding, UiCbor)
       else if a = ''proc'' \<and> b = ''9p'' \<and> c = ''short_writes'' then Some (Proc9pShortWrites, UiText)
       else if a = ''proc'' \<and> b = ''9p'' \<and> c = ''short_writes.cbor'' then Some (Proc9pShortWrites, UiCbor)
       else if a = ''proc'' \<and> b = ''ingest'' \<and> c = ''p50_ms'' then Some (ProcIngestP50, UiText)
       else if a = ''proc'' \<and> b = ''ingest'' \<and> c = ''p50_ms.cbor'' then Some (ProcIngestP50, UiCbor)
       else if a = ''proc'' \<and> b = ''ingest'' \<and> c = ''p95_ms'' then Some (ProcIngestP95, UiText)
       else if a = ''proc'' \<and> b = ''ingest'' \<and> c = ''p95_ms.cbor'' then Some (ProcIngestP95, UiCbor)
       else if a = ''proc'' \<and> b = ''ingest'' \<and> c = ''backpressure'' then Some (ProcIngestBackpressure, UiText)
       else if a = ''proc'' \<and> b = ''ingest'' \<and> c = ''backpressure.cbor'' then Some (ProcIngestBackpressure, UiCbor)
       else if a = ''policy'' \<and> b = ''preflight'' \<and> c = ''req'' then Some (PolicyPreflightReq, UiText)
       else if a = ''policy'' \<and> b = ''preflight'' \<and> c = ''req.cbor'' then Some (PolicyPreflightReq, UiCbor)
       else if a = ''policy'' \<and> b = ''preflight'' \<and> c = ''diff'' then Some (PolicyPreflightDiff, UiText)
       else if a = ''policy'' \<and> b = ''preflight'' \<and> c = ''diff.cbor'' then Some (PolicyPreflightDiff, UiCbor)
       else if a = ''updates'' \<and> c = ''manifest.cbor'' then
         (if is_ok (validate_epoch b) then Some (UpdatesManifest, UiCbor) else None)
       else if a = ''updates'' \<and> c = ''status'' then
         (if is_ok (validate_epoch b) then Some (UpdatesStatus, UiText) else None)
       else if a = ''updates'' \<and> c = ''status.cbor'' then
         (if is_ok (validate_epoch b) then Some (UpdatesStatus, UiCbor) else None)
       else None
   | _ \<Rightarrow> None)"

section \<open>Rendered streams\<close>

definition ensure_len :: "string \<Rightarrow> nat \<Rightarrow> nat \<Rightarrow> ninedoor_error + unit" where
  "ensure_len label len max_len =
     (if len > max_len
      then Err (Protocol ETooBig (label @ '' output exceeds '' @ show_nat max_len @ '' bytes''))
      else Ok ())"

definition ensure_stream_len :: "string \<Rightarrow> nat \<Rightarrow> ninedoor_error + unit" where
  "ensure_stream_len label len =
     (if len > UI_MAX_STREAM_BYTES
      then Err (Protocol ETooBig (label @ '' output exceeds '' @ show_nat UI_MAX_STREAM_BYTES @ '' bytes''))
      else Ok ())"

definition cbor_render_error :: "string \<Rightarrow> cbor_error \<Rightarrow> ninedoor_error" where
  "cbor_render_error label err = (case err of
     TooLarge \<Rightarrow>
       Protocol ETooBig (label @ '' output exceeds '' @ show_nat UI_MAX_STREAM_BYTES @ '' bytes''))"

text \<open>
  Every renderer creates a writer with the stream bound, writes its items one after the other,
  turns the first error into a protocol error under its label, and returns the buffer.
\<close>

definition cbor_build :: "string \<Rightarrow> cbor_item list \<Rightarrow> ninedoor_error + bytes" where
  "cbor_build label items = (case st_for write_item items (cbor_new UI_MAX_STREAM_BYTES) of
     (Err e, _) \<Rightarrow> Err (cbor_render_error label e)
   | (Ok _, w) \<Rightarrow> Ok (cw_buffer w))"

lemma cbor_build_eq:
  "cbor_build label items =
     (let bs = concat (map item_bytes items)
      in if length bs \<le> UI_MAX_STREAM_BYTES then Ok bs else Err (cbor_render_error label TooLarge))"
proof (cases "st_for write_item items (cbor_new UI_MAX_STREAM_BYTES)")
  case (Pair r w)
  have "UI_MAX_STREAM_BYTES < u64_max" by (simp add: UI_MAX_STREAM_BYTES_def u64_max_def)
  from write_items_new [OF this Pair] Pair show ?thesis
    by (auto simp: cbor_build_def Let_def split: if_splits)
qed

lemma cbor_build_Ok [outcome_splits]:
  "cbor_build label items = Ok bs \<longleftrightarrow>
     bs = concat (map item_bytes items) \<and> length bs \<le> UI_MAX_STREAM_BYTES"
  by (auto simp: cbor_build_eq Let_def)

end
