(* ===== verification/Json_Log.thy ===== *)
theory Json_Log
  imports NineDoor_Error Append_Only
begin

section \<open>Append-only control logs\<close>

text \<open>
  The helpers that \<open>policy.rs\<close>, \<open>audit.rs\<close> and \<open>replay.rs\<close> under
  \<open>src/apps/nine-door/src/host/\<close> each declare for the logs clients append lines of JSON to: the
  UTF-8 check, the check of every line, the append bounds and the final line feed. The reader of
  \<open>serde_json\<close> is the argument \<open>parse_value\<close>; its error stands for its text.
\<close>

definition utf8_text :: "bytes \<Rightarrow> string \<Rightarrow> ninedoor_error + string" where
  "utf8_text data label =
     ok_or (from_utf8 data)
       (Protocol EInvalid (label @ '' must be utf-8: '' @ utf8_error_text data))"

definition ensure_utf8 :: "bytes \<Rightarrow> string \<Rightarrow> ninedoor_error + unit" where
  "ensure_utf8 data label = and_then (utf8_text data label) (\<lambda>_. Ok ())"

fun validate_lines :: "(string \<Rightarrow> string + unit) \<Rightarrow> string \<Rightarrow> string list \<Rightarrow> ninedoor_error + unit" where
  "validate_lines parse_value label [] = Ok ()"
| "validate_lines parse_value label (line # rest) =
     (let trimmed = trim line
      in if trimmed = [] then validate_lines parse_value label rest
         else and_then
           (map_err (\<lambda>err. Protocol EInvalid (''invalid '' @ label @ '' entry: '' @ err))
             (parse_value trimmed))
           (\<lambda>_. validate_lines parse_value label rest))"

definition validate_json_lines ::
  "(string \<Rightarrow> string + unit) \<Rightarrow> bytes \<Rightarrow> string \<Rightarrow> ninedoor_error + unit" where
  "validate_json_lines parse_value data label =
     and_then (utf8_text data label) (\<lambda>t. validate_lines parse_value label (str_lines t))"

text \<open>The append bounds of a log; the offset \<open>u64::MAX\<close> asks for the end of the log.\<close>

definition apply_append ::
  "nat \<Rightarrow> nat \<Rightarrow> nat \<Rightarrow> nat \<Rightarrow> string \<Rightarrow> ninedoor_error + write_bounds" where
  "apply_append current_len offset max_len requested label =
     (let expected_offset = current_len;
          provided_offset = (if offset = u64_max then expected_offset else offset)
      in map_err
           (\<lambda>err. Protocol EInvalid
             (label @ '' append offset rejected: '' @ append_only_offset_error_display err))
           (append_only_write_bounds expected_offset provided_offset max_len requested))"

definition ensure_line_terminated :: "bytes \<Rightarrow> bytes" where
  "ensure_line_terminated data = (if data \<noteq> [] \<and> last data = 0x0A then data else data @ [0x0A])"

lemma ensure_line_terminated_last: "ensure_line_terminated data \<noteq> [] \<and> last (ensure_line_terminated data) = 0x0A"
  by (simp add: ensure_line_terminated_def)

lemma ensure_line_terminated_idem [simp]:
  "ensure_line_terminated (ensure_line_terminated data) = ensure_line_terminated data"
  by (simp add: ensure_line_terminated_def)

end
