(* ===== verification/Policy_Store.thy ===== *)
theory Policy_Store
  imports Ui_Provider Json_Log
begin

section \<open>Policy rules, the action queue and gates\<close>

text \<open>
  \<open>src/apps/nine-door/src/host/policy.rs\<close>. Writes to gated paths need an approval: the operator
  queues actions (an identifier, a target path and a decision) and each gated write consumes the
  first pending action for its path. The JSON reader and writer of \<open>serde_json\<close> are the arguments
  \<open>parse_value\<close>, \<open>parse_action\<close>, \<open>status_json\<close> and \<open>rules_json\<close>; their errors stand for their texts.
\<close>

subsection \<open>Data\<close>

definition MAX_POLICY_PATH_COMPONENTS :: nat where
  "MAX_POLICY_PATH_COMPONENTS = 8"

definition MAX_ACTION_ID_LEN :: nat where
  "MAX_ACTION_ID_LEN = 64"

record policy_limits =
  pl_queue_max_entries :: nat
  pl_queue_max_bytes :: nat
  pl_ctl_max_bytes :: nat
  pl_status_max_bytes :: nat

definition policy_limits_default :: policy_limits where
  "policy_limits_default =
     \<lparr>pl_queue_max_entries = 32, pl_queue_max_bytes = 4096, pl_ctl_max_bytes = 2048,
      pl_status_max_bytes = 512\<rparr>"

record policy_rule_spec =
  prs_id :: string
  prs_target :: string

record policy_config =
  pc_enabled :: bool
  pc_rules :: "policy_rule_spec list"
  pc_limits :: policy_limits

definition policy_disabled :: policy_config where
  "policy_disabled = \<lparr>pc_enabled = False, pc_rules = [], pc_limits = policy_limits_default\<rparr>"

definition policy_enabled :: "policy_rule_spec list \<Rightarrow> policy_limits \<Rightarrow> policy_config" where
  "policy_enabled rules limits = \<lparr>pc_enabled = True, pc_rules = rules, pc_limits = limits\<rparr>"

datatype policy_path_segment = Literal string | Wildcard

record policy_rule =
  pr_id :: string
  pr_target :: string
  pr_pattern :: "policy_path_segment list"

datatype policy_decision = Approve | Deny

record action_request =
  ar_id :: string
  ar_target :: string
  ar_decision :: policy_decision

record policy_action =
  pa_id :: string
  pa_target :: string
  pa_decision :: policy_decision
  pa_path :: "string list"
  pa_consumed :: bool

record policy_action_audit =
  paa_id :: string
  paa_target :: string
  paa_decision :: policy_decision

record policy_queue_outcome =
  pqo_count :: nat
  pqo_appended :: "policy_action_audit list"

datatype policy_gate_allowance = Ungated | NotRequired | AllowedBy string string
datatype policy_gate_denial = Missing | DeniedBy string string
datatype policy_gate_decision = Allowed policy_gate_allowance | Denied policy_gate_denial

record policy_status_snapshot =
  pss_id :: string
  pss_target :: string
  pss_decision :: policy_decision
  pss_state :: string

record policy_rules_snapshot =
  prn_enabled :: bool
  prn_limits :: policy_limits
  prn_rules :: "policy_rule_spec list"

record policy_store =
  ps_config :: policy_config
  ps_rules :: "policy_rule list"
  ps_rules_snapshot :: bytes
  ps_ctl_log :: bytes
  ps_queue_log :: bytes
  ps_actions :: "policy_action list"

record policy_preflight_payloads =
  ppp_text :: bytes
  ppp_cbor :: bytes

subsection \<open>Rules and actions\<close>

definition path_components :: "string \<Rightarrow> string list" where
  "path_components target = filter (\<lambda>s. s \<noteq> []) (split_on (CHR ''/'') target)"

definition pattern_segment :: "string \<Rightarrow> policy_path_segment" where
  "pattern_segment component = (if component = ''*'' then Wildcard else Literal component)"

definition parse_path_pattern :: "string \<Rightarrow> ninedoor_error + policy_path_segment list" where
  "parse_path_pattern target =
     (if \<not> prefix ''/'' target then Err (Protocol EInvalid ''policy rule target must be absolute'')
      else if ''..'' \<in> set (path_components target)
      then Err (Protocol EInvalid
        (''policy rule target contains disallowed '' @ [CHR 0x27] @ ''..'' @ [CHR 0x27]))
      else
        let segments = map pattern_segment (path_components target)
        in if segments = [] then Err (Protocol EInvalid ''policy rule target must not be root'')
           else if length segments > MAX_POLICY_PATH_COMPONENTS
           then Err (Protocol EInvalid
             (''policy rule target exceeds max depth '' @ show_nat MAX_POLICY_PATH_COMPONENTS))
           else Ok segments)"

definition policy_rule_parse :: "policy_rule_spec \<Rightarrow> ninedoor_error + policy_rule" where
  "policy_rule_parse spec =
     (let target = trim (prs_target spec)
      in and_then (parse_path_pattern target) (\<lambda>pattern.
           Ok \<lparr>pr_id = prs_id spec, pr_target = target, pr_pattern = pattern\<rparr>))"

fun segment_matches :: "policy_path_segment \<Rightarrow> string \<Rightarrow> bool" where
  "segment_matches Wildcard s = True"
| "segment_matches (Literal v) s = (v = s)"

definition rule_matches_path :: "policy_rule \<Rightarrow> string list \<Rightarrow> bool" where
  "rule_matches_path rule path =
     (length path = length (pr_pattern rule) \<and>
      list_all (\<lambda>(s, p). segment_matches p s) (zip path (pr_pattern rule)))"

definition action_from_request :: "action_request \<Rightarrow> policy_action" where
  "action_from_request req =
     \<lparr>pa_id = ar_id req, pa_target = ar_target req, pa_decision = ar_decision req,
      pa_path = path_components (ar_target req), pa_consumed = False\<rparr>"

definition action_matches_path :: "policy_action \<Rightarrow> string list \<Rightarrow> bool" where
  "action_matches_path a path = (pa_path a = path)"

definition action_state :: "policy_action \<Rightarrow> string" where
  "action_state a = (if pa_consumed a then ''consumed'' else ''queued'')"

definition action_status_bytes ::
  "(policy_status_snapshot \<Rightarrow> string + bytes) \<Rightarrow> policy_action \<Rightarrow> policy_limits \<Rightarrow> bytes" where
  "action_status_bytes status_json a limits =
     (let status = \<lparr>pss_id = pa_id a, pss_target = pa_target a, pss_decision = pa_decision a,
                    pss_state = action_state a\<rparr>;
          json = (case status_json status of Ok bs \<Rightarrow> bs | Err _ \<Rightarrow> [])
      in if length json > pl_status_max_bytes limits
         then str_bytes (''{'' @ [CHR 0x22] @ ''id'' @ [CHR 0x22] @ '':'' @ [CHR 0x22] @ pa_id a
           @ [CHR 0x22] @ '','' @ [CHR 0x22] @ ''state'' @ [CHR 0x22] @ '':'' @ [CHR 0x22]
           @ ''oversize'' @ [CHR 0x22] @ ''}'')
         else json)"

definition policy_decision_label :: "policy_decision \<Rightarrow> string" where
  "policy_decision_label d = (case d of Approve \<Rightarrow> ''approve'' | Deny \<Rightarrow> ''deny'')"

subsection \<open>Validation of payloads\<close>

definition validate_action_id :: "string \<Rightarrow> ninedoor_error + unit" where
  "validate_action_id aid =
     (if aid = [] then Err (Protocol EInvalid ''action id must not be empty'')
      else if length aid > MAX_ACTION_ID_LEN
      then Err (Protocol EInvalid (''action id exceeds max length '' @ show_nat MAX_ACTION_ID_LEN))
      else if \<not> list_all (\<lambda>c. is_ascii_alphanumeric c \<or> c = CHR ''-'' \<or> c = CHR ''_'') aid
      then Err (Protocol EInvalid (''action id must be alphanumeric, '' @ [CHR 0x27] @ ''-''
        @ [CHR 0x27] @ '' or '' @ [CHR 0x27] @ ''_'' @ [CHR 0x27]))
      else Ok ())"

definition validate_action_target :: "string \<Rightarrow> ninedoor_error + unit" where
  "validate_action_target target =
     (if ''*'' \<in> set (path_components target)
      then Err (Protocol EInvalid ''action target must not include wildcards'')
      else and_then (parse_path_pattern target) (\<lambda>_. Ok ()))"

fun parse_actions ::
  "(string \<Rightarrow> string + action_request) \<Rightarrow> string list \<Rightarrow> ninedoor_error + action_request list" where
  "parse_actions parse_action [] = Ok []"
| "parse_actions parse_action (line # rest) =
     (let trimmed = trim line
      in if trimmed = [] then parse_actions parse_action rest
         else and_then
           (map_err (\<lambda>err. Protocol EInvalid (''invalid action entry: '' @ err)) (parse_action trimmed))
           (\<lambda>action.
             and_then (validate_action_id (ar_id action)) (\<lambda>_.
             and_then (validate_action_target (ar_target action)) (\<lambda>_.
             and_then (parse_actions parse_action rest) (\<lambda>actions. Ok (action # actions))))))"

definition parse_action_lines ::
  "(string \<Rightarrow> string + action_request) \<Rightarrow> bytes \<Rightarrow> ninedoor_error + action_request list" where
  "parse_action_lines parse_action data =
     and_then (utf8_text data ''action queue'') (\<lambda>t. parse_actions parse_action (str_lines t))"

subsection \<open>The store\<close>

fun parse_rules :: "policy_rule_spec list \<Rightarrow> ninedoor_error + policy_rule list" where
  "parse_rules [] = Ok []"
| "parse_rules (spec # specs) =
     and_then (policy_rule_parse spec) (\<lambda>r.
     and_then (parse_rules specs) (\<lambda>rs. Ok (r # rs)))"

definition render_rules_snapshot ::
  "(policy_rules_snapshot \<Rightarrow> string + bytes) \<Rightarrow> bool \<Rightarrow> policy_rule list \<Rightarrow> policy_limits
     \<Rightarrow> ninedoor_error + bytes" where
  "render_rules_snapshot rules_json enabled rules limits =
     map_err (\<lambda>err. Protocol EInvalid (''policy rule snapshot failed: '' @ err))
       (rules_json
         \<lparr>prn_enabled = enabled, prn_limits = limits,
          prn_rules = map (\<lambda>r. \<lparr>prs_id = pr_id r, prs_target = pr_target r\<rparr>) rules\<rparr>)"

definition policy_store_new ::
  "(policy_rules_snapshot \<Rightarrow> string + bytes) \<Rightarrow> policy_config \<Rightarrow> ninedoor_error + policy_store" where
  "policy_store_new rules_json config =
     and_then (parse_rules (pc_rules config)) (\<lambda>rules.
     and_then (render_rules_snapshot rules_json (pc_enabled config) rules (pc_limits config))
       (\<lambda>snapshot.
       Ok \<lparr>ps_config = config, ps_rules = rules, ps_rules_snapshot = snapshot,
           ps_ctl_log = [], ps_queue_log = [], ps_actions = []\<rparr>))"

definition action_status_payload ::
  "(policy_status_snapshot \<Rightarrow> string + bytes) \<Rightarrow> policy_store \<Rightarrow> string \<Rightarrow> bytes option" where
  "action_status_payload status_json s aid =
     map_option (\<lambda>a. action_status_bytes status_json a (pc_limits (ps_config s)))
       (find (\<lambda>a. pa_id a = aid) (ps_actions s))"

definition append_policy_ctl ::
  "(string \<Rightarrow> string + unit) \<Rightarrow> nat \<Rightarrow> bytes \<Rightarrow> (policy_store, ninedoor_error, nat) st_op" where
  "append_policy_ctl parse_value offset data s =
     (let max_len = pl_ctl_max_bytes (pc_limits (ps_config s))
      in case and_then (ensure_utf8 data ''policy control payload'') (\<lambda>_.
              and_then (validate_json_lines parse_value data ''policy control'') (\<lambda>_.
                apply_append (length (ps_ctl_log s)) offset max_len (length data) ''policy control'')) of
           Err e \<Rightarrow> (Err e, s)
         | Ok appended \<Rightarrow>
             if awb_short appended
             then (Err (Protocol ETooBig (''policy control exceeds max bytes '' @ show_nat max_len)), s)
             else (Ok (as_u32 (awb_len appended)),
                   s\<lparr>ps_ctl_log := ps_ctl_log s @ take (awb_len appended) data\<rparr>))"

text \<open>
  The loop over the parsed entries. It pushes an action as it goes: the early return on a known
  identifier leaves the entries before it in the queue.
\<close>

fun push_actions ::
  "action_request list \<Rightarrow> policy_action list
     \<Rightarrow> (ninedoor_error + policy_action_audit list) \<times> policy_action list" where
  "push_actions [] actions = (Ok [], actions)"
| "push_actions (entry # rest) actions =
     (if list_ex (\<lambda>a. pa_id a = ar_id entry) actions
      then (Err (Protocol EInvalid (''action id '' @ [CHR 0x27] @ ar_id entry @ [CHR 0x27]
              @ '' already exists'')), actions)
      else (case push_actions rest (actions @ [action_from_request entry]) of
         (Err e, actions') \<Rightarrow> (Err e, actions')
       | (Ok appended, actions') \<Rightarrow>
           (Ok (\<lparr>paa_id = ar_id entry, paa_target = ar_target entry,
                 paa_decision = ar_decision entry\<rparr> # appended), actions')))"

definition queue_bounds ::
  "(string \<Rightarrow> string + action_request) \<Rightarrow> nat \<Rightarrow> bytes \<Rightarrow> policy_store
     \<Rightarrow> ninedoor_error + action_request list \<times> nat" where
  "queue_bounds parse_action offset data s =
     (let limits = pc_limits (ps_config s)
      in and_then (ensure_utf8 data ''action queue payload'') (\<lambda>_.
         and_then (parse_action_lines parse_action data) (\<lambda>parsed.
         if length (ps_actions s) + length parsed > pl_queue_max_entries limits
         then Err (Protocol ETooBig
           (''action queue exceeds max entries '' @ show_nat (pl_queue_max_entries limits)))
         else and_then
           (apply_append (length (ps_queue_log s)) offset (pl_queue_max_bytes limits) (length data)
             ''action queue'')
           (\<lambda>bounds.
             if awb_short bounds
             then Err (Protocol ETooBig
               (''action queue exceeds max bytes '' @ show_nat (pl_queue_max_bytes limits)))
             else Ok (parsed, awb_len bounds)))))"

definition append_action_queue ::
  "(string \<Rightarrow> string + action_request) \<Rightarrow> nat \<Rightarrow> bytes
     \<Rightarrow> (policy_store, ninedoor_error, policy_queue_outcome) st_op" where
  "append_action_queue parse_action offset data s =
     (case queue_bounds parse_action offset data s of
        Err e \<Rightarrow> (Err e, s)
      | Ok (parsed, len) \<Rightarrow>
          (case push_actions parsed (ps_actions s) of
             (Err e, actions) \<Rightarrow> (Err e, s\<lparr>ps_actions := actions\<rparr>)
           | (Ok appended, actions) \<Rightarrow>
               (Ok \<lparr>pqo_count = as_u32 len, pqo_appended = appended\<rparr>,
                s\<lparr>ps_actions := actions, ps_queue_log := ps_queue_log s @ take len data\<rparr>)))"

text \<open>\<open>iter_mut().find\<close>: the first action of the list that satisfies the test is updated.\<close>

fun consume_first :: "(policy_action \<Rightarrow> bool) \<Rightarrow> policy_action list \<Rightarrow> (policy_action \<times> policy_action list) option" where
  "consume_first P [] = None"
| "consume_first P (a # as) =
     (if P a then Some (a, a\<lparr>pa_consumed := True\<rparr> # as)
      else map_option (\<lambda>(b, bs). (b, a # bs)) (consume_first P as))"

definition gate_verdict :: "policy_action \<Rightarrow> policy_gate_decision" where
  "gate_verdict a = (case pa_decision a of
     Approve \<Rightarrow> Allowed (AllowedBy (pa_id a) (pa_target a))
   | Deny \<Rightarrow> Denied (DeniedBy (pa_id a) (pa_target a)))"

definition consume_gate :: "string list \<Rightarrow> policy_store \<Rightarrow> policy_gate_decision \<times> policy_store" where
  "consume_gate path s =
     (if \<not> pc_enabled (ps_config s) then (Allowed Ungated, s)
      else if \<not> list_ex (\<lambda>r. rule_matches_path r path) (ps_rules s) then (Allowed NotRequired, s)
      else (case consume_first (\<lambda>a. action_matches_path a path \<and> \<not> pa_consumed a) (ps_actions s) of
         Some (a, actions) \<Rightarrow> (gate_verdict a, s\<lparr>ps_actions := actions\<rparr>)
       | None \<Rightarrow> (Denied Missing, s)))"

subsection \<open>Preflight renderings\<close>

definition preflight_req_items :: "nat \<Rightarrow> nat \<Rightarrow> nat \<Rightarrow> policy_action list \<Rightarrow> cbor_item list" where
  "preflight_req_items total_count queued consumed actions =
     [CMap 4, CText ''total'', CUnsigned total_count, CText ''queued'', CUnsigned queued,
      CText ''consumed'', CUnsigned consumed, CText ''actions'', CArray (length actions)]
     @ concat (map (\<lambda>a.
         [CMap 4, CText ''id'', CText (pa_id a), CText ''target'', CText (pa_target a),
          CText ''decision'', CText (policy_decision_label (pa_decision a)),
          CText ''state'', CText (action_state a)]) actions)"

definition preflight_diff_items ::
  "nat \<Rightarrow> nat \<Rightarrow> nat \<Rightarrow> policy_rule list \<Rightarrow> (nat \<times> nat) list \<Rightarrow> cbor_item list" where
  "preflight_diff_items rules_total actions_total unmatched rules rule_counts =
     [CMap 4, CText ''rules'', CUnsigned rules_total, CText ''actions'', CUnsigned actions_total,
      CText ''unmatched'', CUnsigned unmatched, CText ''entries'', CArray (length rules)]
     @ concat (map (\<lambda>(r, queued, consumed).
         [CMap 4, CText ''id'', CText (pr_id r), CText ''target'', CText (pr_target r),
          CText ''queued'', CUnsigned queued, CText ''consumed'', CUnsigned consumed])
         (zip rules rule_counts))"

definition preflight_req_payloads :: "policy_store \<Rightarrow> ninedoor_error + policy_preflight_payloads" where
  "preflight_req_payloads s =
     (let actions = ps_actions s;
          total_count = sat_count (\<lambda>_. True) actions;
          queued = sat_count (\<lambda>a. \<not> pa_consumed a) actions;
          consumed = sat_count pa_consumed actions;
          t = ''req total='' @ show_nat total_count @ '' queued='' @ show_nat queued
                @ '' consumed='' @ show_nat consumed @ newline
              @ concat (map (\<lambda>a. ''req id='' @ pa_id a @ '' target='' @ pa_target a
                  @ '' decision='' @ policy_decision_label (pa_decision a)
                  @ '' state='' @ action_state a @ newline) actions)
      in and_then (ensure_stream_len ''policy/preflight/req'' (length t)) (\<lambda>_.
         and_then (cbor_build ''policy/preflight/req.cbor''
             (preflight_req_items total_count queued consumed actions)) (\<lambda>cbor.
           Ok \<lparr>ppp_text = str_bytes t, ppp_cbor = cbor\<rparr>)))"

definition rule_action_counts :: "policy_action list \<Rightarrow> policy_rule \<Rightarrow> nat \<times> nat" where
  "rule_action_counts actions r =
     (sat_count (\<lambda>a. rule_matches_path r (pa_path a) \<and> \<not> pa_consumed a) actions,
      sat_count (\<lambda>a. rule_matches_path r (pa_path a) \<and> pa_consumed a) actions)"

definition preflight_diff_payloads :: "policy_store \<Rightarrow> ninedoor_error + policy_preflight_payloads" where
  "preflight_diff_payloads s =
     (let actions = ps_actions s;
          rules = ps_rules s;
          unmatched = sat_count (\<lambda>a. \<not> list_ex (\<lambda>r. rule_matches_path r (pa_path a)) rules) actions;
          rule_counts = map (rule_action_counts actions) rules;
          t = ''diff rules='' @ show_nat (length rules) @ '' actions='' @ show_nat (length actions)
                @ '' unmatched='' @ show_nat unmatched @ newline
              @ concat (map (\<lambda>(r, queued, consumed). ''rule id='' @ pr_id r @ '' target='' @ pr_target r
                  @ '' queued='' @ show_nat queued @ '' consumed='' @ show_nat consumed @ newline)
                  (zip rules rule_counts))
      in and_then (ensure_stream_len ''policy/preflight/diff'' (length t)) (\<lambda>_.
         and_then (cbor_build ''policy/preflight/diff.cbor''
             (preflight_diff_items (length rules) (length actions) unmatched rules rule_counts))
           (\<lambda>cbor. Ok \<lparr>ppp_text = str_bytes t, ppp_cbor = cbor\<rparr>)))"

section \<open>Correctness\<close>

subsection \<open>Runs of the store\<close>

text \<open>The requests that reach the store: writes of the two logs and gated writes.\<close>

datatype policy_event = PolicyCtl nat bytes | QueueActions nat bytes | GatedWrite "string list"

definition policy_step ::
  "(string \<Rightarrow> string + unit) \<Rightarrow> (string \<Rightarrow> string + action_request) \<Rightarrow> policy_store
     \<Rightarrow> policy_event \<Rightarrow> policy_store" where
  "policy_step parse_value parse_action s e = (case e of
     PolicyCtl offset data \<Rightarrow> snd (append_policy_ctl parse_value offset data s)
   | QueueActions offset data \<Rightarrow> snd (append_action_queue parse_action offset data s)
   | GatedWrite path \<Rightarrow> snd (consume_gate path s))"

definition grants :: "string \<Rightarrow> policy_store \<Rightarrow> policy_event \<Rightarrow> nat" where
  "grants aid s e = (case e of
     GatedWrite path \<Rightarrow>
       (case fst (consume_gate path s) of
          Allowed (AllowedBy i t) \<Rightarrow> if i = aid then 1 else 0
        | _ \<Rightarrow> 0)
   | _ \<Rightarrow> 0)"

definition grants_left :: "string \<Rightarrow> policy_store \<Rightarrow> nat" where
  "grants_left aid s = (if \<exists>a \<in> set (ps_actions s). pa_id a = aid \<and> pa_consumed a then 0 else 1)"

definition policy_inv :: "policy_store \<Rightarrow> bool" where
  "policy_inv s = distinct (map pa_id (ps_actions s))"

subsection \<open>The queue\<close>

lemma append_policy_ctl_actions [simp]:
  "ps_actions (snd (append_policy_ctl pv offset data s)) = ps_actions s"
  by (simp add: append_policy_ctl_def Let_def split: sum.split)

lemma push_actions_extends:
  "push_actions reqs actions = (r, actions') \<Longrightarrow>
    \<exists>pre. prefix pre reqs \<and> actions' = actions @ map action_from_request pre \<and>
      (is_ok r \<longrightarrow> pre = reqs) \<and>
      (distinct (map pa_id actions) \<longrightarrow> distinct (map pa_id actions'))"
proof (induction reqs arbitrary: actions r)
  case (Cons e reqs)
  show ?case
  proof (cases "list_ex (\<lambda>a. pa_id a = ar_id e) actions")
    case True
    with Cons.prems show ?thesis by (intro exI [of _ "[]"]) auto
  next
    case False
    with Cons.prems obtain q where q: "push_actions reqs (actions @ [action_from_request e]) = (q, actions')"
      and r: "is_ok r = is_ok q"
      by (auto split: prod.splits sum.splits)
    from Cons.IH [OF q] obtain pre where "prefix pre reqs"
      "actions' = (actions @ [action_from_request e]) @ map action_from_request pre"
      "is_ok q \<longrightarrow> pre = reqs"
      "distinct (map pa_id (actions @ [action_from_request e])) \<longrightarrow> distinct (map pa_id actions')"
      by blast
    with False r show ?thesis
      by (intro exI [of _ "e # pre"]) (auto simp: list_ex_iff action_from_request_def)
  qed
qed simp

lemma queue_bounds_parsed: "queue_bounds pa offset data s = Ok (parsed, len) \<Longrightarrow> parse_action_lines pa data = Ok parsed"
  by (auto simp: queue_bounds_def Let_def outcome_splits split: if_splits)

lemma append_action_queue_pushes:
  assumes "append_action_queue pa offset data s = (r, s')"
  shows "\<exists>pre. ps_actions s' = ps_actions s @ map action_from_request pre \<and>
      (policy_inv s \<longrightarrow> policy_inv s') \<and>
      (is_ok r \<longrightarrow> parse_action_lines pa data = Ok pre) \<and>
      (pre \<noteq> [] \<longrightarrow> (\<exists>reqs. parse_action_lines pa data = Ok reqs \<and> prefix pre reqs))"
proof (cases "queue_bounds pa offset data s")
  case (Inl e)
  with assms show ?thesis by (intro exI [of _ "[]"]) (auto simp: append_action_queue_def)
next
  case (Inr b)
  obtain parsed len where b: "b = (parsed, len)" by (cases b)
  obtain q actions where p: "push_actions parsed (ps_actions s) = (q, actions)" by force
  from push_actions_extends [OF p] obtain pre where pre: "prefix pre parsed"
    "actions = ps_actions s @ map action_from_request pre" "is_ok q \<longrightarrow> pre = parsed"
    "distinct (map pa_id (ps_actions s)) \<longrightarrow> distinct (map pa_id actions)"
    by blast
  have "ps_actions s' = actions" "is_ok r = is_ok q"
    using assms Inr b p by (auto simp: append_action_queue_def split: sum.splits)
  with pre queue_bounds_parsed [OF Inr [unfolded b]] show ?thesis
    by (intro exI [of _ pre]) (auto simp: policy_inv_def)
qed

lemma append_action_queue_actions:
  "\<exists>pre. ps_actions (snd (append_action_queue pa offset data s)) =
      ps_actions s @ map action_from_request pre \<and>
    (policy_inv s \<longrightarrow> policy_inv (snd (append_action_queue pa offset data s)))"
  by (cases "append_action_queue pa offset data s") (auto dest!: append_action_queue_pushes)

lemma consume_first_Some:
  "consume_first P as = Some (b, bs) \<Longrightarrow>
    \<exists>pre post. as = pre @ b # post \<and> bs = pre @ b\<lparr>pa_consumed := True\<rparr> # post \<and> P b \<and>
      list_all (\<lambda>a. \<not> P a) pre"
proof (induction "as" arbitrary: bs)
  case (Cons a "as")
  show ?case
  proof (cases "P a")
    case True
    with Cons.prems show ?thesis by (intro exI [of _ "[]"] exI [of _ "as"]) auto
  next
    case False
    with Cons.prems obtain cs where cs: "consume_first P as = Some (b, cs)" "bs = a # cs" by auto
    from Cons.IH [OF cs(1)] obtain pre post where
      "as = pre @ b # post" "cs = pre @ b\<lparr>pa_consumed := True\<rparr> # post" "P b" "list_all (\<lambda>a. \<not> P a) pre"
      by blast
    with False cs(2) show ?thesis by (intro exI [of _ "a # pre"] exI [of _ post]) auto
  qed
qed simp

lemma consume_first_None: "consume_first P as = None \<longleftrightarrow> (\<forall>a \<in> set as. \<not> P a)"
  by (induction "as") auto

lemma consume_gate_cases:
  obtains (same) "snd (consume_gate path s) = s" "\<And>i t. fst (consume_gate path s) \<noteq> Allowed (AllowedBy i t)"
  | (consumed) pre a post where "ps_actions s = pre @ a # post" "\<not> pa_consumed a" "pa_path a = path"
      "consume_gate path s =
        (gate_verdict a, s\<lparr>ps_actions := pre @ a\<lparr>pa_consumed := True\<rparr> # post\<rparr>)"
      "list_all (\<lambda>b. \<not> (pa_path b = path \<and> \<not> pa_consumed b)) pre"
      "pc_enabled (ps_config s)" "list_ex (\<lambda>r. rule_matches_path r path) (ps_rules s)"
proof (cases "pc_enabled (ps_config s) \<and> list_ex (\<lambda>r. rule_matches_path r path) (ps_rules s)")
  case False
  then show thesis by (intro same) (auto simp: consume_gate_def)
next
  case gated: True
  show thesis
  proof (cases "consume_first (\<lambda>a. action_matches_path a path \<and> \<not> pa_consumed a) (ps_actions s)")
    case None
    with gated show thesis by (intro same) (auto simp: consume_gate_def)
  next
    case (Some p)
    obtain b bs where p: "p = (b, bs)" by (cases p)
    from consume_first_Some [OF Some [unfolded p]] obtain pre post where
      "ps_actions s = pre @ b # post" "bs = pre @ b\<lparr>pa_consumed := True\<rparr> # post"
      "pa_path b = path" "\<not> pa_consumed b" "list_all (\<lambda>a. \<not> (pa_path a = path \<and> \<not> pa_consumed a)) pre"
      by (auto simp: action_matches_path_def)
    with gated Some p show thesis by (intro consumed) (simp_all add: consume_gate_def)
  qed
qed

lemma policy_step_inv: "policy_inv s \<Longrightarrow> policy_inv (policy_step pv pa s e)"
proof (cases e)
  case (PolicyCtl o' d)
  assume "policy_inv s"
  with PolicyCtl show ?thesis by (simp add: policy_step_def policy_inv_def)
next
  case (QueueActions o' d)
  assume "policy_inv s"
  with QueueActions append_action_queue_actions [of pa o' d s] show ?thesis
    by (auto simp: policy_step_def)
next
  case (GatedWrite path)
  assume "policy_inv s"
  then show ?thesis
    by (cases rule: consume_gate_cases [of path s])
      (auto simp: GatedWrite policy_step_def policy_inv_def)
qed

lemma grant_consumes:
  assumes "policy_inv s"
  shows "grants aid s e + grants_left aid (policy_step pv pa s e) \<le> grants_left aid s"
proof (cases e)
  case (PolicyCtl o' d)
  then show ?thesis by (simp add: grants_def grants_left_def policy_step_def)
next
  case (QueueActions o' d)
  then show ?thesis using append_action_queue_actions [of pa o' d s]
    by (auto simp: grants_def grants_left_def policy_step_def)
next
  case (GatedWrite path)
  show ?thesis
  proof (cases rule: consume_gate_cases [of path s])
    case same
    then show ?thesis
      by (auto simp: GatedWrite grants_def policy_step_def
        split: policy_gate_decision.split policy_gate_allowance.split)
  next
    case (consumed pre a post)
    have "pa_id b \<noteq> pa_id a" if "b \<in> set pre \<union> set post" for b
    proof -
      from that have "pa_id b \<in> pa_id ` (set pre \<union> set post)" by (rule imageI)
      with assms consumed(1) show ?thesis by (auto simp: policy_inv_def simp del: imageE)
    qed
    with consumed(1-4) show ?thesis
      by (auto simp: GatedWrite grants_def policy_step_def grants_left_def gate_verdict_def
        split: policy_decision.split)
  qed
qed

interpretation approvals: metered "policy_step pv pa" "grants aid" "grants_left aid" policy_inv
  for pv pa aid
  by unfold_locales (rule grant_consumes policy_step_inv; assumption)+

lemma policy_store_new_inv: "policy_store_new rules_json cfg = Ok s \<Longrightarrow> policy_inv s"
  by (auto simp: policy_store_new_def policy_inv_def outcome_splits)

text \<open>
  The pending actions of a path, as a queue of entries: what an operator has decided about the
  next writes of the path.
\<close>

definition pending :: "policy_store \<Rightarrow> string list \<Rightarrow> (string \<times> string \<times> policy_decision) list" where
  "pending s path =
     map (\<lambda>a. (pa_id a, pa_target a, pa_decision a))
       (filter (\<lambda>a. pa_path a = path \<and> \<not> pa_consumed a) (ps_actions s))"

definition gated :: "policy_store \<Rightarrow> string list \<Rightarrow> bool" where
  "gated s path \<longleftrightarrow> pc_enabled (ps_config s) \<and> list_ex (\<lambda>r. rule_matches_path r path) (ps_rules s)"

definition request_entries :: "action_request list \<Rightarrow> string list \<Rightarrow> (string \<times> string \<times> policy_decision) list" where
  "request_entries reqs path =
     map (\<lambda>r. (ar_id r, ar_target r, ar_decision r)) (filter (\<lambda>r. path_components (ar_target r) = path) reqs)"

lemma pending_append:
  "ps_actions s' = ps_actions s @ map action_from_request reqs \<Longrightarrow>
    pending s' path = pending s path @ request_entries reqs path"
  by (simp add: pending_def request_entries_def action_from_request_def filter_map comp_def)

lemma list_all_not_filter: "list_all (\<lambda>x. \<not> P x) xs \<Longrightarrow> filter P xs = []"
  by (simp add: list_all_iff)

lemma pending_consume:
  assumes "gated s path"
  shows "case pending s path of
      [] \<Rightarrow> consume_gate path s = (Denied Missing, s)
    | (i, t, d) # rest \<Rightarrow>
        fst (consume_gate path s) = (if d = Approve then Allowed (AllowedBy i t) else Denied (DeniedBy i t)) \<and>
        pending (snd (consume_gate path s)) = (pending s)(path := rest)"
proof (cases "consume_first (\<lambda>a. action_matches_path a path \<and> \<not> pa_consumed a) (ps_actions s)")
  case None
  then have "pending s path = []"
    by (auto simp: consume_first_None pending_def filter_empty_conv action_matches_path_def)
  with None assms show ?thesis by (simp add: consume_gate_def gated_def)
next
  case (Some p)
  obtain b bs where p: "p = (b, bs)" by (cases p)
  from consume_first_Some [OF Some [unfolded p]] obtain pre post where split:
    "ps_actions s = pre @ b # post" "bs = pre @ b\<lparr>pa_consumed := True\<rparr> # post"
    "pa_path b = path" "\<not> pa_consumed b" "list_all (\<lambda>a. \<not> (pa_path a = path \<and> \<not> pa_consumed a)) pre"
    by (auto simp: action_matches_path_def)
  have gate: "consume_gate path s = (gate_verdict b, s\<lparr>ps_actions := bs\<rparr>)"
    using assms Some p by (simp add: consume_gate_def gated_def)
  have "pending s path = (pa_id b, pa_target b, pa_decision b) # pending (s\<lparr>ps_actions := post\<rparr>) path"
    using split by (simp add: pending_def list_all_not_filter)
  moreover have "pending (s\<lparr>ps_actions := bs\<rparr>) = (pending s)(path := pending (s\<lparr>ps_actions := post\<rparr>) path)"
    using split by (auto simp: pending_def list_all_not_filter fun_eq_iff)
  ultimately show ?thesis
    by (cases "pa_decision b") (simp_all add: gate gate_verdict_def)
qed

subsection \<open>Properties\<close>

text \<open>
  C31: The gate implements one queue of decisions per path. On a gated path the oldest pending
  decision for exactly that path is taken out and decides the write, and with none pending the
  write is refused and nothing changes; a path that no rule covers is never refused. An accepted
  queue write appends its entries, in order, to the queues of their target paths.
\<close>

theorem policy_gate_refines_queues:
  "(if gated s path
    then (case pending s path of
        [] \<Rightarrow> consume_gate path s = (Denied Missing, s)
      | (i, t, d) # rest \<Rightarrow>
          fst (consume_gate path s) =
            (if d = Approve then Allowed (AllowedBy i t) else Denied (DeniedBy i t)) \<and>
          pending (snd (consume_gate path s)) = (pending s)(path := rest))
    else consume_gate path s \<in> {(Allowed Ungated, s), (Allowed NotRequired, s)}) \<and>
   (case append_action_queue pa offset data s of
      (Inr out, s') \<Rightarrow> (case parse_action_lines pa data of
          Inr reqs \<Rightarrow> pending s' q = pending s q @ request_entries reqs q
        | Inl _ \<Rightarrow> False)
    | (Inl _, s') \<Rightarrow> (case parse_action_lines pa data of
          Inr reqs \<Rightarrow> \<exists>pre. prefix pre reqs \<and> pending s' q = pending s q @ request_entries pre q
        | Inl _ \<Rightarrow> pending s' q = pending s q))"
proof
  show "if gated s path
      then (case pending s path of
          [] \<Rightarrow> consume_gate path s = (Denied Missing, s)
        | (i, t, d) # rest \<Rightarrow>
            fst (consume_gate path s) =
              (if d = Approve then Allowed (AllowedBy i t) else Denied (DeniedBy i t)) \<and>
            pending (snd (consume_gate path s)) = (pending s)(path := rest))
      else consume_gate path s \<in> {(Allowed Ungated, s), (Allowed NotRequired, s)}"
    using pending_consume [of s path] by (auto simp: consume_gate_def gated_def)
next
  obtain r s' where q: "append_action_queue pa offset data s = (r, s')" by force
  from append_action_queue_pushes [OF q] obtain pre where pre:
    "ps_actions s' = ps_actions s @ map action_from_request pre"
    "is_ok r \<longrightarrow> parse_action_lines pa data = Ok pre"
    "pre \<noteq> [] \<longrightarrow> (\<exists>reqs. parse_action_lines pa data = Ok reqs \<and> prefix pre reqs)"
    by blast
  note p = pending_append [OF pre(1), of q]
  have e: "pre = [] \<Longrightarrow> request_entries pre q = []" by (simp add: request_entries_def)
  show "case append_action_queue pa offset data s of
      (Inr out, s') \<Rightarrow> (case parse_action_lines pa data of
          Inr reqs \<Rightarrow> pending s' q = pending s q @ request_entries reqs q
        | Inl _ \<Rightarrow> False)
    | (Inl _, s') \<Rightarrow> (case parse_action_lines pa data of
          Inr reqs \<Rightarrow> \<exists>pre. prefix pre reqs \<and> pending s' q = pending s q @ request_entries pre q
        | Inl _ \<Rightarrow> pending s' q = pending s q)"
    using q p e pre(2,3) by (cases r; cases "parse_action_lines pa data"; cases "pre = []")
      (auto intro: exI [of _ "[]"])
qed

text \<open>
  C6: An approval is used at most once. Over any run of queue writes, control writes and gated
  writes on a fresh store, whatever their payloads and offsets, the number of writes allowed
  under one action identifier is at most one; a later queue entry with the same identifier does
  not renew it.
\<close>

theorem policy_approval_single_use:
  assumes "policy_store_new rules_json cfg = Inr s"
  shows "total_cost (policy_step pv pa) (grants aid) s es \<le> 1"
proof -
  have "grants_left aid s \<le> 1" by (simp add: grants_left_def)
  with approvals.run_cost [OF policy_store_new_inv [OF assms], of pv pa aid es] show ?thesis by linarith
qed

text \<open>
  An operator approves one write of \<open>/queen/ctl\<close>, sends the same entry again after it was used,
  and the path is written twice.
\<close>

definition sample_config :: policy_config where
  "sample_config = policy_enabled [\<lparr>prs_id = ''r'', prs_target = ''/queen/*''\<rparr>] policy_limits_default"

definition sample_store :: policy_store where
  "sample_store =
     \<lparr>ps_config = sample_config,
      ps_rules = [\<lparr>pr_id = ''r'', pr_target = ''/queen/*'', pr_pattern = [Literal ''queen'', Wildcard]\<rparr>],
      ps_rules_snapshot = [], ps_ctl_log = [], ps_queue_log = [], ps_actions = []\<rparr>"

definition sample_action :: action_request where
  "sample_action = \<lparr>ar_id = ''a'', ar_target = ''/queen/ctl'', ar_decision = Approve\<rparr>"

definition sample_run :: "policy_event list" where
  "sample_run =
     [QueueActions u64_max (str_bytes ''x''), GatedWrite [''queen'', ''ctl''],
      QueueActions u64_max (str_bytes ''x''), GatedWrite [''queen'', ''ctl'']]"

lemma sample_store_new: "policy_store_new (\<lambda>_. Ok []) sample_config = Ok sample_store"
  by code_simp

lemma sample_parse:
  "ensure_utf8 (str_bytes ''x'') ''action queue payload'' = Ok ()"
  "parse_action_lines (\<lambda>_. Ok sample_action) (str_bytes ''x'') = Ok [sample_action]"
  "ensure_utf8 (str_bytes (''x'' @ newline @ ''y'')) ''action queue payload'' = Ok ()"
  "parse_action_lines (\<lambda>_. Ok sample_action) (str_bytes (''x'' @ newline @ ''y'')) =
    Ok [sample_action, sample_action]"
  "action_from_request sample_action =
    \<lparr>pa_id = ''a'', pa_target = ''/queen/ctl'', pa_decision = Approve, pa_path = [''queen'', ''ctl''],
     pa_consumed = False\<rparr>"
  by code_simp+

lemmas sample_defs = sample_store_def sample_config_def policy_enabled_def policy_limits_default_def
  queue_bounds_def apply_append_def append_only_write_bounds_def append_action_queue_def Let_def

lemma sample_run_grants:
  "total_cost (policy_step (\<lambda>_. Ok ()) (\<lambda>_. Ok sample_action)) (grants ''a'') sample_store sample_run = 1"
  by (simp add: sample_run_def policy_step_def grants_def consume_gate_def sample_defs sample_parse
    rule_matches_path_def action_matches_path_def gate_verdict_def)
    (simp add: sample_action_def)

theorem policy_approval_single_use_witness:
  "policy_store_new (\<lambda>_. Inr []) sample_config = Inr sample_store \<and>
   total_cost (policy_step (\<lambda>_. Inr ()) (\<lambda>_. Inr sample_action)) (grants ''a'') sample_store sample_run \<le> 1 \<and>
   total_cost (policy_step (\<lambda>_. Inr ()) (\<lambda>_. Inr sample_action)) (grants ''a'') sample_store sample_run = 1"
  using policy_approval_single_use [OF sample_store_new] sample_store_new sample_run_grants by blast

text \<open>
  A refused queue write can leave an approval in force. When a write carries an entry with a
  fresh identifier followed by an entry that repeats it, the write is answered with an error and
  nothing is added to the queue log, yet the first entry is pending for its target.
\<close>

theorem refused_queue_write_leaves_approval:
  assumes "queue_bounds pa offset data s = Inr (a # e # post, len)"
    and "ar_id e = ar_id a" and "ar_id a \<notin> pa_id ` set (ps_actions s)"
  shows "case append_action_queue pa offset data s of (r, s') \<Rightarrow>
      \<not> is_ok r \<and> ps_queue_log s' = ps_queue_log s \<and>
      pending s' (path_components (ar_target a)) =
        pending s (path_components (ar_target a)) @ [(ar_id a, ar_target a, ar_decision a)]"
proof -
  have fresh: "\<not> list_ex (\<lambda>b. pa_id b = ar_id a) (ps_actions s)"
    using assms(3) by (force simp: list_ex_iff)
  have "pa_id (action_from_request a) = ar_id a" by (simp add: action_from_request_def)
  then have "push_actions (a # e # post) (ps_actions s) =
      (Err (Protocol EInvalid (''action id '' @ [CHR 0x27] @ ar_id a @ [CHR 0x27] @ '' already exists'')),
       ps_actions s @ [action_from_request a])"
    using fresh assms(2) by (simp add: list_ex_iff)
  with assms(1) show ?thesis
    by (simp add: append_action_queue_def pending_def action_from_request_def)
qed

lemma sample_queue_bounds:
  "queue_bounds (\<lambda>_. Ok sample_action) u64_max (str_bytes (''x'' @ newline @ ''y'')) sample_store =
    Ok ([sample_action, sample_action], 3)"
  using sample_parse(3,4) by (simp add: sample_defs)

theorem refused_queue_write_leaves_approval_witness:
  "case append_action_queue (\<lambda>_. Inr sample_action) u64_max (str_bytes (''x'' @ newline @ ''y''))
      sample_store of (r, s') \<Rightarrow>
    \<not> is_ok r \<and> pending s' (path_components ''/queen/ctl'') = [(''a'', ''/queen/ctl'', Approve)]"
  using refused_queue_write_leaves_approval [OF sample_queue_bounds]
  by (auto simp: sample_action_def sample_store_def pending_def)

text \<open>
  The byte limit of the policy control log bounds one write, not the log. Appending a valid
  payload that fits the limit is accepted every time, and after \<open>n\<close> writes the log has grown by
  \<open>n\<close> payloads.
\<close>

theorem policy_ctl_limit_is_per_write:
  assumes "ensure_utf8 data ''policy control payload'' = Inr ()"
    and "validate_json_lines pv data ''policy control'' = Inr ()"
    and "length data \<le> pl_ctl_max_bytes (pc_limits (ps_config s))"
  shows "ps_ctl_log (foldl (\<lambda>s d. snd (append_policy_ctl pv u64_max d s)) s (replicate n data)) =
    ps_ctl_log s @ concat (replicate n data)"
  using assms(3)
proof (induction n arbitrary: s)
  case (Suc n)
  have "snd (append_policy_ctl pv u64_max data s) = s\<lparr>ps_ctl_log := ps_ctl_log s @ data\<rparr>"
    using assms(1,2) Suc.prems
    by (simp add: append_policy_ctl_def apply_append_def append_only_write_bounds_def Let_def)
  with Suc show ?case by simp
qed simp

theorem policy_ctl_limit_is_per_write_witness:
  "ps_ctl_log (foldl (\<lambda>s d. snd (append_policy_ctl (\<lambda>_. Inr ()) u64_max d s)) sample_store
      (replicate 3000 (str_bytes ''{}''))) = concat (replicate 3000 (str_bytes ''{}''))"
proof -
  have "ensure_utf8 (str_bytes ''{}'') ''policy control payload'' = Ok ()"
    "validate_json_lines (\<lambda>_. Ok ()) (str_bytes ''{}'') ''policy control'' = Ok ()"
    by code_simp+
  from policy_ctl_limit_is_per_write [OF this, of sample_store 3000] show ?thesis
    by (simp add: sample_store_def sample_config_def policy_enabled_def policy_limits_default_def)
qed

end
