(* ===== verification/Audit_Store.thy ===== *)
theory Audit_Store
  imports Json_Log
begin

section \<open>The audit journal\<close>

text \<open>
  \<open>src/apps/nine-door/src/host/audit.rs\<close>: two bounded logs, the journal of control writes and the
  log of policy decisions, which forget their oldest entries, and the inventory of control
  outcomes that a replay reads. \<open>serde_json\<close> is the arguments \<open>parse_value\<close>, \<open>journal_json\<close> and
  \<open>decision_json\<close>. Offsets are \<open>u64\<close> values that grow with \<open>saturating_add\<close>; \<open>VecDeque\<close> is a list
  with its front first.
\<close>

subsection \<open>Configuration\<close>

record replay_config =
  rc_enabled :: bool
  rc_max_entries :: nat
  rc_ctl_max_bytes :: nat
  rc_status_max_bytes :: nat

definition replay_disabled :: replay_config where
  "replay_disabled =
     \<lparr>rc_enabled = False, rc_max_entries = 0, rc_ctl_max_bytes = 0, rc_status_max_bytes = 0\<rparr>"

definition replay_enabled :: "nat \<Rightarrow> nat \<Rightarrow> nat \<Rightarrow> replay_config" where
  "replay_enabled max_entries ctl_max_bytes status_max_bytes =
     \<lparr>rc_enabled = True, rc_max_entries = max_entries, rc_ctl_max_bytes = ctl_max_bytes,
      rc_status_max_bytes = status_max_bytes\<rparr>"

record audit_limits =
  al_journal_max_bytes :: nat
  al_decisions_max_bytes :: nat

definition audit_limits_default :: audit_limits where
  "audit_limits_default = \<lparr>al_journal_max_bytes = 8192, al_decisions_max_bytes = 4096\<rparr>"

record audit_config =
  ac_enabled :: bool
  ac_limits :: audit_limits
  ac_replay :: replay_config

definition audit_disabled :: audit_config where
  "audit_disabled =
     \<lparr>ac_enabled = False, ac_limits = audit_limits_default, ac_replay = replay_disabled\<rparr>"

definition audit_enabled :: "audit_limits \<Rightarrow> replay_config \<Rightarrow> audit_config" where
  "audit_enabled limits replay = \<lparr>ac_enabled = True, ac_limits = limits, ac_replay = replay\<rparr>"

subsection \<open>Bounded logs\<close>

record log_entry =
  le_bytes :: bytes
  le_offset_end :: nat

record bounded_log =
  bl_entries :: "log_entry list"
  bl_capacity :: nat
  bl_total_bytes :: nat
  bl_base_offset :: nat
  bl_next_offset :: nat

record audit_append_outcome =
  ao_count :: nat
  ao_dropped_bytes :: nat
  ao_new_base :: nat
  ao_offset_start :: nat
  ao_offset_end :: nat

definition bounded_log_new :: "nat \<Rightarrow> bounded_log" where
  "bounded_log_new capacity =
     \<lparr>bl_entries = [], bl_capacity = max capacity 1, bl_total_bytes = 0, bl_base_offset = 0,
      bl_next_offset = 0\<rparr>"

definition log_snapshot :: "bounded_log \<Rightarrow> bytes" where
  "log_snapshot l = concat (map le_bytes (bl_entries l))"

text \<open>The loop that forgets entries, with the bytes it drops, the total and the base offset.\<close>

fun drop_entries ::
  "nat \<Rightarrow> nat \<Rightarrow> log_entry list \<Rightarrow> nat \<Rightarrow> nat \<Rightarrow> nat \<Rightarrow> log_entry list \<times> nat \<times> nat \<times> nat" where
  "drop_entries capacity need [] dropped total_bytes base = ([], dropped, total_bytes, base)"
| "drop_entries capacity need (e # es) dropped total_bytes base =
     (if total_bytes + need > capacity
      then drop_entries capacity need es (sat_add dropped (length (le_bytes e)))
             (total_bytes - length (le_bytes e)) (le_offset_end e)
      else (e # es, dropped, total_bytes, base))"

definition bounded_log_append :: "bytes \<Rightarrow> (bounded_log, ninedoor_error, audit_append_outcome) st_op" where
  "bounded_log_append bs l =
     (if length bs > bl_capacity l
      then (Err (Protocol ETooBig (''audit entry exceeds max bytes '' @ show_nat (bl_capacity l))), l)
      else
        let (entries, dropped, total_bytes, base) =
              drop_entries (bl_capacity l) (length bs) (bl_entries l) 0 (bl_total_bytes l) (bl_base_offset l);
            offset_start = bl_next_offset l;
            offset_end = sat_add offset_start (length bs)
        in (Ok \<lparr>ao_count = as_u32 (offset_end - offset_start), ao_dropped_bytes = dropped,
                ao_new_base = base, ao_offset_start = offset_start, ao_offset_end = offset_end\<rparr>,
            l\<lparr>bl_entries := entries @ [\<lparr>le_bytes = bs, le_offset_end = offset_end\<rparr>],
              bl_total_bytes := sat_add total_bytes (length bs),
              bl_base_offset := base, bl_next_offset := offset_end\<rparr>))"

subsection \<open>The store\<close>

record replay_entry =
  re_offset_start :: nat
  re_offset_end :: nat
  re_ack_line :: string

record control_outcome =
  co_ok :: bool
  co_error :: "(error_code \<times> string) option"

definition control_ok :: control_outcome where
  "control_ok = \<lparr>co_ok = True, co_error = None\<rparr>"

definition control_err :: "error_code \<Rightarrow> string \<Rightarrow> control_outcome" where
  "control_err code message = \<lparr>co_ok = False, co_error = Some (code, message)\<rparr>"

definition control_from_error :: "ninedoor_error \<Rightarrow> control_outcome" where
  "control_from_error e = (case e of
     Protocol code message \<Rightarrow> control_err code message
   | other \<Rightarrow> control_err EInvalid (ninedoor_error_display other))"

definition status_label :: "control_outcome \<Rightarrow> string" where
  "status_label out = (if co_ok out then ''ok'' else ''err'')"

definition error_detail :: "control_outcome \<Rightarrow> (string \<times> string) option" where
  "error_detail out = map_option (\<lambda>(code, message). (error_code_display code, message)) (co_error out)"

definition ack_line :: "control_outcome \<Rightarrow> string" where
  "ack_line out = (case co_error out of
     None \<Rightarrow> ''OK''
   | Some (code, message) \<Rightarrow> ''ERR '' @ error_code_display code @ '' '' @ message)"

record audit_journal_entry =
  aj_seq :: nat
  aj_kind :: string
  aj_path :: string
  aj_payload :: string
  aj_outcome :: string
  aj_error :: "(string \<times> string) option"
  aj_role :: string
  aj_ticket :: string

record decision_entry =
  de_seq :: nat
  de_kind :: string
  de_outcome :: string
  de_id :: "string option"
  de_target :: "string option"
  de_path :: "string option"
  de_role :: string
  de_ticket :: string

record audit_action_decision =
  ad_id :: string
  ad_decision :: string
  ad_target :: string

record audit_gate_decision =
  ag_outcome :: string
  ag_id :: "string option"
  ag_target :: "string option"
  ag_path :: string

record audit_store =
  as_config :: audit_config
  as_journal :: bounded_log
  as_decisions :: bounded_log
  as_replay_entries :: "replay_entry list"
  as_sequence :: nat
  as_export_snapshot :: bytes

definition quoted :: "string \<Rightarrow> string" where
  "quoted s = [CHR 0x22] @ s @ [CHR 0x22]"

definition refresh_export_snapshot :: "audit_store \<Rightarrow> audit_store" where
  "refresh_export_snapshot s =
     s\<lparr>as_export_snapshot := str_bytes
        (''{'' @ quoted ''journal_base'' @ '':'' @ show_nat (bl_base_offset (as_journal s))
          @ '','' @ quoted ''journal_next'' @ '':'' @ show_nat (bl_next_offset (as_journal s))
          @ '','' @ quoted ''decisions_base'' @ '':'' @ show_nat (bl_base_offset (as_decisions s))
          @ '','' @ quoted ''decisions_next'' @ '':'' @ show_nat (bl_next_offset (as_decisions s))
          @ '','' @ quoted ''replay_enabled'' @ '':'' @ show_bool (rc_enabled (ac_replay (as_config s)))
          @ '','' @ quoted ''replay_max_entries'' @ '':''
          @ show_nat (rc_max_entries (ac_replay (as_config s))) @ ''}'' @ newline)\<rparr>"

definition audit_store_new :: "audit_config \<Rightarrow> audit_store" where
  "audit_store_new config =
     refresh_export_snapshot
       \<lparr>as_config = config, as_journal = bounded_log_new (al_journal_max_bytes (ac_limits config)),
        as_decisions = bounded_log_new (al_decisions_max_bytes (ac_limits config)),
        as_replay_entries = [], as_sequence = 0, as_export_snapshot = []\<rparr>"

definition trim_replay_entries :: "audit_store \<Rightarrow> audit_store" where
  "trim_replay_entries s =
     s\<lparr>as_replay_entries :=
        dropWhile (\<lambda>e. re_offset_end e \<le> bl_base_offset (as_journal s)) (as_replay_entries s)\<rparr>"

definition next_sequence :: "audit_store \<Rightarrow> nat \<times> audit_store" where
  "next_sequence s =
     (let n = sat_add (as_sequence s) 1 in (n, s\<lparr>as_sequence := n\<rparr>))"

definition replay_entry_new :: "nat \<Rightarrow> string \<Rightarrow> replay_entry" where
  "replay_entry_new len ack = \<lparr>re_offset_start = 0, re_offset_end = len, re_ack_line = ack\<rparr>"

text \<open>The store after the journal took an entry.\<close>

definition push_replay ::
  "replay_entry option \<Rightarrow> audit_append_outcome \<Rightarrow> audit_store \<Rightarrow> audit_store" where
  "push_replay entry out s = (case entry of
     None \<Rightarrow> s
   | Some e \<Rightarrow> s\<lparr>as_replay_entries := as_replay_entries s @
       [e\<lparr>re_offset_start := ao_offset_start out, re_offset_end := ao_offset_end out\<rparr>]\<rparr>)"

definition append_journal ::
  "nat \<Rightarrow> bytes \<Rightarrow> replay_entry option \<Rightarrow> (audit_store, ninedoor_error, audit_append_outcome) st_op" where
  "append_journal offset data entry s =
     (let payload = ensure_line_terminated data;
          expected_offset = bl_next_offset (as_journal s);
          provided_offset = (if offset = u64_max then expected_offset else offset);
          limit = al_journal_max_bytes (ac_limits (as_config s))
      in case append_only_write_bounds expected_offset provided_offset limit (length payload) of
           Err e \<Rightarrow> (Err (Protocol EInvalid
             (''audit journal append offset rejected: '' @ append_only_offset_error_display e)), s)
         | Ok bounds \<Rightarrow>
             if awb_short bounds
             then (Err (Protocol ETooBig
               (''audit journal entry exceeds max bytes '' @ show_nat limit)), s)
             else (case bounded_log_append payload (as_journal s) of
                 (Err e, l) \<Rightarrow> (Err e, s\<lparr>as_journal := l\<rparr>)
               | (Ok out, l) \<Rightarrow>
                   (Ok out, refresh_export_snapshot
                     (trim_replay_entries (push_replay entry out (s\<lparr>as_journal := l\<rparr>))))))"

definition append_decisions :: "bytes \<Rightarrow> (audit_store, ninedoor_error, audit_append_outcome) st_op" where
  "append_decisions data s =
     (let payload = ensure_line_terminated data;
          expected_offset = bl_next_offset (as_decisions s);
          limit = al_decisions_max_bytes (ac_limits (as_config s))
      in case append_only_write_bounds expected_offset expected_offset limit (length payload) of
           Err e \<Rightarrow> (Err (Protocol EInvalid
             (''audit decisions append offset rejected: '' @ append_only_offset_error_display e)), s)
         | Ok bounds \<Rightarrow>
             if awb_short bounds
             then (Err (Protocol ETooBig
               (''audit decisions entry exceeds max bytes '' @ show_nat limit)), s)
             else (case bounded_log_append payload (as_decisions s) of
                 (Err e, l) \<Rightarrow> (Err e, s\<lparr>as_decisions := l\<rparr>)
               | (Ok out, l) \<Rightarrow> (Ok out, refresh_export_snapshot (s\<lparr>as_decisions := l\<rparr>))))"

definition append_manual_journal ::
  "(string \<Rightarrow> string + unit) \<Rightarrow> nat \<Rightarrow> bytes
     \<Rightarrow> (audit_store, ninedoor_error, audit_append_outcome) st_op" where
  "append_manual_journal parse_value offset data =
     st_then (st_lift (validate_json_lines parse_value data ''audit journal''))
       (append_journal offset data None)"

definition encode_json_line :: "('a \<Rightarrow> string + string) \<Rightarrow> 'a \<Rightarrow> ninedoor_error + bytes" where
  "encode_json_line to_json v =
     and_then (map_err (\<lambda>err. Protocol EInvalid (''failed to encode audit entry: '' @ err)) (to_json v))
       (\<lambda>json. Ok (ensure_line_terminated (str_bytes json)))"

definition control_kind :: "string \<Rightarrow> string" where
  "control_kind path =
     (if path = ''/queen/ctl'' then ''queen-ctl''
      else if path = ''/queen/lifecycle/ctl'' then ''queen-lifecycle''
      else ''host-control'')"

definition or_none :: "string option \<Rightarrow> string" where
  "or_none v = (case v of None \<Rightarrow> ''none'' | Some s \<Rightarrow> s)"

definition control_entry ::
  "nat \<Rightarrow> string \<Rightarrow> bytes \<Rightarrow> control_outcome \<Rightarrow> string option \<Rightarrow> string option \<Rightarrow> audit_journal_entry" where
  "control_entry seq path payload out role ticket =
     \<lparr>aj_seq = seq, aj_kind = control_kind path, aj_path = path,
      aj_payload = from_utf8_lossy payload, aj_outcome = status_label out,
      aj_error = error_detail out, aj_role = or_none role, aj_ticket = or_none ticket\<rparr>"

definition record_control ::
  "(audit_journal_entry \<Rightarrow> string + string) \<Rightarrow> string \<Rightarrow> bytes \<Rightarrow> control_outcome \<Rightarrow> string option
     \<Rightarrow> string option \<Rightarrow> (audit_store, ninedoor_error, audit_append_outcome) st_op" where
  "record_control journal_json path payload out role ticket s =
     (let (seq, s) = next_sequence s
      in case encode_json_line journal_json (control_entry seq path payload out role ticket) of
           Err e \<Rightarrow> (Err e, s)
         | Ok bs \<Rightarrow> append_journal u64_max bs (Some (replay_entry_new (length bs) (ack_line out))) s)"

definition record_decision ::
  "(decision_entry \<Rightarrow> string + string) \<Rightarrow> (nat \<Rightarrow> decision_entry)
     \<Rightarrow> (audit_store, ninedoor_error, audit_append_outcome) st_op" where
  "record_decision decision_json mk s =
     (let (seq, s) = next_sequence s
      in case encode_json_line decision_json (mk seq) of
           Err e \<Rightarrow> (Err e, s)
         | Ok bs \<Rightarrow> append_decisions bs s)"

definition record_decision_action ::
  "(decision_entry \<Rightarrow> string + string) \<Rightarrow> audit_action_decision \<Rightarrow> string option \<Rightarrow> string option
     \<Rightarrow> (audit_store, ninedoor_error, audit_append_outcome) st_op" where
  "record_decision_action decision_json action role ticket =
     record_decision decision_json (\<lambda>seq.
       \<lparr>de_seq = seq, de_kind = ''policy-action'', de_outcome = ad_decision action,
        de_id = Some (ad_id action), de_target = Some (ad_target action), de_path = None,
        de_role = or_none role, de_ticket = or_none ticket\<rparr>)"

definition record_decision_gate ::
  "(decision_entry \<Rightarrow> string + string) \<Rightarrow> audit_gate_decision \<Rightarrow> string option \<Rightarrow> string option
     \<Rightarrow> (audit_store, ninedoor_error, audit_append_outcome) st_op" where
  "record_decision_gate decision_json decision role ticket =
     record_decision decision_json (\<lambda>seq.
       \<lparr>de_seq = seq, de_kind = ''policy-gate'', de_outcome = ag_outcome decision,
        de_id = ag_id decision, de_target = ag_target decision, de_path = Some (ag_path decision),
        de_role = or_none role, de_ticket = or_none ticket\<rparr>)"

subsection \<open>Replay summaries\<close>

record replay_summary_rec =
  rs_from :: nat
  rs_to :: nat
  rs_entries :: nat
  rs_sequence :: string

datatype replay_window_error =
  ReplayStale nat nat
| ReplayFuture nat nat
| TooManyEntries nat nat

fun summarise ::
  "nat \<Rightarrow> nat \<Rightarrow> replay_entry list \<Rightarrow> nat \<Rightarrow> string \<Rightarrow> replay_window_error + nat \<times> string" where
  "summarise from max_entries [] count acks = Ok (count, acks)"
| "summarise from max_entries (e # es) count acks =
     (if re_offset_end e \<le> from then summarise from max_entries es count acks
      else if count + 1 > max_entries then Err (TooManyEntries (count + 1) max_entries)
      else summarise from max_entries es (count + 1) (acks @ re_ack_line e @ newline))"

definition replay_summary ::
  "audit_store \<Rightarrow> nat \<Rightarrow> nat \<Rightarrow> replay_window_error + replay_summary_rec" where
  "replay_summary s from max_entries =
     (let base = bl_base_offset (as_journal s);
          next = bl_next_offset (as_journal s)
      in if from < base then Err (ReplayStale from base)
         else if from > next then Err (ReplayFuture from next)
         else and_then (summarise from max_entries (as_replay_entries s) 0 []) (\<lambda>(count, acks).
           Ok \<lparr>rs_from = from, rs_to = next, rs_entries = count, rs_sequence = acks\<rparr>))"

section \<open>Correctness\<close>

subsection \<open>What a bounded log keeps\<close>

text \<open>
  The specification of the retained part: the longest suffix of whole entries that fits the
  capacity.
\<close>

fun fitting :: "nat \<Rightarrow> bytes list \<Rightarrow> bytes list" where
  "fitting capacity [] = []"
| "fitting capacity (d # ds) =
     (if length (concat (d # ds)) \<le> capacity then d # ds else fitting capacity ds)"

fun log_entries :: "nat \<Rightarrow> bytes list \<Rightarrow> log_entry list" where
  "log_entries off [] = []"
| "log_entries off (d # ds) =
     \<lparr>le_bytes = d, le_offset_end = off + length d\<rparr> # log_entries (off + length d) ds"

definition log_rep :: "bounded_log \<Rightarrow> bytes list \<Rightarrow> bool" where
  "log_rep l ds \<longleftrightarrow>
     (let kept = fitting (bl_capacity l) ds;
          base = length (concat ds) - length (concat kept)
      in bl_entries l = log_entries base kept \<and> bl_base_offset l = base \<and>
         bl_next_offset l = length (concat ds) \<and> bl_total_bytes l = length (concat kept))"

lemma fitting_bounds:
  "length (concat (fitting c ds)) \<le> c" "length (concat (fitting c ds)) \<le> length (concat ds)"
  "suffix (fitting c ds) ds"
  by (induction ds) (auto simp: suffix_Cons)

lemma fitting_longest: "suffix es ds \<Longrightarrow> length (concat es) \<le> c \<Longrightarrow> suffix es (fitting c ds)"
  by (induction ds) (auto simp: suffix_Cons)

lemma fitting_snoc: "length d \<le> c \<Longrightarrow> fitting c (fitting c ds @ [d]) = fitting c (ds @ [d])"
  by (induction ds) auto

lemma log_entries_append:
  "log_entries off (ds @ es) = log_entries off ds @ log_entries (off + length (concat ds)) es"
  by (induction ds arbitrary: off) (simp_all add: add.assoc)

lemma log_entries_bytes [simp]: "map le_bytes (log_entries off ds) = ds"
  by (induction ds arbitrary: off) simp_all

lemma drop_entries_fitting:
  assumes "length d \<le> c" and "dropped + length (concat ks) \<le> u64_max"
  shows "\<exists>kept. fitting c (ks @ [d]) = kept @ [d] \<and> length (concat kept) \<le> length (concat ks) \<and>
    drop_entries c (length d) (log_entries off ks) dropped (length (concat ks)) off =
      (log_entries (off + length (concat ks) - length (concat kept)) kept,
       dropped + length (concat ks) - length (concat kept), length (concat kept),
       off + length (concat ks) - length (concat kept))"
  using assms(2)
proof (induction ks arbitrary: off dropped)
  case Nil
  with assms(1) show ?case by simp
next
  case (Cons k ks)
  show ?case
  proof (cases "length (concat (k # ks)) + length d > c")
    case False
    then show ?thesis by (intro exI [of _ "k # ks"]) simp
  next
    case True
    from Cons.prems Cons.IH [of "dropped + length k" "off + length k"] obtain kept where
      "fitting c (ks @ [d]) = kept @ [d]" "length (concat kept) \<le> length (concat ks)"
      "drop_entries c (length d) (log_entries (off + length k) ks) (dropped + length k)
          (length (concat ks)) (off + length k) =
        (log_entries (off + length k + length (concat ks) - length (concat kept)) kept,
         dropped + length k + length (concat ks) - length (concat kept), length (concat kept),
         off + length k + length (concat ks) - length (concat kept))"
      by auto
    with True Cons.prems show ?thesis by (intro exI [of _ kept]) (simp add: add.assoc)
  qed
qed

lemma bounded_log_append_rep:
  assumes rep: "log_rep l ds" and fits: "length d \<le> bl_capacity l"
    and room: "length (concat ds) + length d \<le> u64_max"
  shows "\<exists>out l'. bounded_log_append d l = (Ok out, l') \<and> log_rep l' (ds @ [d]) \<and>
    bl_capacity l' = bl_capacity l \<and> ao_offset_start out = length (concat ds) \<and>
    ao_offset_end out = length (concat ds) + length d \<and> ao_new_base out = bl_base_offset l' \<and>
    ao_dropped_bytes out = bl_base_offset l' - bl_base_offset l \<and> bl_base_offset l \<le> bl_base_offset l'"
proof -
  define kept where "kept = fitting (bl_capacity l) ds"
  define base where "base = length (concat ds) - length (concat kept)"
  note le = fitting_bounds(2) [of "bl_capacity l" ds, folded kept_def]
  have l: "bl_entries l = log_entries base kept" "bl_base_offset l = base"
    "bl_next_offset l = length (concat ds)" "bl_total_bytes l = length (concat kept)"
    using rep by (simp_all add: log_rep_def Let_def kept_def base_def)
  have "0 + length (concat kept) \<le> u64_max" using le room by simp
  from drop_entries_fitting [OF fits this, of base] obtain kept' where k:
    "fitting (bl_capacity l) (kept @ [d]) = kept' @ [d]" "length (concat kept') \<le> length (concat kept)"
    "drop_entries (bl_capacity l) (length d) (log_entries base kept) 0 (length (concat kept)) base =
      (log_entries (base + length (concat kept) - length (concat kept')) kept',
       length (concat kept) - length (concat kept'), length (concat kept'),
       base + length (concat kept) - length (concat kept'))"
    by auto
  have f: "fitting (bl_capacity l) (ds @ [d]) = kept' @ [d]"
    using fitting_snoc [OF fits, of ds] k(1) by (simp add: kept_def)
  have b: "base + length (concat kept) = length (concat ds)" using le by (simp add: base_def)
  show ?thesis
    using fits room k le b f
    by (simp add: bounded_log_append_def l log_rep_def Let_def log_entries_append) linarith
qed

lemma log_rep_new: "log_rep (bounded_log_new c) []"
  by (simp add: log_rep_def bounded_log_new_def)

subsection \<open>Runs of the store\<close>

text \<open>
  A run, with the history of what the journal accepted: the bytes of every entry and, for a
  control write, the acknowledgement line that its outcome stands for.
\<close>

type_synonym journal_history = "(bytes \<times> string option) list"

datatype audit_event =
  ManualEntry nat bytes
| ControlEntry string bytes control_outcome "string option" "string option"
| ActionDecision audit_action_decision "string option" "string option"
| GateDecision audit_gate_decision "string option" "string option"

definition audit_step ::
  "(string \<Rightarrow> string + unit) \<Rightarrow> (audit_journal_entry \<Rightarrow> string + string) \<Rightarrow> (decision_entry \<Rightarrow> string + string)
     \<Rightarrow> audit_store \<times> journal_history \<Rightarrow> audit_event \<Rightarrow> audit_store \<times> journal_history" where
  "audit_step parse_value journal_json decision_json sh e = (case sh of (s, h) \<Rightarrow> (case e of
     ManualEntry offset data \<Rightarrow>
       (case append_manual_journal parse_value offset data s of
          (Ok _, s') \<Rightarrow> (s', h @ [(ensure_line_terminated data, None)])
        | (Err _, s') \<Rightarrow> (s', h))
   | ControlEntry path payload out role ticket \<Rightarrow>
       (case record_control journal_json path payload out role ticket s of
          (Ok _, s') \<Rightarrow>
            (case encode_json_line journal_json (control_entry (as_sequence s') path payload out role ticket) of
               Ok bs \<Rightarrow> (s', h @ [(bs, Some (ack_line out))])
             | Err _ \<Rightarrow> (s', h))
        | (Err _, s') \<Rightarrow> (s', h))
   | ActionDecision d role ticket \<Rightarrow> (snd (record_decision_action decision_json d role ticket s), h)
   | GateDecision d role ticket \<Rightarrow> (snd (record_decision_gate decision_json d role ticket s), h)))"

text \<open>The control outcomes of a history, with the journal offsets of their entries.\<close>

fun replay_of :: "nat \<Rightarrow> journal_history \<Rightarrow> replay_entry list" where
  "replay_of off [] = []"
| "replay_of off ((d, ack) # h) =
     (case ack of None \<Rightarrow> []
      | Some a \<Rightarrow> [\<lparr>re_offset_start = off, re_offset_end = off + length d, re_ack_line = a\<rparr>])
     @ replay_of (off + length d) h"

definition journal_bytes :: "journal_history \<Rightarrow> nat" where
  "journal_bytes h = length (concat (map fst h))"

definition audit_rep :: "audit_config \<Rightarrow> audit_store \<times> journal_history \<Rightarrow> bool" where
  "audit_rep cfg sh = (case sh of (s, h) \<Rightarrow>
     as_config s = cfg \<and> log_rep (as_journal s) (map fst h) \<and>
     bl_capacity (as_journal s) = max (al_journal_max_bytes (ac_limits cfg)) 1 \<and>
     as_replay_entries s =
       filter (\<lambda>e. bl_base_offset (as_journal s) < re_offset_end e) (replay_of 0 h))"

lemma replay_of_append:
  "replay_of off (h @ g) = replay_of off h @ replay_of (off + journal_bytes h) g"
  by (induction off h rule: replay_of.induct) (simp_all add: journal_bytes_def add.assoc)

lemma replay_of_ends:
  "e \<in> set (replay_of off h) \<Longrightarrow> off \<le> re_offset_end e \<and> re_offset_end e \<le> off + journal_bytes h"
  by (induction off h rule: replay_of.induct) (fastforce simp: journal_bytes_def split: option.splits)+

lemma replay_of_sorted: "sorted_wrt (\<lambda>a b. re_offset_end a \<le> re_offset_end b) (replay_of off h)"
  by (induction off h rule: replay_of.induct) (auto dest: replay_of_ends split: option.splits)

lemma dropWhile_sorted_filter:
  "sorted_wrt (\<lambda>a b. f a \<le> f b) xs \<Longrightarrow> dropWhile (\<lambda>x. f x \<le> (b :: nat)) xs = filter (\<lambda>x. b < f x) xs"
  by (induction xs) (auto intro!: filter_True [symmetric])

lemma replay_trim:
  assumes "old = filter (\<lambda>e. b < re_offset_end e) (replay_of 0 h)" and "b \<le> b'"
  shows "dropWhile (\<lambda>e. re_offset_end e \<le> b') (old @ replay_of (journal_bytes h) g) =
    filter (\<lambda>e. b' < re_offset_end e) (replay_of 0 (h @ g))"
proof -
  have "sorted_wrt (\<lambda>a b. re_offset_end a \<le> re_offset_end b) (old @ replay_of (journal_bytes h) g)"
    unfolding sorted_wrt_append assms(1)
    using replay_of_sorted [of 0 h] replay_of_sorted [of "journal_bytes h" g]
    by (auto simp: sorted_wrt_filter dest!: replay_of_ends intro: order_trans)
  with assms(2) show ?thesis
    by (auto simp: dropWhile_sorted_filter replay_of_append assms(1) intro: filter_cong)
qed

lemma append_journal_cases:
  assumes "append_journal offset data entry s = (r, s')"
  obtains (refused) e where "r = Err e" "s' = s"
  | (accepted) "length (ensure_line_terminated data) \<le> al_journal_max_bytes (ac_limits (as_config s))"
      "(r, s') = (case bounded_log_append (ensure_line_terminated data) (as_journal s) of
          (Err e, l) \<Rightarrow> (Err e, s\<lparr>as_journal := l\<rparr>)
        | (Ok out, l) \<Rightarrow> (Ok out, refresh_export_snapshot
            (trim_replay_entries (push_replay entry out (s\<lparr>as_journal := l\<rparr>)))))"
proof (cases "append_only_write_bounds (bl_next_offset (as_journal s))
    (if offset = u64_max then bl_next_offset (as_journal s) else offset)
    (al_journal_max_bytes (ac_limits (as_config s))) (length (ensure_line_terminated data))")
  case (Inl e)
  with assms show thesis by (intro refused) (auto simp: append_journal_def Let_def)
next
  case (Inr b)
  show thesis
  proof (cases "awb_short b")
    case True
    with Inr assms show thesis by (intro refused) (auto simp: append_journal_def Let_def)
  next
    case False
    with Inr have "length (ensure_line_terminated data) \<le> al_journal_max_bytes (ac_limits (as_config s))"
      by (auto simp: append_only_write_bounds_def Let_def split: if_splits)
    with False Inr assms show thesis by (intro accepted) (simp_all add: append_journal_def Let_def)
  qed
qed

lemma append_journal_rep:
  assumes rep: "audit_rep cfg (s, h)" and a: "append_journal offset data entry s = (r, s')"
    and room: "is_ok r \<Longrightarrow> journal_bytes h + length (ensure_line_terminated data) \<le> u64_max"
  shows "if is_ok r then audit_rep cfg (s', h @ [(ensure_line_terminated data, map_option re_ack_line entry)])
    else s' = s"
  using a
proof (cases rule: append_journal_cases)
  case (refused e)
  then show ?thesis by simp
next
  case accepted
  let ?d = "ensure_line_terminated data"
  have fits: "length ?d \<le> bl_capacity (as_journal s)"
    using rep accepted(1) by (simp add: audit_rep_def)
  have lr: "log_rep (as_journal s) (map fst h)" using rep by (simp add: audit_rep_def)
  have "is_ok r" using accepted(2) fits
    by (auto simp: bounded_log_append_def Let_def split: prod.splits)
  note room = room [OF this]
  from bounded_log_append_rep [OF lr fits] room obtain out l' where
    l: "bounded_log_append ?d (as_journal s) = (Ok out, l')" "log_rep l' (map fst h @ [?d])"
      "bl_capacity l' = bl_capacity (as_journal s)"
      "ao_offset_start out = journal_bytes h" "ao_offset_end out = journal_bytes h + length ?d"
      "bl_base_offset (as_journal s) \<le> bl_base_offset l'"
    by (auto simp: journal_bytes_def)
  define new where "new = replay_of (journal_bytes h) [(?d, map_option re_ack_line entry)]"
  define old where "old = as_replay_entries s"
  have "old = filter (\<lambda>e. bl_base_offset (as_journal s) < re_offset_end e) (replay_of 0 h)"
    using rep by (simp add: audit_rep_def old_def)
  note trim = replay_trim [OF this [unfolded old_def] l(6), of "[(?d, map_option re_ack_line entry)]", folded new_def old_def]
  have "as_replay_entries (push_replay entry out (s\<lparr>as_journal := l'\<rparr>)) = old @ new"
    using l(4,5) by (cases entry) (simp_all add: push_replay_def new_def old_def)
  with accepted l(1) trim have
    "is_ok r" "as_journal s' = l'" "as_config s' = as_config s"
    "as_replay_entries s' = filter (\<lambda>e. bl_base_offset l' < re_offset_end e)
      (replay_of 0 (h @ [(?d, map_option re_ack_line entry)]))"
    by (auto simp: refresh_export_snapshot_def trim_replay_entries_def push_replay_def split: option.splits)
  with l(2,3) rep show ?thesis by (simp add: audit_rep_def)
qed

lemma append_journal_sequence:
  "append_journal offset data entry s = (r, s') \<Longrightarrow> as_sequence s' = as_sequence s"
  by (erule append_journal_cases)
    (auto simp: refresh_export_snapshot_def trim_replay_entries_def push_replay_def
      split: prod.splits sum.splits option.splits)

lemma append_decisions_journal:
  "append_decisions data s = (r, s') \<Longrightarrow>
    as_journal s' = as_journal s \<and> as_replay_entries s' = as_replay_entries s \<and> as_config s' = as_config s"
  by (auto simp: append_decisions_def Let_def refresh_export_snapshot_def
    split: sum.splits if_splits prod.splits)

lemma record_decision_journal:
  "record_decision dj mk s = (r, s') \<Longrightarrow>
    as_journal s' = as_journal s \<and> as_replay_entries s' = as_replay_entries s \<and> as_config s' = as_config s"
  by (auto simp: record_decision_def next_sequence_def Let_def
    split: sum.splits dest: append_decisions_journal)

lemma record_decision_rep: "audit_rep cfg (s, h) \<Longrightarrow> audit_rep cfg (snd (record_decision dj mk s), h)"
  by (cases "record_decision dj mk s") (auto dest: record_decision_journal simp: audit_rep_def)

lemma encode_json_line_terminated:
  "encode_json_line to_json v = Ok bs \<Longrightarrow> ensure_line_terminated bs = bs"
  by (auto simp: encode_json_line_def outcome_splits)

lemma record_control_rep:
  assumes rep: "audit_rep cfg (s, h)"
    and rc: "record_control jj path payload out role ticket s = (r, s')"
    and bs: "encode_json_line jj (control_entry (as_sequence s') path payload out role ticket) = Ok bs"
    and room: "is_ok r \<Longrightarrow> journal_bytes h + length bs \<le> u64_max"
  shows "audit_rep cfg (s', if is_ok r then h @ [(bs, Some (ack_line out))] else h)"
proof -
  let ?t = "s\<lparr>as_sequence := sat_add (as_sequence s) 1\<rparr>"
  have t: "audit_rep cfg (?t, h)" using rep by (simp add: audit_rep_def)
  show ?thesis
  proof (cases "encode_json_line jj (control_entry (as_sequence ?t) path payload out role ticket)")
    case (Inl e)
    with rc t show ?thesis by (auto simp: record_control_def next_sequence_def Let_def)
  next
    case (Inr cs)
    with rc have a: "append_journal u64_max cs (Some (replay_entry_new (length cs) (ack_line out))) ?t = (r, s')"
      by (simp add: record_control_def next_sequence_def Let_def)
    have "cs = bs" using append_journal_sequence [OF a] Inr bs by simp
    with append_journal_rep [OF t a] room encode_json_line_terminated [OF Inr] t show ?thesis
      by (auto simp: replay_entry_new_def)
  qed
qed

lemma record_control_encodes:
  "record_control jj path payload out role ticket s = (Ok x, s') \<Longrightarrow>
    \<exists>bs. encode_json_line jj (control_entry (as_sequence s') path payload out role ticket) = Ok bs"
  by (auto simp: record_control_def next_sequence_def Let_def split: sum.splits dest!: append_journal_sequence)

lemma append_journal_err: "append_journal offset data entry s = (Err e, s') \<Longrightarrow> s' = s"
  by (erule append_journal_cases)
    (auto simp: bounded_log_append_def Let_def split: prod.splits if_splits)

lemma record_control_err_rep:
  "audit_rep cfg (s, h) \<Longrightarrow> record_control jj path payload out role ticket s = (Err e, s') \<Longrightarrow> audit_rep cfg (s', h)"
  by (auto simp: record_control_def next_sequence_def Let_def audit_rep_def split: sum.splits
    dest!: append_journal_err)

lemma audit_step_rep:
  assumes "audit_rep cfg (s, h)" and "audit_step pv jj dj (s, h) e = (s', h')" and "journal_bytes h' \<le> u64_max"
  shows "audit_rep cfg (s', h')"
proof (cases e)
  case (ManualEntry offset data)
  obtain r t where a: "append_manual_journal pv offset data s = (r, t)" by force
  show ?thesis
  proof (cases "validate_json_lines pv data ''audit journal''")
    case (Inl e)
    with a assms ManualEntry show ?thesis
      by (auto simp: append_manual_journal_def st_defs st_bind_def audit_step_def)
  next
    case (Inr u)
    with a have "append_journal offset data None s = (r, t)"
      by (simp add: append_manual_journal_def st_defs st_bind_def)
    from append_journal_rep [OF assms(1) this] assms a ManualEntry show ?thesis
      by (cases r) (auto simp: audit_step_def journal_bytes_def)
  qed
next
  case (ControlEntry path payload out role ticket)
  obtain r t where a: "record_control jj path payload out role ticket s = (r, t)" by force
  show ?thesis
  proof (cases r)
    case (Inl e)
    with a assms ControlEntry record_control_err_rep [OF assms(1)] show ?thesis
      by (auto simp: audit_step_def)
  next
    case (Inr x)
    with record_control_encodes a obtain bs where bs:
      "encode_json_line jj (control_entry (as_sequence t) path payload out role ticket) = Ok bs"
      by blast
    have "s' = t" "h' = h @ [(bs, Some (ack_line out))]"
      using assms(2) a Inr bs ControlEntry by (simp_all add: audit_step_def)
    with record_control_rep [OF assms(1) a bs] assms(3) Inr show ?thesis
      by (simp add: journal_bytes_def)
  qed
next
  case (ActionDecision d role ticket)
  with assms record_decision_rep [OF assms(1)] show ?thesis
    by (auto simp: audit_step_def record_decision_action_def)
next
  case (GateDecision d role ticket)
  with assms record_decision_rep [OF assms(1)] show ?thesis
    by (auto simp: audit_step_def record_decision_gate_def)
qed

lemma audit_step_history: "prefix (snd sh) (snd (audit_step pv jj dj sh e))"
  by (auto simp: audit_step_def split: prod.splits audit_event.splits sum.splits)

lemma audit_run_history: "prefix (snd sh) (snd (foldl (audit_step pv jj dj) sh es))"
proof (induction es arbitrary: sh)
  case (Cons e es)
  from audit_step_history [of sh pv jj dj e] Cons [of "audit_step pv jj dj sh e"] show ?case
    by (auto intro: prefix_order.trans)
qed simp

lemma journal_bytes_mono: "prefix h h' \<Longrightarrow> journal_bytes h \<le> journal_bytes h'"
  by (auto simp: journal_bytes_def prefix_def)

lemma audit_run_rep:
  "audit_rep cfg sh \<Longrightarrow> journal_bytes (snd (foldl (audit_step pv jj dj) sh es)) \<le> u64_max \<Longrightarrow>
    audit_rep cfg (foldl (audit_step pv jj dj) sh es)"
proof (induction es arbitrary: sh)
  case (Cons e es)
  have "journal_bytes (snd (audit_step pv jj dj sh e)) \<le> u64_max"
    using journal_bytes_mono [OF audit_run_history [of "audit_step pv jj dj sh e" pv jj dj es]] Cons.prems(2)
    by simp
  with Cons.prems(1) audit_step_rep have "audit_rep cfg (audit_step pv jj dj sh e)"
    by (cases sh; cases "audit_step pv jj dj sh e") auto
  with Cons show ?case by simp
qed simp

lemma audit_rep_new: "audit_rep cfg (audit_store_new cfg, [])"
  by (simp add: audit_rep_def audit_store_new_def refresh_export_snapshot_def log_rep_new)
    (simp add: bounded_log_new_def)

subsection \<open>Replay\<close>

text \<open>The acknowledgements of a history whose entries end after an offset.\<close>

definition acks_after :: "nat \<Rightarrow> journal_history \<Rightarrow> string list" where
  "acks_after from h = map re_ack_line (filter (\<lambda>e. from < re_offset_end e) (replay_of 0 h))"

lemma summarise_eq:
  "summarise from m es count acks =
    (let new = filter (\<lambda>e. from < re_offset_end e) es
     in if length new = 0 \<or> count + length new \<le> m
        then Ok (count + length new, acks @ concat (map (\<lambda>e. re_ack_line e @ newline) new))
        else Err (TooManyEntries (max m count + 1) m))"
  by (induction "from" m es count acks rule: summarise.induct) (auto simp: Let_def not_le max_def)

subsection \<open>Properties\<close>

text \<open>
  C35: The journal forgets whole entries, the oldest first, and no more than it must. After any
  run on a fresh store it holds the longest suffix of the accepted entries that fits its capacity,
  byte for byte; its base offset is where that suffix starts in everything ever accepted and its
  next offset is the end, so an entry keeps its offsets for as long as it is kept.
\<close>

theorem audit_journal_keeps_longest_suffix:
  assumes "foldl (audit_step pv jj dj) (audit_store_new cfg, []) es = (s, h)"
    and "journal_bytes h \<le> u64_max"
  shows "let capacity = max (al_journal_max_bytes (ac_limits cfg)) 1; kept = map le_bytes (bl_entries (as_journal s))
    in suffix kept (map fst h) \<and> length (concat kept) \<le> capacity \<and>
      (\<forall>longer. suffix longer (map fst h) \<and> length (concat longer) \<le> capacity \<longrightarrow> suffix longer kept) \<and>
      log_snapshot (as_journal s) = concat kept \<and>
      bl_base_offset (as_journal s) + length (concat kept) = journal_bytes h \<and>
      bl_next_offset (as_journal s) = journal_bytes h"
proof -
  let ?ds = "map fst h" and ?c = "max (al_journal_max_bytes (ac_limits cfg)) 1"
  have "audit_rep cfg (s, h)"
    using audit_run_rep [OF audit_rep_new, where pv = pv and jj = jj and dj = dj and es = es and cfg = cfg] assms by simp
  then have "map le_bytes (bl_entries (as_journal s)) = fitting ?c ?ds"
    "bl_base_offset (as_journal s) = length (concat ?ds) - length (concat (fitting ?c ?ds))"
    "bl_next_offset (as_journal s) = length (concat ?ds)"
    by (simp_all add: audit_rep_def log_rep_def Let_def)
  with fitting_bounds [of ?c ?ds] fitting_longest [of _ ?ds ?c] show ?thesis
    by (simp add: Let_def log_snapshot_def journal_bytes_def)
qed

text \<open>A control write and a manual entry in a journal that has room for one of them only.\<close>

definition sample_audit_config :: audit_config where
  "sample_audit_config = audit_enabled \<lparr>al_journal_max_bytes = 4, al_decisions_max_bytes = 4\<rparr> (replay_enabled 8 64 64)"

definition sample_audit_run :: "audit_event list \<Rightarrow> audit_store \<times> journal_history" where
  "sample_audit_run es =
     foldl (audit_step (\<lambda>_. Ok ()) (\<lambda>_. Ok ''{}'') (\<lambda>_. Ok ''{}'')) (audit_store_new sample_audit_config, []) es"

definition sample_control :: audit_event where
  "sample_control = ControlEntry ''/queen/ctl'' [] control_ok None None"

lemma sample_audit_valid: "validate_json_lines (\<lambda>_. Ok ()) [0x5B, 0x5D] ''audit journal'' = Ok ()"
  by code_simp

lemmas audit_eval = sample_audit_run_def sample_audit_config_def sample_control_def audit_enabled_def
  audit_store_new_def refresh_export_snapshot_def bounded_log_new_def audit_step_def record_control_def
  next_sequence_def encode_json_line_def ensure_line_terminated_def append_journal_def
  append_only_write_bounds_def bounded_log_append_def trim_replay_entries_def push_replay_def
  replay_entry_new_def append_manual_journal_def sample_audit_valid st_bind_def st_lift_def Let_def

lemma sample_audit_run_eval:
  "snd (sample_audit_run [sample_control, ManualEntry u64_max [0x5B, 0x5D]]) =
    [([0x7B, 0x7D, 0x0A], Some ''OK''), ([0x5B, 0x5D, 0x0A], None)]"
  "bl_base_offset (as_journal (fst (sample_audit_run [sample_control, ManualEntry u64_max [0x5B, 0x5D]]))) = 3"
  "snd (sample_audit_run [sample_control]) = [([0x7B, 0x7D, 0x0A], Some ''OK'')]"
  "bl_base_offset (as_journal (fst (sample_audit_run [sample_control]))) = 0"
  by (simp_all add: audit_eval control_ok_def ack_line_def str_bytes_def char_byte_def sat_add_def u64_max_def)

theorem audit_journal_keeps_longest_suffix_witness:
  "log_snapshot (as_journal (fst (sample_audit_run [sample_control, ManualEntry u64_max [0x5B, 0x5D]])))
    = [0x5B, 0x5D, 0x0A]"
proof -
  let ?es = "[sample_control, ManualEntry u64_max [0x5B, 0x5D]]"
  obtain s h where r: "sample_audit_run ?es = (s, h)" by force
  with sample_audit_run_eval(1,2) have h: "map fst h = [[0x7B, 0x7D, 0x0A], [0x5B, 0x5D, 0x0A]]"
    and b: "bl_base_offset (as_journal s) = 3" and j: "journal_bytes h = 6"
    by (simp_all add: journal_bytes_def)
  let ?k = "map le_bytes (bl_entries (as_journal s))"
  from audit_journal_keeps_longest_suffix [OF r [unfolded sample_audit_run_def]] b j h
  have "suffix ?k [[0x7B, 0x7D, 0x0A], [0x5B, 0x5D, 0x0A]]" "length (concat ?k) = 3"
    and l: "log_snapshot (as_journal s) = concat ?k"
    by (simp_all add: Let_def u64_max_def)
  then have "?k = [[0x5B, 0x5D, 0x0A]]" by (auto simp: suffix_Cons)
  with l r show ?thesis by simp
qed

text \<open>
  A replay reports exactly the recorded control outcomes. After any run on a fresh store, a
  replay from an offset inside the retained journal returns, in order, the acknowledgement of
  every control write whose entry ends after that offset and of no other; it fails only when the
  offset is outside the journal or there are more entries than asked for, and the error says which.
\<close>

theorem replay_summary_exact:
  assumes "foldl (audit_step pv jj dj) (audit_store_new cfg, []) es = (s, h)"
    and "journal_bytes h \<le> u64_max"
  shows "replay_summary s from m =
    (let base = bl_base_offset (as_journal s); acks = acks_after from h
     in if from < base then Inl (ReplayStale from base)
        else if journal_bytes h < from then Inl (ReplayFuture from (journal_bytes h))
        else if length acks \<le> m
        then Inr \<lparr>rs_from = from, rs_to = journal_bytes h, rs_entries = length acks,
                  rs_sequence = concat (map (\<lambda>a. a @ newline) acks)\<rparr>
        else Inl (TooManyEntries (m + 1) m))"
proof -
  have rep: "audit_rep cfg (s, h)"
    using audit_run_rep [OF audit_rep_new, where pv = pv and jj = jj and dj = dj and es = es and cfg = cfg] assms by simp
  then have n: "bl_next_offset (as_journal s) = journal_bytes h"
    by (simp add: audit_rep_def log_rep_def Let_def journal_bytes_def)
  have f: "filter (\<lambda>e. from < re_offset_end e) (as_replay_entries s) =
      filter (\<lambda>e. from < re_offset_end e) (replay_of 0 h)" if "bl_base_offset (as_journal s) \<le> from"
    using rep that by (auto simp: audit_rep_def intro: filter_cong)
  show ?thesis
    by (auto simp: replay_summary_def n summarise_eq f acks_after_def Let_def comp_def not_less)
qed

theorem replay_summary_exact_witness:
  "replay_summary (fst (sample_audit_run [sample_control])) 0 8 =
    Inr \<lparr>rs_from = 0, rs_to = 3, rs_entries = 1, rs_sequence = ''OK'' @ newline\<rparr>"
proof -
  obtain s h where r: "sample_audit_run [sample_control] = (s, h)" by force
  with sample_audit_run_eval(3,4) have "h = [([0x7B, 0x7D, 0x0A], Some ''OK'')]"
    "bl_base_offset (as_journal s) = 0" by simp_all
  with replay_summary_exact [OF r [unfolded sample_audit_run_def], of 0 8] r show ?thesis
    by (simp add: journal_bytes_def acks_after_def u64_max_def)
qed

end
