(* ===== verification/Replay.thy ===== *)
theory Replay
  imports Audit_Store
begin

unbundle bit_operations_syntax

section \<open>Replay control\<close>

text \<open>
  \<open>src/apps/nine-door/src/host/replay.rs\<close>: the control log of \<open>/replay/ctl\<close>, whose writes carry one
  command each, and the status file of the last replay. \<open>serde_json\<close> is the arguments
  \<open>parse_from\<close>, the start offset a command line asks for, and \<open>error_json\<close>, the rendering of an
  error status.
\<close>

record replay_state =
  rp_config :: replay_config
  rp_ctl_log :: bytes
  rp_status :: bytes

definition replay_state_new :: "replay_config \<Rightarrow> replay_state" where
  "replay_state_new config =
     \<lparr>rp_config = config, rp_ctl_log = [],
      rp_status = (if rc_enabled config
        then str_bytes (''{'' @ quoted ''state'' @ '':'' @ quoted ''idle'' @ ''}'' @ newline) else [])\<rparr>"

text \<open>The loop over the lines of a control write: at most one of them may hold a command.\<close>

fun parse_replay_lines ::
  "(string \<Rightarrow> string + nat) \<Rightarrow> string list \<Rightarrow> nat option \<Rightarrow> ninedoor_error + nat option" where
  "parse_replay_lines parse_from [] parsed = Ok parsed"
| "parse_replay_lines parse_from (line # rest) parsed =
     (let trimmed = trim line
      in if trimmed = [] then parse_replay_lines parse_from rest parsed
         else if parsed \<noteq> None
         then Err (Protocol EInvalid ''replay control accepts one command per write'')
         else and_then
           (map_err (\<lambda>err. Protocol EInvalid (''invalid replay command: '' @ err)) (parse_from trimmed))
           (\<lambda>c. parse_replay_lines parse_from rest (Some c)))"

definition replay_append_ctl ::
  "(string \<Rightarrow> string + nat) \<Rightarrow> nat \<Rightarrow> bytes \<Rightarrow> (replay_state, ninedoor_error, nat) st_op" where
  "replay_append_ctl parse_from offset data s =
     (let payload = ensure_line_terminated data;
          limit = rc_ctl_max_bytes (rp_config s)
      in case and_then (utf8_text data ''replay control'') (\<lambda>t.
              and_then (parse_replay_lines parse_from (str_lines t) None) (\<lambda>parsed.
              and_then (ok_or parsed (Protocol EInvalid ''replay control missing command'')) (\<lambda>command.
              and_then (apply_append (length (rp_ctl_log s)) offset limit (length payload) ''replay control'')
                (\<lambda>bounds. Ok (command, bounds))))) of
           Err e \<Rightarrow> (Err e, s)
         | Ok (command, bounds) \<Rightarrow>
             if awb_short bounds
             then (Err (Protocol ETooBig (''replay control exceeds max bytes '' @ show_nat limit)), s)
             else (Ok command, s\<lparr>rp_ctl_log := rp_ctl_log s @ take (awb_len bounds) payload\<rparr>))"

text \<open>The hash of a replayed sequence: \<open>wrapping_mul\<close> is multiplication of words.\<close>

definition fnv1a64 :: "bytes \<Rightarrow> u64" where
  "fnv1a64 bs = foldl (\<lambda>hash b. (hash XOR ucast b) * 0x100000001b3) 0xcbf29ce484222325 bs"

definition show_016x :: "u64 \<Rightarrow> string" where
  "show_016x w = concat (map show_byte_02x (rev (to_le_bytes w)))"

definition replay_set_status :: "string \<Rightarrow> (replay_state, ninedoor_error, unit) st_op" where
  "replay_set_status payload s =
     (let limit = rc_status_max_bytes (rp_config s)
      in if length payload > limit
         then (Err (Protocol ETooBig (''replay status exceeds max bytes '' @ show_nat limit)), s)
         else (Ok (), s\<lparr>rp_status := str_bytes payload\<rparr>))"

definition set_status_ok :: "replay_summary_rec \<Rightarrow> (replay_state, ninedoor_error, unit) st_op" where
  "set_status_ok summary =
     replay_set_status
       (''{'' @ quoted ''state'' @ '':'' @ quoted ''ok''
         @ '','' @ quoted ''from'' @ '':'' @ show_nat (rs_from summary)
         @ '','' @ quoted ''to'' @ '':'' @ show_nat (rs_to summary)
         @ '','' @ quoted ''entries'' @ '':'' @ show_nat (rs_entries summary)
         @ '','' @ quoted ''match'' @ '':true''
         @ '','' @ quoted ''sequence_fnv1a'' @ '':''
         @ quoted (show_016x (fnv1a64 (str_bytes (rs_sequence summary)))) @ ''}'' @ newline)"

definition set_status_err ::
  "(string \<Rightarrow> string + string) \<Rightarrow> string \<Rightarrow> (replay_state, ninedoor_error, unit) st_op" where
  "set_status_err error_json message =
     st_bind (st_lift (map_err (\<lambda>err. Protocol EInvalid (''replay status encode failed: '' @ err))
         (error_json message)))
       (\<lambda>payload. replay_set_status (payload @ newline))"

section \<open>Correctness\<close>

lemma replay_append_ctl_Ok:
  assumes "replay_append_ctl parse_from offset data s = (Ok c, s')"
  shows "rp_ctl_log s' = rp_ctl_log s @ ensure_line_terminated data"
    and "offset = u64_max \<or> offset = length (rp_ctl_log s)"
    and "length (ensure_line_terminated data) \<le> rc_ctl_max_bytes (rp_config s)"
    and "rp_config s' = rp_config s"
  using assms
  by (auto simp: replay_append_ctl_def Let_def apply_append_def append_only_write_bounds_def outcome_splits
    split: sum.splits if_splits)

lemma replay_append_ctl_Err: "replay_append_ctl parse_from offset data s = (Err e, s') \<Longrightarrow> s' = s"
  by (auto simp: replay_append_ctl_def Let_def split: sum.splits if_splits)

end
