(* ===== verification/Utf8_Chars.thy ===== *)
theory Utf8_Chars
  imports Cohesix_Prelude
begin

section \<open>The characters of a string\<close>

text \<open>
  Strings are UTF-8 byte strings. This theory splits them into the encodings of their characters
  and shows what such an encoding looks like.
\<close>

text \<open>\<open>chars\<close>: the encodings of the characters of a string, by the width their first byte gives.\<close>

definition utf8_width :: "char \<Rightarrow> nat" where
  "utf8_width c =
     (let b = (of_char c :: nat) in if b < 0x80 then 1 else if b < 0xE0 then 2 else if b < 0xF0 then 3 else 4)"

function utf8_chars :: "string \<Rightarrow> string list" where
  "utf8_chars [] = []"
| "utf8_chars (c # cs) = (c # take (utf8_width c - 1) cs) # utf8_chars (drop (utf8_width c - 1) cs)"
  by pat_completeness auto
termination
  by (relation "measure length") auto

lemma concat_utf8_chars [simp]: "concat (utf8_chars s) = s"
  by (induction s rule: utf8_chars.induct) auto

lemma utf8_chars_nonempty: "ch \<in> set (utf8_chars s) \<Longrightarrow> ch \<noteq> []"
  by (induction s rule: utf8_chars.induct) auto

lemma unat_char_byte: "unat (char_byte c) = of_char c"
  by (simp add: char_byte_def unat_of_nat)

lemma utf8_high: "utf8_cont (char_byte c) \<Longrightarrow> 0x80 \<le> (of_char c :: nat)"
  "utf8_second3 b (char_byte c) \<Longrightarrow> 0x80 \<le> (of_char c :: nat)"
  "utf8_second4 b (char_byte c) \<Longrightarrow> 0x80 \<le> (of_char c :: nat)"
  by (simp_all add: utf8_cont_def utf8_second3_def utf8_second4_def word_le_nat_alt unat_char_byte
    split: if_splits)

lemma utf8_str_cases:
  assumes "utf8_str (c # cs)"
  obtains (one) "(of_char c :: nat) < 0x80" "utf8_str cs"
  | (two) d r where "0x80 \<le> (of_char c :: nat)" "(of_char c :: nat) < 0xE0" "cs = d # r"
      "0x80 \<le> (of_char d :: nat)" "utf8_str r"
  | (three) d e r where "0xE0 \<le> (of_char c :: nat)" "(of_char c :: nat) < 0xF0" "cs = d # e # r"
      "0x80 \<le> (of_char d :: nat)" "0x80 \<le> (of_char e :: nat)" "utf8_str r"
  | (four) d e f r where "0xF0 \<le> (of_char c :: nat)" "cs = d # e # f # r"
      "0x80 \<le> (of_char d :: nat)" "0x80 \<le> (of_char e :: nat)" "0x80 \<le> (of_char f :: nat)" "utf8_str r"
proof -
  let ?b = "char_byte c"
  consider "?b \<le> 0x7F" | "\<not> ?b \<le> 0x7F" "0xC2 \<le> ?b" "?b \<le> 0xDF" | "\<not> ?b \<le> 0x7F" "\<not> (0xC2 \<le> ?b \<and> ?b \<le> 0xDF)" "0xE0 \<le> ?b" "?b \<le> 0xEF"
    | "\<not> ?b \<le> 0x7F" "\<not> (0xC2 \<le> ?b \<and> ?b \<le> 0xDF)" "\<not> (0xE0 \<le> ?b \<and> ?b \<le> 0xEF)" "0xF0 \<le> ?b" "?b \<le> 0xF4"
    using assms by (fastforce simp: utf8_str_def str_bytes_def split: if_splits)
  then show thesis
  proof cases
    case 1
    with assms show thesis
      by (intro one) (simp_all add: utf8_str_def str_bytes_def word_le_nat_alt unat_char_byte)
  next
    case 2
    with assms obtain d r where "cs = d # r" "utf8_cont (char_byte d)" "utf8_str r"
      by (cases cs) (simp_all add: utf8_str_def str_bytes_def)
    with 2 show thesis by (intro two) (auto dest: utf8_high simp: word_le_nat_alt unat_char_byte)
  next
    case 3
    with assms obtain d e r where "cs = d # e # r" "utf8_second3 ?b (char_byte d)" "utf8_cont (char_byte e)" "utf8_str r"
      by (cases cs; cases "tl cs") (simp_all add: utf8_str_def str_bytes_def)
    with 3 show thesis by (intro three) (auto dest: utf8_high simp: word_le_nat_alt unat_char_byte)
  next
    case 4
    with assms obtain d e f r where "cs = d # e # f # r" "utf8_second4 ?b (char_byte d)"
      "utf8_cont (char_byte e)" "utf8_cont (char_byte f)" "utf8_str r"
      by (cases cs; cases "tl cs"; cases "tl (tl cs)") (simp_all add: utf8_str_def str_bytes_def)
    with 4 show thesis by (intro four) (auto dest: utf8_high simp: word_le_nat_alt unat_char_byte)
  qed
qed

lemma utf8_chars_shape:
  "utf8_str s \<Longrightarrow> ch \<in> set (utf8_chars s) \<Longrightarrow>
    (\<exists>c. ch = [c] \<and> (of_char c :: nat) < 0x80) \<or> (2 \<le> length ch \<and> (\<forall>b \<in> set ch. 0x80 \<le> (of_char b :: nat)))"
proof (induction s rule: utf8_chars.induct)
  case (2 c cs)
  from 2(2) show ?case
  proof (cases rule: utf8_str_cases)
    case one
    with 2(1,3) show ?thesis by (auto simp: utf8_width_def)
  next
    case (two d r)
    with 2(1,3) show ?thesis by (auto simp: utf8_width_def)
  next
    case (three d e r)
    with 2(1,3) show ?thesis by (auto simp: utf8_width_def)
  next
    case (four d e f r)
    with 2(1,3) show ?thesis by (auto simp: utf8_width_def)
  qed
qed simp
text \<open>A first character and a string make a string.\<close>

lemma utf8_str_join:
  assumes "utf8_str (c # cs)" and "utf8_str t"
  shows "utf8_str (c # take (utf8_width c - 1) cs @ t)"
  using assms(1)
proof (cases rule: utf8_str_cases)
  case one
  with assms show ?thesis by (simp add: utf8_width_def utf8_str_def str_bytes_def word_le_nat_alt unat_char_byte)
next
  case (two d r)
  with assms show ?thesis
    by (auto simp: utf8_width_def utf8_str_def str_bytes_def word_le_nat_alt unat_char_byte split: if_splits)
next
  case (three d e r)
  with assms show ?thesis
    by (auto simp: utf8_width_def utf8_str_def str_bytes_def word_le_nat_alt unat_char_byte split: if_splits)
next
  case (four d e f r)
  with assms show ?thesis
    by (auto simp: utf8_width_def utf8_str_def str_bytes_def word_le_nat_alt unat_char_byte split: if_splits)
qed

lemma utf8_str_tail: "utf8_str (c # cs) \<Longrightarrow> utf8_str (drop (utf8_width c - 1) cs)"
  by (erule utf8_str_cases) (simp_all add: utf8_width_def)

lemma utf8_str_take_chars: "utf8_str s \<Longrightarrow> utf8_str (concat (take k (utf8_chars s)))"
proof (induction s arbitrary: k rule: utf8_chars.induct)
  case 1
  then show ?case by simp
next
  case (2 c cs)
  show ?case
  proof (cases k)
    case 0
    then show ?thesis by (simp add: utf8_str_def str_bytes_def)
  next
    case (Suc j)
    from 2 utf8_str_tail utf8_str_join [OF 2(2)] have
      "utf8_str (c # take (utf8_width c - 1) cs @ concat (take j (utf8_chars (drop (utf8_width c - 1) cs))))"
      by blast
    with Suc show ?thesis by simp
  qed
qed

end
