(* ===== verification/Trace_Fs.thy ===== *)
theory Trace_Fs
  imports Json_Log Bounded_Writer Utf8_Chars
begin

section \<open>Trace events and the trace file system\<close>

text \<open>
  \<open>src/crates/trace-model/src/lib.rs\<close>: events of bounded size and their JSON lines, built in a
  buffer of 256 bytes. \<open>src/apps/nine-door/src/host/tracefs.rs\<close>: the ring of recorded events, the
  filter and its control file. \<open>SystemTime\<close> is the argument \<open>now_ms\<close> of the operation that reads
  it; the reader of \<open>serde_json\<close> is the argument \<open>parse_set\<close>. A heapless string of capacity \<open>n\<close>
  is a string of at most \<open>n\<close> bytes, and a push that does not fit leaves it as it is.
\<close>

subsection \<open>Events\<close>

definition CATEGORY_CAPACITY :: nat where
  "CATEGORY_CAPACITY = 16"

definition TASK_CAPACITY :: nat where
  "TASK_CAPACITY = 32"

definition MESSAGE_CAPACITY :: nat where
  "MESSAGE_CAPACITY = 192"

definition JSON_LINE_CAPACITY :: nat where
  "JSON_LINE_CAPACITY = 256"

datatype trace_level = TlError | TlWarn | TlInfo | TlDebug | TlTrace

definition trace_level_str :: "trace_level \<Rightarrow> string" where
  "trace_level_str l = (case l of
     TlError \<Rightarrow> ''error'' | TlWarn \<Rightarrow> ''warn'' | TlInfo \<Rightarrow> ''info'' | TlDebug \<Rightarrow> ''debug''
   | TlTrace \<Rightarrow> ''trace'')"

definition trace_priority :: "trace_level \<Rightarrow> nat" where
  "trace_priority l = (case l of
     TlError \<Rightarrow> 0 | TlWarn \<Rightarrow> 1 | TlInfo \<Rightarrow> 2 | TlDebug \<Rightarrow> 3 | TlTrace \<Rightarrow> 4)"

definition trace_level_from_str :: "string \<Rightarrow> trace_level option" where
  "trace_level_from_str s =
     (if s = ''error'' then Some TlError else if s = ''warn'' then Some TlWarn
      else if s = ''info'' then Some TlInfo else if s = ''debug'' then Some TlDebug
      else if s = ''trace'' then Some TlTrace else None)"

record trace_event =
  te_sequence :: nat
  te_timestamp_ms :: nat
  te_level :: trace_level
  te_category :: string
  te_task :: "string option"
  te_text :: string

text \<open>\<open>push_truncated\<close>: characters are pushed until one does not fit.\<close>

fun push_chars :: "nat \<Rightarrow> string \<Rightarrow> string list \<Rightarrow> string" where
  "push_chars capacity target [] = target"
| "push_chars capacity target (ch # chs) =
     (if length target + length ch \<le> capacity then push_chars capacity (target @ ch) chs else target)"

definition push_truncated :: "nat \<Rightarrow> string \<Rightarrow> string" where
  "push_truncated capacity v = push_chars capacity [] (utf8_chars v)"

definition trace_event_new ::
  "nat \<Rightarrow> nat \<Rightarrow> trace_level \<Rightarrow> string \<Rightarrow> string option \<Rightarrow> string \<Rightarrow> trace_event" where
  "trace_event_new seq timestamp_ms level category task message =
     \<lparr>te_sequence = seq, te_timestamp_ms = timestamp_ms, te_level = level,
      te_category = push_truncated CATEGORY_CAPACITY category,
      te_task = map_option (push_truncated TASK_CAPACITY) task,
      te_text = push_truncated MESSAGE_CAPACITY message\<rparr>"

subsection \<open>JSON lines\<close>

datatype trace_error = JsonOverflow

type_synonym line_op = "(string, trace_error, unit) st_op"

definition line_push :: "string \<Rightarrow> line_op" where
  "line_push v line =
     (if length line + length v > JSON_LINE_CAPACITY then (Err JsonOverflow, line) else (Ok (), line @ v))"

definition hex_digit :: "nat \<Rightarrow> char" where
  "hex_digit n = (if n < 10 then char_of (48 + n) else char_of (87 + n))"

definition show_04x :: "nat \<Rightarrow> string" where
  "show_04x n = [hex_digit (n div 4096 mod 16), hex_digit (n div 256 mod 16), hex_digit (n div 16 mod 16),
     hex_digit (n mod 16)]"

text \<open>The code of a control character (general category Cc), from its encoding.\<close>

definition control_code :: "string \<Rightarrow> nat option" where
  "control_code ch = (case ch of
     [c] \<Rightarrow> (let b = (of_char c :: nat) in if b < 0x20 \<or> b = 0x7F then Some b else None)
   | [c, d] \<Rightarrow>
       (let b = (of_char c :: nat); e = (of_char d :: nat)
        in if b = 0xC2 \<and> 0x80 \<le> e \<and> e < 0xA0 then Some e else None)
   | _ \<Rightarrow> None)"

definition json_escape :: "string \<Rightarrow> string" where
  "json_escape ch =
     (if ch = [CHR 0x22] then [CHR 0x5C, CHR 0x22]
      else if ch = [CHR 0x5C] then [CHR 0x5C, CHR 0x5C]
      else if ch = [CHR 0x0A] then [CHR 0x5C, CHR ''n'']
      else if ch = [CHR 0x0D] then [CHR 0x5C, CHR ''r'']
      else if ch = [CHR 0x09] then [CHR 0x5C, CHR ''t'']
      else (case control_code ch of
         Some n \<Rightarrow> [CHR 0x5C, CHR ''u''] @ show_04x n
       | None \<Rightarrow> ch))"

definition append_json_string :: "string \<Rightarrow> line_op" where
  "append_json_string v = st_for (\<lambda>ch. line_push (json_escape ch)) (utf8_chars v)"

definition dq :: string where
  "dq = [CHR 0x22]"

definition to_json_line_op :: "trace_event \<Rightarrow> line_op" where
  "to_json_line_op e =
     st_then (line_push (''{'' @ dq @ ''seq'' @ dq @ '':'' @ show_nat (te_sequence e)
       @ '','' @ dq @ ''ts_ms'' @ dq @ '':'' @ show_nat (te_timestamp_ms e)
       @ '','' @ dq @ ''level'' @ dq @ '':'' @ dq @ trace_level_str (te_level e) @ dq
       @ '','' @ dq @ ''cat'' @ dq @ '':'' @ dq))
     (st_then (append_json_string (te_category e))
     (st_then (line_push dq)
     (st_then (case te_task e of
         None \<Rightarrow> st_return ()
       | Some task \<Rightarrow>
           st_then (line_push ('','' @ dq @ ''task'' @ dq @ '':'' @ dq))
           (st_then (append_json_string task) (line_push dq)))
     (st_then (line_push ('','' @ dq @ ''msg'' @ dq @ '':'' @ dq))
     (st_then (append_json_string (te_text e))
       (line_push (dq @ ''}'')))))))"

definition to_json_line :: "trace_event \<Rightarrow> trace_error + string" where
  "to_json_line e = (case to_json_line_op e [] of (Ok _, line) \<Rightarrow> Ok line | (Err err, _) \<Rightarrow> Err err)"

subsection \<open>The trace file system\<close>

definition DEFAULT_RING_CAPACITY :: nat where
  "DEFAULT_RING_CAPACITY = 256"

record stored_event =
  se_event :: trace_event
  se_line :: string

record trace_filter =
  tf_level :: trace_level
  tf_categories :: "string set option"

record trace_fs =
  fs_ring :: "stored_event list"
  fs_capacity :: nat
  fs_filter :: trace_filter
  fs_ctl_log :: bytes

record trace_ctl_set =
  tc_level :: "string option"
  tc_cats :: "string list option"

definition trace_filter_default :: trace_filter where
  "trace_filter_default = \<lparr>tf_level = TlInfo, tf_categories = None\<rparr>"

definition filter_allows :: "trace_filter \<Rightarrow> trace_level \<Rightarrow> string \<Rightarrow> bool" where
  "filter_allows f level category =
     (if trace_priority level > trace_priority (tf_level f) then False
      else (case tf_categories f of Some cats \<Rightarrow> category \<in> cats | None \<Rightarrow> True))"

definition filter_update :: "trace_ctl_set \<Rightarrow> (trace_filter, ninedoor_error, unit) st_op" where
  "filter_update c f =
     (if tc_cats c = Some [] then (Err (Protocol EInvalid ''category filter must not be empty''), f)
      else
        let cats = map_option set (tc_cats c)
        in (case tc_level c of
              None \<Rightarrow> (Ok (), f\<lparr>tf_categories := cats\<rparr>)
            | Some level \<Rightarrow>
                (case trace_level_from_str level of
                   None \<Rightarrow> (Err (Protocol EInvalid
                     (''unknown trace level '' @ [CHR 0x27] @ level @ [CHR 0x27])), f)
                 | Some parsed \<Rightarrow> (Ok (), f\<lparr>tf_level := parsed, tf_categories := cats\<rparr>))))"

definition trace_record ::
  "nat \<Rightarrow> trace_level \<Rightarrow> string \<Rightarrow> string option \<Rightarrow> string \<Rightarrow> trace_fs \<Rightarrow> trace_fs" where
  "trace_record now_ms level category task message fs =
     (if \<not> filter_allows (fs_filter fs) level category then fs
      else
        let seq = (if fs_ring fs = [] then 1 else te_sequence (se_event (last (fs_ring fs))) + 1);
            event = trace_event_new seq now_ms level category task message
        in (case to_json_line event of
              Err _ \<Rightarrow> fs
            | Ok json \<Rightarrow>
                let ring = (if length (fs_ring fs) = fs_capacity fs then tl (fs_ring fs) else fs_ring fs)
                in fs\<lparr>fs_ring := ring @ [\<lparr>se_event = event, se_line = json @ newline\<rparr>]\<rparr>))"

definition trace_fs_new :: "nat \<Rightarrow> trace_fs" where
  "trace_fs_new now_ms =
     trace_record now_ms TlInfo ''boot'' None ''tracefs initialised''
       \<lparr>fs_ring = [], fs_capacity = DEFAULT_RING_CAPACITY, fs_filter = trace_filter_default,
        fs_ctl_log = []\<rparr>"

definition read_filtered :: "(stored_event \<Rightarrow> bool) \<Rightarrow> trace_fs \<Rightarrow> nat \<Rightarrow> nat \<Rightarrow> bytes" where
  "read_filtered P fs offset count =
     read_slice (str_bytes (concat (map se_line (filter P (fs_ring fs))))) offset count"

definition read_events :: "trace_fs \<Rightarrow> nat \<Rightarrow> nat \<Rightarrow> bytes" where
  "read_events = read_filtered (\<lambda>_. True)"

definition read_kmesg :: "trace_fs \<Rightarrow> nat \<Rightarrow> nat \<Rightarrow> bytes" where
  "read_kmesg = read_filtered (\<lambda>e. te_category (se_event e) = ''kmesg'')"

definition read_task :: "string \<Rightarrow> trace_fs \<Rightarrow> nat \<Rightarrow> nat \<Rightarrow> bytes" where
  "read_task task = read_filtered (\<lambda>e. te_task (se_event e) = Some task)"

definition read_ctl :: "trace_fs \<Rightarrow> nat \<Rightarrow> nat \<Rightarrow> bytes" where
  "read_ctl fs offset count = read_slice (fs_ctl_log fs) offset count"

fun apply_commands ::
  "(string \<Rightarrow> string + trace_ctl_set) \<Rightarrow> string list \<Rightarrow> (trace_filter, ninedoor_error, unit) st_op" where
  "apply_commands parse_set [] = st_return ()"
| "apply_commands parse_set (line # rest) =
     (let trimmed = trim line
      in if trimmed = [] then apply_commands parse_set rest
         else
           st_bind (st_lift (map_err
               (\<lambda>err. Protocol EInvalid (''invalid trace control command: '' @ err))
               (parse_set trimmed)))
             (\<lambda>c. st_then (filter_update c) (apply_commands parse_set rest)))"

definition trace_write_ctl ::
  "(string \<Rightarrow> string + trace_ctl_set) \<Rightarrow> bytes \<Rightarrow> (trace_fs, ninedoor_error, nat) st_op" where
  "trace_write_ctl parse_set data fs =
     (let fs = fs\<lparr>fs_ctl_log := fs_ctl_log fs @ data\<rparr>
      in case from_utf8 data of
           None \<Rightarrow> (Err (Protocol EInvalid
             (''trace control must be UTF-8: '' @ utf8_error_text data)), fs)
         | Some t \<Rightarrow>
             (case apply_commands parse_set (str_lines t) (fs_filter fs) of
                (r, f) \<Rightarrow> (and_then r (\<lambda>_. Ok (as_u32 (length data))), fs\<lparr>fs_filter := f\<rparr>)))"

section \<open>Correctness\<close>

subsection \<open>Building a line\<close>

interpretation linew: bounded_writer "\<lambda>line. line" "\<lambda>v line. line @ v" "\<lambda>_. JSON_LINE_CAPACITY"
  "\<lambda>line. length line \<le> JSON_LINE_CAPACITY" JsonOverflow line_push
  by unfold_locales (auto simp: line_push_def)

definition json_text :: "string \<Rightarrow> string" where
  "json_text v = concat (map json_escape (utf8_chars v))"

lemma line_emits_text: "linew.emits (append_json_string v) (json_text v)"
  unfolding append_json_string_def json_text_def by (intro linew.emits_for linew.emits_push)

text \<open>The line of an event.\<close>

definition event_line :: "trace_event \<Rightarrow> string" where
  "event_line e =
     ''{'' @ dq @ ''seq'' @ dq @ '':'' @ show_nat (te_sequence e)
     @ '','' @ dq @ ''ts_ms'' @ dq @ '':'' @ show_nat (te_timestamp_ms e)
     @ '','' @ dq @ ''level'' @ dq @ '':'' @ dq @ trace_level_str (te_level e) @ dq
     @ '','' @ dq @ ''cat'' @ dq @ '':'' @ dq @ json_text (te_category e) @ dq
     @ (case te_task e of None \<Rightarrow> []
        | Some task \<Rightarrow> '','' @ dq @ ''task'' @ dq @ '':'' @ dq @ json_text task @ dq)
     @ '','' @ dq @ ''msg'' @ dq @ '':'' @ dq @ json_text (te_text e) @ dq @ ''}''"

lemma line_emits_event: "linew.emits (to_json_line_op e) (event_line e)"
proof -
  have t: "linew.emits (case te_task e of None \<Rightarrow> st_return ()
      | Some task \<Rightarrow> st_then (line_push ('','' @ dq @ ''task'' @ dq @ '':'' @ dq))
          (st_then (append_json_string task) (line_push dq)))
    (case te_task e of None \<Rightarrow> []
      | Some task \<Rightarrow> ('','' @ dq @ ''task'' @ dq @ '':'' @ dq) @ json_text task @ dq)"
    by (cases "te_task e")
      (simp_all only: option.case linew.emits_return linew.emits_then linew.emits_push line_emits_text)
  note e = linew.emits_then [OF linew.emits_push linew.emits_then [OF line_emits_text
    linew.emits_then [OF linew.emits_push linew.emits_then [OF t
      linew.emits_then [OF linew.emits_push linew.emits_then [OF line_emits_text linew.emits_push]]]]]]
  show ?thesis
    unfolding to_json_line_op_def event_line_def
    by (rule back_subst [where P = "linew.emits _", OF e]) (simp add: dq_def split: option.split)
qed

lemma to_json_line_eq:
  "to_json_line e =
    (if length (event_line e) \<le> JSON_LINE_CAPACITY then Ok (event_line e) else Err JsonOverflow)"
proof (cases "to_json_line_op e []")
  case (Pair r line)
  have "if length (event_line e) \<le> JSON_LINE_CAPACITY
      then to_json_line_op e [] = (Ok (), event_line e) else fst (to_json_line_op e []) = Err JsonOverflow"
    using linew.emitsD [OF line_emits_event, of "[]" e] by simp
  with Pair show ?thesis by (auto simp: to_json_line_def split: if_splits)
qed

subsection \<open>A reader of event lines\<close>

definition hex_value :: "char \<Rightarrow> nat option" where
  "hex_value c =
     (let b = (of_char c :: nat)
      in if 48 \<le> b \<and> b \<le> 57 then Some (b - 48) else if 97 \<le> b \<and> b \<le> 102 then Some (b - 87) else None)"

definition hex4_value :: "char \<Rightarrow> char \<Rightarrow> char \<Rightarrow> char \<Rightarrow> nat option" where
  "hex4_value a b c d =
     Option.bind (hex_value a) (\<lambda>w. Option.bind (hex_value b) (\<lambda>x. Option.bind (hex_value c) (\<lambda>y.
     Option.bind (hex_value d) (\<lambda>z. Some (((w * 16 + x) * 16 + y) * 16 + z)))))"

definition encode_code :: "nat \<Rightarrow> string" where
  "encode_code n =
     (if n < 0x80 then [char_of n]
      else if n < 0x800 then [char_of (0xC0 + n div 64), char_of (0x80 + n mod 64)]
      else [char_of (0xE0 + n div 4096), char_of (0x80 + n div 64 mod 64), char_of (0x80 + n mod 64)])"

definition simple_escape :: "char \<Rightarrow> char option" where
  "simple_escape d =
     (if d = CHR 0x22 then Some (CHR 0x22) else if d = CHR 0x5C then Some (CHR 0x5C)
      else if d = CHR ''n'' then Some (CHR 0x0A) else if d = CHR ''r'' then Some (CHR 0x0D)
      else if d = CHR ''t'' then Some (CHR 0x09) else None)"

text \<open>The body of a JSON string, up to its closing quote, and what follows.\<close>

fun json_string :: "string \<Rightarrow> (string \<times> string) option" where
  "json_string [] = None"
| "json_string (c # cs) =
     (if c = CHR 0x22 then Some ([], cs)
      else if c = CHR 0x5C then
        (case cs of
           [] \<Rightarrow> None
         | d # r \<Rightarrow>
             if d = CHR ''u'' then
               (case r of
                  h1 # h2 # h3 # h4 # r' \<Rightarrow>
                    Option.bind (hex4_value h1 h2 h3 h4) (\<lambda>n.
                      map_option (apfst (append (encode_code n))) (json_string r'))
                | _ \<Rightarrow> None)
             else Option.bind (simple_escape d) (\<lambda>v. map_option (apfst ((#) v)) (json_string r)))
      else if (of_char c :: nat) < 0x20 then None
      else map_option (apfst ((#) c)) (json_string cs))"

definition json_number :: "string \<Rightarrow> nat \<times> string" where
  "json_number s = (dec_value (takeWhile is_ascii_digit s), dropWhile is_ascii_digit s)"

definition parse_event_line :: "string \<Rightarrow> trace_event option" where
  "parse_event_line s =
     Option.bind (strip_prefix (''{'' @ dq @ ''seq'' @ dq @ '':'') s) (\<lambda>s.
     let (seq, s) = json_number s in
     Option.bind (strip_prefix ('','' @ dq @ ''ts_ms'' @ dq @ '':'') s) (\<lambda>s.
     let (ts, s) = json_number s in
     Option.bind (strip_prefix ('','' @ dq @ ''level'' @ dq @ '':'' @ dq) s) (\<lambda>s.
     Option.bind (json_string s) (\<lambda>(level, s).
     Option.bind (trace_level_from_str level) (\<lambda>level.
     Option.bind (strip_prefix ('','' @ dq @ ''cat'' @ dq @ '':'' @ dq) s) (\<lambda>s.
     Option.bind (json_string s) (\<lambda>(cat, s).
     Option.bind (case strip_prefix ('','' @ dq @ ''task'' @ dq @ '':'' @ dq) s of
         None \<Rightarrow> Some (None, s)
       | Some s \<Rightarrow> map_option (apfst Some) (json_string s)) (\<lambda>(task, s).
     Option.bind (strip_prefix ('','' @ dq @ ''msg'' @ dq @ '':'' @ dq) s) (\<lambda>s.
     Option.bind (json_string s) (\<lambda>(msg, s).
     if s = ''}''
     then Some \<lparr>te_sequence = seq, te_timestamp_ms = ts, te_level = level, te_category = cat,
                te_task = task, te_text = msg\<rparr>
     else None))))))))))"

subsubsection \<open>It reads escaped text back\<close>

lemma hex_value_digit: "n < 16 \<Longrightarrow> hex_value (hex_digit n) = Some n"
  by (auto simp: hex_value_def hex_digit_def Let_def)

lemma hex4_value_show:
  "n < 256 \<Longrightarrow> show_04x n = [h1, h2, h3, h4] \<Longrightarrow> hex4_value h1 h2 h3 h4 = Some n"
  by (auto simp: show_04x_def hex4_value_def hex_value_digit)

lemma json_string_high:
  "\<forall>b \<in> set ch. 0x80 \<le> (of_char b :: nat) \<Longrightarrow>
    json_string (ch @ t) = map_option (apfst (append ch)) (json_string t)"
proof (induction ch)
  case Nil
  show ?case by (cases "json_string t") auto
next
  case (Cons b ch)
  then have "b \<noteq> CHR 0x22" "b \<noteq> CHR 0x5C" by auto
  with Cons show ?case by (cases "json_string t") auto
qed

lemma c1_div: "0x80 \<le> n \<Longrightarrow> n < 0xA0 \<Longrightarrow> n div 64 = (2::nat)" by simp

lemma c1_mod: "0x80 \<le> n \<Longrightarrow> n < 0xA0 \<Longrightarrow> 128 + n mod 64 = (n::nat)"
  using c1_div [of n] div_mult_mod_eq [of n 64] by simp

lemma control_code_cases:
  assumes "control_code ch = Some n"
  obtains (one) c where "ch = [c]" "n = of_char c" "n < 0x80"
  | (two) c d where "ch = [c, d]" "of_char c = (0xC2 :: nat)" "n = of_char d" "0x80 \<le> n" "n < 0xA0"
proof -
  consider (c1) c where "ch = [c]" | (c2) c d where "ch = [c, d]" | "ch = []" | a b c d where "ch = a # b # c # d"
    by (metis neq_Nil_conv)
  then show thesis
  proof cases
    case (c1 c)
    with assms have "n = of_char c \<and> n < 0x80" by (auto simp: control_code_def Let_def split: if_split_asm)
    with c1 show thesis using one by blast
  next
    case (c2 c d)
    with assms have "of_char c = (0xC2 :: nat) \<and> n = of_char d \<and> 0x80 \<le> n \<and> n < 0xA0"
      by (simp add: control_code_def Let_def split: if_split_asm)
    with c2 show thesis using two by blast
  qed (use assms in \<open>simp_all add: control_code_def\<close>)
qed

lemma encode_control_code: "control_code ch = Some n \<Longrightarrow> n < 256 \<and> encode_code n = ch"
proof (erule control_code_cases)
  fix c assume "ch = [c]" "n = of_char c" "n < 0x80"
  then show ?thesis by (simp add: encode_code_def)
next
  fix c d assume a: "ch = [c, d]" "of_char c = (0xC2 :: nat)" "n = of_char d" "0x80 \<le> n" "n < 0xA0"
  have n: "n div 64 = 2" "128 + n mod 64 = n" using c1_div c1_mod a(4,5) by blast+
  have c: "0xC0 + n div 64 = (of_char c :: nat)" unfolding n(1) a(2) by simp
  have d: "0x80 + n mod 64 = (of_char d :: nat)" using n(2) a(3) by linarith
  have "encode_code n = [char_of (0xC0 + n div 64), char_of (0x80 + n mod 64)]"
    using a(4,5) by (simp only: encode_code_def) simp
  also have "\<dots> = [c, d]" unfolding c d by (simp only: char_of_char)
  finally have "encode_code n = ch" unfolding a(1) .
  with a(5) show ?thesis by linarith
qed

lemma json_string_control:
  assumes "control_code ch = Some n"
  shows "json_string (CHR 0x5C # CHR ''u'' # show_04x n @ t) = map_option (apfst (append ch)) (json_string t)"
proof -
  have n: "n < 256" "encode_code n = ch"
    using encode_control_code [OF assms] by auto
  obtain h1 h2 h3 h4 where h: "show_04x n = [h1, h2, h3, h4]" by (simp add: show_04x_def)
  from hex4_value_show [OF n(1) h] h n(2) show ?thesis by simp
qed

lemma json_string_escape:
  assumes "(\<exists>c. ch = [c] \<and> (of_char c :: nat) < 0x80) \<or> (2 \<le> length ch \<and> (\<forall>b \<in> set ch. 0x80 \<le> (of_char b :: nat)))"
  shows "json_string (json_escape ch @ t) = map_option (apfst (append ch)) (json_string t)"
proof (cases "control_code ch")
  case (Some n)
  with json_string_control [OF Some] show ?thesis
    by (cases "json_string t") (auto simp: json_escape_def simple_escape_def)
next
  case None
  from assms show ?thesis
  proof
    assume "\<exists>c. ch = [c] \<and> (of_char c :: nat) < 0x80"
    then obtain c where c: "ch = [c]" by blast
    with None have "0x20 \<le> (of_char c :: nat)" by (auto simp: control_code_def Let_def split: if_splits)
    with None c show ?thesis
      by (cases "json_string t") (auto simp: json_escape_def simple_escape_def)
  next
    assume "2 \<le> length ch \<and> (\<forall>b \<in> set ch. 0x80 \<le> (of_char b :: nat))"
    with None json_string_high [of ch t] show ?thesis by (auto simp: json_escape_def)
  qed
qed

lemma json_string_text:
  assumes "utf8_str v"
  shows "json_string (json_text v @ CHR 0x22 # rest) = Some (v, rest)"
proof -
  have "json_string (concat (map json_escape chs) @ CHR 0x22 # rest) = Some (concat chs, rest)"
    if "set chs \<subseteq> set (utf8_chars v)" for chs
    using that
  proof (induction chs)
    case (Cons ch chs)
    with json_string_escape [OF utf8_chars_shape [OF assms, of ch]] show ?case by simp
  qed simp
  from this [of "utf8_chars v"] show ?thesis by (simp add: json_text_def)
qed

subsubsection \<open>It reads lines back\<close>

lemma show_nat_digits: "list_all is_ascii_digit (show_nat n)"
proof (induction n rule: show_nat.induct)
  case (1 n)
  have "is_ascii_digit (digit_char k)" if "k < 10" for k
    using that by (simp add: is_ascii_digit_def of_char_digit)
  with 1 show ?case by (subst show_nat.simps) (simp add: Let_def)
qed

lemma json_number_show:
  assumes "\<not> is_ascii_digit c"
  shows "json_number (show_nat n @ c # r) = (n, c # r)"
proof -
  have "takeWhile is_ascii_digit (show_nat n @ c # r) = show_nat n"
    "dropWhile is_ascii_digit (show_nat n @ c # r) = c # r"
    using show_nat_digits [of n] assms
    by (simp_all add: list_all_iff takeWhile_append2 dropWhile_append2)
  then show ?thesis by (simp add: json_number_def dec_value_show_nat)
qed

lemma json_string_level: "json_string (trace_level_str l @ CHR 0x22 # r) = Some (trace_level_str l, r)"
  by (cases l) (simp_all add: trace_level_str_def)

lemma trace_level_roundtrip: "trace_level_from_str (trace_level_str l) = Some l"
  by (cases l) (simp_all add: trace_level_str_def trace_level_from_str_def)

lemma strip_prefix_Cons [simp]:
  "strip_prefix [] s = Some s"
  "strip_prefix (c # p) (d # s) = (if c = d then strip_prefix p s else None)"
  by (simp_all add: strip_prefix_def)

lemma parse_event_line_event:
  assumes "utf8_str (te_category e)" and "\<And>t. te_task e = Some t \<Longrightarrow> utf8_str t" and "utf8_str (te_text e)"
  shows "parse_event_line (event_line e) = Some e"
proof (cases "te_task e")
  case None
  then show ?thesis
    using assms
    by (simp add: parse_event_line_def event_line_def dq_def json_number_show is_ascii_digit_def Let_def
      json_string_level trace_level_roundtrip json_string_text)
next
  case (Some t)
  with assms show ?thesis
    by (simp add: parse_event_line_def event_line_def dq_def json_number_show is_ascii_digit_def Let_def
      json_string_level trace_level_roundtrip json_string_text)
qed

lemma push_chars_prefix: "\<exists>k. push_chars n target chs = target @ concat (take k chs)"
proof (induction chs arbitrary: target)
  case (Cons ch chs)
  show ?case
  proof (cases "length target + length ch \<le> n")
    case True
    with Cons [of "target @ ch"] obtain k where "push_chars n target (ch # chs) = target @ concat (take (Suc k) (ch # chs))"
      by auto
    then show ?thesis by blast
  next
    case False
    then have "push_chars n target (ch # chs) = target @ concat (take 0 (ch # chs))" by simp
    then show ?thesis by blast
  qed
qed simp

lemma push_truncated_utf8: "utf8_str v \<Longrightarrow> utf8_str (push_truncated n v)"
  using push_chars_prefix [of n "[]" "utf8_chars v"] utf8_str_take_chars
  by (auto simp: push_truncated_def)

lemma push_truncated_prefix: "prefix (push_truncated n v) v"
  by (metis append_Nil append_take_drop_id concat_append concat_utf8_chars prefixI push_chars_prefix push_truncated_def)

lemma push_truncated_bound: "length (push_truncated n v) \<le> n"
proof -
  have "length target \<le> n \<Longrightarrow> length (push_chars n target chs) \<le> n" for target chs
    by (induction chs arbitrary: target) auto
  then show ?thesis by (simp add: push_truncated_def)
qed

subsection \<open>The ring\<close>

datatype trace_op = TraceRecord nat trace_level string "string option" string | TraceCtl bytes

text \<open>A run, with every event that was ever stored.\<close>

definition trace_step ::
  "(string \<Rightarrow> string + trace_ctl_set) \<Rightarrow> trace_fs \<times> stored_event list \<Rightarrow> trace_op
     \<Rightarrow> trace_fs \<times> stored_event list" where
  "trace_step parse_set sh op = (case sh of (fs, h) \<Rightarrow> (case op of
     TraceRecord now_ms level category task message \<Rightarrow>
       (let fs' = trace_record now_ms level category task message fs
        in (fs', if fs_ring fs' = fs_ring fs then h else h @ [last (fs_ring fs')]))
   | TraceCtl data \<Rightarrow> (snd (trace_write_ctl parse_set data fs), h)))"

definition trace_inv :: "trace_fs \<times> stored_event list \<Rightarrow> bool" where
  "trace_inv sh = (case sh of (fs, h) \<Rightarrow>
     fs_capacity fs = DEFAULT_RING_CAPACITY \<and>
     fs_ring fs = drop (length h - DEFAULT_RING_CAPACITY) h \<and>
     map (te_sequence \<circ> se_event) h = [1..<length h + 1] \<and>
     list_all (\<lambda>e. se_line e = event_line (se_event e) @ newline \<and>
       length (event_line (se_event e)) \<le> JSON_LINE_CAPACITY) h)"

lemma drop_tl_snoc:
  assumes "xs = drop (length h - n) h" and "0 < n"
  shows "(if length xs = n then tl xs else xs) @ [y] = drop (length (h @ [y]) - n) (h @ [y])"
proof (cases "n \<le> length h")
  case True
  then have "length xs = n" using assms by simp
  with True assms show ?thesis by (simp add: Suc_diff_le drop_Suc tl_drop)
next
  case False
  with assms show ?thesis by simp
qed

lemma trace_record_inv:
  assumes "trace_inv (fs, h)"
  shows "trace_inv (trace_step parse_set (fs, h) (TraceRecord now_ms level category task message))"
proof -
  define n where "n = (if fs_ring fs = [] then 1 else te_sequence (se_event (last (fs_ring fs))) + 1)"
  let ?e = "trace_event_new n now_ms level category task message"
  let ?s = "\<lparr>se_event = ?e, se_line = event_line ?e @ newline\<rparr>"
  have inv: "fs_capacity fs = DEFAULT_RING_CAPACITY" "fs_ring fs = drop (length h - DEFAULT_RING_CAPACITY) h"
    "map (te_sequence \<circ> se_event) h = [1..<length h + 1]"
    using assms by (simp_all add: trace_inv_def)
  have seq: "n = length h + 1"
  proof (cases "h = []")
    case False
    then have "length h - DEFAULT_RING_CAPACITY < length h" by (cases h) (simp_all add: DEFAULT_RING_CAPACITY_def)
    then have "fs_ring fs \<noteq> []" "last (fs_ring fs) = last h" by (simp_all add: inv(2) last_drop)
    moreover have "te_sequence (se_event (last h)) = last (map (te_sequence \<circ> se_event) h)"
      using False by (simp add: last_map)
    then have "te_sequence (se_event (last h)) = length h" using False by (simp add: inv(3) last_conv_nth del: upt_Suc)
    ultimately show ?thesis by (simp add: n_def)
  qed (simp add: inv(2) n_def)
  show ?thesis
  proof (cases "filter_allows (fs_filter fs) level category \<and> length (event_line ?e) \<le> JSON_LINE_CAPACITY")
    case True
    have "fs_ring (trace_record now_ms level category task message fs) =
        (if length (fs_ring fs) = DEFAULT_RING_CAPACITY then tl (fs_ring fs) else fs_ring fs) @ [?s]"
      using True inv(1) by (simp add: trace_record_def Let_def to_json_line_eq flip: n_def)
    moreover have "(if length (fs_ring fs) = DEFAULT_RING_CAPACITY then tl (fs_ring fs) else fs_ring fs) @ [?s]
        = drop (length (h @ [?s]) - DEFAULT_RING_CAPACITY) (h @ [?s])"
      by (rule drop_tl_snoc [OF inv(2)]) (simp add: DEFAULT_RING_CAPACITY_def)
    moreover have "fs_capacity (trace_record now_ms level category task message fs) = DEFAULT_RING_CAPACITY"
      using True inv(1) by (simp add: trace_record_def Let_def to_json_line_eq flip: n_def)
    moreover have "fs_ring fs \<noteq> xs @ [?s]" for xs
    proof
      assume r: "fs_ring fs = xs @ [?s]"
      then have "te_sequence (se_event (last (fs_ring fs))) = n" by (simp add: trace_event_new_def)
      with r show False by (simp add: n_def split: if_splits)
    qed
    ultimately show ?thesis
      using assms True seq
      by (simp add: trace_step_def Let_def trace_inv_def trace_event_new_def del: upt_Suc)
        (simp add: upt_Suc_append)
  next
    case False
    then have "trace_record now_ms level category task message fs = fs"
      by (auto simp: trace_record_def Let_def to_json_line_eq simp flip: n_def)
    with assms show ?thesis by (simp add: trace_step_def)
  qed
qed

lemma trace_write_ctl_ring:
  "fs_ring (snd (trace_write_ctl parse_set data fs)) = fs_ring fs"
  "fs_capacity (snd (trace_write_ctl parse_set data fs)) = fs_capacity fs"
  by (simp_all add: trace_write_ctl_def Let_def split: option.split prod.split)

lemma trace_step_inv: "trace_inv sh \<Longrightarrow> trace_inv (trace_step parse_set sh op)"
proof (cases op)
  case (TraceCtl data)
  assume "trace_inv sh"
  with TraceCtl show ?thesis
    by (cases sh) (simp add: trace_step_def trace_inv_def trace_write_ctl_ring)
next
  case (TraceRecord now_ms level category task message)
  assume "trace_inv sh"
  with TraceRecord trace_record_inv show ?thesis by (cases sh) simp
qed

interpretation trace_ring: step_invariant "trace_step parse_set" trace_inv
  for parse_set
  by unfold_locales (rule trace_step_inv)

lemma trace_fs_new_inv: "trace_inv (trace_fs_new now_ms, fs_ring (trace_fs_new now_ms))"
  by (simp add: trace_inv_def trace_fs_new_def trace_record_def Let_def to_json_line_eq
    trace_filter_default_def filter_allows_def DEFAULT_RING_CAPACITY_def trace_event_new_def)

subsection \<open>Sizes and line ends\<close>

lemma length_show_nat: "10 ^ k \<le> n \<Longrightarrow> k + 1 \<le> length (show_nat n)"
proof (induction k arbitrary: n)
  case 0
  show ?case by (subst show_nat.simps) (simp add: Let_def)
next
  case (Suc k)
  then have "10 \<le> n" "10 ^ k \<le> n div 10" by (simp_all add: le_trans [of 10 "10 * 10 ^ k"] less_eq_div_iff_mult_less_eq)
  with Suc.IH [of "n div 10"] show ?case by (subst show_nat.simps) (simp add: Let_def)
qed

lemma length_json_escape: "ch \<noteq> [] \<Longrightarrow> length ch \<le> length (json_escape ch)"
  by (auto simp: json_escape_def control_code_def show_04x_def Let_def split: list.splits if_splits)

lemma length_json_text: "length v \<le> length (json_text v)"
proof -
  have "list_all (\<lambda>ch. ch \<noteq> []) chs \<Longrightarrow> length (concat chs) \<le> length (concat (map json_escape chs))" for chs
    by (induction chs) (auto dest: length_json_escape intro: add_mono)
  from this [of "utf8_chars v"] utf8_chars_nonempty show ?thesis
    by (auto simp: json_text_def list_all_iff)
qed

lemma utf8_chars_ascii: "list_all (\<lambda>c. (of_char c :: nat) < 0x80) v \<Longrightarrow> utf8_chars v = map (\<lambda>c. [c]) v"
  by (induction v) (simp_all add: utf8_width_def)

lemma push_truncated_ascii:
  assumes "list_all (\<lambda>c. (of_char c :: nat) < 0x80) v"
  shows "push_truncated n v = take n v"
proof -
  have "length target \<le> n \<Longrightarrow> push_chars n target (map (\<lambda>c. [c]) v) = target @ take (n - length target) v"
    for target :: string and v
  proof (induction v arbitrary: target)
    case (Cons c v)
    show ?case
    proof (cases "length target < n")
      case True
      with Cons.IH [of "target @ [c]"] show ?thesis by (simp add: take_Cons' Suc_diff_Suc)
    next
      case False
      then show ?thesis by simp
    qed
  qed simp
  from this [of "[]" v] assms show ?thesis by (simp add: push_truncated_def utf8_chars_ascii)
qed

lemma push_truncated_nonempty: "v \<noteq> [] \<Longrightarrow> 4 \<le> n \<Longrightarrow> push_truncated n v \<noteq> []"
proof -
  assume v: "v \<noteq> []" and n: "4 \<le> n"
  then obtain c cs where c: "v = c # cs" by (cases v) auto
  have "length (c # take (utf8_width c - 1) cs) \<le> 4" by (auto simp: utf8_width_def Let_def min_def)
  moreover have "push_chars n (d # t) chs \<noteq> []" for d t chs
    by (induction chs arbitrary: t) auto
  ultimately show ?thesis using n by (simp add: c push_truncated_def)
qed

lemma json_escape_no_newline:
  "(\<exists>c. ch = [c] \<and> (of_char c :: nat) < 0x80) \<or> (2 \<le> length ch \<and> (\<forall>b \<in> set ch. 0x80 \<le> (of_char b :: nat))) \<Longrightarrow>
    CHR 0x0A \<notin> set (json_escape ch)"
proof -
  have h: "hex_digit n \<noteq> CHR 0x0A" if "n < 16" for n
    using hex_value_digit [OF that] by (auto simp: hex_value_def)
  have "CHR 0x0A \<notin> set (show_04x n)" for n
    using h by (auto simp: show_04x_def) (metis mod_less_divisor zero_less_numeral)+
  then show "(\<exists>c. ch = [c] \<and> (of_char c :: nat) < 0x80) \<or> (2 \<le> length ch \<and> (\<forall>b \<in> set ch. 0x80 \<le> (of_char b :: nat))) \<Longrightarrow>
    CHR 0x0A \<notin> set (json_escape ch)"
    by (auto simp: json_escape_def split: option.split)
qed

lemma json_text_no_newline: "utf8_str v \<Longrightarrow> CHR 0x0A \<notin> set (json_text v)"
  using json_escape_no_newline utf8_chars_shape by (auto simp: json_text_def)

lemma show_nat_no_newline: "CHR 0x0A \<notin> set (show_nat n)"
  using show_nat_digits [of n] by (auto simp: list_all_iff is_ascii_digit_def)

lemma event_line_no_newline:
  assumes "utf8_str (te_category e)" and "\<And>t. te_task e = Some t \<Longrightarrow> utf8_str t" and "utf8_str (te_text e)"
  shows "CHR 0x0A \<notin> set (event_line e)"
proof -
  have "CHR 0x0A \<notin> set (trace_level_str (te_level e))"
    by (cases "te_level e") (simp_all add: trace_level_str_def)
  with assms show ?thesis
    by (auto simp: event_line_def dq_def show_nat_no_newline json_text_no_newline split: option.split)
qed

subsection \<open>Properties\<close>

text \<open>
  The trace ring holds the latest events and numbers them without gaps. After any run of
  records and control writes, the ring is the last 256 (or fewer) of all events ever stored, the
  \<open>k\<close>-th stored event has sequence number \<open>k\<close>, and every stored line is the rendering of its
  event, of at most 256 bytes, and a line feed.
\<close>

theorem trace_ring_keeps_latest:
  "case foldl (trace_step parse_set) (trace_fs_new now_ms, fs_ring (trace_fs_new now_ms)) ops of (fs, h) \<Rightarrow>
     fs_ring fs = drop (length h - DEFAULT_RING_CAPACITY) h \<and>
     map (\<lambda>e. te_sequence (se_event e)) h = [1..<length h + 1] \<and>
     list_all (\<lambda>e. se_line e = event_line (se_event e) @ newline \<and>
       length (event_line (se_event e)) \<le> JSON_LINE_CAPACITY) h"
  using trace_ring.run_inv [OF trace_fs_new_inv, of parse_set now_ms ops]
  by (auto simp: trace_inv_def comp_def split: prod.splits)

text \<open>
  C36: What is traced can be read back. For UTF-8 inputs, the line built for an event is one line
  of at most 256 bytes, whatever quotes, backslashes or control characters the inputs contain,
  and a JSON reader gets back the sequence number, the time, the level and the category, task and
  message, each cut at a character boundary to its capacity.
\<close>

theorem trace_line_roundtrip:
  assumes "utf8_str category" and "utf8_str message" and "list_all utf8_str (case task of None \<Rightarrow> [] | Some t \<Rightarrow> [t])"
    and "to_json_line (trace_event_new seq ts level category task message) = Inr line"
  shows "parse_event_line line = Some
      \<lparr>te_sequence = seq, te_timestamp_ms = ts, te_level = level,
       te_category = push_truncated CATEGORY_CAPACITY category,
       te_task = map_option (push_truncated TASK_CAPACITY) task,
       te_text = push_truncated MESSAGE_CAPACITY message\<rparr> \<and>
     CHR 0x0A \<notin> set line \<and> length line \<le> JSON_LINE_CAPACITY"
proof -
  let ?e = "trace_event_new seq ts level category task message"
  have "utf8_str (te_category ?e)" "utf8_str (te_text ?e)" "\<And>t. te_task ?e = Some t \<Longrightarrow> utf8_str t"
    using assms(1-3) by (auto simp: trace_event_new_def push_truncated_utf8)
  then have "parse_event_line (event_line ?e) = Some ?e" "CHR 0x0A \<notin> set (event_line ?e)"
    by (blast intro: parse_event_line_event, blast dest: event_line_no_newline [rotated -1])
  with assms(4) show ?thesis by (auto simp: to_json_line_eq trace_event_new_def split: if_splits)
qed

theorem trace_line_roundtrip_witness:
  "\<exists>line. to_json_line (trace_event_new 7 42 TlWarn ''audit'' None [CHR 0x22, CHR 0x0A]) = Inr line \<and>
    parse_event_line line = Some
      \<lparr>te_sequence = 7, te_timestamp_ms = 42, te_level = TlWarn, te_category = ''audit'', te_task = None,
       te_text = [CHR 0x22, CHR 0x0A]\<rparr> \<and> CHR 0x0A \<notin> set line"
proof -
  obtain line where l: "to_json_line (trace_event_new 7 42 TlWarn ''audit'' None [CHR 0x22, CHR 0x0A]) = Inr line"
  proof -
    have "is_ok (to_json_line (trace_event_new 7 42 TlWarn ''audit'' None [CHR 0x22, CHR 0x0A]))" by code_simp
    with that show thesis by (auto simp: is_ok_iff)
  qed
  have "utf8_str ''audit''" "utf8_str [CHR 0x22, CHR 0x0A]"
    unfolding utf8_str_def by (rule utf8_valid_ascii, simp add: str_bytes_def char_byte_def)+
  from trace_line_roundtrip [OF this _ l] show ?thesis
    by (simp add: l push_truncated_ascii CATEGORY_CAPACITY_def MESSAGE_CAPACITY_def)
qed

text \<open>
  A message that needs its whole capacity is never traced. An ASCII message of 192 bytes or
  more, in any category that is not empty and at any time after September 2001, does not fit the
  256 bytes of a line with the other fields, and the event is dropped without notice instead of
  being cut.
\<close>

theorem trace_long_message_dropped:
  assumes "list_all (\<lambda>c. (of_char c :: nat) < 0x80) message" and "MESSAGE_CAPACITY \<le> length message"
    and "category \<noteq> []" and "10 ^ 12 \<le> now_ms"
  shows "trace_record now_ms level category task message fs = fs"
proof -
  have "JSON_LINE_CAPACITY < length (event_line (trace_event_new seq now_ms level category task message))" for seq
  proof -
    have "push_truncated CATEGORY_CAPACITY category \<noteq> []"
      using assms(3) by (rule push_truncated_nonempty) (simp add: CATEGORY_CAPACITY_def)
    then have "1 \<le> length (json_text (push_truncated CATEGORY_CAPACITY category))"
      using length_json_text [of "push_truncated CATEGORY_CAPACITY category"]
      by (cases "push_truncated CATEGORY_CAPACITY category") auto
    moreover have "192 \<le> length (json_text (push_truncated MESSAGE_CAPACITY message))"
      using length_json_text [of "push_truncated MESSAGE_CAPACITY message"] assms(2)
      by (simp add: push_truncated_ascii [OF assms(1)] MESSAGE_CAPACITY_def)
    moreover have "13 \<le> length (show_nat now_ms)" using length_show_nat [OF assms(4)] by simp
    moreover have "1 \<le> length (show_nat seq)" using length_show_nat [of 0 seq]
      by (cases seq) (simp_all, simp add: show_nat.simps Let_def)
    moreover have "4 \<le> length (trace_level_str level)" by (cases level) (simp_all add: trace_level_str_def)
    ultimately show ?thesis
      by (simp add: event_line_def trace_event_new_def dq_def JSON_LINE_CAPACITY_def split: option.split)
  qed
  then show ?thesis by (simp add: trace_record_def Let_def to_json_line_eq not_le [symmetric])
qed

theorem trace_long_message_dropped_witness:
  "trace_record 1700000000000 TlWarn ''audit'' None (replicate 192 (CHR ''x''))
      (trace_fs_new 1700000000000) = trace_fs_new 1700000000000"
  by (rule trace_long_message_dropped) (simp_all add: MESSAGE_CAPACITY_def list_all_iff)

end
