(* ===== verification/Observe_State.thy ===== *)
theory Observe_State
  imports Ui_Provider "HOL-Library.Multiset"
begin

section \<open>Observability state\<close>

text \<open>
  The counters behind the \<open>/proc\<close> files (\<open>src/apps/nine-door/src/host/observe.rs\<close>): pressure
  counters, the rolling window of ingest latencies with its percentiles, and the ring of watch
  lines with its rate limit; and the CBOR renderings. \<open>u32\<close> and \<open>u64\<close> values are natural numbers,
  the saturating additions are written out.
\<close>

subsection \<open>Configuration\<close>

record proc_9p_config =
  p9_sessions :: bool
  p9_outstanding :: bool
  p9_short_writes :: bool
  p9_sessions_bytes :: nat
  p9_outstanding_bytes :: nat
  p9_short_writes_bytes :: nat

record proc_9p_session_config =
  p9s_active :: bool
  p9s_state :: bool
  p9s_since_ms :: bool
  p9s_owner :: bool
  p9s_active_bytes :: nat
  p9s_state_bytes :: nat
  p9s_since_ms_bytes :: nat
  p9s_owner_bytes :: nat

definition proc_9p_session_enabled :: "proc_9p_session_config \<Rightarrow> bool" where
  "proc_9p_session_enabled c \<longleftrightarrow> p9s_active c \<or> p9s_state c \<or> p9s_since_ms c \<or> p9s_owner c"

record proc_ingest_config =
  pi_p50_ms :: bool
  pi_p95_ms :: bool
  pi_backpressure :: bool
  pi_dropped :: bool
  pi_queued :: bool
  pi_watch :: bool
  pi_p50_ms_bytes :: nat
  pi_p95_ms_bytes :: nat
  pi_backpressure_bytes :: nat
  pi_dropped_bytes :: nat
  pi_queued_bytes :: nat
  pi_watch_max_entries :: nat
  pi_watch_line_bytes :: nat
  pi_watch_min_interval_ms :: nat
  pi_latency_samples :: nat
  pi_latency_tolerance_ms :: nat
  pi_counter_tolerance :: nat

definition proc_ingest_enabled :: "proc_ingest_config \<Rightarrow> bool" where
  "proc_ingest_enabled c \<longleftrightarrow>
     pi_p50_ms c \<or> pi_p95_ms c \<or> pi_backpressure c \<or> pi_dropped c \<or> pi_queued c \<or> pi_watch c"

record proc_root_config =
  pro_reachable :: bool
  pro_last_seen_ms :: bool
  pro_cut_reason :: bool
  pro_reachable_bytes :: nat
  pro_last_seen_ms_bytes :: nat
  pro_cut_reason_bytes :: nat

definition proc_root_enabled :: "proc_root_config \<Rightarrow> bool" where
  "proc_root_enabled c \<longleftrightarrow> pro_reachable c \<or> pro_last_seen_ms c \<or> pro_cut_reason c"

record proc_pressure_config =
  pp_busy :: bool
  pp_quota :: bool
  pp_cut :: bool
  pp_policy :: bool
  pp_busy_bytes :: nat
  pp_quota_bytes :: nat
  pp_cut_bytes :: nat
  pp_policy_bytes :: nat

definition proc_pressure_enabled :: "proc_pressure_config \<Rightarrow> bool" where
  "proc_pressure_enabled c \<longleftrightarrow> pp_busy c \<or> pp_quota c \<or> pp_cut c \<or> pp_policy c"

record observe_config =
  oc_proc_9p :: proc_9p_config
  oc_proc_9p_session :: proc_9p_session_config
  oc_proc_ingest :: proc_ingest_config
  oc_proc_root :: proc_root_config
  oc_proc_pressure :: proc_pressure_config

definition observe_config_default :: observe_config where
  "observe_config_default =
     \<lparr>oc_proc_9p = \<lparr>p9_sessions = True, p9_outstanding = True, p9_short_writes = True,
        p9_sessions_bytes = 8192, p9_outstanding_bytes = 128, p9_short_writes_bytes = 128\<rparr>,
      oc_proc_9p_session = \<lparr>p9s_active = True, p9s_state = True, p9s_since_ms = True, p9s_owner = True,
        p9s_active_bytes = 128, p9s_state_bytes = 64, p9s_since_ms_bytes = 64, p9s_owner_bytes = 96\<rparr>,
      oc_proc_ingest = \<lparr>pi_p50_ms = True, pi_p95_ms = True, pi_backpressure = True, pi_dropped = True,
        pi_queued = True, pi_watch = True, pi_p50_ms_bytes = 64, pi_p95_ms_bytes = 64,
        pi_backpressure_bytes = 64, pi_dropped_bytes = 64, pi_queued_bytes = 64,
        pi_watch_max_entries = 16, pi_watch_line_bytes = 192, pi_watch_min_interval_ms = 50,
        pi_latency_samples = 32, pi_latency_tolerance_ms = 5, pi_counter_tolerance = 1\<rparr>,
      oc_proc_root = \<lparr>pro_reachable = True, pro_last_seen_ms = True, pro_cut_reason = True,
        pro_reachable_bytes = 32, pro_last_seen_ms_bytes = 64, pro_cut_reason_bytes = 64\<rparr>,
      oc_proc_pressure = \<lparr>pp_busy = True, pp_quota = True, pp_cut = True, pp_policy = True,
        pp_busy_bytes = 64, pp_quota_bytes = 64, pp_cut_bytes = 64, pp_policy_bytes = 64\<rparr>\<rparr>"

subsection \<open>Pressure counters\<close>

datatype pressure_kind = PressureBusy | PressureQuota | PressureCut | PressurePolicy

record pressure_state =
  pst_busy :: nat
  pst_quota :: nat
  pst_cut :: nat
  pst_policy :: nat

definition pressure_default :: pressure_state where
  "pressure_default = \<lparr>pst_busy = 0, pst_quota = 0, pst_cut = 0, pst_policy = 0\<rparr>"

definition pressure_record :: "pressure_kind \<Rightarrow> pressure_state \<Rightarrow> pressure_state" where
  "pressure_record kind s = (case kind of
     PressureBusy \<Rightarrow> s\<lparr>pst_busy := sat_add (pst_busy s) 1\<rparr>
   | PressureQuota \<Rightarrow> s\<lparr>pst_quota := sat_add (pst_quota s) 1\<rparr>
   | PressureCut \<Rightarrow> s\<lparr>pst_cut := sat_add (pst_cut s) 1\<rparr>
   | PressurePolicy \<Rightarrow> s\<lparr>pst_policy := sat_add (pst_policy s) 1\<rparr>)"

subsection \<open>Latency samples\<close>

record latency_samples =
  ls_samples :: "nat list"
  ls_capacity :: nat
  ls_next :: nat

definition latency_new :: "nat \<Rightarrow> latency_samples" where
  "latency_new capacity = \<lparr>ls_samples = [], ls_capacity = capacity, ls_next = 0\<rparr>"

definition latency_record :: "latency_samples \<Rightarrow> nat \<Rightarrow> latency_samples" where
  "latency_record l sample =
     (if ls_capacity l = 0 then l
      else if length (ls_samples l) < ls_capacity l
      then (let l' = l\<lparr>ls_samples := ls_samples l @ [sample]\<rparr>
            in if length (ls_samples l') = ls_capacity l' then l'\<lparr>ls_next := 0\<rparr> else l')
      else l\<lparr>ls_samples := (ls_samples l)[ls_next l := sample],
             ls_next := (ls_next l + 1) mod ls_capacity l\<rparr>)"

definition percentile :: "latency_samples \<Rightarrow> nat \<Rightarrow> nat" where
  "percentile l pct =
     (if ls_samples l = [] then 0
      else
        let values = sort (ls_samples l);
            idx = (length values - 1) * pct div 100
        in if idx < length values then values ! idx else 0)"

subsection \<open>Watch lines\<close>

record watch_ring =
  wr_entries :: "string list"
  wr_max_entries :: nat
  wr_line_bytes :: nat
  wr_min_interval_ms :: nat
  wr_last_emit_ms :: "nat option"

datatype watch_append = WatchAppended | WatchThrottled nat | WatchDisabled

definition watch_new :: "nat \<Rightarrow> nat \<Rightarrow> nat \<Rightarrow> watch_ring" where
  "watch_new max_entries line_bytes min_interval_ms =
     \<lparr>wr_entries = [], wr_max_entries = max_entries, wr_line_bytes = line_bytes,
      wr_min_interval_ms = min_interval_ms, wr_last_emit_ms = None\<rparr>"

record ingest_snapshot =
  is_p50_ms :: nat
  is_p95_ms :: nat
  is_backpressure :: nat
  is_dropped :: nat
  is_queued :: nat
  is_ui_reads :: nat
  is_ui_denies :: nat

definition watch_line :: "nat \<Rightarrow> ingest_snapshot \<Rightarrow> string" where
  "watch_line now_ms snap =
     ''watch ts_ms='' @ show_nat now_ms @ '' p50_ms='' @ show_nat (is_p50_ms snap)
     @ '' p95_ms='' @ show_nat (is_p95_ms snap) @ '' queued='' @ show_nat (is_queued snap)
     @ '' backpressure='' @ show_nat (is_backpressure snap) @ '' dropped='' @ show_nat (is_dropped snap)
     @ '' ui_reads='' @ show_nat (is_ui_reads snap) @ '' ui_denies='' @ show_nat (is_ui_denies snap)
     @ newline"

definition watch_try_append ::
  "nat \<Rightarrow> proc_ingest_config \<Rightarrow> ingest_snapshot \<Rightarrow> watch_ring \<Rightarrow> watch_append \<times> watch_ring" where
  "watch_try_append now_ms config snap w =
     (if \<not> pi_watch config \<or> wr_max_entries w = 0 \<or> wr_line_bytes w = 0 then (WatchDisabled, w)
      else
        let append = (let line = watch_line now_ms snap
              in if length line > wr_line_bytes w then (WatchDisabled, w)
                 else
                   let entries = (if length (wr_entries w) = wr_max_entries w then tl (wr_entries w) else wr_entries w)
                   in (WatchAppended, w\<lparr>wr_entries := entries @ [line], wr_last_emit_ms := Some now_ms\<rparr>))
        in (case wr_last_emit_ms w of
              None \<Rightarrow> append
            | Some prev \<Rightarrow>
                if now_ms < sat_add prev (wr_min_interval_ms w)
                then (WatchThrottled (sat_add prev (wr_min_interval_ms w) - now_ms), w)
                else append))"

definition watch_render :: "watch_ring \<Rightarrow> string" where
  "watch_render w = concat (wr_entries w)"

subsection \<open>Ingest and observability state\<close>

record ingest_state =
  ig_latency :: latency_samples
  ig_dropped :: nat
  ig_watch :: watch_ring

definition ingest_state_new :: "proc_ingest_config \<Rightarrow> ingest_state" where
  "ingest_state_new config =
     \<lparr>ig_latency = latency_new (pi_latency_samples config), ig_dropped = 0,
      ig_watch = watch_new (pi_watch_max_entries config) (pi_watch_line_bytes config)
        (pi_watch_min_interval_ms config)\<rparr>"

definition ingest_take_snapshot :: "ingest_state \<Rightarrow> pipeline_metrics \<Rightarrow> ingest_snapshot" where
  "ingest_take_snapshot s m =
     \<lparr>is_p50_ms = percentile (ig_latency s) 50, is_p95_ms = percentile (ig_latency s) 95,
      is_backpressure = pm_backpressure_events m, is_dropped = ig_dropped s,
      is_queued = as_u32 (pm_queue_depth m), is_ui_reads = pm_ui_reads m, is_ui_denies = pm_ui_denies m\<rparr>"

record observe_state =
  os_config :: observe_config
  os_ui :: ui_provider_config
  os_start :: nat
  os_ingest :: ingest_state
  os_pressure :: pressure_state

definition observe_new :: "observe_config \<Rightarrow> ui_provider_config \<Rightarrow> nat \<Rightarrow> observe_state" where
  "observe_new config ui start =
     \<lparr>os_config = config, os_ui = ui, os_start = start,
      os_ingest = ingest_state_new (oc_proc_ingest config), os_pressure = pressure_default\<rparr>"

definition observe_elapsed_ms :: "observe_state \<Rightarrow> nat \<Rightarrow> nat" where
  "observe_elapsed_ms s now = ((now - os_start s) div 1000000) mod 2 ^ 64"

definition record_pressure :: "pressure_kind \<Rightarrow> observe_state \<Rightarrow> observe_state" where
  "record_pressure kind s = s\<lparr>os_pressure := pressure_record kind (os_pressure s)\<rparr>"

definition record_ingest_latency :: "nat \<Rightarrow> observe_state \<Rightarrow> observe_state" where
  "record_ingest_latency latency_ms s =
     s\<lparr>os_ingest := (os_ingest s)\<lparr>ig_latency := latency_record (ig_latency (os_ingest s)) latency_ms\<rparr>\<rparr>"

definition record_ingest_dropped :: "nat \<Rightarrow> observe_state \<Rightarrow> observe_state" where
  "record_ingest_dropped dropped s =
     (if dropped = 0 then s
      else s\<lparr>os_ingest := (os_ingest s)\<lparr>ig_dropped := sat_add (ig_dropped (os_ingest s)) dropped\<rparr>\<rparr>)"

subsection \<open>CBOR renderings\<close>

definition nth_or_0 :: "nat list \<Rightarrow> nat \<Rightarrow> nat" where
  "nth_or_0 xs i = (if i < length xs then xs ! i else 0)"

definition proc_9p_sessions_items ::
  "nat \<Rightarrow> nat \<Rightarrow> nat \<Rightarrow> string list \<Rightarrow> nat list \<Rightarrow> cbor_item list" where
  "proc_9p_sessions_items total_count worker shard_bits labels counts =
     [CMap 5, CText ''total'', CUnsigned total_count, CText ''worker'', CUnsigned worker,
      CText ''shard_bits'', CUnsigned shard_bits, CText ''shard_count'', CUnsigned (length labels),
      CText ''shards'', CArray (length labels)]
     @ concat (map (\<lambda>(i, label).
         [CMap 2, CText ''label'', CText label, CText ''count'', CUnsigned (nth_or_0 counts i)])
         (enumerate 0 labels))"

definition build_proc_9p_sessions_cbor ::
  "nat \<Rightarrow> nat \<Rightarrow> nat \<Rightarrow> string list \<Rightarrow> nat list \<Rightarrow> ninedoor_error + bytes" where
  "build_proc_9p_sessions_cbor total_count worker shard_bits labels counts =
     cbor_build ''proc/9p/sessions.cbor'' (proc_9p_sessions_items total_count worker shard_bits labels counts)"

definition build_proc_9p_outstanding_cbor :: "nat \<Rightarrow> nat \<Rightarrow> ninedoor_error + bytes" where
  "build_proc_9p_outstanding_cbor current limit =
     cbor_build ''proc/9p/outstanding.cbor''
       [CMap 2, CText ''current'', CUnsigned current, CText ''limit'', CUnsigned limit]"

definition build_proc_9p_short_writes_cbor :: "nat \<Rightarrow> nat \<Rightarrow> ninedoor_error + bytes" where
  "build_proc_9p_short_writes_cbor total_count retries =
     cbor_build ''proc/9p/short_writes.cbor''
       [CMap 2, CText ''total'', CUnsigned total_count, CText ''retries'', CUnsigned retries]"

definition build_proc_ingest_p50_cbor :: "nat \<Rightarrow> ninedoor_error + bytes" where
  "build_proc_ingest_p50_cbor v = cbor_build ''proc/ingest/p50_ms.cbor'' [CMap 1, CText ''p50_ms'', CUnsigned v]"

definition build_proc_ingest_p95_cbor :: "nat \<Rightarrow> ninedoor_error + bytes" where
  "build_proc_ingest_p95_cbor v = cbor_build ''proc/ingest/p95_ms.cbor'' [CMap 1, CText ''p95_ms'', CUnsigned v]"

definition build_proc_ingest_backpressure_cbor :: "nat \<Rightarrow> ninedoor_error + bytes" where
  "build_proc_ingest_backpressure_cbor v =
     cbor_build ''proc/ingest/backpressure.cbor'' [CMap 1, CText ''backpressure'', CUnsigned v]"

section \<open>Correctness\<close>

subsection \<open>The latency window\<close>

text \<open>The ring is the window of the latest samples, rotated by the next slot.\<close>

definition latency_rep :: "nat \<Rightarrow> latency_samples \<Rightarrow> nat list \<Rightarrow> bool" where
  "latency_rep c l xs \<longleftrightarrow>
     ls_capacity l = c \<and> length (ls_samples l) = min c (length xs) \<and>
     (length xs \<le> c \<longrightarrow> ls_next l = 0) \<and> (0 < c \<longrightarrow> ls_next l < c) \<and>
     rotate (ls_next l) (ls_samples l) = drop (length xs - c) xs"

lemma rotate_update:
  assumes "n < length s"
  shows "rotate (Suc n mod length s) (s[n := x]) = tl (rotate n s) @ [x]"
proof -
  define a b d where "a = take n s" and "b = s ! n" and "d = drop (Suc n) s"
  have s: "s = a @ b # d" and n: "n = length a"
    using assms by (simp_all add: a_def b_def d_def id_take_nth_drop [symmetric])
  have "rotate (Suc n) (a @ x # d) = d @ a @ [x]"
    using rotate_append [of "a @ [x]" d] n by simp
  moreover have "s[n := x] = a @ x # d" using s n by simp
  moreover have "rotate n s = b # d @ a" using rotate_append [of a "b # d"] s n by simp
  ultimately show ?thesis
    by (metis append.assoc append_Cons length_list_update list.sel(3) rotate_conv_mod)
qed

lemma drop_window_snoc:
  "c \<le> length xs \<Longrightarrow> 0 < c \<Longrightarrow> drop (length (xs @ [x]) - c) (xs @ [x]) = tl (drop (length xs - c) xs) @ [x]"
  by (simp add: Suc_diff_le drop_Suc tl_drop)

lemma latency_record_rep:
  assumes "latency_rep c l xs"
  shows "latency_rep c (latency_record l x) (xs @ [x])"
proof (cases "0 < c \<and> c \<le> length xs")
  case True
  with assms have l: "length (ls_samples l) = c" "ls_capacity l = c" "ls_next l < c"
    by (simp_all add: latency_rep_def)
  have "rotate (Suc (ls_next l) mod c) ((ls_samples l)[ls_next l := x]) =
      tl (drop (length xs - c) xs) @ [x]"
    using rotate_update [of "ls_next l" "ls_samples l" x] l assms by (simp add: latency_rep_def)
  with True l drop_window_snoc [of c xs x] show ?thesis
    by (simp add: latency_rep_def latency_record_def)
next
  case False
  with assms show ?thesis
    by (auto simp: latency_rep_def latency_record_def Let_def)
qed

lemma latency_run_rep: "latency_rep c (foldl latency_record (latency_new c) xs) xs"
  by (induction xs rule: rev_induct)
    (simp_all add: latency_record_rep, simp add: latency_rep_def latency_new_def)

lemma sort_rotate: "sort (rotate n xs) = sort xs"
proof -
  have "mset (rotate n xs) = mset xs"
    by (metis add.commute append_take_drop_id mset_append rotate_drop_take)
  then show ?thesis by (intro properties_for_sort) simp_all
qed

text \<open>
  The latency percentiles are those of the latest samples. After any sequence of samples the
  reported value is 0 when there is none, and otherwise the entry at position
  \<open>(n - 1) * pct div 100\<close> of the sorted window of the last \<open>n\<close> samples, at most as many as the
  configured window, however often the ring has wrapped.
\<close>

theorem percentile_of_latest_samples:
  "percentile (foldl latency_record (latency_new c) samples) pct =
    (let window = drop (length samples - c) samples; idx = (length window - 1) * pct div 100
     in if idx < length window then sort window ! idx else 0)"
proof -
  define l where "l = foldl latency_record (latency_new c) samples"
  from latency_run_rep [of c samples, folded l_def] have
    "rotate (ls_next l) (ls_samples l) = drop (length samples - c) samples"
    by (simp add: latency_rep_def)
  then have "sort (ls_samples l) = sort (drop (length samples - c) samples)"
    "length (ls_samples l) = length (drop (length samples - c) samples)"
    by (metis sort_rotate, metis length_rotate)
  then show ?thesis
    by (auto simp: percentile_def Let_def l_def [symmetric] simp flip: length_0_conv)
qed

subsection \<open>The watch ring\<close>

text \<open>Calls with a time and a snapshot, and the lines they appended with their times.\<close>

definition watch_step ::
  "proc_ingest_config \<Rightarrow> watch_ring \<times> (nat \<times> string) list \<Rightarrow> nat \<times> ingest_snapshot
     \<Rightarrow> watch_ring \<times> (nat \<times> string) list" where
  "watch_step config wh call = (case wh of (w, h) \<Rightarrow>
     (case watch_try_append (fst call) config (snd call) w of
        (WatchAppended, w') \<Rightarrow> (w', h @ [(fst call, watch_line (fst call) (snd call))])
      | (_, w') \<Rightarrow> (w', h)))"

definition watch_rep :: "nat \<Rightarrow> nat \<Rightarrow> nat \<Rightarrow> watch_ring \<times> (nat \<times> string) list \<Rightarrow> bool" where
  "watch_rep m b iv wh = (case wh of (w, h) \<Rightarrow>
     wr_max_entries w = m \<and> wr_line_bytes w = b \<and> wr_min_interval_ms w = iv \<and>
     wr_entries w = map snd (drop (length h - m) h) \<and>
     wr_last_emit_ms w = (if h = [] then None else Some (fst (last h))) \<and>
     successively (\<lambda>p q. sat_add (fst p) iv \<le> fst q) h \<and>
     list_all (\<lambda>p. length (snd p) \<le> b) h)"

lemma watch_append_rep:
  assumes "watch_rep m b iv (w, h)" and "watch_try_append now config snap w = (WatchAppended, w')"
  shows "watch_rep m b iv (w', h @ [(now, watch_line now snap)])"
proof -
  have m: "0 < m" and line: "length (watch_line now snap) \<le> b"
    and gap: "h \<noteq> [] \<Longrightarrow> sat_add (fst (last h)) iv \<le> now"
    and w': "w' = w\<lparr>wr_entries := (if length (wr_entries w) = m then tl (wr_entries w) else wr_entries w)
      @ [watch_line now snap], wr_last_emit_ms := Some now\<rparr>"
    using assms by (auto simp: watch_try_append_def watch_rep_def Let_def split: if_splits option.splits)
  have "(if length (wr_entries w) = m then tl (wr_entries w) else wr_entries w) @ [watch_line now snap] =
      map snd (drop (length (h @ [(now, watch_line now snap)]) - m) (h @ [(now, watch_line now snap)]))"
  proof (cases "m \<le> length h")
    case True
    with assms(1) drop_window_snoc [OF True m] show ?thesis by (simp add: watch_rep_def map_tl)
  next
    case False
    with assms(1) show ?thesis by (simp add: watch_rep_def)
  qed
  with assms(1) gap line w' show ?thesis
    by (auto simp: watch_rep_def successively_append_iff)
qed

lemma watch_step_rep: "watch_rep m b iv wh \<Longrightarrow> watch_rep m b iv (watch_step config wh call)"
proof -
  assume rep: "watch_rep m b iv wh"
  obtain w h where wh: "wh = (w, h)" by force
  obtain r w' where r: "watch_try_append (fst call) config (snd call) w = (r, w')" by force
  have "r \<noteq> WatchAppended \<Longrightarrow> w' = w"
    using r by (auto simp: watch_try_append_def Let_def split: if_splits option.splits)
  with rep r watch_append_rep [of m b iv w h "fst call" config "snd call" w'] show ?thesis
    by (cases r) (simp_all add: wh watch_step_def)
qed

interpretation watch_run: step_invariant "watch_step config" "watch_rep m b iv"
  for config m b iv
  by unfold_locales (rule watch_step_rep)

text \<open>
  The watch file is bounded and rate limited. Whatever calls are made, two consecutive lines
  are at least the configured interval apart, every line is within the configured size, and the
  file shows the latest lines, at most the configured number of them.
\<close>

theorem watch_ring_rate_limited:
  "case foldl (watch_step config) (watch_new m b iv, []) calls of (w, h) \<Rightarrow>
     watch_render w = concat (map snd (drop (length h - m) h)) \<and> length (wr_entries w) \<le> m \<and>
     successively (\<lambda>p q. sat_add (fst p) iv \<le> fst q) h \<and> list_all (\<lambda>p. length (snd p) \<le> b) h"
proof -
  have "watch_rep m b iv (watch_new m b iv, [])" by (simp add: watch_rep_def watch_new_def)
  from watch_run.run_inv [OF this, of config calls] show ?thesis
    by (auto simp: watch_rep_def watch_render_def split: prod.splits)
qed

end
