(* ===== verification/Btree_Map.thy ===== *)
theory Btree_Map
  imports Cohesix_Prelude "HOL-Library.List_Lexorder" "HOL-Library.Char_ord"
begin

section \<open>Ordered maps\<close>

text \<open>
  \<open>BTreeMap\<close> as the list of its entries in key order: the operations the code uses, the abstract
  map they implement, and the order their listings rely on. Strings and byte strings are compared
  byte by byte.
\<close>

type_synonym ('k, 'v) btree = "('k \<times> 'v) list"

abbreviation bt_get :: "('k, 'v) btree \<Rightarrow> 'k \<Rightarrow> 'v option" where
  "bt_get \<equiv> map_of"

fun bt_insert :: "'k::linorder \<Rightarrow> 'v \<Rightarrow> ('k, 'v) btree \<Rightarrow> ('k, 'v) btree" where
  "bt_insert k v [] = [(k, v)]"
| "bt_insert k v ((k', v') # m) =
     (if k < k' then (k, v) # (k', v') # m
      else if k = k' then (k, v) # m
      else (k', v') # bt_insert k v m)"

definition bt_remove :: "'k \<Rightarrow> ('k, 'v) btree \<Rightarrow> ('k, 'v) btree" where
  "bt_remove k m = filter (\<lambda>e. fst e \<noteq> k) m"

definition bt_contains :: "('k, 'v) btree \<Rightarrow> 'k \<Rightarrow> bool" where
  "bt_contains m k \<longleftrightarrow> map_of m k \<noteq> None"

definition bt_keys :: "('k, 'v) btree \<Rightarrow> 'k list" where
  "bt_keys m = map fst m"

definition bt_ok :: "('k::linorder, 'v) btree \<Rightarrow> bool" where
  "bt_ok m \<longleftrightarrow> sorted_wrt (<) (bt_keys m)"

lemma bt_get_insert [simp]: "map_of (bt_insert k v m) = (map_of m)(k \<mapsto> v)"
  by (induction k v m rule: bt_insert.induct) auto

lemma bt_get_remove [simp]: "map_of (bt_remove k m) = (map_of m)(k := None)"
  by (induction m) (auto simp: bt_remove_def fun_eq_iff)

lemma bt_keys_insert: "set (bt_keys (bt_insert k v m)) = insert k (set (bt_keys m))"
  by (induction k v m rule: bt_insert.induct) (auto simp: bt_keys_def)

lemma bt_ok_Nil [simp]: "bt_ok []"
  by (simp add: bt_ok_def bt_keys_def)

lemma bt_ok_insert [simp]: "bt_ok m \<Longrightarrow> bt_ok (bt_insert k v m)"
proof (induction k v m rule: bt_insert.induct)
  case (2 k v k' v' m)
  then show ?case
    using bt_keys_insert [of k v m]
    by (auto simp: bt_ok_def bt_keys_def intro: less_trans)
qed (simp add: bt_ok_def bt_keys_def)

lemma bt_ok_remove [simp]: "bt_ok m \<Longrightarrow> bt_ok (bt_remove k m)"
  by (induction m) (auto simp: bt_ok_def bt_keys_def bt_remove_def)

lemma bt_keys_contains: "k \<in> set (bt_keys m) \<longleftrightarrow> bt_contains m k"
  by (auto simp: bt_keys_def bt_contains_def map_of_eq_None_iff)

lemma bt_keys_distinct: "bt_ok m \<Longrightarrow> distinct (bt_keys m)"
  by (simp add: bt_ok_def strict_sorted_iff)

lemma length_bt_insert: "length (bt_insert k v m) \<le> Suc (length m)"
  by (induction k v m rule: bt_insert.induct) auto

lemma bt_insert_twice [simp]: "bt_insert k v (bt_insert k w m) = bt_insert k v m"
  by (induction k w m rule: bt_insert.induct) auto

lemma bt_remove_insert [simp]: "bt_remove k (bt_insert k v m) = bt_remove k m"
  by (induction k v m rule: bt_insert.induct) (auto simp: bt_remove_def)

lemma length_bt_insert_present:
  assumes "map_of m k \<noteq> None" and "bt_ok m"
  shows "length (bt_insert k v m) = length m"
  using assms
proof (induction k v m rule: bt_insert.induct)
  case (2 k v k' v' m)
  have "map_of m k = None" if "k < k'"
    using 2(3) that by (auto simp: bt_ok_def bt_keys_def map_of_eq_None_iff)
  with 2 show ?case by (auto simp: bt_ok_def bt_keys_def split: if_splits)
qed simp

lemma bt_insert_same: "map_of m k = Some v \<Longrightarrow> bt_ok m \<Longrightarrow> bt_insert k v m = m"
proof (induction k v m rule: bt_insert.induct)
  case (2 k v k' v' m)
  have "map_of m k = None" if "k < k'"
    using 2(3) that by (auto simp: bt_ok_def bt_keys_def map_of_eq_None_iff)
  with 2 show ?case by (auto simp: bt_ok_def bt_keys_def split: if_splits)
qed simp

lemma length_bt_insert_new: "map_of m k = None \<Longrightarrow> length (bt_insert k v m) = Suc (length m)"
  by (induction k v m rule: bt_insert.induct) (auto split: if_splits)

text \<open>The sum of a size over the values; inserting replaces the size of the old value.\<close>

definition bt_total :: "('v \<Rightarrow> nat) \<Rightarrow> ('k, 'v) btree \<Rightarrow> nat" where
  "bt_total f m = sum_list (map (f \<circ> snd) m)"

lemma bt_total_Nil [simp]: "bt_total f [] = 0"
  by (simp add: bt_total_def)

lemma bt_total_insert:
  assumes "bt_ok m"
  shows "bt_total f (bt_insert k v m) + (case map_of m k of None \<Rightarrow> 0 | Some w \<Rightarrow> f w) = bt_total f m + f v"
  using assms
proof (induction k v m rule: bt_insert.induct)
  case (2 k v k' v' m)
  have "map_of m k = None" if "k < k'"
    using 2(2) that by (auto simp: bt_ok_def bt_keys_def map_of_eq_None_iff)
  with 2 show ?case by (auto simp: bt_total_def bt_ok_def bt_keys_def split: option.splits)
qed (simp add: bt_total_def)

lemma bt_total_remove:
  assumes "bt_ok m"
  shows "bt_total f (bt_remove k m) + (case map_of m k of None \<Rightarrow> 0 | Some w \<Rightarrow> f w) = bt_total f m"
  using assms
proof (induction m)
  case (Cons e m)
  have "bt_remove k m = m \<and> map_of m k = None" if "fst e = k"
    using Cons.prems that
    by (auto simp: bt_ok_def bt_keys_def map_of_eq_None_iff bt_remove_def filter_id_conv)
  with Cons show ?case
    by (cases e) (auto simp: bt_total_def bt_remove_def bt_ok_def bt_keys_def)
qed (simp add: bt_remove_def)

end
