(* ===== verification/Cas_Manifest.thy ===== *)
theory Cas_Manifest
  imports Cbor
begin

unbundle bit_operations_syntax

section \<open>Update manifests\<close>

text \<open>
  \<open>src/crates/cohesix-cas/src/lib.rs\<close>: the CBOR encoding of update manifests and its decoder. The
  decoder's position in its input is the list of bytes that are left. Fixed-size arrays are byte
  lists whose length \<open>manifest_ok\<close> states; \<open>u32\<close> and \<open>u64\<close> fields are natural numbers, with the
  truncating cast of the decoder written out.
\<close>

definition CAS_MANIFEST_SCHEMA :: string where
  "CAS_MANIFEST_SCHEMA = ''cohesix-cas/manifest-v1''"

record cas_delta =
  cd_base_epoch :: string
  cd_base_sha256 :: bytes

record cas_manifest =
  cm_schema :: string
  cm_epoch :: string
  cm_chunk_bytes :: nat
  cm_payload_bytes :: nat
  cm_payload_sha256 :: bytes
  cm_chunks :: "bytes list"
  cm_delta :: "cas_delta option"
  cm_signature :: "bytes option"

datatype cas_manifest_error =
  UnexpectedEof | InvalidSchema | InvalidCbor string | ManifestInvalidUtf8 | InvalidField string

definition cas_manifest_error_display :: "cas_manifest_error \<Rightarrow> string" where
  "cas_manifest_error_display e = (case e of
     UnexpectedEof \<Rightarrow> ''unexpected end of manifest payload''
   | InvalidSchema \<Rightarrow> ''unsupported cas manifest schema''
   | InvalidCbor reason \<Rightarrow> ''invalid manifest cbor: '' @ reason
   | ManifestInvalidUtf8 \<Rightarrow> ''manifest contains invalid utf-8''
   | InvalidField reason \<Rightarrow> ''invalid manifest field: '' @ reason)"

subsection \<open>Encoder\<close>

definition major_len :: "byte \<Rightarrow> nat \<Rightarrow> bytes" where
  "major_len major v =
     (let header = push_bit 5 major
      in if v < 24 then [header OR word_of_nat v]
         else if v \<le> 255 then [header OR 24, word_of_nat v]
         else if v \<le> u16_max then (header OR 25) # be_digits 2 v
         else if v \<le> u32_max then (header OR 26) # be_digits 4 v
         else (header OR 27) # be_digits 8 v)"

definition enc_array_len :: "nat \<Rightarrow> bytes" where
  "enc_array_len len = major_len 4 len"

definition enc_text :: "string \<Rightarrow> bytes" where
  "enc_text v = major_len 3 (length v) @ str_bytes v"

definition enc_bytes :: "bytes \<Rightarrow> bytes" where
  "enc_bytes v = major_len 2 (length v) @ v"

definition enc_unsigned :: "nat \<Rightarrow> bytes" where
  "enc_unsigned v = major_len 0 v"

definition enc_null :: bytes where
  "enc_null = [0xF6]"

definition encode_manifest :: "cas_manifest \<Rightarrow> bytes option \<Rightarrow> bytes" where
  "encode_manifest m sig =
     enc_array_len 8 @ enc_text (cm_schema m) @ enc_text (cm_epoch m)
     @ enc_unsigned (cm_chunk_bytes m) @ enc_unsigned (cm_payload_bytes m)
     @ enc_bytes (cm_payload_sha256 m)
     @ enc_array_len (length (cm_chunks m)) @ concat (map enc_bytes (cm_chunks m))
     @ (case cm_delta m of
          Some d \<Rightarrow> enc_array_len 2 @ enc_text (cd_base_epoch d) @ enc_bytes (cd_base_sha256 d)
        | None \<Rightarrow> enc_null)
     @ (case sig of Some s \<Rightarrow> enc_bytes s | None \<Rightarrow> enc_null)"

definition encode_signed :: "cas_manifest \<Rightarrow> bytes" where
  "encode_signed m = encode_manifest m (cm_signature m)"

definition signature_payload :: "cas_manifest \<Rightarrow> bytes" where
  "signature_payload m = encode_manifest m None"

subsection \<open>Decoder\<close>

type_synonym 'a reader = "(bytes, cas_manifest_error, 'a) st_op"

datatype cbor_type = CtArray | CtBytes | CtText | CtUnsigned | CtNull

definition peek_type :: "cbor_type reader" where
  "peek_type rest = (case rest of
     [] \<Rightarrow> (Err UnexpectedEof, rest)
   | b # _ \<Rightarrow>
       if b = 0xF6 then (Ok CtNull, rest)
       else
         let major = drop_bit 5 b
         in if major = 0 then (Ok CtUnsigned, rest)
            else if major = 2 then (Ok CtBytes, rest)
            else if major = 3 then (Ok CtText, rest)
            else if major = 4 then (Ok CtArray, rest)
            else (Err (InvalidCbor ''unexpected major type''), rest))"

definition dec_read_byte :: "byte reader" where
  "dec_read_byte rest = (case rest of [] \<Rightarrow> (Err UnexpectedEof, rest) | b # r \<Rightarrow> (Ok b, r))"

definition dec_read_bytes :: "nat \<Rightarrow> bytes reader" where
  "dec_read_bytes len rest =
     (if length rest < len then (Err UnexpectedEof, rest) else (Ok (take len rest), drop len rest))"

definition read_len :: "byte \<Rightarrow> nat reader" where
  "read_len major =
     st_bind dec_read_byte (\<lambda>b.
       if b = 0xF6 then st_fail (InvalidCbor ''unexpected null'')
       else if drop_bit 5 b \<noteq> major then st_fail (InvalidCbor ''unexpected major type'')
       else
         let additional = b AND 0x1F
         in if additional < 24 then st_return (unat additional)
            else if additional = 24 then st_bind dec_read_byte (\<lambda>c. st_return (unat c))
            else if additional = 25 then st_bind (dec_read_bytes 2) (\<lambda>c. st_return (be_value c))
            else if additional = 26 then st_bind (dec_read_bytes 4) (\<lambda>c. st_return (be_value c))
            else if additional = 27 then st_bind (dec_read_bytes 8) (\<lambda>c. st_return (be_value c))
            else st_fail (InvalidCbor ''invalid additional value''))"

definition dec_array_len :: "nat reader" where
  "dec_array_len = read_len 4"

definition dec_text :: "string reader" where
  "dec_text =
     st_bind (read_len 3) (\<lambda>len. st_bind (dec_read_bytes len) (\<lambda>bs.
       st_lift (ok_or (from_utf8 bs) ManifestInvalidUtf8)))"

definition dec_bytes_fixed :: "nat \<Rightarrow> string \<Rightarrow> bytes reader" where
  "dec_bytes_fixed n reason =
     st_bind (read_len 2) (\<lambda>len.
       if len \<noteq> n then st_fail (InvalidField reason) else dec_read_bytes len)"

definition bytes_fixed_32 :: "bytes reader" where
  "bytes_fixed_32 = dec_bytes_fixed 32 ''expected 32-byte digest''"

definition bytes_fixed_64 :: "bytes reader" where
  "bytes_fixed_64 = dec_bytes_fixed 64 ''expected 64-byte signature''"

definition dec_unsigned :: "nat reader" where
  "dec_unsigned = read_len 0"

definition dec_null :: "unit reader" where
  "dec_null =
     st_bind dec_read_byte (\<lambda>b. if b \<noteq> 0xF6 then st_fail (InvalidCbor ''expected null'') else st_return ())"

definition ensure_eof :: "unit reader" where
  "ensure_eof rest = (if rest = [] then (Ok (), rest) else (Err (InvalidCbor ''trailing bytes''), rest))"

primrec read_digests :: "nat \<Rightarrow> bytes list reader" where
  "read_digests 0 = st_return []"
| "read_digests (Suc n) =
     st_bind bytes_fixed_32 (\<lambda>d. st_bind (read_digests n) (\<lambda>ds. st_return (d # ds)))"

definition dec_delta :: "cas_delta option reader" where
  "dec_delta = st_bind peek_type (\<lambda>t.
     if t = CtNull then st_then dec_null (st_return None)
     else if t = CtArray then
       st_bind dec_array_len (\<lambda>len.
         if len \<noteq> 2 then st_fail (InvalidField ''delta array length'')
         else st_bind dec_text (\<lambda>base_epoch. st_bind bytes_fixed_32 (\<lambda>base_sha256.
           st_return (Some \<lparr>cd_base_epoch = base_epoch, cd_base_sha256 = base_sha256\<rparr>))))
     else st_fail (InvalidField ''delta field type''))"

definition dec_signature :: "bytes option reader" where
  "dec_signature = st_bind peek_type (\<lambda>t.
     if t = CtNull then st_then dec_null (st_return None)
     else if t = CtBytes then st_bind bytes_fixed_64 (\<lambda>s. st_return (Some s))
     else st_fail (InvalidField ''signature field type''))"

definition manifest_reader :: "cas_manifest reader" where
  "manifest_reader =
     st_bind dec_array_len (\<lambda>len.
     if len \<noteq> 8 then st_fail (InvalidField ''manifest array length'')
     else
     st_bind dec_text (\<lambda>schema.
     if schema \<noteq> CAS_MANIFEST_SCHEMA then st_fail InvalidSchema
     else
     st_bind dec_text (\<lambda>epoch.
     st_bind dec_unsigned (\<lambda>chunk_bytes.
     st_bind dec_unsigned (\<lambda>payload_bytes.
     st_bind bytes_fixed_32 (\<lambda>payload_sha256.
     st_bind dec_array_len (\<lambda>chunk_count.
     st_bind (read_digests chunk_count) (\<lambda>chunks.
     st_bind dec_delta (\<lambda>delta.
     st_bind dec_signature (\<lambda>sig.
     st_then ensure_eof
       (st_return \<lparr>cm_schema = schema, cm_epoch = epoch, cm_chunk_bytes = as_u32 chunk_bytes,
          cm_payload_bytes = payload_bytes, cm_payload_sha256 = payload_sha256, cm_chunks = chunks,
          cm_delta = delta, cm_signature = sig\<rparr>)))))))))))"

definition decode_manifest :: "bytes \<Rightarrow> cas_manifest_error + cas_manifest" where
  "decode_manifest bs = fst (manifest_reader bs)"

section \<open>Correctness\<close>

subsection \<open>Readers that wait for more input\<close>

text \<open>
  A reader reads an encoding when it takes exactly its bytes off any input that starts with them,
  and reports the end of input on every proper prefix of them. \<open>reads_all\<close> is the same for a
  reader that must reach the end.
\<close>

definition reads :: "'a reader \<Rightarrow> bytes \<Rightarrow> 'a \<Rightarrow> bool" where
  "reads m bs v \<longleftrightarrow> (\<forall>rest. m (bs @ rest) = (Ok v, rest)) \<and>
     (\<forall>p. strict_prefix p bs \<longrightarrow> fst (m p) = Err UnexpectedEof)"

definition reads_all :: "'a reader \<Rightarrow> bytes \<Rightarrow> 'a \<Rightarrow> bool" where
  "reads_all m bs v \<longleftrightarrow> m bs = (Ok v, []) \<and> (\<forall>p. strict_prefix p bs \<longrightarrow> fst (m p) = Err UnexpectedEof)"

lemma strict_prefix_append_cases:
  assumes "strict_prefix p (a @ b)"
  obtains "strict_prefix p a" | q where "p = a @ q" "strict_prefix q b"
proof (cases "strict_prefix p a")
  case False
  with assms obtain q where "p = a @ q" "prefix q b" by (auto simp: strict_prefix_def prefix_append)
  with assms that(2) show thesis by (auto simp: strict_prefix_def)
qed (rule that(1))

lemma st_bind_stop: "fst (m s) = Err e \<Longrightarrow> fst (st_bind m f s) = Err e"
  by (cases "m s") (simp add: st_bind_def)

lemma reads_return: "reads (st_return v) [] v"
  by (simp add: reads_def st_return_def)

lemma reads_bind:
  assumes "reads m a x" and "reads (f x) b y"
  shows "reads (st_bind m f) (a @ b) y"
proof -
  have m: "m (a @ q) = (Ok x, q)" for q using assms(1) by (simp add: reads_def)
  have "fst (st_bind m f p) = Err UnexpectedEof" if "strict_prefix p (a @ b)" for p
    using that
  proof (cases rule: strict_prefix_append_cases)
    case 1
    with assms(1) show ?thesis by (intro st_bind_stop) (simp add: reads_def)
  next
    case (2 q)
    with assms(2) m show ?thesis by (simp add: reads_def st_bind_def)
  qed
  with m assms(2) show ?thesis by (simp add: reads_def st_bind_def)
qed

lemma reads_bind_all:
  assumes "reads m a x" and "reads_all (f x) b y"
  shows "reads_all (st_bind m f) (a @ b) y"
proof -
  have m: "m (a @ q) = (Ok x, q)" for q using assms(1) by (simp add: reads_def)
  have "fst (st_bind m f p) = Err UnexpectedEof" if "strict_prefix p (a @ b)" for p
    using that
  proof (cases rule: strict_prefix_append_cases)
    case 1
    with assms(1) show ?thesis by (intro st_bind_stop) (simp add: reads_def)
  next
    case (2 q)
    with assms(2) m show ?thesis by (simp add: reads_all_def st_bind_def)
  qed
  with m assms(2) show ?thesis by (simp add: reads_all_def st_bind_def)
qed

lemma reads_bind_last: "reads m a x \<Longrightarrow> reads (f x) [] y \<Longrightarrow> reads (st_bind m f) a y"
  using reads_bind [of m a x f "[]" y] by simp

lemma reads_bind_all_last: "reads m a x \<Longrightarrow> reads_all (f x) [] y \<Longrightarrow> reads_all (st_bind m f) a y"
  using reads_bind_all [of m a x f "[]" y] by simp

lemma reads_map: "reads m bs x \<Longrightarrow> reads (st_bind m (\<lambda>x. st_return (g x))) bs (g x)"
  by (erule reads_bind_last) (rule reads_return)

lemma reads_eof: "reads_all (st_then ensure_eof (st_return v)) [] v"
  by (simp add: reads_all_def ensure_eof_def st_bind_def st_return_def)

lemma reads_byte: "reads dec_read_byte [b] b"
  by (auto simp: reads_def dec_read_byte_def strict_prefix_def prefix_Cons)

lemma reads_bytes: "length bs = n \<Longrightarrow> reads (dec_read_bytes n) bs bs"
  by (auto simp: reads_def dec_read_bytes_def dest: prefix_length_less)

lemma reads_peek:
  assumes "bs = b # cs" and "peek_type [b] = (Ok t, [b])" and "reads (f t) bs v"
  shows "reads (st_bind peek_type f) bs v"
proof -
  have p: "peek_type (b # q) = (Ok t, b # q)" for q
    using assms(2) by (auto simp: peek_type_def Let_def split: if_splits)
  have "fst (st_bind peek_type f q) = Err UnexpectedEof" if "strict_prefix q bs" for q
  proof (cases q)
    case Nil
    then show ?thesis by (intro st_bind_stop) (simp add: peek_type_def)
  next
    case (Cons c q')
    with that assms(1) have "c = b" by (auto simp: strict_prefix_def)
    with Cons p that assms(3) show ?thesis by (simp add: st_bind_def reads_def)
  qed
  with p assms(1,3) show ?thesis by (simp add: reads_def st_bind_def)
qed

subsection \<open>Heads and items\<close>

lemma major_len_head: "v \<le> u64_max \<Longrightarrow> major_len major v = head major v"
  by (auto simp: major_len_def head_def head_info_def Let_def be_digits_def word_of_nat_eq_0_iff
    split: if_splits)

lemma reads_len:
  assumes "major \<in> {0, 2, 3, 4}" and "v \<le> u64_max"
  shows "reads (read_len major) (major_len major v) v"
proof -
  have m: "take_bit 3 major = major" using assms(1) by auto
  have null: "push_bit 5 major OR info \<noteq> 0xF6" if "take_bit 5 info = info" for info :: byte
  proof
    assume "push_bit 5 major OR info = 0xF6"
    with head_bits(2) [OF m that] have "major = drop_bit 5 0xF6" by metis
    with assms(1) show False by auto
  qed
  show ?thesis
    using assms(2)
  proof (cases v rule: head_info_cases)
    case small
    let ?b = "push_bit 5 major OR word_of_nat v :: byte"
    note bits = head_bits [OF m small_info(1) [OF small(1)]]
    have "word_of_nat v < (24 :: byte)" using small(1) by (simp add: word_less_nat_alt small_info)
    then have "reads (read_len major) ([?b] @ []) v"
      unfolding read_len_def
      using bits null [OF small_info(1) [OF small(1)]] small_info(3) [OF small(1)] reads_return [of v]
      by (intro reads_bind [OF reads_byte]) (simp add: Let_def)
    with small(2) show ?thesis by (simp add: head_def major_len_head [OF assms(2)])
  next
    case (wide k info)
    let ?b = "push_bit 5 major OR info"
    have i: "take_bit 5 info = info" using wide(1) by auto
    note bits = head_bits [OF m i]
    have e: "be_value (be_digits k v) = v" using wide(3) by (rule be_value_digits)
    have l: "length (be_digits k v) = k" by (simp add: be_digits_def)
    have b1: "be_digits 1 v = [word_of_nat v]" by (simp add: be_digits_def)
    have "reads (read_len major) ([?b] @ be_digits k v) v"
      unfolding read_len_def
      using bits null [OF i] wide(1) reads_map [OF reads_bytes [OF l], of be_value] e
        reads_map [OF reads_byte, of unat "word_of_nat v"] b1 unat_byte_of_nat [of v] wide(3)
      by (intro reads_bind [OF reads_byte]) (auto simp: Let_def)
    with wide(2) show ?thesis by (simp add: head_def major_len_head [OF assms(2)])
  qed
qed

lemma reads_text: "utf8_str v \<Longrightarrow> length v \<le> u64_max \<Longrightarrow> reads dec_text (enc_text v) v"
  unfolding dec_text_def enc_text_def
  by (rule reads_bind [OF reads_len], simp, assumption, rule reads_bind_last [OF reads_bytes])
    (simp_all add: reads_def st_lift_def)

lemma reads_fixed:
  "length v = n \<Longrightarrow> n \<le> u64_max \<Longrightarrow> reads (dec_bytes_fixed n reason) (enc_bytes v) v"
  using reads_bind [OF reads_len [of 2 n], of "\<lambda>len. if len \<noteq> n then st_fail (InvalidField reason) else dec_read_bytes len" v v]
    reads_bytes [of v n]
  by (simp add: dec_bytes_fixed_def enc_bytes_def)

lemma reads_digest: "length v = 32 \<Longrightarrow> reads bytes_fixed_32 (enc_bytes v) v"
  unfolding bytes_fixed_32_def by (rule reads_fixed) (simp_all add: u64_max_def)

lemma reads_digests:
  "list_all (\<lambda>d. length d = 32) ds \<Longrightarrow> reads (read_digests (length ds)) (concat (map enc_bytes ds)) ds"
proof (induction ds)
  case (Cons d ds)
  from Cons have "reads (st_bind (read_digests (length ds)) (\<lambda>ds. st_return (d # ds))) (concat (map enc_bytes ds)) (d # ds)"
    by (intro reads_map) simp
  with Cons.prems show ?case by (simp) (rule reads_bind [OF reads_digest], simp_all)
qed (simp add: reads_return)

subsection \<open>Manifests\<close>

definition manifest_ok :: "cas_manifest \<Rightarrow> bool" where
  "manifest_ok m \<longleftrightarrow>
     cm_schema m = CAS_MANIFEST_SCHEMA \<and> utf8_str (cm_epoch m) \<and> length (cm_epoch m) \<le> u64_max \<and>
     cm_chunk_bytes m \<le> u32_max \<and> cm_payload_bytes m \<le> u64_max \<and> length (cm_payload_sha256 m) = 32 \<and>
     length (cm_chunks m) \<le> u64_max \<and> list_all (\<lambda>d. length d = 32) (cm_chunks m) \<and>
     (case cm_delta m of None \<Rightarrow> True
      | Some d \<Rightarrow> utf8_str (cd_base_epoch d) \<and> length (cd_base_epoch d) \<le> u64_max \<and>
          length (cd_base_sha256 d) = 32) \<and>
     (case cm_signature m of None \<Rightarrow> True | Some s \<Rightarrow> length s = 64)"

lemma reads_null: "reads dec_null enc_null ()"
  unfolding dec_null_def enc_null_def
  by (rule reads_bind_last [OF reads_byte]) (simp add: reads_return)

lemma peek_head:
  assumes "major \<in> {0, 2, 3, 4}" and "v \<le> u64_max"
  obtains b bs where "major_len major v = b # bs" "peek_type [b] =
    (Ok (if major = 0 then CtUnsigned else if major = 2 then CtBytes else if major = 3 then CtText else CtArray), [b])"
proof -
  obtain info extra where h: "head_info v = (info, extra)" by force
  have m: "take_bit 3 major = major" using assms(1) by auto
  have i: "take_bit 5 info = info"
    using assms(2)
  proof (cases v rule: head_info_cases)
    case small
    with h small_info(1) [OF small(1)] show ?thesis by auto
  next
    case (wide k i)
    with h show ?thesis by auto
  qed
  have d: "drop_bit 5 (push_bit 5 major OR info) = major" by (rule head_bits(2) [OF m i])
  have "push_bit 5 major OR info \<noteq> 0xF6"
  proof
    assume "push_bit 5 major OR info = 0xF6"
    with d have "major = drop_bit 5 0xF6" by metis
    with assms(1) show False by auto
  qed
  with d that [of "push_bit 5 major OR info" extra] assms(1) h show thesis
    by (auto simp: major_len_head [OF assms(2)] head_def peek_type_def Let_def)
qed

lemma reads_delta:
  assumes "case d of None \<Rightarrow> True | Some d \<Rightarrow> utf8_str (cd_base_epoch d) \<and> length (cd_base_epoch d) \<le> u64_max \<and>
    length (cd_base_sha256 d) = 32"
  shows "reads dec_delta (case d of
      Some d \<Rightarrow> enc_array_len 2 @ enc_text (cd_base_epoch d) @ enc_bytes (cd_base_sha256 d)
    | None \<Rightarrow> enc_null) d"
proof (cases d)
  case None
  have "reads (st_then dec_null (st_return None)) enc_null None"
    by (rule reads_bind_last [OF reads_null reads_return])
  then show ?thesis
    unfolding None dec_delta_def
    by (simp add: enc_null_def) (rule reads_peek, simp, simp add: peek_type_def, simp)
next
  case (Some x)
  have u: "(2 :: nat) \<le> u64_max" by (simp add: u64_max_def)
  obtain b bs where b: "major_len 4 2 = b # bs" "peek_type [b] = (Ok CtArray, [b])"
    by (rule peek_head [of 4 2]) (auto simp: u)
  have t: "reads (st_bind dec_text (\<lambda>e. st_bind bytes_fixed_32 (\<lambda>s.
        st_return (Some \<lparr>cd_base_epoch = e, cd_base_sha256 = s\<rparr>))))
      (enc_text (cd_base_epoch x) @ enc_bytes (cd_base_sha256 x)) (Some x)"
    using assms Some
    by (cases x) (auto intro!: reads_bind [OF reads_text] reads_bind_last [OF reads_digest] simp: reads_return)
  have "reads (st_bind dec_array_len (\<lambda>len.
         if len \<noteq> 2 then st_fail (InvalidField ''delta array length'')
         else st_bind dec_text (\<lambda>e. st_bind bytes_fixed_32 (\<lambda>s.
           st_return (Some \<lparr>cd_base_epoch = e, cd_base_sha256 = s\<rparr>)))))
      (enc_array_len 2 @ enc_text (cd_base_epoch x) @ enc_bytes (cd_base_sha256 x)) (Some x)"
    unfolding dec_array_len_def enc_array_len_def
    by (rule reads_bind [OF reads_len [of 4 2]]) (use t u in simp_all)
  with Some b show ?thesis
    unfolding dec_delta_def
    by (simp add: enc_array_len_def) (rule reads_peek [where t = CtArray], auto)
qed

lemma reads_signature:
  assumes "case s of None \<Rightarrow> True | Some s \<Rightarrow> length s = 64"
  shows "reads dec_signature (case s of Some s \<Rightarrow> enc_bytes s | None \<Rightarrow> enc_null) s"
proof (cases s)
  case None
  have "reads (st_then dec_null (st_return None)) enc_null None"
    by (rule reads_bind_last [OF reads_null reads_return])
  then show ?thesis
    unfolding None dec_signature_def
    by (simp add: enc_null_def) (rule reads_peek, simp, simp add: peek_type_def, simp)
next
  case (Some x)
  have u: "(64 :: nat) \<le> u64_max" by (simp add: u64_max_def)
  obtain b bs where b: "major_len 2 64 = b # bs" "peek_type [b] = (Ok CtBytes, [b])"
    by (rule peek_head [of 2 64]) (auto simp: u)
  have "reads (st_bind bytes_fixed_64 (\<lambda>s. st_return (Some s))) (enc_bytes x) (Some x)"
    unfolding bytes_fixed_64_def using assms Some u by (intro reads_map reads_fixed) simp_all
  with Some assms b show ?thesis
    unfolding dec_signature_def
    by (simp add: enc_bytes_def) (rule reads_peek [where t = CtBytes], auto)
qed

lemma reads_manifest:
  assumes "manifest_ok m"
  shows "reads_all manifest_reader (encode_signed m) m"
proof -
  have s: "utf8_str CAS_MANIFEST_SCHEMA"
    unfolding utf8_str_def CAS_MANIFEST_SCHEMA_def
    by (rule utf8_valid_ascii) (simp add: str_bytes_def char_byte_def)
  note ok = assms [unfolded manifest_ok_def]
  have u: "cm_chunk_bytes m \<le> u64_max" "as_u32 (cm_chunk_bytes m) = cm_chunk_bytes m"
    using ok by (auto simp: u32_max_def u64_max_def as_u32_def)
  have "length CAS_MANIFEST_SCHEMA \<le> u64_max" by (simp add: CAS_MANIFEST_SCHEMA_def u64_max_def)
  note schema = reads_text [OF s this]
  have m: "\<lparr>cm_schema = CAS_MANIFEST_SCHEMA, cm_epoch = cm_epoch m, cm_chunk_bytes = as_u32 (cm_chunk_bytes m),
      cm_payload_bytes = cm_payload_bytes m, cm_payload_sha256 = cm_payload_sha256 m, cm_chunks = cm_chunks m,
      cm_delta = cm_delta m, cm_signature = cm_signature m\<rparr> = m"
    using ok u(2) by simp
  have head: "reads dec_array_len (enc_array_len n) n" if "n \<le> u64_max" for n
    unfolding dec_array_len_def enc_array_len_def using that by (intro reads_len) simp_all
  have num: "reads dec_unsigned (enc_unsigned n) n" if "n \<le> u64_max" for n
    unfolding dec_unsigned_def enc_unsigned_def using that by (intro reads_len) simp_all
  have 8: "(8 :: nat) \<le> u64_max" by (simp add: u64_max_def)
  show ?thesis
    unfolding manifest_reader_def encode_signed_def encode_manifest_def
    apply (rule reads_bind_all [OF head [OF 8]])
    apply (simp add: ok)
    apply (rule reads_bind_all [OF schema])
    apply simp
    apply (rule reads_bind_all [OF reads_text], simp add: ok, simp add: ok)
    apply (rule reads_bind_all [OF num [OF u(1)]])
    apply (rule reads_bind_all [OF num], simp add: ok)
    apply (rule reads_bind_all [OF reads_digest], simp add: ok)
    apply (rule reads_bind_all [OF head], simp add: ok)
    apply (rule reads_bind_all [OF reads_digests], simp add: ok)
    apply (rule reads_bind_all [OF reads_delta], simp add: ok)
    apply (rule reads_bind_all_last [OF reads_signature], simp add: ok)
    using reads_eof [of m] by (simp add: m)
qed

lemma take_strict_prefix: "k < length xs \<Longrightarrow> strict_prefix (take k xs) xs"
  by (metis append_take_drop_id drop_eq_Nil leD prefixI self_append_conv strict_prefix_def)

lemma decode_encode_signed: "manifest_ok m \<Longrightarrow> decode_manifest (encode_signed m) = Ok m"
  using reads_manifest by (auto simp: reads_all_def decode_manifest_def)

lemma decode_strict_prefix:
  "manifest_ok m \<Longrightarrow> strict_prefix bs (encode_signed m) \<Longrightarrow> decode_manifest bs = Err UnexpectedEof"
  using reads_manifest by (auto simp: reads_all_def decode_manifest_def)

subsection \<open>Property\<close>

text \<open>
  C34: A manifest can be uploaded in pieces. Decoding the encoding of a manifest gives back the
  manifest, and decoding any proper prefix of the encoding reports the end of input and nothing
  else, so an upload in pieces of any size is never rejected half way and is complete exactly at
  its last byte.
\<close>

theorem manifest_decodes_at_last_byte:
  assumes "manifest_ok m"
  shows "decode_manifest (encode_signed m) = Inr m \<and>
    (\<forall>k < length (encode_signed m). decode_manifest (take k (encode_signed m)) = Inl UnexpectedEof)"
  using assms decode_encode_signed decode_strict_prefix take_strict_prefix by blast

definition sample_manifest :: cas_manifest where
  "sample_manifest =
     \<lparr>cm_schema = CAS_MANIFEST_SCHEMA, cm_epoch = ''42'', cm_chunk_bytes = 4, cm_payload_bytes = 4,
      cm_payload_sha256 = replicate 32 4, cm_chunks = [replicate 32 4], cm_delta = None,
      cm_signature = Some (replicate 64 3)\<rparr>"

theorem manifest_decodes_at_last_byte_witness:
  "decode_manifest (encode_signed sample_manifest) = Inr sample_manifest \<and>
    decode_manifest (take 40 (encode_signed sample_manifest)) = Inl UnexpectedEof"
proof -
  have "utf8_str ''42''"
    unfolding utf8_str_def by (rule utf8_valid_ascii) (simp add: str_bytes_def char_byte_def)
  then have "manifest_ok sample_manifest"
    by (simp add: manifest_ok_def sample_manifest_def u32_max_def u64_max_def)
  moreover have "40 < length (encode_signed sample_manifest)"
    by (simp add: encode_signed_def encode_manifest_def sample_manifest_def enc_bytes_def)
  ultimately show ?thesis using manifest_decodes_at_last_byte by blast
qed

end
