(* ===== verification/Cas_Store.thy ===== *)
theory Cas_Store
  imports Btree_Map Cas_Manifest Ui_Provider Trace_Fs
begin

section \<open>The content-addressed update store\<close>

text \<open>
  \<open>src/apps/nine-door/src/host/cas.rs\<close>: chunks are stored under the hash of their content, manifests
  under their epoch, model files under the hash of the weights. The crates the store calls are the
  fields of \<open>cas_ext\<close>: \<open>Sha256::digest\<close>, \<open>hex::encode\<close>, \<open>hex::decode_to_slice\<close>, the base64
  decoder, \<open>VerifyingKey::from_bytes\<close> (whether the key bytes are a key) and \<open>verify\<close> under the
  key. An \<open>expect\<close> of the source is the error \<open>Panic\<close>.
\<close>

record cas_ext =
  cx_sha256 :: "bytes \<Rightarrow> bytes"
  cx_hex :: "bytes \<Rightarrow> string"
  cx_unhex :: "string \<Rightarrow> bytes option"
  cx_base64 :: "bytes \<Rightarrow> bytes option"
  cx_key :: "bytes \<Rightarrow> bool"
  cx_verify :: "bytes \<Rightarrow> bytes \<Rightarrow> bytes \<Rightarrow> bool"

definition CAS_MAX_CHUNKS :: nat where "CAS_MAX_CHUNKS = 8"
definition CAS_MAX_UPDATES :: nat where "CAS_MAX_UPDATES = 8"
definition CAS_MAX_MODELS :: nat where "CAS_MAX_MODELS = 8"
definition CAS_QUARANTINE_LIMIT :: nat where "CAS_QUARANTINE_LIMIT = 8"
definition CAS_MANIFEST_MAX_BYTES :: nat where "CAS_MANIFEST_MAX_BYTES = 2048"

lemmas cas_limits = CAS_MAX_CHUNKS_def CAS_MAX_UPDATES_def CAS_MAX_MODELS_def
  CAS_QUARANTINE_LIMIT_def CAS_MANIFEST_MAX_BYTES_def

record cas_config =
  cc_enabled :: bool
  cc_models_enabled :: bool
  cc_chunk_bytes :: nat
  cc_delta_enabled :: bool
  cc_signing_required :: bool
  cc_signing_key :: "bytes option"

definition cas_disabled :: cas_config where
  "cas_disabled =
     \<lparr>cc_enabled = False, cc_models_enabled = False, cc_chunk_bytes = 0, cc_delta_enabled = False,
      cc_signing_required = False, cc_signing_key = None\<rparr>"

definition cas_enabled :: "nat \<Rightarrow> bool \<Rightarrow> bool \<Rightarrow> bytes option \<Rightarrow> bool \<Rightarrow> cas_config" where
  "cas_enabled chunk_bytes delta_enabled signing_required signing_key models_enabled =
     \<lparr>cc_enabled = True, cc_models_enabled = models_enabled, cc_chunk_bytes = chunk_bytes,
      cc_delta_enabled = delta_enabled, cc_signing_required = signing_required,
      cc_signing_key = signing_key\<rparr>"

record update_bundle =
  ub_manifest_bytes :: "bytes option"
  ub_manifest_pending :: bytes
  ub_manifest :: "cas_manifest option"

definition update_bundle_default :: update_bundle where
  "update_bundle_default = \<lparr>ub_manifest_bytes = None, ub_manifest_pending = [], ub_manifest = None\<rparr>"

record model_bundle =
  mb_weights_committed :: bool
  mb_schema :: "bytes option"
  mb_signature :: "bytes option"

definition model_bundle_default :: model_bundle where
  "model_bundle_default = \<lparr>mb_weights_committed = False, mb_schema = None, mb_signature = None\<rparr>"

record quarantine_entry =
  qe_epoch :: string
  qe_expected :: string
  qe_actual :: string
  qe_bytes :: nat

record cas_event =
  ce_level :: trace_level
  ce_message :: string

definition cas_info :: "string \<Rightarrow> cas_event" where
  "cas_info message = \<lparr>ce_level = TlInfo, ce_message = message\<rparr>"

definition cas_warn :: "string \<Rightarrow> cas_event" where
  "cas_warn message = \<lparr>ce_level = TlWarn, ce_message = message\<rparr>"

datatype model_file_kind = Weights | Schema | ModelSignature

record cas_store =
  cs_config :: cas_config
  cs_updates :: "(string, update_bundle) btree"
  cs_chunks :: "(bytes, bytes) btree"
  cs_pending :: "(bytes, bytes) btree"
  cs_models :: "(bytes, model_bundle) btree"
  cs_quarantine :: "quarantine_entry list"
  cs_events :: "cas_event list"
  cs_bytes_used :: nat

definition cas_store_new :: "cas_config \<Rightarrow> cas_store" where
  "cas_store_new config =
     \<lparr>cs_config = config, cs_updates = [], cs_chunks = [], cs_pending = [], cs_models = [],
      cs_quarantine = [], cs_events = [], cs_bytes_used = 0\<rparr>"

definition drain_events :: "cas_store \<Rightarrow> cas_event list \<times> cas_store" where
  "drain_events s = (cs_events s, s\<lparr>cs_events := []\<rparr>)"

subsection \<open>Payloads and names\<close>

definition trim_payload :: "bytes \<Rightarrow> bytes" where
  "trim_payload data =
     (if data \<noteq> [] \<and> last data = 10
      then (let rest = butlast data in if rest \<noteq> [] \<and> last rest = 13 then butlast rest else rest)
      else data)"

definition decode_payload :: "cas_ext \<Rightarrow> bytes \<Rightarrow> ninedoor_error + bytes" where
  "decode_payload x data =
     (let trimmed = trim_payload data
      in case strip_prefix (str_bytes ''b64:'') trimmed of
           Some encoded \<Rightarrow> ok_or (cx_base64 x encoded) (Protocol EInvalid ''base64 decode failed'')
         | None \<Rightarrow> Ok trimmed)"

definition is_ascii_hexdigit :: "char \<Rightarrow> bool" where
  "is_ascii_hexdigit c \<longleftrightarrow> is_ascii_digit c \<or> c \<in> set ''abcdefABCDEF''"

definition parse_sha256 :: "cas_ext \<Rightarrow> string \<Rightarrow> ninedoor_error + bytes" where
  "parse_sha256 x hex_str =
     (if length hex_str \<noteq> 64 \<or> \<not> list_all is_ascii_hexdigit hex_str
      then Err (Protocol EInvalid ''invalid sha256 digest'')
      else ok_or (cx_unhex x hex_str) (Protocol EInvalid ''invalid sha256 digest''))"

subsection \<open>Listings and reads\<close>

definition list_updates :: "cas_store \<Rightarrow> string list" where
  "list_updates s = bt_keys (cs_updates s)"

definition list_models :: "cas_ext \<Rightarrow> cas_store \<Rightarrow> string list" where
  "list_models x s = map (cx_hex x) (bt_keys (cs_models s))"

definition committed_manifest :: "cas_store \<Rightarrow> string \<Rightarrow> cas_manifest option" where
  "committed_manifest s epoch = Option.bind (map_of (cs_updates s) epoch) ub_manifest"

definition list_update_chunks :: "cas_ext \<Rightarrow> string \<Rightarrow> cas_store \<Rightarrow> string list" where
  "list_update_chunks x epoch s = (case committed_manifest s epoch of
     None \<Rightarrow> []
   | Some m \<Rightarrow> sort (map (cx_hex x) (cm_chunks m)))"

definition list_model_entries :: "bytes \<Rightarrow> cas_store \<Rightarrow> string list" where
  "list_model_entries digest s = (case map_of (cs_models s) digest of
     None \<Rightarrow> []
   | Some m \<Rightarrow> sort ([''weights''] @ (if mb_schema m \<noteq> None then [''schema''] else [])
       @ (if mb_signature m \<noteq> None then [''signature''] else [])))"

definition read_manifest :: "string \<Rightarrow> nat \<Rightarrow> nat \<Rightarrow> cas_store \<Rightarrow> ninedoor_error + bytes" where
  "read_manifest epoch offset count s =
     and_then (ok_or (map_of (cs_updates s) epoch)
       (Protocol ENotFound (''update epoch '' @ epoch @ '' not found''))) (\<lambda>bundle.
     and_then (ok_or (ub_manifest_bytes bundle)
       (Protocol ENotFound (''update manifest '' @ epoch @ '' not committed''))) (\<lambda>data.
     Ok (read_slice data offset count)))"

definition read_chunk :: "cas_ext \<Rightarrow> bytes \<Rightarrow> nat \<Rightarrow> nat \<Rightarrow> cas_store \<Rightarrow> ninedoor_error + bytes" where
  "read_chunk x digest offset count s =
     and_then (ok_or (map_of (cs_chunks s) digest)
       (Protocol ENotFound (''chunk '' @ cx_hex x digest @ '' not found''))) (\<lambda>data.
     Ok (read_slice data offset count))"

definition read_model_file ::
  "cas_ext \<Rightarrow> bytes \<Rightarrow> model_file_kind \<Rightarrow> nat \<Rightarrow> nat \<Rightarrow> cas_store \<Rightarrow> ninedoor_error + bytes" where
  "read_model_file x digest kind offset count s =
     and_then (ok_or (map_of (cs_models s) digest)
       (Protocol ENotFound (''model '' @ cx_hex x digest @ '' not found''))) (\<lambda>model.
     case kind of
       Weights \<Rightarrow> read_chunk x digest offset count s
     | Schema \<Rightarrow> and_then (ok_or (mb_schema model)
         (Protocol ENotFound (''model schema '' @ cx_hex x digest @ '' not found'')))
         (\<lambda>data. Ok (read_slice data offset count))
     | ModelSignature \<Rightarrow> and_then (ok_or (mb_signature model)
         (Protocol ENotFound (''model signature '' @ cx_hex x digest @ '' not found'')))
         (\<lambda>data. Ok (read_slice data offset count)))"

subsection \<open>Admission\<close>

definition ensure_enabled :: "cas_store \<Rightarrow> ninedoor_error + unit" where
  "ensure_enabled s =
     (if cc_enabled (cs_config s) then Ok () else Err (Protocol ENotFound ''cas disabled''))"

definition ensure_models_enabled :: "cas_store \<Rightarrow> ninedoor_error + unit" where
  "ensure_models_enabled s =
     (if cc_enabled (cs_config s) \<and> cc_models_enabled (cs_config s) then Ok ()
      else Err (Protocol ENotFound ''models disabled''))"

definition set_bundle :: "string \<Rightarrow> update_bundle \<Rightarrow> cas_store \<Rightarrow> cas_store" where
  "set_bundle epoch bundle s = s\<lparr>cs_updates := bt_insert epoch bundle (cs_updates s)\<rparr>"

definition set_model :: "bytes \<Rightarrow> model_bundle \<Rightarrow> cas_store \<Rightarrow> cas_store" where
  "set_model digest model s = s\<lparr>cs_models := bt_insert digest model (cs_models s)\<rparr>"

definition ensure_epoch :: "string \<Rightarrow> (cas_store, ninedoor_error, unit) st_op" where
  "ensure_epoch epoch =
     st_then (st_lift (validate_epoch epoch)) (st_read (\<lambda>s.
       if bt_contains (cs_updates s) epoch then st_return ()
       else if length (cs_updates s) \<ge> CAS_MAX_UPDATES
       then st_fail (Protocol ETooBig ''cas update capacity exceeded'')
       else st_modify (set_bundle epoch update_bundle_default)))"

definition ensure_model :: "bytes \<Rightarrow> (cas_store, ninedoor_error, unit) st_op" where
  "ensure_model digest = st_read (\<lambda>s.
     if bt_contains (cs_models s) digest then st_return ()
     else if length (cs_models s) \<ge> CAS_MAX_MODELS
     then st_fail (Protocol ETooBig ''cas model capacity exceeded'')
     else st_modify (set_model digest model_bundle_default))"

definition ensure_update :: "string \<Rightarrow> (cas_store, ninedoor_error, unit) st_op" where
  "ensure_update epoch = st_then (st_read (\<lambda>s. st_lift (ensure_enabled s))) (ensure_epoch epoch)"

definition ensure_model_entry :: "bytes \<Rightarrow> (cas_store, ninedoor_error, unit) st_op" where
  "ensure_model_entry digest =
     st_then (st_read (\<lambda>s. st_lift (ensure_models_enabled s))) (ensure_model digest)"

definition can_reserve_bytes :: "cas_store \<Rightarrow> nat \<Rightarrow> bool" where
  "can_reserve_bytes s additional =
     (if cc_chunk_bytes (cs_config s) = 0 then False
      else sat_add (cs_bytes_used s) additional
        \<le> sat_mul (cc_chunk_bytes (cs_config s)) CAS_MAX_CHUNKS)"

subsection \<open>Chunks\<close>

definition quarantine_chunk ::
  "cas_ext \<Rightarrow> string \<Rightarrow> bytes \<Rightarrow> bytes \<Rightarrow> nat \<Rightarrow> cas_store \<Rightarrow> cas_store" where
  "quarantine_chunk x epoch expected actual n s =
     (let entry = \<lparr>qe_epoch = epoch, qe_expected = cx_hex x expected, qe_actual = cx_hex x actual,
            qe_bytes = n\<rparr>;
          kept = (if length (cs_quarantine s) \<ge> CAS_QUARANTINE_LIMIT
            then tl (cs_quarantine s) else cs_quarantine s);
          event = cas_warn (''cas-chunk quarantined epoch='' @ qe_epoch entry @ '' expected=''
            @ qe_expected entry @ '' actual='' @ qe_actual entry @ '' bytes='' @ show_nat (qe_bytes entry))
      in s\<lparr>cs_quarantine := kept @ [entry], cs_events := cs_events s @ [event]\<rparr>)"

definition pending_chunk :: "cas_store \<Rightarrow> bytes \<Rightarrow> bytes" where
  "pending_chunk s digest = (case map_of (cs_pending s) digest of None \<Rightarrow> [] | Some p \<Rightarrow> p)"

definition append_chunk_internal ::
  "cas_ext \<Rightarrow> string \<Rightarrow> bytes \<Rightarrow> nat \<Rightarrow> bytes \<Rightarrow> (cas_store, ninedoor_error, nat) st_op" where
  "append_chunk_internal x label digest offset data s = (case decode_payload x data of
     Err e \<Rightarrow> (Err e, s)
   | Ok payload \<Rightarrow> (case map_of (cs_chunks s) digest of
       Some existing \<Rightarrow>
         if offset \<noteq> 0 \<and> offset \<noteq> u64_max
         then (Err (Protocol EInvalid ''chunk already committed''), s)
         else if existing = payload then (Ok (as_u32 (length data)), s)
         else (Err (Protocol EInvalid ''chunk already committed''), s)
     | None \<Rightarrow>
         let chunk_bytes = cc_chunk_bytes (cs_config s);
             expected_offset = length (pending_chunk s digest);
             provided_offset = (if offset = u64_max then expected_offset else offset)
         in if length payload > chunk_bytes
         then (Err (Protocol ETooBig (''chunk payload '' @ show_nat (length payload)
           @ '' exceeds chunk_bytes '' @ show_nat chunk_bytes)), s)
         else if provided_offset \<noteq> expected_offset
         then (Err (Protocol EInvalid (''chunk append offset rejected: expected ''
           @ show_nat expected_offset @ '' got '' @ show_nat provided_offset)), s)
         else if \<not> can_reserve_bytes s (length payload)
         then (Err (Protocol ETooBig ''cas store capacity exceeded''), s)
         else let pending = pending_chunk s digest @ payload;
             pending_len = length pending;
             used = sat_add (cs_bytes_used s) (length payload);
             s1 = s\<lparr>cs_pending := bt_insert digest pending (cs_pending s), cs_bytes_used := used\<rparr>;
             cleared = bt_insert digest [] (cs_pending s1)
           in if pending_len < chunk_bytes then (Ok (as_u32 (length data)), s1)
           else if pending_len > chunk_bytes
           then (Err (Protocol ETooBig (''chunk payload exceeded chunk_bytes (len=''
               @ show_nat pending_len @ '')'')),
             s1\<lparr>cs_pending := cleared, cs_bytes_used := used - pending_len\<rparr>)
           else if cx_sha256 x pending \<noteq> digest
           then (Err (Protocol EInvalid ''chunk hash mismatch''),
             (quarantine_chunk x label digest (cx_sha256 x pending) pending_len s1)
               \<lparr>cs_bytes_used := used - pending_len, cs_pending := cleared\<rparr>)
           else (Ok (as_u32 (length data)),
             s1\<lparr>cs_pending := bt_remove digest (cs_pending s1),
               cs_chunks := bt_insert digest pending (cs_chunks s)\<rparr>)))"

definition append_chunk ::
  "cas_ext \<Rightarrow> string \<Rightarrow> bytes \<Rightarrow> nat \<Rightarrow> bytes \<Rightarrow> (cas_store, ninedoor_error, nat) st_op" where
  "append_chunk x epoch digest offset data =
     st_then (st_read (\<lambda>s. st_lift (ensure_enabled s)))
       (st_then (ensure_epoch epoch) (append_chunk_internal x epoch digest offset data))"

subsection \<open>Models\<close>

text \<open>The schema and the signature of a model are written by one write each, in the same way.\<close>

definition append_model_blob ::
  "cas_ext \<Rightarrow> string \<Rightarrow> (model_bundle \<Rightarrow> bytes option) \<Rightarrow> (bytes \<Rightarrow> model_bundle \<Rightarrow> model_bundle) \<Rightarrow>
    bytes \<Rightarrow> nat \<Rightarrow> bytes \<Rightarrow> (cas_store, ninedoor_error fault, nat) st_op" where
  "append_model_blob x what field set_field digest offset data s =
     (let existing_len = map_option length (Option.bind (map_of (cs_models s) digest) field)
      in if existing_len \<noteq> None
      then (Err (Fail (Protocol EPermission (''model '' @ what @ '' is read-only''))), s)
      else case decode_payload x data of
        Err e \<Rightarrow> (Err (Fail e), s)
      | Ok payload \<Rightarrow>
          let expected_offset = (case existing_len of None \<Rightarrow> 0 | Some n \<Rightarrow> n);
              provided_offset = (if offset = u64_max then expected_offset else offset)
          in if length payload > cc_chunk_bytes (cs_config s)
          then (Err (Fail (Protocol ETooBig (''model '' @ what @ '' exceeds chunk_bytes''))), s)
          else if provided_offset \<noteq> expected_offset
          then (Err (Fail (Protocol EInvalid (''model '' @ what @ '' append offset rejected''))), s)
          else if \<not> can_reserve_bytes s (length payload)
          then (Err (Fail (Protocol ETooBig ''cas store capacity exceeded'')), s)
          else case map_of (cs_models s) digest of
            None \<Rightarrow> (Err Panic, s)
          | Some model \<Rightarrow>
              (Ok (as_u32 (length data)),
               (set_model digest (set_field payload model) s)
                 \<lparr>cs_bytes_used := sat_add (cs_bytes_used s) (length payload)\<rparr>))"

definition append_weights ::
  "cas_ext \<Rightarrow> bytes \<Rightarrow> nat \<Rightarrow> bytes \<Rightarrow> (cas_store, ninedoor_error fault, nat) st_op" where
  "append_weights x digest offset data s = (case map_of (cs_models s) digest of
     None \<Rightarrow> (Err Panic, s)
   | Some model \<Rightarrow>
       if mb_weights_committed model
       then (Err (Fail (Protocol EPermission ''model weights are read-only'')), s)
       else st_bind (st_map_err Fail (append_chunk_internal x ''model'' digest offset data)) (\<lambda>count s.
         if bt_contains (cs_chunks s) digest
         then (case map_of (cs_models s) digest of
             None \<Rightarrow> (Err Panic, s)
           | Some model \<Rightarrow>
               (Ok count, set_model digest (model\<lparr>mb_weights_committed := True\<rparr>) s))
         else (Ok count, s)) s)"

definition append_model_file ::
  "cas_ext \<Rightarrow> bytes \<Rightarrow> model_file_kind \<Rightarrow> nat \<Rightarrow> bytes \<Rightarrow> (cas_store, ninedoor_error fault, nat) st_op" where
  "append_model_file x digest kind offset data =
     st_then (st_map_err Fail (st_read (\<lambda>s. st_lift (ensure_models_enabled s))))
       (st_then (st_map_err Fail (ensure_model digest)) (case kind of
          Weights \<Rightarrow> append_weights x digest offset data
        | Schema \<Rightarrow> append_model_blob x ''schema'' mb_schema
            (\<lambda>payload. mb_schema_update (\<lambda>_. Some payload)) digest offset data
        | ModelSignature \<Rightarrow> append_model_blob x ''signature'' mb_signature
            (\<lambda>payload. mb_signature_update (\<lambda>_. Some payload)) digest offset data))"

subsection \<open>Manifests\<close>

definition gather_chunks ::
  "cas_ext \<Rightarrow> string \<Rightarrow> cas_store \<Rightarrow> bytes list \<Rightarrow> ninedoor_error + bytes" where
  "gather_chunks x what s digests =
     foldl (\<lambda>acc digest. and_then acc (\<lambda>payload.
       and_then (ok_or (map_of (cs_chunks s) digest)
         (Protocol ENotFound (what @ '' chunk '' @ cx_hex x digest @ '' missing'')))
         (\<lambda>chunk. Ok (payload @ chunk)))) (Ok []) digests"

definition delta_base :: "cas_store \<Rightarrow> cas_delta \<Rightarrow> ninedoor_error + cas_manifest" where
  "delta_base s delta =
     ok_or (committed_manifest s (cd_base_epoch delta))
       (Protocol ENotFound (''delta base epoch '' @ cd_base_epoch delta @ '' missing''))"

definition assemble_payload :: "cas_ext \<Rightarrow> cas_manifest \<Rightarrow> cas_store \<Rightarrow> ninedoor_error + bytes" where
  "assemble_payload x manifest s =
     and_then (case cm_delta manifest of
         None \<Rightarrow> Ok []
       | Some delta \<Rightarrow> and_then (delta_base s delta) (\<lambda>base.
           gather_chunks x ''delta base'' s (cm_chunks base))) (\<lambda>prefix.
     and_then (gather_chunks x ''manifest'' s (cm_chunks manifest)) (\<lambda>rest. Ok (prefix @ rest)))"

definition check_delta :: "cas_store \<Rightarrow> cas_manifest \<Rightarrow> ninedoor_error + unit" where
  "check_delta s manifest = (case cm_delta manifest of
     None \<Rightarrow> Ok ()
   | Some delta \<Rightarrow>
       if \<not> cc_delta_enabled (cs_config s)
       then Err (Protocol EPermission ''delta manifests disabled'')
       else and_then (delta_base s delta) (\<lambda>base.
         if cm_delta base \<noteq> None then Err (Protocol EInvalid ''delta base epoch must be non-delta'')
         else if cm_payload_sha256 base \<noteq> cd_base_sha256 delta
         then Err (Protocol EInvalid ''delta base hash mismatch'')
         else Ok ()))"

definition check_shape :: "string \<Rightarrow> cas_manifest \<Rightarrow> cas_store \<Rightarrow> ninedoor_error + unit" where
  "check_shape epoch manifest s =
     (if cm_schema manifest \<noteq> CAS_MANIFEST_SCHEMA
      then Err (Protocol EInvalid ''manifest schema mismatch'')
      else if cm_epoch manifest \<noteq> epoch
      then Err (Protocol EInvalid ''manifest epoch mismatch'')
      else if cm_chunk_bytes manifest \<noteq> cc_chunk_bytes (cs_config s)
      then Err (Protocol EInvalid ''manifest chunk_bytes mismatch'')
      else if cm_payload_bytes manifest \<noteq> sat_mul (length (cm_chunks manifest)) (cm_chunk_bytes manifest)
      then Err (Protocol EInvalid ''manifest payload_bytes mismatch'')
      else if length (cm_chunks manifest) > CAS_MAX_CHUNKS
      then Err (Protocol ETooBig ''manifest chunk count exceeds limit'')
      else Ok ())"

definition push_event :: "cas_event \<Rightarrow> cas_store \<Rightarrow> cas_store" where
  "push_event e s = s\<lparr>cs_events := cs_events s @ [e]\<rparr>"

definition reject_manifest :: "string \<Rightarrow> string \<Rightarrow> string \<Rightarrow> (cas_store, ninedoor_error, 'a) st_op" where
  "reject_manifest epoch reason message =
     st_then (st_modify (push_event (cas_warn (''cas-manifest rejected epoch='' @ epoch @ '' reason='' @ reason))))
       (st_fail (Protocol EPermission message))"

definition check_signature :: "cas_ext \<Rightarrow> string \<Rightarrow> cas_manifest \<Rightarrow> (cas_store, ninedoor_error, unit) st_op" where
  "check_signature x epoch manifest = st_read (\<lambda>s. case cm_signature manifest of
     None \<Rightarrow>
       if cc_signing_required (cs_config s)
       then reject_manifest epoch ''missing-signature'' ''manifest signature required''
       else st_return ()
   | Some signature \<Rightarrow> (case cc_signing_key (cs_config s) of
       None \<Rightarrow> reject_manifest epoch ''signing-key-missing'' ''signing key missing''
     | Some key \<Rightarrow>
         if \<not> cx_key x key then st_fail (Protocol EInvalid ''signing key invalid'')
         else if \<not> cx_verify x key (signature_payload manifest) signature
         then reject_manifest epoch ''signature-failed'' ''manifest signature invalid''
         else st_return ()))"

definition check_payload :: "cas_ext \<Rightarrow> cas_manifest \<Rightarrow> cas_store \<Rightarrow> ninedoor_error + unit" where
  "check_payload x manifest s =
     and_then (assemble_payload x manifest s) (\<lambda>payload.
       if cx_sha256 x payload \<noteq> cm_payload_sha256 manifest
       then Err (Protocol EInvalid ''manifest payload hash mismatch'') else Ok ())"

definition accepted_event :: "cas_ext \<Rightarrow> string \<Rightarrow> cas_manifest \<Rightarrow> cas_event" where
  "accepted_event x epoch manifest =
     cas_info (''cas-manifest accepted epoch='' @ epoch
       @ '' kind='' @ (if cm_delta manifest \<noteq> None then ''delta'' else ''base'')
       @ '' payload_sha256='' @ cx_hex x (cm_payload_sha256 manifest)
       @ '' chunks='' @ show_nat (length (cm_chunks manifest)))"

definition validate_manifest ::
  "cas_ext \<Rightarrow> string \<Rightarrow> cas_manifest \<Rightarrow> (cas_store, ninedoor_error, unit) st_op" where
  "validate_manifest x epoch manifest =
     st_then (st_read (\<lambda>s. st_lift (check_shape epoch manifest s)))
    (st_then (st_read (\<lambda>s. st_lift (check_delta s manifest)))
    (st_then (check_signature x epoch manifest)
    (st_then (st_read (\<lambda>s. st_lift (check_payload x manifest s)))
       (st_modify (push_event (accepted_event x epoch manifest))))))"

text \<open>
  The part of \<open>append_manifest\<close> after the bytes have been appended to the pending bytes of the
  bundle. Validation does not touch the bundles, so the bundle it continues with is the same one.
\<close>

definition finish_manifest ::
  "cas_ext \<Rightarrow> string \<Rightarrow> update_bundle \<Rightarrow> nat \<Rightarrow> (cas_store, ninedoor_error fault, nat) st_op" where
  "finish_manifest x epoch bundle count s =
     (let pending = ub_manifest_pending bundle;
          cleared = bundle\<lparr>ub_manifest_pending := []\<rparr>
      in case decode_manifest pending of
        Ok manifest \<Rightarrow> (case validate_manifest x epoch manifest s of
            (Err e, s') \<Rightarrow> (Err (Fail e), set_bundle epoch cleared s')
          | (Ok _, s') \<Rightarrow>
              (Ok count, set_bundle epoch
                (cleared\<lparr>ub_manifest_bytes := Some pending, ub_manifest := Some manifest\<rparr>) s'))
      | Err UnexpectedEof \<Rightarrow> (Ok count, s)
      | Err e \<Rightarrow>
          (Err (Fail (Protocol EInvalid (''manifest invalid: '' @ cas_manifest_error_display e))),
           set_bundle epoch cleared s))"

definition append_manifest_bytes ::
  "cas_ext \<Rightarrow> string \<Rightarrow> nat \<Rightarrow> bytes \<Rightarrow> nat \<Rightarrow> (cas_store, ninedoor_error fault, nat) st_op" where
  "append_manifest_bytes x epoch offset payload count s = (case map_of (cs_updates s) epoch of
     None \<Rightarrow> (Err Panic, s)
   | Some bundle \<Rightarrow>
       let expected_offset = length (ub_manifest_pending bundle);
           provided_offset = (if offset = u64_max then expected_offset else offset)
       in if ub_manifest_bytes bundle \<noteq> None
       then (Err (Fail (Protocol EPermission ''manifest already committed'')), s)
       else if provided_offset \<noteq> expected_offset
       then (Err (Fail (Protocol EInvalid (''manifest append offset rejected: expected ''
         @ show_nat expected_offset @ '' got '' @ show_nat provided_offset))), s)
       else if expected_offset + length payload > CAS_MANIFEST_MAX_BYTES
       then (Err (Fail (Protocol ETooBig ''manifest exceeds max bytes'')), s)
       else let bundle' = bundle\<lparr>ub_manifest_pending := ub_manifest_pending bundle @ payload\<rparr>
         in finish_manifest x epoch bundle' count (set_bundle epoch bundle' s))"

definition append_manifest ::
  "cas_ext \<Rightarrow> string \<Rightarrow> nat \<Rightarrow> bytes \<Rightarrow> (cas_store, ninedoor_error fault, nat) st_op" where
  "append_manifest x epoch offset data =
     st_then (st_map_err Fail (st_read (\<lambda>s. st_lift (ensure_enabled s))))
    (st_then (st_map_err Fail (ensure_epoch epoch))
    (st_bind (st_map_err Fail (st_lift (decode_payload x data))) (\<lambda>payload.
       append_manifest_bytes x epoch offset payload (as_u32 (length data)))))"

subsection \<open>Status\<close>

record update_status_snapshot =
  us_epoch :: string
  us_state :: string
  us_manifest_bytes :: nat
  us_manifest_pending_bytes :: nat
  us_chunks_expected :: nat
  us_chunks_committed :: nat
  us_chunks_pending :: nat
  us_chunks_missing :: nat
  us_payload_bytes :: nat
  us_payload_sha256 :: "bytes option"
  us_delta_base_epoch :: "string option"
  us_delta_base_sha256 :: "bytes option"

definition update_status_snapshot_of :: "string \<Rightarrow> cas_store \<Rightarrow> ninedoor_error + update_status_snapshot" where
  "update_status_snapshot_of epoch s =
     and_then (ok_or (map_of (cs_updates s) epoch) (Protocol ENotFound ''update not found'')) (\<lambda>bundle.
     let pending_bytes = length (ub_manifest_pending bundle);
         empty = \<lparr>us_epoch = epoch, us_state = ''empty'',
           us_manifest_bytes = (case ub_manifest_bytes bundle of None \<Rightarrow> 0 | Some d \<Rightarrow> length d),
           us_manifest_pending_bytes = pending_bytes, us_chunks_expected = 0, us_chunks_committed = 0,
           us_chunks_pending = 0, us_chunks_missing = 0, us_payload_bytes = 0, us_payload_sha256 = None,
           us_delta_base_epoch = None, us_delta_base_sha256 = None\<rparr>
     in case ub_manifest bundle of
          None \<Rightarrow> Ok (if pending_bytes > 0 then empty\<lparr>us_state := ''manifest_pending''\<rparr> else empty)
        | Some manifest \<Rightarrow>
            let expected = length (cm_chunks manifest);
                committed = sat_count (bt_contains (cs_chunks s)) (cm_chunks manifest);
                pending = sat_count (\<lambda>d. \<not> bt_contains (cs_chunks s) d \<and> bt_contains (cs_pending s) d)
                  (cm_chunks manifest)
            in Ok (empty\<lparr>us_payload_bytes := cm_payload_bytes manifest,
                 us_payload_sha256 := Some (cm_payload_sha256 manifest),
                 us_delta_base_epoch := map_option cd_base_epoch (cm_delta manifest),
                 us_delta_base_sha256 := map_option cd_base_sha256 (cm_delta manifest),
                 us_chunks_expected := expected, us_chunks_committed := committed,
                 us_chunks_pending := pending, us_chunks_missing := expected - committed - pending,
                 us_state := (if expected = committed then ''ready'' else ''chunks_pending'')\<rparr>))"

definition build_update_status_text :: "cas_ext \<Rightarrow> update_status_snapshot \<Rightarrow> ninedoor_error + bytes" where
  "build_update_status_text x u =
     (let payload_sha = (case us_payload_sha256 u of Some sha \<Rightarrow> cx_hex x sha | None \<Rightarrow> ''none'');
          (delta_epoch, delta_sha) = (case (us_delta_base_epoch u, us_delta_base_sha256 u) of
              (Some epoch, Some sha) \<Rightarrow> (epoch, cx_hex x sha) | _ \<Rightarrow> (''none'', ''none''));
          t = ''status epoch='' @ us_epoch u @ '' state='' @ us_state u @ newline
            @ ''manifest_bytes='' @ show_nat (us_manifest_bytes u)
            @ '' manifest_pending_bytes='' @ show_nat (us_manifest_pending_bytes u) @ newline
            @ ''chunks_expected='' @ show_nat (us_chunks_expected u)
            @ '' chunks_committed='' @ show_nat (us_chunks_committed u)
            @ '' chunks_pending='' @ show_nat (us_chunks_pending u)
            @ '' chunks_missing='' @ show_nat (us_chunks_missing u) @ newline
            @ ''payload_bytes='' @ show_nat (us_payload_bytes u)
            @ '' payload_sha256='' @ payload_sha @ newline
            @ ''delta_base_epoch='' @ delta_epoch @ '' delta_base_sha256='' @ delta_sha @ newline
      in and_then (ensure_stream_len ''updates/<epoch>/status'' (length t)) (\<lambda>_. Ok (str_bytes t)))"

definition build_update_status_cbor :: "update_status_snapshot \<Rightarrow> ninedoor_error + bytes" where
  "build_update_status_cbor u =
     cbor_build ''updates/<epoch>/status.cbor''
       ([CMap 11, CText ''epoch'', CText (us_epoch u), CText ''state'', CText (us_state u),
         CText ''manifest_bytes'', CUnsigned (us_manifest_bytes u),
         CText ''manifest_pending_bytes'', CUnsigned (us_manifest_pending_bytes u),
         CText ''chunks_expected'', CUnsigned (us_chunks_expected u),
         CText ''chunks_committed'', CUnsigned (us_chunks_committed u),
         CText ''chunks_pending'', CUnsigned (us_chunks_pending u),
         CText ''chunks_missing'', CUnsigned (us_chunks_missing u),
         CText ''payload_bytes'', CUnsigned (us_payload_bytes u),
         CText ''payload_sha256'',
         (case us_payload_sha256 u of Some sha \<Rightarrow> CBytes sha | None \<Rightarrow> CNull), CText ''delta'']
        @ (case (us_delta_base_epoch u, us_delta_base_sha256 u) of
             (Some epoch, Some sha) \<Rightarrow>
               [CMap 2, CText ''base_epoch'', CText epoch, CText ''base_sha256'', CBytes sha]
           | _ \<Rightarrow> [CNull]))"

definition update_status_payloads :: "cas_ext \<Rightarrow> string \<Rightarrow> cas_store \<Rightarrow> ninedoor_error + bytes \<times> bytes" where
  "update_status_payloads x epoch s =
     and_then (update_status_snapshot_of epoch s) (\<lambda>u.
     and_then (build_update_status_text x u) (\<lambda>t.
     and_then (build_update_status_cbor u) (\<lambda>c. Ok (t, c))))"

end
