(* ===== verification/Cas_Integrity.thy ===== *)
theory Cas_Integrity
  imports Cas_Store
begin

section \<open>Integrity of the content-addressed store\<close>

text \<open>
  What the store promises: what is committed under a hash has that hash, the space it uses is
  accounted for and bounded, a committed manifest was validated and stays valid, and nothing that
  was committed ever changes.
\<close>

subsection \<open>The invariant\<close>

definition model_bytes :: "model_bundle \<Rightarrow> nat" where
  "model_bytes m = (case mb_schema m of None \<Rightarrow> 0 | Some b \<Rightarrow> length b)
     + (case mb_signature m of None \<Rightarrow> 0 | Some b \<Rightarrow> length b)"

definition maps_ok :: "cas_store \<Rightarrow> bool" where
  "maps_ok s \<longleftrightarrow> bt_ok (cs_updates s) \<and> bt_ok (cs_chunks s) \<and> bt_ok (cs_pending s) \<and> bt_ok (cs_models s)"

definition content_ok :: "cas_ext \<Rightarrow> cas_store \<Rightarrow> bool" where
  "content_ok x s \<longleftrightarrow> (\<forall>d c. map_of (cs_chunks s) d = Some c \<longrightarrow>
     cx_sha256 x c = d \<and> length c = cc_chunk_bytes (cs_config s))"

definition pending_ok :: "cas_store \<Rightarrow> bool" where
  "pending_ok s \<longleftrightarrow> (\<forall>d p. map_of (cs_pending s) d = Some p \<longrightarrow>
     length p < cc_chunk_bytes (cs_config s) \<and> map_of (cs_chunks s) d = None)"

definition stored_bytes :: "cas_store \<Rightarrow> nat" where
  "stored_bytes s = bt_total length (cs_chunks s) + bt_total length (cs_pending s)
     + bt_total model_bytes (cs_models s)"

definition space_ok :: "cas_store \<Rightarrow> bool" where
  "space_ok s \<longleftrightarrow> cs_bytes_used s = stored_bytes s
     \<and> cs_bytes_used s \<le> cc_chunk_bytes (cs_config s) * CAS_MAX_CHUNKS
     \<and> cc_chunk_bytes (cs_config s) * CAS_MAX_CHUNKS < u64_max
     \<and> length (cs_updates s) \<le> CAS_MAX_UPDATES \<and> length (cs_models s) \<le> CAS_MAX_MODELS
     \<and> length (cs_quarantine s) \<le> CAS_QUARANTINE_LIMIT"

definition signature_ok :: "cas_ext \<Rightarrow> cas_config \<Rightarrow> cas_manifest \<Rightarrow> bool" where
  "signature_ok x config m = (case cm_signature m of
     None \<Rightarrow> \<not> cc_signing_required config
   | Some sig \<Rightarrow> (case cc_signing_key config of
       None \<Rightarrow> False
     | Some key \<Rightarrow> cx_key x key \<and> cx_verify x key (signature_payload m) sig))"

definition manifest_valid :: "cas_ext \<Rightarrow> cas_store \<Rightarrow> string \<Rightarrow> cas_manifest \<Rightarrow> bool" where
  "manifest_valid x s epoch m \<longleftrightarrow> check_shape epoch m s = Ok () \<and> check_delta s m = Ok ()
     \<and> signature_ok x (cs_config s) m \<and> check_payload x m s = Ok ()"

definition bundle_ok :: "cas_ext \<Rightarrow> cas_store \<Rightarrow> string \<Rightarrow> update_bundle \<Rightarrow> bool" where
  "bundle_ok x s epoch b \<longleftrightarrow> length (ub_manifest_pending b) \<le> CAS_MANIFEST_MAX_BYTES \<and>
     (case (ub_manifest_bytes b, ub_manifest b) of
        (None, None) \<Rightarrow> decode_manifest (ub_manifest_pending b) = Err UnexpectedEof
      | (Some bs, Some m) \<Rightarrow> ub_manifest_pending b = [] \<and> length bs \<le> CAS_MANIFEST_MAX_BYTES
          \<and> decode_manifest bs = Ok m \<and> manifest_valid x s epoch m
      | _ \<Rightarrow> False)"

definition updates_ok :: "cas_ext \<Rightarrow> cas_store \<Rightarrow> bool" where
  "updates_ok x s \<longleftrightarrow> (\<forall>epoch b. map_of (cs_updates s) epoch = Some b \<longrightarrow> bundle_ok x s epoch b)"

definition weights_ok :: "cas_store \<Rightarrow> bool" where
  "weights_ok s \<longleftrightarrow> (\<forall>d m. map_of (cs_models s) d = Some m \<longrightarrow> mb_weights_committed m \<longrightarrow>
     map_of (cs_chunks s) d \<noteq> None)"

definition cas_inv :: "cas_ext \<Rightarrow> cas_store \<Rightarrow> bool" where
  "cas_inv x s \<longleftrightarrow> maps_ok s \<and> content_ok x s \<and> pending_ok s \<and> space_ok s \<and> updates_ok x s \<and> weights_ok s"

lemmas cas_inv_defs = cas_inv_def maps_ok_def content_ok_def pending_ok_def space_ok_def updates_ok_def
  weights_ok_def

text \<open>The order in which the store grows: everything committed stays as it is.\<close>

definition cas_extends :: "cas_store \<Rightarrow> cas_store \<Rightarrow> bool" where
  "cas_extends s s' \<longleftrightarrow> cs_config s' = cs_config s
     \<and> map_of (cs_chunks s) \<subseteq>\<^sub>m map_of (cs_chunks s')
     \<and> (\<forall>epoch b bs. map_of (cs_updates s) epoch = Some b \<longrightarrow> ub_manifest_bytes b = Some bs \<longrightarrow>
          map_of (cs_updates s') epoch = Some b)"

definition cas_evolves :: "cas_ext \<Rightarrow> cas_store \<Rightarrow> cas_store \<Rightarrow> bool" where
  "cas_evolves x s s' \<longleftrightarrow> (cas_inv x s \<longrightarrow> cas_inv x s' \<and> cas_extends s s')"

lemma cas_extends_refl: "cas_extends s s"
  by (simp add: cas_extends_def)

lemma cas_extends_trans: "cas_extends s t \<Longrightarrow> cas_extends t u \<Longrightarrow> cas_extends s u"
  by (auto simp: cas_extends_def intro: map_le_trans)

interpretation cas: evolution "cas_evolves x" for x
  by unfold_locales (auto simp: cas_evolves_def intro: cas_extends_refl cas_extends_trans)

subsection \<open>Validity of a manifest is kept\<close>

lemma gather_chunks_append:
  "gather_chunks x what s (ds @ [d]) = and_then (gather_chunks x what s ds) (\<lambda>payload.
     and_then (ok_or (map_of (cs_chunks s) d)
       (Protocol ENotFound (what @ '' chunk '' @ cx_hex x d @ '' missing''))) (\<lambda>c. Ok (payload @ c)))"
  by (simp add: gather_chunks_def)

lemma gather_chunks_Ok:
  "gather_chunks x what s ds = Ok p \<longleftrightarrow>
     (\<forall>d \<in> set ds. map_of (cs_chunks s) d \<noteq> None) \<and> p = concat (map (\<lambda>d. the (map_of (cs_chunks s) d)) ds)"
proof (induction ds arbitrary: p rule: rev_induct)
  case Nil
  show ?case by (auto simp: gather_chunks_def)
next
  case (snoc d ds)
  show ?case by (auto simp: gather_chunks_append outcome_splits snoc.IH)
qed

lemma gather_chunks_mono:
  assumes "map_of (cs_chunks s) \<subseteq>\<^sub>m map_of (cs_chunks s')" and "gather_chunks x what s ds = Ok p"
  shows "gather_chunks x what s' ds = Ok p"
proof -
  have "map_of (cs_chunks s') d = map_of (cs_chunks s) d" if "d \<in> set ds" for d
    using assms that by (metis domIff gather_chunks_Ok map_le_def)
  with assms(2) show ?thesis
    by (auto simp: gather_chunks_Ok intro!: arg_cong [where f = concat] map_cong)
qed

lemma committed_manifest_mono:
  assumes "updates_ok x s" and "cas_extends s s'" and "committed_manifest s e = Some m"
  shows "committed_manifest s' e = Some m"
proof -
  obtain b where b: "map_of (cs_updates s) e = Some b" "ub_manifest b = Some m"
    using assms(3) by (auto simp: committed_manifest_def bind_eq_Some_conv)
  with assms(1) have "bundle_ok x s e b" by (simp add: updates_ok_def)
  with b(2) obtain bs where "ub_manifest_bytes b = Some bs"
    by (auto simp: bundle_ok_def split: option.splits)
  with b assms(2) have "map_of (cs_updates s') e = Some b" by (simp add: cas_extends_def)
  with b show ?thesis by (simp add: committed_manifest_def)
qed

lemma delta_base_mono:
  "updates_ok x s \<Longrightarrow> cas_extends s s' \<Longrightarrow> delta_base s d = Ok m \<Longrightarrow> delta_base s' d = Ok m"
  by (auto simp: delta_base_def outcome_splits dest: committed_manifest_mono)

lemma check_delta_mono:
  assumes "updates_ok x s" and "cas_extends s s'" and "check_delta s m = Ok ()"
  shows "check_delta s' m = Ok ()"
  using assms delta_base_mono [OF assms(1,2)]
  by (fastforce simp: check_delta_def cas_extends_def outcome_splits split: option.splits if_splits)

lemma assemble_payload_mono:
  assumes "updates_ok x s" and "cas_extends s s'" and "assemble_payload x m s = Ok p"
  shows "assemble_payload x m s' = Ok p"
proof -
  have le: "map_of (cs_chunks s) \<subseteq>\<^sub>m map_of (cs_chunks s')" using assms(2) by (simp add: cas_extends_def)
  show ?thesis
    using assms(3) delta_base_mono [OF assms(1,2)] gather_chunks_mono [OF le]
    by (fastforce simp: assemble_payload_def outcome_splits split: option.splits)
qed

lemma manifest_valid_mono:
  assumes "updates_ok x s" and "cas_extends s s'" and "manifest_valid x s e m"
  shows "manifest_valid x s' e m"
  using assms check_delta_mono [OF assms(1,2)] assemble_payload_mono [OF assms(1,2)]
  by (auto simp: manifest_valid_def check_shape_def check_payload_def cas_extends_def outcome_splits
    split: if_splits)

lemma bundle_ok_mono:
  "updates_ok x s \<Longrightarrow> cas_extends s s' \<Longrightarrow> bundle_ok x s e b \<Longrightarrow> bundle_ok x s' e b"
  by (auto simp: bundle_ok_def split: option.splits intro: manifest_valid_mono)

subsection \<open>Steps that keep the invariant\<close>

lemma updates_ok_step:
  assumes "updates_ok x s" and "cas_extends s s'"
    and "\<And>e b. map_of (cs_updates s') e = Some b \<Longrightarrow> map_of (cs_updates s) e = Some b \<or> bundle_ok x s' e b"
  shows "updates_ok x s'"
  unfolding updates_ok_def
  using assms bundle_ok_mono [OF assms(1,2)] updates_ok_def by blast

text \<open>A step on the chunks, models, events or quarantine leaves the bundles alone.\<close>

definition keeps_store :: "cas_ext \<Rightarrow> cas_store \<Rightarrow> cas_store \<Rightarrow> bool" where
  "keeps_store x s s' \<longleftrightarrow> cs_config s' = cs_config s \<and> cs_updates s' = cs_updates s
     \<and> map_of (cs_chunks s) \<subseteq>\<^sub>m map_of (cs_chunks s')
     \<and> maps_ok s' \<and> content_ok x s' \<and> pending_ok s' \<and> space_ok s' \<and> weights_ok s'"

lemmas keeps_store_defs = keeps_store_def cas_inv_defs stored_bytes_def

lemma evolves_store:
  assumes "cas_inv x s \<Longrightarrow> keeps_store x s s'"
  shows "cas_evolves x s s'"
  unfolding cas_evolves_def
proof
  assume inv: "cas_inv x s"
  note f = assms [OF inv]
  then have ext: "cas_extends s s'" by (simp add: cas_extends_def keeps_store_def)
  have "updates_ok x s" "cs_updates s' = cs_updates s"
    using inv f by (simp_all add: cas_inv_def keeps_store_def)
  with ext have "updates_ok x s'" using updates_ok_step by metis
  with ext f show "cas_inv x s' \<and> cas_extends s s'" by (simp add: cas_inv_def keeps_store_def)
qed

lemma evolves_push_event: "cas_evolves x s (push_event e s)"
  by (rule evolves_store) (simp add: push_event_def keeps_store_defs)

text \<open>A step on one bundle whose manifest is not committed.\<close>

lemma evolves_set_bundle:
  assumes "cas_inv x s" and "\<And>b. map_of (cs_updates s) epoch = Some b \<Longrightarrow> ub_manifest_bytes b = None"
    and "bt_contains (cs_updates s) epoch \<or> length (cs_updates s) < CAS_MAX_UPDATES"
    and "cas_extends s (set_bundle epoch b s) \<Longrightarrow> bundle_ok x (set_bundle epoch b s) epoch b"
  shows "cas_inv x (set_bundle epoch b s) \<and> cas_extends s (set_bundle epoch b s)"
proof -
  have ext: "cas_extends s (set_bundle epoch b s)"
    using assms(2) by (auto simp: cas_extends_def set_bundle_def)
  have ok: "updates_ok x s" "maps_ok s" "length (cs_updates s) \<le> CAS_MAX_UPDATES"
    using assms(1) by (simp_all add: cas_inv_def space_ok_def)
  have "updates_ok x (set_bundle epoch b s)"
  proof (rule updates_ok_step [OF ok(1) ext])
    fix e b' assume "map_of (cs_updates (set_bundle epoch b s)) e = Some b'"
    with assms(4) [OF ext] show "map_of (cs_updates s) e = Some b' \<or> bundle_ok x (set_bundle epoch b s) e b'"
      by (cases "e = epoch") (simp_all add: set_bundle_def)
  qed
  moreover have "length (bt_insert epoch b (cs_updates s)) \<le> CAS_MAX_UPDATES"
  proof (cases "bt_contains (cs_updates s) epoch")
    case True
    with ok show ?thesis by (simp add: bt_contains_def maps_ok_def length_bt_insert_present)
  next
    case False
    with assms(3) length_bt_insert [of epoch b "cs_updates s"] show ?thesis by simp
  qed
  ultimately show ?thesis
    using assms(1) ext by (simp add: cas_inv_defs set_bundle_def stored_bytes_def)
qed

lemma decode_manifest_Nil [simp]: "decode_manifest [] = Err UnexpectedEof"
  by (simp add: decode_manifest_def manifest_reader_def dec_array_len_def dec_read_byte_def read_len_def st_bind_def st_defs)

lemma evolves_ensure_epoch: "st_moves (cas_evolves x) (ensure_epoch epoch)"
proof -
  have "cas_evolves x s (set_bundle epoch update_bundle_default s)"
    if "\<not> bt_contains (cs_updates s) epoch" "\<not> CAS_MAX_UPDATES \<le> length (cs_updates s)" for s
    using evolves_set_bundle [of x s epoch update_bundle_default] that
    by (simp add: cas_evolves_def bt_contains_def bundle_ok_def update_bundle_default_def)
  then show ?thesis
    unfolding ensure_epoch_def st_moves_def
    by (auto simp: st_bind_def st_defs cas.refl split: sum.split)
qed

lemma model_total_insert:
  "bt_ok ms \<Longrightarrow> bt_total model_bytes (bt_insert d m ms)
    + (case map_of ms d of None \<Rightarrow> 0 | Some m \<Rightarrow> model_bytes m) = bt_total model_bytes ms + model_bytes m"
  by (rule bt_total_insert)

lemma evolves_ensure_model: "st_moves (cas_evolves x) (ensure_model d)"
proof -
  have "cas_evolves x s (set_model d model_bundle_default s)"
    if n: "\<not> bt_contains (cs_models s) d" "\<not> CAS_MAX_MODELS \<le> length (cs_models s)" for s
  proof (rule evolves_store)
    assume inv: "cas_inv x s"
    have none: "map_of (cs_models s) d = None" using n(1) by (simp add: bt_contains_def)
    have "bt_total model_bytes (bt_insert d model_bundle_default (cs_models s)) = bt_total model_bytes (cs_models s)"
      using model_total_insert [of "cs_models s" d model_bundle_default] inv none
      by (simp add: cas_inv_def maps_ok_def model_bytes_def model_bundle_default_def)
    moreover have "length (bt_insert d model_bundle_default (cs_models s)) \<le> CAS_MAX_MODELS"
      using n(2) length_bt_insert [of d model_bundle_default "cs_models s"] by linarith
    moreover have "\<not> mb_weights_committed model_bundle_default" by (simp add: model_bundle_default_def)
    ultimately show "keeps_store x s (set_model d model_bundle_default s)"
      using inv by (simp add: set_model_def keeps_store_defs)
  qed
  then show ?thesis
    unfolding ensure_model_def st_moves_def by (auto simp: st_defs cas.refl)
qed

subsection \<open>Chunk writes\<close>

lemma can_reserve_bound:
  assumes "space_ok s" and "can_reserve_bytes s n"
  shows "sat_add (cs_bytes_used s) n = cs_bytes_used s + n"
    and "cs_bytes_used s + n \<le> cc_chunk_bytes (cs_config s) * CAS_MAX_CHUNKS"
  using assms by (auto simp: can_reserve_bytes_def space_ok_def sat_add_def sat_mul_def split: if_splits)

lemma pending_total:
  "maps_ok s \<Longrightarrow> bt_total length (bt_insert d p (cs_pending s)) + length (pending_chunk s d)
    = bt_total length (cs_pending s) + length p"
  using bt_total_insert [of "cs_pending s" length d p]
  by (simp add: maps_ok_def pending_chunk_def split: option.splits)

lemma pending_total_remove:
  "maps_ok s \<Longrightarrow> bt_total length (bt_remove d (cs_pending s)) + length (pending_chunk s d)
    = bt_total length (cs_pending s)"
  using bt_total_remove [of "cs_pending s" length d]
  by (simp add: maps_ok_def pending_chunk_def split: option.splits)

text \<open>The outcomes of a chunk write, as the states they leave.\<close>

definition set_pending :: "bytes \<Rightarrow> bytes \<Rightarrow> nat \<Rightarrow> cas_store \<Rightarrow> cas_store" where
  "set_pending d p used s = s\<lparr>cs_pending := bt_insert d p (cs_pending s), cs_bytes_used := used\<rparr>"

definition commit_chunk :: "bytes \<Rightarrow> bytes \<Rightarrow> nat \<Rightarrow> cas_store \<Rightarrow> cas_store" where
  "commit_chunk d c used s = s\<lparr>cs_pending := bt_remove d (cs_pending s),
     cs_chunks := bt_insert d c (cs_chunks s), cs_bytes_used := used\<rparr>"

definition admits_chunk :: "cas_store \<Rightarrow> bytes \<Rightarrow> bytes \<Rightarrow> bool" where
  "admits_chunk s d p \<longleftrightarrow> map_of (cs_chunks s) d = None \<and> length p \<le> cc_chunk_bytes (cs_config s)
     \<and> can_reserve_bytes s (length p)"

lemma append_chunk_internal_cases:
  assumes "append_chunk_internal x label d offset data s = (r, s')"
  obtains (same) "s' = s"
  | (partial) p where "decode_payload x data = Ok p" "admits_chunk s d p"
      "length (pending_chunk s d @ p) < cc_chunk_bytes (cs_config s)" "r = Ok (as_u32 (length data))"
      "s' = set_pending d (pending_chunk s d @ p) (sat_add (cs_bytes_used s) (length p)) s"
  | (cleared) p where "admits_chunk s d p" "is_ok r = False"
      "s' = set_pending d [] (sat_add (cs_bytes_used s) (length p) - length (pending_chunk s d @ p)) s"
  | (quarantined) p where "admits_chunk s d p" "is_ok r = False"
      "s' = set_pending d [] (sat_add (cs_bytes_used s) (length p) - length (pending_chunk s d @ p))
         (quarantine_chunk x label d (cx_sha256 x (pending_chunk s d @ p)) (length (pending_chunk s d @ p)) s)"
  | (commit) p where "decode_payload x data = Ok p" "admits_chunk s d p"
      "length (pending_chunk s d @ p) = cc_chunk_bytes (cs_config s)"
      "cx_sha256 x (pending_chunk s d @ p) = d" "r = Ok (as_u32 (length data))"
      "s' = commit_chunk d (pending_chunk s d @ p) (sat_add (cs_bytes_used s) (length p)) s"
proof (cases "decode_payload x data")
  case (Inl e)
  with assms have "s' = s" by (simp add: append_chunk_internal_def)
  then show thesis by (rule same)
next
  case (Inr p)
  show thesis
  proof (cases "s' = s")
    case True
    then show thesis by (rule same)
  next
    case False
    with assms Inr have "admits_chunk s d p"
      by (auto simp: append_chunk_internal_def admits_chunk_def Let_def split: option.splits if_splits)
    note a = this this [unfolded admits_chunk_def]
    let ?q = "pending_chunk s d @ p"
    consider (lt) "length ?q < cc_chunk_bytes (cs_config s)" | (gt) "length ?q > cc_chunk_bytes (cs_config s)"
      | (hash) "length ?q = cc_chunk_bytes (cs_config s)" "cx_sha256 x ?q \<noteq> d"
      | (ok) "length ?q = cc_chunk_bytes (cs_config s)" "cx_sha256 x ?q = d"
      by linarith
    then show thesis
    proof cases
      case lt
      with assms Inr a False show thesis
        by (intro partial [OF Inr a(1)]) (auto simp: append_chunk_internal_def Let_def set_pending_def split: if_splits)
    next
      case gt
      with assms Inr a False show thesis
        by (intro cleared [OF a(1)]) (auto simp: append_chunk_internal_def Let_def set_pending_def split: if_splits)
    next
      case hash
      with assms Inr a False show thesis
        by (intro quarantined [OF a(1)])
          (auto simp: append_chunk_internal_def Let_def set_pending_def quarantine_chunk_def split: if_splits)
    next
      case ok
      with assms Inr a False show thesis
        by (intro commit [OF Inr a(1)])
          (auto simp: append_chunk_internal_def Let_def commit_chunk_def split: if_splits)
    qed
  qed
qed

lemma evolves_quarantine: "cas_evolves x s (quarantine_chunk x label d actual n s)"
proof (rule evolves_store)
  assume "cas_inv x s"
  then show "keeps_store x s (quarantine_chunk x label d actual n s)"
    by (auto simp: quarantine_chunk_def Let_def keeps_store_defs cas_limits)
qed

lemma pending_chunk_lt:
  "pending_ok s \<Longrightarrow> map_of (cs_chunks s) d = None \<Longrightarrow> 0 < cc_chunk_bytes (cs_config s) \<Longrightarrow>
    length (pending_chunk s d) < cc_chunk_bytes (cs_config s)"
  by (auto simp: pending_ok_def pending_chunk_def split: option.split)

lemma evolves_set_pending:
  assumes "map_of (cs_chunks s) d = None" and "length q < cc_chunk_bytes (cs_config s)"
    and "used + length (pending_chunk s d) = cs_bytes_used s + length q"
    and "used \<le> cc_chunk_bytes (cs_config s) * CAS_MAX_CHUNKS"
  shows "cas_evolves x s (set_pending d q used s)"
proof (rule evolves_store)
  assume inv: "cas_inv x s"
  then have "maps_ok s" by (simp add: cas_inv_def)
  from pending_total [OF this, of d q] inv assms show "keeps_store x s (set_pending d q used s)"
    by (simp add: set_pending_def keeps_store_defs)
qed

lemma evolves_commit_chunk:
  assumes "map_of (cs_chunks s) d = None" and "length c = cc_chunk_bytes (cs_config s)"
    and "cx_sha256 x c = d" and "used + length (pending_chunk s d) = cs_bytes_used s + length c"
    and "used \<le> cc_chunk_bytes (cs_config s) * CAS_MAX_CHUNKS"
  shows "cas_evolves x s (commit_chunk d c used s)"
proof (rule evolves_store)
  assume inv: "cas_inv x s"
  then have maps: "maps_ok s" by (simp add: cas_inv_def)
  have "bt_total length (bt_insert d c (cs_chunks s)) = bt_total length (cs_chunks s) + length c"
    using bt_total_insert [of "cs_chunks s" length d c] maps assms(1) by (simp add: maps_ok_def)
  with pending_total_remove [OF maps, of d] have "used = stored_bytes (commit_chunk d c used s)"
    using inv assms(4) by (simp add: commit_chunk_def stored_bytes_def cas_inv_def space_ok_def)
  with inv assms(5) have space: "space_ok (commit_chunk d c used s)"
    by (simp add: commit_chunk_def cas_inv_def space_ok_def)
  have "map_of (cs_chunks s) \<subseteq>\<^sub>m map_of (cs_chunks (commit_chunk d c used s))"
    using assms(1) by (auto simp: map_le_def commit_chunk_def)
  with space show "keeps_store x s (commit_chunk d c used s)"
    using inv assms(2,3)
    by (simp add: keeps_store_def) (simp add: commit_chunk_def cas_inv_def maps_ok_def content_ok_def
      pending_ok_def weights_ok_def)
qed

lemma admits_chunk_bound:
  assumes "cas_inv x s" and "admits_chunk s d p"
  shows "sat_add (cs_bytes_used s) (length p) = cs_bytes_used s + length p"
    and "cs_bytes_used s + length p \<le> cc_chunk_bytes (cs_config s) * CAS_MAX_CHUNKS"
    and "0 < cc_chunk_bytes (cs_config s)" and "length (pending_chunk s d) \<le> cs_bytes_used s"
proof -
  have "maps_ok s" "space_ok s" using assms(1) by (simp_all add: cas_inv_def)
  moreover have "can_reserve_bytes s (length p)" using assms(2) by (simp add: admits_chunk_def)
  ultimately show "sat_add (cs_bytes_used s) (length p) = cs_bytes_used s + length p"
    "cs_bytes_used s + length p \<le> cc_chunk_bytes (cs_config s) * CAS_MAX_CHUNKS"
    by (simp_all add: can_reserve_bound)
  show "0 < cc_chunk_bytes (cs_config s)"
    using \<open>can_reserve_bytes s (length p)\<close> by (simp add: can_reserve_bytes_def split: if_splits)
  show "length (pending_chunk s d) \<le> cs_bytes_used s"
    using pending_total_remove [OF \<open>maps_ok s\<close>, of d] \<open>space_ok s\<close>
    unfolding space_ok_def stored_bytes_def by linarith
qed

lemma pending_chunk_quarantine [simp]:
  "pending_chunk (quarantine_chunk x label d actual n s) d' = pending_chunk s d'"
  "cs_chunks (quarantine_chunk x label d actual n s) = cs_chunks s"
  "cs_config (quarantine_chunk x label d actual n s) = cs_config s"
  "cs_bytes_used (quarantine_chunk x label d actual n s) = cs_bytes_used s"
  by (simp_all add: quarantine_chunk_def pending_chunk_def Let_def)

lemma evolves_append_chunk_internal: "st_moves (cas_evolves x) (append_chunk_internal x label d offset data)"
  unfolding st_moves_def
proof
  fix s
  obtain r s' where r: "append_chunk_internal x label d offset data s = (r, s')" by fastforce
  have "cas_evolves x s s'" if inv: "cas_inv x s"
    using r
  proof (cases rule: append_chunk_internal_cases)
    case same
    then show ?thesis by (simp add: cas.refl)
  next
    case (partial p)
    with admits_chunk_bound [OF inv partial(2)] show ?thesis
      by (auto simp: admits_chunk_def intro!: evolves_set_pending)
  next
    case (cleared p)
    with admits_chunk_bound [OF inv cleared(1)] show ?thesis
      by (auto simp: admits_chunk_def intro!: evolves_set_pending)
  next
    case (quarantined p)
    have "cas_evolves x (quarantine_chunk x label d a n s) s'"
      if "s' = set_pending d [] (sat_add (cs_bytes_used s) (length p) - length (pending_chunk s d @ p))
         (quarantine_chunk x label d a n s)" for a n
      using that admits_chunk_bound [OF inv quarantined(1)] quarantined(1)
      by (auto simp: admits_chunk_def intro!: evolves_set_pending)
    with quarantined(3) show ?thesis using cas.trans evolves_quarantine by blast
  next
    case (commit p)
    with admits_chunk_bound [OF inv commit(2)] show ?thesis
      by (auto simp: admits_chunk_def intro!: evolves_commit_chunk)
  qed
  with r show "cas_evolves x s (snd (append_chunk_internal x label d offset data s))"
    by (auto simp: cas_evolves_def)
qed

lemma evolves_append_chunk: "st_moves (cas_evolves x) (append_chunk x epoch d offset data)"
  unfolding append_chunk_def
  by (intro cas.moves evolves_ensure_epoch evolves_append_chunk_internal)

subsection \<open>Model writes\<close>

lemma evolves_set_model:
  assumes "map_of (cs_models s) d = Some m" and "model_bytes m' = model_bytes m + n"
    and "mb_weights_committed m' \<Longrightarrow> mb_weights_committed m \<or> map_of (cs_chunks s) d \<noteq> None"
    and "cas_inv x s \<Longrightarrow> used = cs_bytes_used s + n" and "cas_inv x s \<Longrightarrow> used \<le> cc_chunk_bytes (cs_config s) * CAS_MAX_CHUNKS"
  shows "cas_evolves x s ((set_model d m' s)\<lparr>cs_bytes_used := used\<rparr>)"
proof (rule evolves_store)
  assume inv: "cas_inv x s"
  then have maps: "bt_ok (cs_models s)" by (simp add: cas_inv_def maps_ok_def)
  have "used = stored_bytes ((set_model d m' s)\<lparr>cs_bytes_used := used\<rparr>)"
    using model_total_insert [OF maps, of d m'] assms(1,2) assms(4) [OF inv] inv
    by (simp add: set_model_def stored_bytes_def cas_inv_def space_ok_def)
  moreover have "length (bt_insert d m' (cs_models s)) = length (cs_models s)"
    using maps assms(1) by (simp add: length_bt_insert_present)
  ultimately have "space_ok ((set_model d m' s)\<lparr>cs_bytes_used := used\<rparr>)"
    using inv assms(5) [OF inv] by (simp add: cas_inv_def space_ok_def set_model_def)
  moreover have "weights_ok ((set_model d m' s)\<lparr>cs_bytes_used := used\<rparr>)"
    using inv assms(1,3) by (auto simp: cas_inv_def weights_ok_def set_model_def)
  ultimately show "keeps_store x s ((set_model d m' s)\<lparr>cs_bytes_used := used\<rparr>)"
    using inv maps
    by (simp add: keeps_store_def) (simp add: set_model_def cas_inv_def maps_ok_def content_ok_def pending_ok_def)
qed

lemma evolves_append_model_blob:
  assumes "\<And>p m. field m = None \<Longrightarrow> model_bytes (set_field p m) = model_bytes m + length p
    \<and> mb_weights_committed (set_field p m) = mb_weights_committed m"
  shows "st_moves (cas_evolves x) (append_model_blob x what field set_field d offset data)"
  unfolding st_moves_def
proof
  fix s
  obtain r s' where r: "append_model_blob x what field set_field d offset data s = (r, s')" by fastforce
  have "cas_evolves x s s'"
  proof (cases "s' = s")
    case False
    with r obtain p m where p: "map_of (cs_models s) d = Some m" "field m = None"
        "can_reserve_bytes s (length p)"
        "s' = (set_model d (set_field p m) s)\<lparr>cs_bytes_used := sat_add (cs_bytes_used s) (length p)\<rparr>"
      by (auto simp: append_model_blob_def Let_def split: sum.splits if_splits option.splits)
    have "space_ok s" if "cas_inv x s" using that by (simp add: cas_inv_def)
    then show ?thesis
      unfolding p(4)
      using assms [OF p(2), of p] can_reserve_bound [OF _ p(3)]
      by (intro evolves_set_model [OF p(1), where n = "length p"]) simp_all
  qed (simp add: cas.refl)
  with r show "cas_evolves x s (snd (append_model_blob x what field set_field d offset data s))" by simp
qed

lemma evolves_append_weights: "st_moves (cas_evolves x) (append_weights x d offset data)"
proof -
  have commit: "cas_evolves x s (set_model d (m\<lparr>mb_weights_committed := True\<rparr>) s)"
    if "map_of (cs_models s) d = Some m" "bt_contains (cs_chunks s) d" for s m
  proof -
    have "model_bytes (m\<lparr>mb_weights_committed := True\<rparr>) = model_bytes m" by (simp add: model_bytes_def)
    with evolves_set_model [OF that(1), of "m\<lparr>mb_weights_committed := True\<rparr>" 0 x "cs_bytes_used s"] that(2)
    show ?thesis by (simp add: bt_contains_def cas_inv_def space_ok_def set_model_def)
  qed
  have "st_moves (cas_evolves x)
    (st_bind (st_map_err Fail (append_chunk_internal x ''model'' d offset data)) (\<lambda>count s.
         if bt_contains (cs_chunks s) d
         then (case map_of (cs_models s) d of
             None \<Rightarrow> (Err Panic, s)
           | Some model \<Rightarrow> (Ok count, set_model d (model\<lparr>mb_weights_committed := True\<rparr>) s))
         else (Ok count, s)))"
    by (intro cas.moves_bind cas.moves_map_err evolves_append_chunk_internal)
      (auto simp: st_moves_def commit cas.refl split: option.split)
  then show ?thesis
    by (auto simp: st_moves_def append_weights_def cas.refl split: option.split)
qed

lemma evolves_append_model_file: "st_moves (cas_evolves x) (append_model_file x d kind offset data)"
  unfolding append_model_file_def
proof (intro cas.moves_bind cas.moves_map_err cas.moves_read cas.moves_basic evolves_ensure_model)
  show "st_moves (cas_evolves x) (case kind of
          Weights \<Rightarrow> append_weights x d offset data
        | Schema \<Rightarrow> append_model_blob x ''schema'' mb_schema
            (\<lambda>payload. mb_schema_update (\<lambda>_. Some payload)) d offset data
        | ModelSignature \<Rightarrow> append_model_blob x ''signature'' mb_signature
            (\<lambda>payload. mb_signature_update (\<lambda>_. Some payload)) d offset data)"
    by (cases kind) (auto simp: model_bytes_def intro!: evolves_append_weights evolves_append_model_blob)
qed

subsection \<open>Manifest writes\<close>

definition with_events :: "cas_event list \<Rightarrow> cas_store \<Rightarrow> cas_store" where
  "with_events evs s = s\<lparr>cs_events := cs_events s @ evs\<rparr>"

lemma evolves_with_events: "cas_evolves x s (with_events evs s)"
  by (rule evolves_store) (simp add: with_events_def keeps_store_defs)

lemma check_signature_cases:
  assumes "check_signature x epoch m s = (r, s')"
  shows "(\<exists>evs. s' = with_events evs s) \<and> (is_ok r \<longrightarrow> s' = s \<and> signature_ok x (cs_config s) m)"
proof -
  have "reject_manifest epoch reason message s = (r, s') \<Longrightarrow> (\<exists>evs. s' = with_events evs s) \<and> \<not> is_ok r"
    for reason message and r :: "ninedoor_error + unit"
    by (auto simp: reject_manifest_def st_bind_def st_defs push_event_def with_events_def)
  moreover have "s = with_events [] s" by (simp add: with_events_def)
  ultimately show ?thesis
    using assms
    by (auto simp: check_signature_def signature_ok_def st_defs split: option.splits if_splits intro: exI [of _ "[]"])
qed

lemma validate_manifest_cases:
  assumes "validate_manifest x epoch m s = (r, s')"
  shows "(\<exists>evs. s' = with_events evs s) \<and> (is_ok r \<longrightarrow> manifest_valid x s epoch m)"
proof (cases r)
  case (Inl e)
  with assms have "s' = s \<or> (\<exists>q. check_signature x epoch m s = (q, s'))"
    by (auto simp: validate_manifest_def st_bind_Ok st_bind_Err st_defs)
  then have "\<exists>evs. s' = with_events evs s"
  proof
    assume "s' = s"
    then have "s' = with_events [] s" by (simp add: with_events_def)
    then show ?thesis by blast
  qed (use check_signature_cases in blast)
  with Inl show ?thesis by simp
next
  case (Inr u)
  with assms obtain t where t: "check_shape epoch m s = Ok ()" "check_delta s m = Ok ()"
      "check_signature x epoch m s = (Ok (), t)" "check_payload x m t = Ok ()"
      "s' = push_event (accepted_event x epoch m) t"
    by (auto simp: validate_manifest_def st_bind_Ok st_defs)
  from check_signature_cases [OF t(3)] have "t = s" "signature_ok x (cs_config s) m" by simp_all
  with t have "manifest_valid x s epoch m" "s' = with_events [accepted_event x epoch m] s"
    by (simp_all add: manifest_valid_def push_event_def with_events_def)
  then show ?thesis by blast
qed

lemma manifest_valid_cong:
  assumes "cs_config s = cs_config t" "cs_chunks s = cs_chunks t" "committed_manifest s = committed_manifest t"
  shows "manifest_valid x s epoch m = manifest_valid x t epoch m"
proof -
  have d: "delta_base s = delta_base t" using assms(3) by (intro ext) (simp add: delta_base_def)
  have g: "gather_chunks x what s = gather_chunks x what t" for what
    using assms(2) by (intro ext) (simp add: gather_chunks_def)
  show ?thesis
    unfolding manifest_valid_def check_shape_def check_delta_def check_payload_def assemble_payload_def d g assms(1) ..
qed

lemma set_bundle_twice: "set_bundle e b (with_events evs (set_bundle e b' s)) = set_bundle e b (with_events evs s)"
  "set_bundle e b (set_bundle e b' s) = set_bundle e b s"
  by (simp_all add: set_bundle_def with_events_def)

lemma evolves_bundle_events:
  assumes "cas_inv x s" and "map_of (cs_updates s) epoch = Some b" and "ub_manifest_bytes b = None"
    and "\<And>t. cas_extends s t \<Longrightarrow> bundle_ok x t epoch b'"
  shows "cas_inv x (set_bundle epoch b' (with_events evs s)) \<and> cas_extends s (set_bundle epoch b' (with_events evs s))"
proof -
  let ?t = "with_events evs s"
  have t: "cas_inv x ?t" "cas_extends s ?t"
    using evolves_with_events [of x s evs] assms(1) by (simp_all add: cas_evolves_def)
  have "cs_updates ?t = cs_updates s" by (simp add: with_events_def)
  with assms(2,3) have "cas_inv x (set_bundle epoch b' ?t) \<and> cas_extends ?t (set_bundle epoch b' ?t)"
    by (intro evolves_set_bundle [OF t(1)]) (auto simp: bt_contains_def intro: assms(4) cas_extends_trans [OF t(2)])
  with t(2) show ?thesis using cas_extends_trans by blast
qed

lemma evolves_finish_manifest:
  assumes inv: "cas_inv x s" and b: "map_of (cs_updates s) epoch = Some b" "ub_manifest_bytes b = None"
    and len: "length (ub_manifest_pending b @ p) \<le> CAS_MANIFEST_MAX_BYTES"
    and fin: "finish_manifest x epoch (b\<lparr>ub_manifest_pending := ub_manifest_pending b @ p\<rparr>) count
      (set_bundle epoch (b\<lparr>ub_manifest_pending := ub_manifest_pending b @ p\<rparr>) s) = (r, s')"
  shows "cas_inv x s' \<and> cas_extends s s'"
proof -
  let ?q = "ub_manifest_pending b @ p" and ?b = "b\<lparr>ub_manifest_pending := ub_manifest_pending b @ p\<rparr>"
  let ?c = "b\<lparr>ub_manifest_pending := []\<rparr>"
  have uo: "updates_ok x s" using inv by (simp add: cas_inv_def)
  then have "bundle_ok x s epoch b" using b(1) by (simp add: updates_ok_def)
  then have none: "ub_manifest b = None"
    using b(2) by (cases "ub_manifest b") (simp_all add: bundle_ok_def)
  have ev: "set_bundle epoch b' s = set_bundle epoch b' (with_events [] s)" for b' by (simp add: with_events_def)
  have cleared: "bundle_ok x t epoch ?c" for t by (simp add: bundle_ok_def none b(2))
  show ?thesis
  proof (cases "decode_manifest ?q")
    case (Inl e)
    show ?thesis
    proof (cases "e = UnexpectedEof")
      case True
      with Inl fin have "s' = set_bundle epoch ?b s" by (simp add: finish_manifest_def)
      moreover have "bundle_ok x t epoch ?b" for t using Inl True len by (simp add: bundle_ok_def none b(2))
      ultimately show ?thesis using evolves_bundle_events [OF inv b] ev by metis
    next
      case False
      with Inl fin have "s' = set_bundle epoch ?c s"
        by (cases e) (simp_all add: finish_manifest_def set_bundle_twice)
      then show ?thesis using evolves_bundle_events [OF inv b] cleared ev by metis
    qed
  next
    case (Inr m)
    obtain q t where v: "validate_manifest x epoch m (set_bundle epoch ?b s) = (q, t)" by fastforce
    from validate_manifest_cases [OF v] obtain evs where t: "t = with_events evs (set_bundle epoch ?b s)"
      and q: "is_ok q \<Longrightarrow> manifest_valid x (set_bundle epoch ?b s) epoch m" by blast
    have "committed_manifest (set_bundle epoch ?b s) = committed_manifest s"
      by (auto simp: committed_manifest_def set_bundle_def b none)
    then have valid: "is_ok q \<Longrightarrow> manifest_valid x s epoch m"
      using q manifest_valid_cong [of "set_bundle epoch ?b s" s] by (simp add: set_bundle_def)
    show ?thesis
    proof (cases q)
      case (Inl e)
      with Inr fin v t have "s' = set_bundle epoch ?c (with_events evs s)"
        by (simp add: finish_manifest_def set_bundle_twice)
      then show ?thesis using evolves_bundle_events [OF inv b] cleared by metis
    next
      case (Inr u)
      let ?d = "?c\<lparr>ub_manifest_bytes := Some ?q, ub_manifest := Some m\<rparr>"
      from Inr \<open>decode_manifest ?q = Ok m\<close> fin v t have "s' = set_bundle epoch ?d (with_events evs s)"
        by (simp add: finish_manifest_def set_bundle_twice)
      moreover have "bundle_ok x t epoch ?d" if "cas_extends s t" for t
        using manifest_valid_mono [OF uo that] valid Inr \<open>decode_manifest ?q = Ok m\<close> len
        by (simp add: bundle_ok_def)
      ultimately show ?thesis using evolves_bundle_events [OF inv b] by metis
    qed
  qed
qed

lemma evolves_append_manifest: "st_moves (cas_evolves x) (append_manifest x epoch offset data)"
proof -
  have "cas_evolves x s s'" if r: "append_manifest_bytes x epoch offset p n s = (r, s')" for s s' p n r
  proof (cases "s' = s")
    case False
    with r obtain b where b: "map_of (cs_updates s) epoch = Some b" "ub_manifest_bytes b = None"
        "length (ub_manifest_pending b @ p) \<le> CAS_MANIFEST_MAX_BYTES"
        "finish_manifest x epoch (b\<lparr>ub_manifest_pending := ub_manifest_pending b @ p\<rparr>) n
          (set_bundle epoch (b\<lparr>ub_manifest_pending := ub_manifest_pending b @ p\<rparr>) s) = (r, s')"
      by (auto simp: append_manifest_bytes_def Let_def split: option.splits if_splits)
    then show ?thesis unfolding cas_evolves_def using evolves_finish_manifest by blast
  qed (simp add: cas.refl)
  then have "st_moves (cas_evolves x) (append_manifest_bytes x epoch offset p n)" for p n
    unfolding st_moves_def by (metis prod.collapse)
  then show ?thesis
    unfolding append_manifest_def by (intro cas.moves evolves_ensure_epoch)
qed

section \<open>Runs of the store\<close>

datatype cas_op =
  AppendManifest string nat bytes
| AppendChunk string bytes nat bytes
| AppendModelFile bytes model_file_kind nat bytes
| EnsureUpdate string
| EnsureModelEntry bytes
| DrainEvents

fun cas_step :: "cas_ext \<Rightarrow> cas_store \<Rightarrow> cas_op \<Rightarrow> cas_store" where
  "cas_step x s (AppendManifest epoch offset data) = snd (append_manifest x epoch offset data s)"
| "cas_step x s (AppendChunk epoch digest offset data) = snd (append_chunk x epoch digest offset data s)"
| "cas_step x s (AppendModelFile digest kind offset data) = snd (append_model_file x digest kind offset data s)"
| "cas_step x s (EnsureUpdate epoch) = snd (ensure_update epoch s)"
| "cas_step x s (EnsureModelEntry digest) = snd (ensure_model_entry digest s)"
| "cas_step x s DrainEvents = snd (drain_events s)"

definition cas_run :: "cas_ext \<Rightarrow> cas_config \<Rightarrow> cas_op list \<Rightarrow> cas_store" where
  "cas_run x config ops = foldl (cas_step x) (cas_store_new config) ops"

lemma cas_step_evolves: "cas_evolves x s (cas_step x s oper)"
proof (cases oper)
  case DrainEvents
  have "cas_evolves x s (s\<lparr>cs_events := []\<rparr>)" by (rule evolves_store) (simp add: keeps_store_defs)
  with DrainEvents show ?thesis by (simp add: drain_events_def)
next
  case (EnsureUpdate epoch)
  have "st_moves (cas_evolves x) (ensure_update epoch)"
    unfolding ensure_update_def by (intro cas.moves evolves_ensure_epoch)
  with EnsureUpdate show ?thesis by (simp add: st_moves_def)
next
  case (EnsureModelEntry d)
  have "st_moves (cas_evolves x) (ensure_model_entry d)"
    unfolding ensure_model_entry_def by (intro cas.moves evolves_ensure_model)
  with EnsureModelEntry show ?thesis by (simp add: st_moves_def)
qed (use evolves_append_manifest evolves_append_chunk evolves_append_model_file in \<open>simp_all add: st_moves_def\<close>)

lemma cas_new_inv: "cc_chunk_bytes config * CAS_MAX_CHUNKS < u64_max \<Longrightarrow> cas_inv x (cas_store_new config)"
  by (simp add: cas_inv_defs cas_store_new_def stored_bytes_def)

lemma cas_run_inv: "cc_chunk_bytes config * CAS_MAX_CHUNKS < u64_max \<Longrightarrow> cas_inv x (cas_run x config ops)"
  using cas.run_moves [where step = "cas_step x" and x = x, OF cas_step_evolves] cas_new_inv
  by (auto simp: cas_evolves_def cas_run_def)

lemma cas_run_config: "cs_config (cas_run x config ops) = config" if "cc_chunk_bytes config * CAS_MAX_CHUNKS < u64_max"
  using cas.run_moves [where step = "cas_step x" and x = x, OF cas_step_evolves] cas_new_inv [OF that]
  by (fastforce simp: cas_evolves_def cas_run_def cas_extends_def cas_store_new_def)

lemma cas_run_extends:
  assumes "cc_chunk_bytes config * CAS_MAX_CHUNKS < u64_max"
  shows "cas_extends (cas_run x config ops) (cas_run x config (ops @ later))"
  using cas.run_moves [where step = "cas_step x" and x = x, OF cas_step_evolves] cas_run_inv [OF assms]
  by (auto simp: cas_evolves_def cas_run_def)

subsection \<open>Panics\<close>

lemma map_err_Fail_Panic [simp]: "fst (st_map_err Fail m s) \<noteq> Err Panic"
  by (cases "m s"; cases "fst (m s)") (auto simp: st_map_err_def)

lemma ensure_epoch_present: "ensure_epoch epoch s = (Ok u, t) \<Longrightarrow> map_of (cs_updates t) epoch \<noteq> None"
  by (auto simp: ensure_epoch_def st_bind_Ok st_defs bt_contains_def set_bundle_def split: if_splits)

lemma ensure_model_present: "ensure_model d s = (Ok u, t) \<Longrightarrow> map_of (cs_models t) d \<noteq> None"
  by (auto simp: ensure_model_def st_defs bt_contains_def set_model_def split: if_splits)

lemma append_chunk_internal_models:
  "append_chunk_internal x label d offset data s = (r, t) \<Longrightarrow> cs_models t = cs_models s"
  by (erule append_chunk_internal_cases)
    (simp_all add: set_pending_def commit_chunk_def quarantine_chunk_def Let_def)

lemma st_map_err_Ok: "st_map_err g m s = (Ok y, t) \<longleftrightarrow> m s = (Ok y, t)"
  by (cases "m s") (auto simp: st_map_err_def outcome_splits)

lemma st_map_err_Err: "st_map_err g m s = (Err e, t) \<longleftrightarrow> (\<exists>e'. m s = (Err e', t) \<and> e = g e')"
  by (cases "m s"; cases "fst (m s)") (auto simp: st_map_err_def)

lemma fst_eq_iff: "fst p = a \<longleftrightarrow> (\<exists>b. p = (a, b))"
  by (cases p) auto

lemma append_manifest_no_panic: "fst (append_manifest x epoch offset data s) \<noteq> Err Panic"
proof
  assume "fst (append_manifest x epoch offset data s) = Err Panic"
  then obtain t p n where t: "ensure_epoch epoch s = (Ok (), t)"
      "fst (append_manifest_bytes x epoch offset p n t) = Err Panic"
    by (auto simp: append_manifest_def fst_eq_iff st_bind_Err st_map_err_Err st_map_err_Ok st_defs)
  have "fst (finish_manifest x epoch b n u) \<noteq> Err Panic" for b u
    by (auto simp: finish_manifest_def Let_def split: sum.split cas_manifest_error.split prod.split)
  with t(2) ensure_epoch_present [OF t(1)] show False
    by (auto simp: append_manifest_bytes_def Let_def split: if_splits)
qed

lemma append_weights_no_panic:
  assumes "map_of (cs_models s) d = Some m"
  shows "fst (append_weights x d offset data s) \<noteq> Err Panic"
proof
  assume "fst (append_weights x d offset data s) = Err Panic"
  then obtain n t where "append_chunk_internal x ''model'' d offset data s = (Ok n, t)" "map_of (cs_models t) d = None"
    using assms by (auto simp: append_weights_def fst_eq_iff st_bind_Err st_map_err_Err st_map_err_Ok
      split: if_splits option.splits)
  with append_chunk_internal_models [of x _ d offset data s] assms show False by simp
qed

lemma append_model_blob_no_panic:
  "map_of (cs_models s) d = Some m \<Longrightarrow> fst (append_model_blob x what field set_field d offset data s) \<noteq> Err Panic"
  by (simp add: append_model_blob_def Let_def split: sum.split)

lemma append_model_file_no_panic: "fst (append_model_file x d kind offset data s) \<noteq> Err Panic"
proof
  assume "fst (append_model_file x d kind offset data s) = Err Panic"
  then obtain t where t: "ensure_model d s = (Ok (), t)" and "fst ((case kind of
          Weights \<Rightarrow> append_weights x d offset data
        | Schema \<Rightarrow> append_model_blob x ''schema'' mb_schema
            (\<lambda>payload. mb_schema_update (\<lambda>_. Some payload)) d offset data
        | ModelSignature \<Rightarrow> append_model_blob x ''signature'' mb_signature
            (\<lambda>payload. mb_signature_update (\<lambda>_. Some payload)) d offset data) t) = Err Panic"
    by (auto simp: append_model_file_def fst_eq_iff st_bind_Err st_map_err_Err st_map_err_Ok st_defs)
  with ensure_model_present [OF t] show False
    using append_weights_no_panic append_model_blob_no_panic by (cases kind) auto
qed

subsection \<open>Uploading a manifest in pieces\<close>

definition upload_manifest ::
  "cas_ext \<Rightarrow> string \<Rightarrow> bytes list \<Rightarrow> (cas_store, ninedoor_error fault, unit) st_op" where
  "upload_manifest x epoch ws =
     st_for (\<lambda>data. st_then (append_manifest x epoch u64_max data) (st_return ())) ws"

lemma append_manifest_present:
  assumes "cc_enabled (cs_config s)" and "validate_epoch epoch = Ok ()"
    and "map_of (cs_updates s) epoch \<noteq> None" and "decode_payload x data = Ok p"
  shows "append_manifest x epoch offset data s = append_manifest_bytes x epoch offset p (as_u32 (length data)) s"
  using assms
  by (simp add: append_manifest_def ensure_enabled_def ensure_epoch_def bt_contains_def st_bind_def st_map_err_def
    st_defs)

lemma validate_manifest_valid:
  assumes "manifest_valid x s epoch m"
  shows "validate_manifest x epoch m s = (Ok (), push_event (accepted_event x epoch m) s)"
proof -
  have "check_signature x epoch m s = (Ok (), s)"
    using assms by (auto simp: manifest_valid_def signature_ok_def check_signature_def st_defs split: option.splits)
  with assms show ?thesis by (simp add: validate_manifest_def manifest_valid_def st_bind_def st_defs)
qed

definition pending_bundle :: "bytes \<Rightarrow> update_bundle" where
  "pending_bundle q = \<lparr>ub_manifest_bytes = None, ub_manifest_pending = q, ub_manifest = None\<rparr>"

definition committed_bundle :: "cas_manifest \<Rightarrow> update_bundle" where
  "committed_bundle m =
     \<lparr>ub_manifest_bytes = Some (encode_signed m), ub_manifest_pending = [], ub_manifest = Some m\<rparr>"

lemma committed_manifest_pending:
  "committed_manifest s epoch = None \<Longrightarrow>
    committed_manifest (set_bundle epoch (pending_bundle q) s) = committed_manifest s"
  by (auto simp: committed_manifest_def set_bundle_def pending_bundle_def)

lemma append_manifest_piece:
  assumes "cc_enabled (cs_config s)" and "validate_epoch epoch = Ok ()" and "committed_manifest s epoch = None"
    and "decode_payload x data = Ok p" and "manifest_ok m" and "manifest_valid x s epoch m"
    and "prefix (q @ p) (encode_signed m)" and "length (encode_signed m) \<le> CAS_MANIFEST_MAX_BYTES"
  shows "append_manifest x epoch u64_max data (set_bundle epoch (pending_bundle q) s) =
    (Ok (as_u32 (length data)),
     if q @ p = encode_signed m
     then set_bundle epoch (committed_bundle m) (push_event (accepted_event x epoch m) s)
     else set_bundle epoch (pending_bundle (q @ p)) s)"
proof -
  let ?s = "set_bundle epoch (pending_bundle q) s" and ?t = "set_bundle epoch (pending_bundle (q @ p)) s"
  have "length (q @ p) \<le> CAS_MANIFEST_MAX_BYTES"
    using assms(7,8) prefix_length_le by fastforce
  moreover have "append_manifest x epoch u64_max data ?s = append_manifest_bytes x epoch u64_max p (as_u32 (length data)) ?s"
    by (rule append_manifest_present) (use assms in \<open>simp_all add: set_bundle_def\<close>)
  ultimately have fin: "append_manifest x epoch u64_max data ?s =
      finish_manifest x epoch (pending_bundle (q @ p)) (as_u32 (length data)) ?t"
    by (simp add: append_manifest_bytes_def set_bundle_def pending_bundle_def Let_def)
  show ?thesis
  proof (cases "q @ p = encode_signed m")
    case True
    have "manifest_valid x ?t epoch m"
      using assms(6) manifest_valid_cong [of ?t s] committed_manifest_pending [OF assms(3), of "q @ p"]
      by (simp add: set_bundle_def)
    with True fin decode_encode_signed [OF assms(5)] show ?thesis
      by (simp add: finish_manifest_def validate_manifest_valid pending_bundle_def committed_bundle_def set_bundle_def push_event_def)
  next
    case False
    with assms(7) have "strict_prefix (q @ p) (encode_signed m)" by (simp add: strict_prefix_def)
    with False fin decode_strict_prefix [OF assms(5)] show ?thesis
      by (simp add: finish_manifest_def pending_bundle_def)
  qed
qed

lemma upload_manifest_commits:
  assumes "cc_enabled (cs_config s)" and "validate_epoch epoch = Ok ()" and "committed_manifest s epoch = None"
    and "manifest_ok m" and "manifest_valid x s epoch m" and "length (encode_signed m) \<le> CAS_MANIFEST_MAX_BYTES"
    and "list_all2 (\<lambda>data p. decode_payload x data = Ok p \<and> p \<noteq> []) ws ps" and "ws \<noteq> []"
    and "q @ concat ps = encode_signed m"
  shows "upload_manifest x epoch ws (set_bundle epoch (pending_bundle q) s) =
    (Ok (), set_bundle epoch (committed_bundle m) (push_event (accepted_event x epoch m) s))"
  using assms(7-9)
proof (induction ws ps arbitrary: q rule: list_all2_induct)
  case (Cons data ws p ps)
  have "prefix (q @ p) (encode_signed m)"
    using Cons.prems(2) by (metis append_assoc concat.simps(2) prefixI)
  then have piece: "append_manifest x epoch u64_max data (set_bundle epoch (pending_bundle q) s) =
    (Ok (as_u32 (length data)),
     if q @ p = encode_signed m
     then set_bundle epoch (committed_bundle m) (push_event (accepted_event x epoch m) s)
     else set_bundle epoch (pending_bundle (q @ p)) s)"
    using Cons.hyps(1) by (intro append_manifest_piece assms) auto
  show ?case
  proof (cases "ws = []")
    case True
    with Cons.hyps(2) Cons.prems(2) have "q @ p = encode_signed m" by simp
    with True piece show ?thesis by (simp add: upload_manifest_def st_bind_def st_return_def)
  next
    case False
    with Cons.hyps(2) have "concat ps \<noteq> []" by (cases ws; cases ps) auto
    with Cons.prems(2) have "q @ p \<noteq> encode_signed m" by (metis append_assoc append_self_conv concat.simps(2))
    with piece Cons.IH [of "q @ p"] False Cons.prems(2) show ?thesis
      by (simp add: upload_manifest_def st_bind_def st_return_def)
  qed
qed simp

subsection \<open>Status\<close>

lemma sat_count_all: "\<forall>z \<in> set zs. P z \<Longrightarrow> length zs \<le> u64_max \<Longrightarrow> sat_count P zs = length zs"
  by (simp add: sat_count_eq)

lemma sat_count_none: "\<forall>z \<in> set zs. \<not> P z \<Longrightarrow> sat_count P zs = 0"
  by (simp add: sat_count_eq)

lemma manifest_valid_chunks:
  assumes "manifest_valid x s epoch m"
  shows "(\<forall>d \<in> set (cm_chunks m). bt_contains (cs_chunks s) d) \<and> length (cm_chunks m) \<le> CAS_MAX_CHUNKS"
  using assms
  by (auto simp: manifest_valid_def check_payload_def assemble_payload_def check_shape_def gather_chunks_Ok
    bt_contains_def outcome_splits split: if_splits)

lemma status_of_valid:
  assumes "map_of (cs_updates s) epoch = Some b" and "ub_manifest b = Some m"
    and "\<forall>d \<in> set (cm_chunks m). bt_contains (cs_chunks s) d" and "length (cm_chunks m) \<le> CAS_MAX_CHUNKS"
  shows "\<exists>u. update_status_snapshot_of epoch s = Ok u \<and> us_state u = ''ready'' \<and> us_chunks_pending u = 0
    \<and> us_chunks_missing u = 0 \<and> us_chunks_committed u = length (cm_chunks m)"
proof -
  have "sat_count (bt_contains (cs_chunks s)) (cm_chunks m) = length (cm_chunks m)"
    using assms(3,4) by (intro sat_count_all) (simp_all add: CAS_MAX_CHUNKS_def u64_max_def)
  moreover have "sat_count (\<lambda>d. \<not> bt_contains (cs_chunks s) d \<and> bt_contains (cs_pending s) d) (cm_chunks m) = 0"
    using assms(3) by (intro sat_count_none) simp
  ultimately show ?thesis using assms(1,2) by (simp add: update_status_snapshot_of_def Let_def)
qed

lemma status_empty_bundle:
  assumes "cas_inv x s" and "update_status_snapshot_of epoch s = Ok u" and "us_state u = ''empty''"
  shows "set_bundle epoch (pending_bundle []) s = s \<and> committed_manifest s epoch = None"
proof -
  from assms(2,3) obtain b where b: "map_of (cs_updates s) epoch = Some b" "ub_manifest b = None" "ub_manifest_pending b = []"
    by (auto simp: update_status_snapshot_of_def Let_def outcome_splits split: option.splits if_splits)
  with assms(1) have "bundle_ok x s epoch b" by (simp add: cas_inv_def updates_ok_def)
  with b(2) have "ub_manifest_bytes b = None" by (cases "ub_manifest_bytes b") (simp_all add: bundle_ok_def)
  with b have "b = pending_bundle []" by (simp add: pending_bundle_def)
  with b assms(1) show ?thesis
    by (simp add: set_bundle_def bt_insert_same cas_inv_def maps_ok_def committed_manifest_def)
qed

subsection \<open>Empty writes\<close>

lemma decode_payload_Nil [simp]: "decode_payload x [] = Ok []"
  by (simp add: decode_payload_def trim_payload_def strip_prefix_def str_bytes_def)

lemma append_chunk_empty:
  assumes "cc_enabled (cs_config s)" and "validate_epoch epoch = Ok ()" and "0 < cc_chunk_bytes (cs_config s)"
    and "map_of (cs_updates s) epoch \<noteq> None \<or> cs_updates s = []" and "cs_chunks s = []"
    and "map_of (cs_pending s) d = None" and "cs_bytes_used s = 0"
  shows "\<exists>us. map_of us epoch \<noteq> None \<and> append_chunk x epoch d 0 [] s =
    (Ok 0, s\<lparr>cs_updates := us, cs_pending := bt_insert d [] (cs_pending s)\<rparr>)"
proof -
  have "\<exists>us. map_of us epoch \<noteq> None \<and> ensure_epoch epoch s = (Ok (), s\<lparr>cs_updates := us\<rparr>)"
  proof (cases "map_of (cs_updates s) epoch")
    case None
    with assms(2,4) show ?thesis
      by (intro exI [of _ "bt_insert epoch update_bundle_default []"])
        (auto simp: ensure_epoch_def st_bind_def st_defs bt_contains_def set_bundle_def CAS_MAX_UPDATES_def)
  next
    case (Some b)
    with assms(2) show ?thesis
      by (intro exI [of _ "cs_updates s"])
        (simp add: ensure_epoch_def st_bind_def st_defs bt_contains_def)
  qed
  then obtain us where us: "map_of us epoch \<noteq> None" "ensure_epoch epoch s = (Ok (), s\<lparr>cs_updates := us\<rparr>)"
    by blast
  have "append_chunk_internal x epoch d 0 [] (s\<lparr>cs_updates := us\<rparr>) =
      (Ok 0, s\<lparr>cs_updates := us, cs_pending := bt_insert d [] (cs_pending s)\<rparr>)"
    using assms(3,5-7)
    by (simp add: append_chunk_internal_def Let_def pending_chunk_def can_reserve_bytes_def u64_max_def
      sat_add_def as_u32_def)
  with us assms(1) show ?thesis
    by (auto simp: append_chunk_def ensure_enabled_def st_bind_def st_defs)
qed

lemma empty_writes_state:
  assumes "cc_enabled config" and "validate_epoch epoch = Ok ()" and "0 < cc_chunk_bytes config" and "distinct ds"
  shows "\<exists>us ps. cas_run x config (map (\<lambda>d. AppendChunk epoch d 0 []) ds) =
      (cas_store_new config)\<lparr>cs_updates := us, cs_pending := ps\<rparr> \<and> (map_of us epoch \<noteq> None \<or> us = [])
      \<and> dom (map_of ps) = set ds \<and> length ps = length ds"
  using assms(4)
proof (induction ds rule: rev_induct)
  case Nil
  show ?case by (simp add: cas_run_def) (auto simp: cas_store_new_def)
next
  case (snoc d ds)
  then obtain us ps where s: "cas_run x config (map (\<lambda>d. AppendChunk epoch d 0 []) ds) =
      (cas_store_new config)\<lparr>cs_updates := us, cs_pending := ps\<rparr>" "map_of us epoch \<noteq> None \<or> us = []"
      "dom (map_of ps) = set ds" "length ps = length ds" by auto
  with snoc.prems have new: "map_of ps d = None" by (metis distinct_append domIff distinct.simps(2) disjoint_iff list.set_intros(1))
  from append_chunk_empty [of "(cas_store_new config)\<lparr>cs_updates := us, cs_pending := ps\<rparr>" epoch d x] assms s(2) new
  obtain us' where "map_of us' epoch \<noteq> None" "snd (append_chunk x epoch d 0 [] ((cas_store_new config)\<lparr>cs_updates := us, cs_pending := ps\<rparr>)) =
      (cas_store_new config)\<lparr>cs_updates := us', cs_pending := bt_insert d [] ps\<rparr>"
    by (fastforce simp: cas_store_new_def)
  moreover have "dom (map_of (bt_insert d [] ps)) = set (ds @ [d])" using s(3) by simp
  moreover have "length (bt_insert d [] ps) = length (ds @ [d])" using s(4) new by (simp add: length_bt_insert_new)
  ultimately show ?case
    using s(1) unfolding cas_run_def
    by (intro exI [of _ us'] exI [of _ "bt_insert d [] ps"]) (simp del: bt_get_insert)
qed

section \<open>Properties\<close>

text \<open>
  C10: The store is content addressed and its space is accounted for. After any run of its
  operations, what a full read of a chunk returns has the chunk's name as its hash and is one
  chunk long, the bytes counted as used are exactly the bytes stored in chunks, partial uploads,
  schemas and signatures, and they never exceed eight chunks.
\<close>

theorem cas_content_addressed:
  assumes "cc_chunk_bytes config * CAS_MAX_CHUNKS < u64_max"
    and "s = cas_run x config ops"
  shows "(\<forall>d c. read_chunk x d 0 (cc_chunk_bytes config) s = Inr c \<longrightarrow>
            cx_sha256 x c = d \<and> length c = cc_chunk_bytes config)
    \<and> cs_bytes_used s = stored_bytes s \<and> stored_bytes s \<le> 8 * cc_chunk_bytes config"
proof -
  have inv: "cas_inv x s" and config: "cs_config s = config"
    using assms cas_run_inv cas_run_config by auto
  have "cx_sha256 x c = d \<and> length c = cc_chunk_bytes config"
    if "read_chunk x d 0 (cc_chunk_bytes config) s = Inr c" for d c
  proof -
    from that obtain c' where c': "map_of (cs_chunks s) d = Some c'" "c = read_slice c' 0 (cc_chunk_bytes config)"
      by (auto simp: read_chunk_def outcome_splits)
    with inv config have "cx_sha256 x c' = d" "length c' = cc_chunk_bytes config"
      by (simp_all add: cas_inv_def content_ok_def)
    moreover from this assms(1) have "read_slice c' 0 (cc_chunk_bytes config) = c'"
      by (simp add: read_slice_eq CAS_MAX_CHUNKS_def)
    ultimately show ?thesis using c'(2) by simp
  qed
  moreover have "cs_bytes_used s = stored_bytes s" "stored_bytes s \<le> 8 * cc_chunk_bytes config"
    using inv config by (simp_all add: cas_inv_def space_ok_def CAS_MAX_CHUNKS_def)
  ultimately show ?thesis by blast
qed

text \<open>
  C3: Only verified updates are committed. After any run, a committed manifest is for the epoch it
  is stored under, carries a valid signature of the configured key (or none, where none is
  required), and the payload assembled from the stored chunks, on top of its base for a delta, has
  the hash the manifest states; what is read back is the encoding that was uploaded.
\<close>

theorem cas_committed_manifest_verified:
  assumes "cc_chunk_bytes config * CAS_MAX_CHUNKS < u64_max"
    and "s = cas_run x config ops" and "committed_manifest s epoch = Some m"
  shows "cm_epoch m = epoch \<and> signature_ok x config m
    \<and> (\<exists>p. assemble_payload x m s = Inr p \<and> cx_sha256 x p = cm_payload_sha256 m)
    \<and> (\<exists>bs. read_manifest epoch 0 CAS_MANIFEST_MAX_BYTES s = Inr bs \<and> decode_manifest bs = Inr m)"
proof -
  have inv: "cas_inv x s" and config: "cs_config s = config"
    using assms cas_run_inv cas_run_config by auto
  obtain b where b: "map_of (cs_updates s) epoch = Some b" "ub_manifest b = Some m"
    using assms(3) by (auto simp: committed_manifest_def bind_eq_Some_conv)
  then have "bundle_ok x s epoch b" using inv by (simp add: cas_inv_def updates_ok_def)
  with b(2) obtain bs where bs: "ub_manifest_bytes b = Some bs" "length bs \<le> CAS_MANIFEST_MAX_BYTES"
      "decode_manifest bs = Inr m" "manifest_valid x s epoch m"
    by (auto simp: bundle_ok_def split: option.splits)
  have "read_manifest epoch 0 CAS_MANIFEST_MAX_BYTES s = Inr bs"
    using b(1) bs(1,2) by (simp add: read_manifest_def read_slice_eq CAS_MANIFEST_MAX_BYTES_def u64_max_def)
  moreover have "cm_epoch m = epoch" "signature_ok x config m"
    "\<exists>p. assemble_payload x m s = Inr p \<and> cx_sha256 x p = cm_payload_sha256 m"
    using bs(4) config
    by (auto simp: manifest_valid_def check_shape_def check_payload_def outcome_splits split: if_splits)
  ultimately show ?thesis using bs(3) by blast
qed

text \<open>
  C32: Commitment is final. Whatever a read of a manifest or of a chunk returned once, the same read
  returns after every further run of operations.
\<close>

theorem cas_commit_is_final:
  assumes "cc_chunk_bytes config * CAS_MAX_CHUNKS < u64_max"
  shows "(read_manifest epoch offset count (cas_run x config ops) = Inr bs \<longrightarrow>
           read_manifest epoch offset count (cas_run x config (ops @ later)) = Inr bs)
    \<and> (read_chunk x d offset count (cas_run x config ops) = Inr bs \<longrightarrow>
           read_chunk x d offset count (cas_run x config (ops @ later)) = Inr bs)"
  using cas_run_extends [OF assms, of x ops later]
  by (fastforce simp: read_manifest_def read_chunk_def cas_extends_def outcome_splits map_le_def dom_def)

text \<open>
  No write makes the server panic: whatever the state, the epoch and the data, neither a
  manifest write nor a model write fails in one of the internal expectations of the code.
\<close>

theorem cas_writes_never_panic:
  "fst (append_manifest x epoch offset data s) \<noteq> Inl Panic
    \<and> fst (append_model_file x d kind offset data s) \<noteq> Inl Panic"
  using append_manifest_no_panic append_model_file_no_panic by blast

text \<open>
  C33: An update can always be completed. For an update that has no manifest yet, a manifest that
  passes the store's checks can be uploaded in pieces of any size: every write is accepted, the
  last one commits it, it reads back byte for byte, and the update is reported ready.
\<close>

theorem cas_upload_commits:
  assumes "cc_chunk_bytes config * CAS_MAX_CHUNKS < u64_max" and "cc_enabled config"
    and "s = cas_run x config ops" and "validate_epoch epoch = Inr ()"
    and "update_status_snapshot_of epoch s = Inr u" and "us_state u = ''empty''"
    and "manifest_ok m" and "manifest_valid x s epoch m" and "length (encode_signed m) \<le> CAS_MANIFEST_MAX_BYTES"
    and "list_all2 (\<lambda>data p. decode_payload x data = Inr p \<and> p \<noteq> []) ws ps"
    and "concat ps = encode_signed m"
  shows "\<exists>s' u'. upload_manifest x epoch ws s = (Inr (), s')
    \<and> read_manifest epoch 0 CAS_MANIFEST_MAX_BYTES s' = Inr (encode_signed m)
    \<and> update_status_snapshot_of epoch s' = Inr u' \<and> us_state u' = ''ready''"
proof -
  have inv: "cas_inv x s" and config: "cs_config s = config"
    using assms(1,3) cas_run_inv cas_run_config by auto
  note empty = status_empty_bundle [OF inv assms(5,6)]
  have "encode_signed m \<noteq> []" using decode_encode_signed [OF assms(7)] by auto
  with assms(10,11) have "ws \<noteq> []" by auto
  let ?s = "set_bundle epoch (committed_bundle m) (push_event (accepted_event x epoch m) s)"
  from upload_manifest_commits [where q = "[]", OF _ assms(4) _ assms(7-10) \<open>ws \<noteq> []\<close>] assms(2,11) empty config
  have "upload_manifest x epoch ws s = (Inr (), ?s)" by simp
  moreover have b: "map_of (cs_updates ?s) epoch = Some (committed_bundle m)" by (simp add: set_bundle_def)
  then have "read_manifest epoch 0 CAS_MANIFEST_MAX_BYTES ?s = Inr (encode_signed m)"
    using assms(9)
    by (simp add: read_manifest_def committed_bundle_def read_slice_eq CAS_MANIFEST_MAX_BYTES_def u64_max_def)
  moreover have "\<exists>u'. update_status_snapshot_of epoch ?s = Inr u' \<and> us_state u' = ''ready''"
    using status_of_valid [OF b, of m] manifest_valid_chunks [OF assms(8)]
    by (auto simp: committed_bundle_def set_bundle_def push_event_def)
  ultimately show ?thesis by blast
qed

text \<open>
  The state chunks_pending is never reported. A manifest is committed only when all of its
  chunks are in the store, so after any run the status of an update with a committed manifest is
  ready, with no chunk pending or missing.
\<close>

theorem cas_committed_is_ready:
  assumes "cc_chunk_bytes config * CAS_MAX_CHUNKS < u64_max" and "s = cas_run x config ops"
    and "committed_manifest s epoch = Some m"
  shows "\<exists>u. update_status_snapshot_of epoch s = Inr u \<and> us_state u = ''ready''
    \<and> us_chunks_pending u = 0 \<and> us_chunks_missing u = 0"
proof -
  have inv: "cas_inv x s" using assms cas_run_inv by auto
  obtain b where b: "map_of (cs_updates s) epoch = Some b" "ub_manifest b = Some m"
    using assms(3) by (auto simp: committed_manifest_def bind_eq_Some_conv)
  then have "bundle_ok x s epoch b" using inv by (simp add: cas_inv_def updates_ok_def)
  with b(2) have "manifest_valid x s epoch m" by (auto simp: bundle_ok_def split: option.splits)
  with b show ?thesis using status_of_valid manifest_valid_chunks by blast
qed

text \<open>
  The number of partial uploads is not bounded. Writes of no data are accepted for any number
  of different chunk names: each leaves an entry of its own in the table of pending chunks, while
  the space counted as used stays zero.
\<close>

theorem cas_pending_entries_unbounded:
  assumes "cc_enabled config" and "validate_epoch epoch = Inr ()" and "0 < cc_chunk_bytes config" and "distinct ds"
    and "s = cas_run x config (map (\<lambda>d. AppendChunk epoch d 0 []) ds)"
  shows "length (cs_pending s) = length ds \<and> cs_bytes_used s = 0"
  using empty_writes_state [OF assms(1-4), of x] assms(5) by (auto simp: cas_store_new_def)

section \<open>Instances\<close>

definition sample_ext :: cas_ext where
  "sample_ext =
     \<lparr>cx_sha256 = (\<lambda>bs. replicate 32 (word_of_nat (length bs))),
      cx_hex = (\<lambda>bs. concat (map show_byte_02x bs)), cx_unhex = (\<lambda>_. None), cx_base64 = (\<lambda>_. None),
      cx_key = (\<lambda>_. True), cx_verify = (\<lambda>key payload sig. sig = replicate 64 3)\<rparr>"

definition sample_cas :: cas_config where
  "sample_cas = cas_enabled 4 False True (Some (replicate 32 9)) False"

definition sample_ops :: "cas_op list" where
  "sample_ops = [AppendChunk ''42'' (replicate 32 4) 0 [1, 2, 3, 4]]"

lemma sample_epoch: "validate_epoch ''42'' = Ok ()"
  by code_simp

lemma sample_bound: "cc_chunk_bytes sample_cas * CAS_MAX_CHUNKS < u64_max" "cc_enabled sample_cas"
  by (simp_all add: sample_cas_def cas_enabled_def CAS_MAX_CHUNKS_def u64_max_def)

lemmas sample_defs = sample_ext_def sample_cas_def sample_ops_def cas_enabled_def cas_store_new_def cas_limits

lemma sample_run:
  "cas_run sample_ext sample_cas sample_ops =
     (cas_store_new sample_cas)\<lparr>cs_updates := [(''42'', update_bundle_default)],
       cs_chunks := [(replicate 32 4, [1, 2, 3, 4])], cs_bytes_used := 4\<rparr>"
proof -
  let ?s = "(cas_store_new sample_cas)\<lparr>cs_updates := [(''42'', update_bundle_default)]\<rparr>"
  have e: "ensure_epoch ''42'' (cas_store_new sample_cas) = (Ok (), ?s)"
    by (simp add: ensure_epoch_def sample_epoch st_bind_def st_defs bt_contains_def set_bundle_def
      cas_store_new_def CAS_MAX_UPDATES_def)
  have "decode_payload sample_ext [1, 2, 3, 4] = Ok [1, 2, 3, 4]" by code_simp
  moreover have "sat_add 0 4 = 4" "sat_mul 4 8 = 32" by (simp_all add: sat_add_def sat_mul_def u64_max_def)
  ultimately have "append_chunk_internal sample_ext ''42'' (replicate 32 4) 0 [1, 2, 3, 4] ?s =
      (Ok 4, ?s\<lparr>cs_chunks := [(replicate 32 4, [1, 2, 3, 4])], cs_bytes_used := 4\<rparr>)"
    by (simp add: append_chunk_internal_def Let_def pending_chunk_def can_reserve_bytes_def sample_defs
      bt_remove_def u64_max_def as_u32_def)
  with e sample_bound(2) show ?thesis
    by (simp add: cas_run_def sample_ops_def append_chunk_def st_bind_def st_defs ensure_enabled_def)
       (simp add: cas_store_new_def)
qed

lemma sample_manifest_ok: "manifest_ok sample_manifest"
proof -
  have "utf8_str ''42''"
    unfolding utf8_str_def by (rule utf8_valid_ascii) (simp add: str_bytes_def char_byte_def)
  then show ?thesis by (simp add: manifest_ok_def sample_manifest_def u32_max_def u64_max_def)
qed

lemma sample_manifest_valid:
  "manifest_valid sample_ext (cas_run sample_ext sample_cas sample_ops) ''42'' sample_manifest"
  unfolding sample_run
  by (simp add: manifest_valid_def check_shape_def check_delta_def signature_ok_def check_payload_def
    assemble_payload_def gather_chunks_def sample_manifest_def sample_defs sat_mul_def u64_max_def)

lemma sample_status:
  "\<exists>u. update_status_snapshot_of ''42'' (cas_run sample_ext sample_cas sample_ops) = Ok u \<and> us_state u = ''empty''"
  unfolding sample_run
  by (simp add: update_status_snapshot_of_def Let_def update_bundle_default_def)

lemma sample_pieces:
  "decode_payload sample_ext (take 40 (encode_signed sample_manifest)) = Ok (take 40 (encode_signed sample_manifest))"
  "decode_payload sample_ext (drop 40 (encode_signed sample_manifest)) = Ok (drop 40 (encode_signed sample_manifest))"
  "take 40 (encode_signed sample_manifest) \<noteq> []" "drop 40 (encode_signed sample_manifest) \<noteq> []"
  "length (encode_signed sample_manifest) \<le> CAS_MANIFEST_MAX_BYTES"
  by code_simp+

theorem cas_content_addressed_witness:
  "read_chunk sample_ext (replicate 32 4) 0 4 (cas_run sample_ext sample_cas sample_ops) = Inr [1, 2, 3, 4]
    \<and> cx_sha256 sample_ext [1, 2, 3, 4] = replicate 32 4
    \<and> stored_bytes (cas_run sample_ext sample_cas sample_ops) \<le> 32"
proof -
  have "read_chunk sample_ext (replicate 32 4) 0 4 (cas_run sample_ext sample_cas sample_ops) = Inr [1, 2, 3, 4]"
    unfolding sample_run by (simp add: read_chunk_def read_slice_eq u64_max_def)
  with cas_content_addressed [OF sample_bound(1) refl, of sample_ext sample_ops] show ?thesis
    by (simp add: sample_cas_def cas_enabled_def)
qed

definition sample_commit :: "cas_op list" where
  "sample_commit = sample_ops @ [AppendManifest ''42'' u64_max (encode_signed sample_manifest)]"

lemma sample_committed:
  "committed_manifest (cas_run sample_ext sample_cas sample_commit) ''42'' = Some sample_manifest"
proof -
  let ?s = "cas_run sample_ext sample_cas sample_ops"
  obtain u where u: "update_status_snapshot_of ''42'' ?s = Ok u" "us_state u = ''empty''" using sample_status by blast
  note e = status_empty_bundle [OF cas_run_inv [OF sample_bound(1)] u]
  have "decode_payload sample_ext (encode_signed sample_manifest) = Ok (encode_signed sample_manifest)" by code_simp
  with append_manifest_piece [of ?s "''42''" sample_ext _ "encode_signed sample_manifest" sample_manifest "[]"]
    e sample_epoch sample_bound sample_manifest_ok sample_manifest_valid sample_pieces(5)
  have "snd (append_manifest sample_ext ''42'' u64_max (encode_signed sample_manifest) ?s) =
      set_bundle ''42'' (committed_bundle sample_manifest) (push_event (accepted_event sample_ext ''42'' sample_manifest) ?s)"
    by (simp add: cas_run_config)
  then have "cas_run sample_ext sample_cas sample_commit =
      set_bundle ''42'' (committed_bundle sample_manifest) (push_event (accepted_event sample_ext ''42'' sample_manifest) ?s)"
    by (simp add: sample_commit_def cas_run_def)
  then show ?thesis by (simp add: committed_manifest_def set_bundle_def committed_bundle_def)
qed

theorem cas_committed_manifest_verified_witness:
  "signature_ok sample_ext sample_cas sample_manifest
    \<and> (\<exists>p. assemble_payload sample_ext sample_manifest (cas_run sample_ext sample_cas sample_commit) = Inr p)"
  using cas_committed_manifest_verified [OF sample_bound(1) refl sample_committed] by blast

theorem cas_commit_is_final_witness:
  "read_chunk sample_ext (replicate 32 4) 0 4 (cas_run sample_ext sample_cas (sample_ops @ [DrainEvents])) = Inr [1, 2, 3, 4]"
proof -
  have "read_chunk sample_ext (replicate 32 4) 0 4 (cas_run sample_ext sample_cas sample_ops) = Inr [1, 2, 3, 4]"
    unfolding sample_run by (simp add: read_chunk_def read_slice_eq u64_max_def)
  with cas_commit_is_final [OF sample_bound(1)] show ?thesis by blast
qed

theorem cas_upload_commits_witness:
  "\<exists>s'. upload_manifest sample_ext ''42''
      [take 40 (encode_signed sample_manifest), drop 40 (encode_signed sample_manifest)]
      (cas_run sample_ext sample_cas sample_ops) = (Inr (), s')
    \<and> read_manifest ''42'' 0 CAS_MANIFEST_MAX_BYTES s' = Inr (encode_signed sample_manifest)"
proof -
  obtain u where u: "update_status_snapshot_of ''42'' (cas_run sample_ext sample_cas sample_ops) = Ok u" "us_state u = ''empty''"
    using sample_status by blast
  let ?ws = "[take 40 (encode_signed sample_manifest), drop 40 (encode_signed sample_manifest)]"
  have "list_all2 (\<lambda>data p. decode_payload sample_ext data = Ok p \<and> p \<noteq> []) ?ws ?ws"
    using sample_pieces(1-4) by simp
  moreover have "concat ?ws = encode_signed sample_manifest" by simp
  ultimately show ?thesis
    using cas_upload_commits [OF sample_bound refl sample_epoch u sample_manifest_ok sample_manifest_valid sample_pieces(5)]
    by blast
qed

theorem cas_committed_is_ready_witness:
  "\<exists>u. update_status_snapshot_of ''42'' (cas_run sample_ext sample_cas sample_commit) = Inr u \<and> us_state u = ''ready''"
  using cas_committed_is_ready [OF sample_bound(1) refl sample_committed] by blast

definition sample_digests :: "bytes list" where
  "sample_digests = map (\<lambda>n. replicate 32 (word_of_nat n)) [0..<12]"

theorem cas_pending_entries_unbounded_witness:
  "length (cs_pending (cas_run sample_ext sample_cas (map (\<lambda>d. AppendChunk ''42'' d 0 []) sample_digests))) = 12"
proof -
  have d: "distinct sample_digests" by code_simp
  have n: "length sample_digests = 12" by (simp add: sample_digests_def)
  have c: "0 < cc_chunk_bytes sample_cas" by (simp add: sample_cas_def cas_enabled_def)
  show ?thesis
    using cas_pending_entries_unbounded [OF sample_bound(2) sample_epoch c d refl, of sample_ext] unfolding n ..
qed

end
