(* ===== verification/Field_Bus.thy ===== *)
theory Field_Bus
  imports Cohesix_Prelude
begin

section \<open>Field-bus primitives\<close>

text \<open>
  \<open>src/apps/sidecar-bus/src/lib.rs\<close>: the bounded spool that holds payloads while a link is down,
  and the adapters that use it. \<open>src/apps/worker-lora/src/common.rs\<close> and \<open>host.rs\<close>: the duty-cycle
  guard of a radio link and the log of what it refused. \<open>src/apps/worker-bus/src/host.rs\<close>: the paths
  of an adapter. Counters are natural numbers with the saturation of the source.
\<close>

subsection \<open>Spool\<close>

record spool_config =
  sp_max_entries :: nat
  sp_max_bytes :: nat

datatype spool_error = SpoolFull | SpoolOversize nat nat

record spool_frame =
  sf_seq :: nat
  sf_payload :: bytes

record offline_spool =
  sl_config :: spool_config
  sl_queue :: "spool_frame list"
  sl_bytes :: nat
  sl_next_seq :: nat

definition spool_new :: "spool_config \<Rightarrow> offline_spool" where
  "spool_new config = \<lparr>sl_config = config, sl_queue = [], sl_bytes = 0, sl_next_seq = 1\<rparr>"

definition spool_push :: "bytes \<Rightarrow> (offline_spool, spool_error, spool_frame) st_op" where
  "spool_push payload s =
     (let n = length payload
      in if n > sp_max_bytes (sl_config s)
      then (Err (SpoolOversize n (sp_max_bytes (sl_config s))), s)
      else if length (sl_queue s) \<ge> sp_max_entries (sl_config s)
        \<or> sat_add (sl_bytes s) n > sp_max_bytes (sl_config s)
      then (Err SpoolFull, s)
      else let frame = \<lparr>sf_seq = sl_next_seq s, sf_payload = payload\<rparr>
        in (Ok frame, s\<lparr>sl_next_seq := sat_add (sl_next_seq s) 1, sl_bytes := sl_bytes s + n,
             sl_queue := sl_queue s @ [frame]\<rparr>))"

definition spool_drain :: "offline_spool \<Rightarrow> spool_frame list \<times> offline_spool" where
  "spool_drain s = (sl_queue s, s\<lparr>sl_queue := [], sl_bytes := 0\<rparr>)"

definition spool_snapshot :: "offline_spool \<Rightarrow> spool_frame list" where
  "spool_snapshot s = sl_queue s"

subsection \<open>Adapters\<close>

datatype link_state = LinkOnline | LinkOffline

datatype bus_link = LinkSerial | LinkTcp

datatype spool_result = Delivered | Queued nat

record bus_adapter_config =
  bac_id :: string
  bac_mount :: string
  bac_scope :: string
  bac_link :: bus_link
  bac_baud :: nat
  bac_spool :: spool_config

record bus_adapter =
  bad_config :: bus_adapter_config
  bad_spool :: offline_spool
  bad_state :: link_state

definition bus_adapter_new :: "bus_adapter_config \<Rightarrow> bus_adapter" where
  "bus_adapter_new config =
     \<lparr>bad_config = config, bad_spool = spool_new (bac_spool config), bad_state = LinkOffline\<rparr>"

definition bus_set_state :: "link_state \<Rightarrow> bus_adapter \<Rightarrow> bus_adapter" where
  "bus_set_state st a = a\<lparr>bad_state := st\<rparr>"

definition bus_enqueue :: "bytes \<Rightarrow> (bus_adapter, spool_error, spool_result) st_op" where
  "bus_enqueue payload a = (case bad_state a of
     LinkOnline \<Rightarrow> (Ok Delivered, a)
   | LinkOffline \<Rightarrow> (case spool_push payload (bad_spool a) of
       (Err e, _) \<Rightarrow> (Err e, a)
     | (Ok frame, s) \<Rightarrow> (Ok (Queued (sf_seq frame)), a\<lparr>bad_spool := s\<rparr>)))"

definition bus_drain_spool :: "bus_adapter \<Rightarrow> spool_frame list \<times> bus_adapter" where
  "bus_drain_spool a = (case spool_drain (bad_spool a) of (frames, s) \<Rightarrow> (frames, a\<lparr>bad_spool := s\<rparr>))"

record lora_config =
  lc_id :: string
  lc_mount :: string
  lc_scope :: string
  lc_region :: string
  lc_max_payload_bytes :: nat
  lc_spool :: spool_config

record lora_bridge =
  lb_config :: lora_config
  lb_spool :: offline_spool
  lb_state :: link_state

definition lora_bridge_new :: "lora_config \<Rightarrow> lora_bridge" where
  "lora_bridge_new config =
     \<lparr>lb_config = config, lb_spool = spool_new (lc_spool config), lb_state = LinkOffline\<rparr>"

definition lora_enqueue :: "bytes \<Rightarrow> (lora_bridge, spool_error, spool_result) st_op" where
  "lora_enqueue payload a =
     (if length payload > lc_max_payload_bytes (lb_config a)
      then (Err (SpoolOversize (length payload) (lc_max_payload_bytes (lb_config a))), a)
      else case lb_state a of
        LinkOnline \<Rightarrow> (Ok Delivered, a)
      | LinkOffline \<Rightarrow> (case spool_push payload (lb_spool a) of
          (Err e, _) \<Rightarrow> (Err e, a)
        | (Ok frame, s) \<Rightarrow> (Ok (Queued (sf_seq frame)), a\<lparr>lb_spool := s\<rparr>)))"

definition trim_end_slashes :: "string \<Rightarrow> string" where
  "trim_end_slashes s = rev (dropWhile (\<lambda>c. c = CHR ''/'') (rev s))"

record bus_paths =
  bp_root :: string
  bp_ctl :: string
  bp_telemetry :: string
  bp_link :: string
  bp_replay :: string
  bp_spool :: string

definition bus_paths_new :: "string \<Rightarrow> string \<Rightarrow> string + bus_paths" where
  "bus_paths_new mount_at mount =
     (let at = trim_end_slashes mount_at
      in if at = [] \<or> hd at \<noteq> CHR ''/'' then Err ''mount_at must be an absolute path''
      else let root = at @ ''/'' @ mount
        in Ok \<lparr>bp_root = root, bp_ctl = root @ ''/ctl'', bp_telemetry = root @ ''/telemetry'',
             bp_link = root @ ''/link'', bp_replay = root @ ''/replay'', bp_spool = root @ ''/spool''\<rparr>)"

record lora_paths =
  lp_root :: string
  lp_ctl :: string
  lp_telemetry :: string
  lp_tamper :: string

definition lora_paths_new :: "string \<Rightarrow> string \<Rightarrow> string + lora_paths" where
  "lora_paths_new mount_at mount =
     (let at = trim_end_slashes mount_at
      in if at = [] \<or> hd at \<noteq> CHR ''/'' then Err ''mount_at must be an absolute path''
      else let root = at @ ''/'' @ mount
        in Ok \<lparr>lp_root = root, lp_ctl = root @ ''/ctl'', lp_telemetry = root @ ''/telemetry'',
             lp_tamper = root @ ''/tamper''\<rparr>)"

subsection \<open>Duty cycle\<close>

record duty_cycle_config =
  dc_percent :: nat
  dc_window_ms :: nat
  dc_max_payload_bytes :: nat

datatype tamper_reason = PayloadOversize | DutyCycleExceeded

record tamper_entry =
  tp_timestamp_ms :: nat
  tp_reason :: tamper_reason
  tp_payload_bytes :: nat

record tamper_log =
  tl_entries :: "tamper_entry list"
  tl_max_entries :: nat

definition tamper_new :: "nat \<Rightarrow> tamper_log" where
  "tamper_new n = \<lparr>tl_entries = [], tl_max_entries = n\<rparr>"

definition tamper_push :: "tamper_entry \<Rightarrow> tamper_log \<Rightarrow> tamper_log" where
  "tamper_push e l =
     (if tl_max_entries l = 0 then l
      else if length (tl_entries l) \<ge> tl_max_entries l
      then l\<lparr>tl_entries := tl (tl_entries l) @ [e]\<rparr>
      else l\<lparr>tl_entries := tl_entries l @ [e]\<rparr>)"

record duty_cycle_guard =
  dg_config :: duty_cycle_config
  dg_window_start_ms :: nat
  dg_used_ms :: nat

definition guard_new :: "duty_cycle_config \<Rightarrow> duty_cycle_guard" where
  "guard_new config = \<lparr>dg_config = config, dg_window_start_ms = 0, dg_used_ms = 0\<rparr>"

definition budget_ms :: "duty_cycle_config \<Rightarrow> nat" where
  "budget_ms config = sat_mul (dc_window_ms config) (dc_percent config) div 100"

definition guard_roll :: "nat \<Rightarrow> duty_cycle_guard \<Rightarrow> duty_cycle_guard" where
  "guard_roll now_ms g =
     (if now_ms - dg_window_start_ms g \<ge> dc_window_ms (dg_config g)
      then g\<lparr>dg_window_start_ms := now_ms, dg_used_ms := 0\<rparr> else g)"

definition guard_attempt :: "nat \<Rightarrow> nat \<Rightarrow> (duty_cycle_guard, tamper_reason, unit) st_op" where
  "guard_attempt now_ms payload_bytes g =
     (if payload_bytes > dc_max_payload_bytes (dg_config g) then (Err PayloadOversize, g)
      else let g = guard_roll now_ms g; budget = budget_ms (dg_config g); cost = payload_bytes
        in if cost = 0 \<or> cost > budget then (Err DutyCycleExceeded, g)
        else if sat_add (dg_used_ms g) cost > budget then (Err DutyCycleExceeded, g)
        else (Ok (), g\<lparr>dg_used_ms := sat_add (dg_used_ms g) cost\<rparr>))"

datatype duty_cycle_decision = TxAllowed | TxThrottled

record lora_worker =
  lw_guard :: duty_cycle_guard
  lw_tamper :: tamper_log

definition attempt_tx :: "nat \<Rightarrow> bytes \<Rightarrow> lora_worker \<Rightarrow> duty_cycle_decision \<times> lora_worker" where
  "attempt_tx now_ms payload w = (case guard_attempt now_ms (as_u32 (length payload)) (lw_guard w) of
     (Ok _, g) \<Rightarrow> (TxAllowed, w\<lparr>lw_guard := g\<rparr>)
   | (Err reason, g) \<Rightarrow>
       (TxThrottled, w\<lparr>lw_guard := g, lw_tamper := tamper_push
          \<lparr>tp_timestamp_ms = now_ms, tp_reason = reason, tp_payload_bytes = as_u32 (length payload)\<rparr>
          (lw_tamper w)\<rparr>))"

section \<open>The spool is a bounded queue\<close>

datatype spool_op = SpoolPush bytes | SpoolDrain

text \<open>A run of the spool, with the payloads accepted and the payloads drained so far.\<close>

fun spool_step :: "offline_spool \<times> bytes list \<times> bytes list \<Rightarrow> spool_op \<Rightarrow> offline_spool \<times> bytes list \<times> bytes list" where
  "spool_step (s, inn, out) (SpoolPush p) = (case spool_push p s of
     (Ok _, s') \<Rightarrow> (s', inn @ [p], out) | (Err _, s') \<Rightarrow> (s', inn, out))"
| "spool_step (s, inn, out) SpoolDrain = (case spool_drain s of
     (frames, s') \<Rightarrow> (s', inn, out @ map sf_payload frames))"

definition queued_payloads :: "offline_spool \<Rightarrow> bytes list" where
  "queued_payloads s = map sf_payload (sl_queue s)"

definition spool_ok :: "offline_spool \<Rightarrow> bool" where
  "spool_ok s \<longleftrightarrow> sl_bytes s = length (concat (queued_payloads s))
     \<and> sl_bytes s \<le> sp_max_bytes (sl_config s) \<and> length (sl_queue s) \<le> sp_max_entries (sl_config s)
     \<and> sp_max_bytes (sl_config s) < u64_max"

lemma spool_push_Ok:
  "spool_push p s = (Ok f, s') \<Longrightarrow> sl_queue s' = sl_queue s @ [f] \<and> sf_payload f = p \<and> sl_config s' = sl_config s"
  by (auto simp: spool_push_def Let_def split: if_splits)

lemma spool_push_Err: "spool_push p s = (Err e, s') \<Longrightarrow> s' = s"
  by (auto simp: spool_push_def Let_def split: if_splits)

lemma spool_push_ok: "spool_ok s \<Longrightarrow> spool_ok (snd (spool_push p s))"
  by (auto simp: spool_push_def spool_ok_def queued_payloads_def Let_def sat_add_def min_def
    split: if_splits)

lemma spool_drain_ok: "spool_ok s \<Longrightarrow> spool_ok (snd (spool_drain s))"
  by (simp add: spool_drain_def spool_ok_def queued_payloads_def)

definition spool_inv :: "spool_config \<Rightarrow> offline_spool \<times> bytes list \<times> bytes list \<Rightarrow> bool" where
  "spool_inv c = (\<lambda>(s, inn, out). spool_ok s \<and> sl_config s = c \<and> inn = out @ queued_payloads s)"

interpretation spool_run: step_invariant spool_step "spool_inv c" for c
proof
  fix st oper assume "spool_inv c st"
  then show "spool_inv c (spool_step st oper)"
  proof (cases oper)
    case (SpoolPush p)
    with \<open>spool_inv c st\<close> show ?thesis
      using spool_push_ok [of "fst st" p]
      by (cases st; cases "spool_push p (fst st)"; cases "fst (spool_push p (fst st))")
        (auto simp: spool_inv_def queued_payloads_def dest!: spool_push_Ok spool_push_Err)
  next
    case SpoolDrain
    with \<open>spool_inv c st\<close> show ?thesis
      using spool_drain_ok [of "fst st"]
      by (cases st) (auto simp: spool_inv_def spool_drain_def queued_payloads_def)
  qed
qed

text \<open>
  The offline spool is a bounded first-in first-out queue. Over any run of pushes and drains,
  the payloads drained so far followed by the payloads still queued are exactly the accepted
  payloads in order: nothing is lost, duplicated or reordered. The queue stays within the
  configured number of entries and bytes, and its byte counter is exact.
\<close>

theorem spool_is_bounded_fifo:
  assumes "sp_max_bytes config < u64_max"
  shows "case foldl spool_step (spool_new config, [], []) ops of (s, accepted, drained) \<Rightarrow>
     accepted = drained @ queued_payloads s
     \<and> sl_bytes s = length (concat (queued_payloads s)) \<and> sl_bytes s \<le> sp_max_bytes config
     \<and> length (queued_payloads s) \<le> sp_max_entries config"
proof -
  have "spool_inv config (spool_new config, [], [])"
    using assms by (simp add: spool_inv_def spool_ok_def spool_new_def queued_payloads_def)
  from spool_run.run_inv [OF this, of ops] show ?thesis
    by (auto simp: spool_inv_def spool_ok_def queued_payloads_def)
qed

theorem spool_is_bounded_fifo_witness:
  "case foldl spool_step (spool_new \<lparr>sp_max_entries = 2, sp_max_bytes = 5\<rparr>, [], [])
     [SpoolPush [1, 2, 3], SpoolPush [4, 5], SpoolPush [6], SpoolDrain, SpoolPush [7]] of
   (s, accepted, drained) \<Rightarrow> accepted = drained @ queued_payloads s"
  using spool_is_bounded_fifo [of "\<lparr>sp_max_entries = 2, sp_max_bytes = 5\<rparr>"
    "[SpoolPush [1, 2, 3], SpoolPush [4, 5], SpoolPush [6], SpoolDrain, SpoolPush [7]]"]
  by (auto simp: u64_max_def)

section \<open>The duty cycle\<close>

text \<open>The transmissions a guard lets through, of a sequence of attempts with their times and sizes.\<close>

fun guard_run :: "duty_cycle_guard \<Rightarrow> (nat \<times> nat) list \<Rightarrow> (nat \<times> nat) list" where
  "guard_run g [] = []"
| "guard_run g ((t, n) # xs) = (case guard_attempt t n g of
     (Ok _, g') \<Rightarrow> (t, n) # guard_run g' xs
   | (Err _, g') \<Rightarrow> guard_run g' xs)"

definition sent_between :: "nat \<Rightarrow> nat \<Rightarrow> (nat \<times> nat) list \<Rightarrow> nat" where
  "sent_between a b xs = sum_list (map snd (filter (\<lambda>(t, n). a \<le> t \<and> t < b) xs))"

lemma sent_between_simps [simp]:
  "sent_between a b [] = 0"
  "sent_between a b ((t, n) # xs) = (if a \<le> t \<and> t < b then n else 0) + sent_between a b xs"
  by (simp_all add: sent_between_def)

definition guard_ok :: "duty_cycle_guard \<Rightarrow> bool" where
  "guard_ok g \<longleftrightarrow> dg_used_ms g \<le> budget_ms (dg_config g)"

lemma budget_lt: "budget_ms c < u64_max"
  by (simp add: budget_ms_def sat_mul_def u64_max_def)

lemma guard_attempt_cases:
  assumes "guard_ok g" and "guard_attempt t n g = (r, g')"
  obtains (over) "\<not> is_ok r" "g' = g" | (refused) "\<not> is_ok r" "g' = guard_roll t g"
  | (sent) "r = Ok ()" "g' = (guard_roll t g)\<lparr>dg_used_ms := dg_used_ms (guard_roll t g) + n\<rparr>"
      "dg_used_ms (guard_roll t g) + n \<le> budget_ms (dg_config g)"
proof -
  have "dg_config (guard_roll t g) = dg_config g" by (simp add: guard_roll_def)
  then show thesis
    using assms(2) over refused sent budget_lt [of "dg_config g"]
    by (auto simp: guard_attempt_def Let_def sat_add_def min_def split: if_splits)
qed

lemma guard_roll_simps [simp]:
  "dg_config (guard_roll t g) = dg_config g" "guard_ok g \<Longrightarrow> guard_ok (guard_roll t g)"
  by (simp_all add: guard_roll_def guard_ok_def)

lemma guard_attempt_ok:
  assumes "guard_ok g" and "guard_attempt t n g = (r, g')"
  shows "guard_ok g' \<and> dg_config g' = dg_config g"
  using assms assms(1) guard_roll_simps(2) [OF assms(1), of t]
  by (cases rule: guard_attempt_cases) (simp_all add: guard_ok_def)

lemma guard_run_subset: "set (guard_run g xs) \<subseteq> set xs"
proof (induction xs arbitrary: g)
  case (Cons x xs)
  obtain t n r g' where "x = (t, n)" "guard_attempt t n g = (r, g')" by (metis prod.exhaust)
  with Cons.IH [of g'] show ?case by (cases r) auto
qed simp

text \<open>Within the current window.\<close>

lemma sent_in_window:
  assumes "guard_ok g" and "\<forall>x \<in> set xs. dg_window_start_ms g \<le> fst x" and "sorted (map fst xs)"
  shows "sent_between a (dg_window_start_ms g + dc_window_ms (dg_config g)) (guard_run g xs)
    \<le> budget_ms (dg_config g) - dg_used_ms g"
  using assms
proof (induction xs arbitrary: g)
  case (Cons x xs)
  obtain t n where x: "x = (t, n)" by fastforce
  let ?b = "dg_window_start_ms g + dc_window_ms (dg_config g)"
  obtain r g' where r: "guard_attempt t n g = (r, g')" by fastforce
  show ?case
  proof (cases "t < ?b")
    case True
    with Cons.prems(2) x have roll: "guard_roll t g = g" by (auto simp: guard_roll_def)
    note ok = guard_attempt_ok [OF Cons.prems(1) r, THEN conjunct1] guard_attempt_ok [OF Cons.prems(1) r, THEN conjunct2]
    from Cons.prems(1) r have "dg_window_start_ms g' = dg_window_start_ms g"
      by (cases rule: guard_attempt_cases) (simp_all add: roll)
    with Cons.IH [OF ok(1)] Cons.prems(2,3) ok(2)
    have IH: "sent_between a ?b (guard_run g' xs) \<le> budget_ms (dg_config g) - dg_used_ms g'" by simp
    from Cons.prems(1) r show ?thesis
      by (cases rule: guard_attempt_cases) (use IH in \<open>auto simp: x r roll split: sum.split\<close>)
  next
    case False
    have "set (guard_run g (x # xs)) \<subseteq> set (x # xs)" by (rule guard_run_subset)
    then have "\<forall>y \<in> set (guard_run g (x # xs)). \<not> fst y < ?b"
      using False Cons.prems(3) x by fastforce
    then have "sent_between a ?b (guard_run g (x # xs)) = 0" by (auto simp: sent_between_def filter_empty_conv)
    then show ?thesis by simp
  qed
qed simp

text \<open>From the first attempt at or after the time \<open>a\<close> on: what is left of the window, and the next.\<close>

lemma sent_from:
  assumes "guard_ok g" and "\<forall>x \<in> set xs. a \<le> fst x \<and> dg_window_start_ms g \<le> fst x" and "sorted (map fst xs)"
  shows "sent_between a (a + dc_window_ms (dg_config g)) (guard_run g xs)
    \<le> (budget_ms (dg_config g) - dg_used_ms g) + budget_ms (dg_config g)"
  using assms
proof (induction xs arbitrary: g)
  case (Cons x xs)
  obtain t n where x: "x = (t, n)" by fastforce
  obtain r g' where r: "guard_attempt t n g = (r, g')" by fastforce
  let ?w = "dc_window_ms (dg_config g)"
  show ?case
  proof (cases "guard_roll t g = g")
    case True
    note ok = guard_attempt_ok [OF Cons.prems(1) r, THEN conjunct1] guard_attempt_ok [OF Cons.prems(1) r, THEN conjunct2]
    from Cons.prems(1) r have "dg_window_start_ms g' = dg_window_start_ms g"
      by (cases rule: guard_attempt_cases) (simp_all add: True)
    with Cons.IH [OF ok(1)] Cons.prems(2,3) ok(2)
    have IH: "sent_between a (a + ?w) (guard_run g' xs)
        \<le> (budget_ms (dg_config g) - dg_used_ms g') + budget_ms (dg_config g)" by simp
    from Cons.prems(1) r show ?thesis
      by (cases rule: guard_attempt_cases) (use IH in \<open>auto simp: x r True split: sum.split\<close>)
  next
    case False
    then have roll: "guard_roll t (guard_roll t g) = guard_roll t g" "dg_window_start_ms (guard_roll t g) = t"
      by (simp_all add: guard_roll_def split: if_splits)
    show ?thesis
    proof (cases "n > dc_max_payload_bytes (dg_config g)")
      case True
      then have "guard_run g (x # xs) = guard_run g xs" by (simp add: x guard_attempt_def)
      with Cons.IH [OF Cons.prems(1)] Cons.prems(2,3) show ?thesis by simp
    next
      case False
      then have "guard_attempt t n g = guard_attempt t n (guard_roll t g)"
        by (simp add: guard_attempt_def roll)
      then have run: "guard_run g (x # xs) = guard_run (guard_roll t g) (x # xs)" by (simp add: x)
      have "sent_between a (a + ?w) ys \<le> sent_between a (t + ?w) ys" for ys
        using Cons.prems(2) x by (induction ys) (auto simp: add_mono)
      moreover have "sent_between a (t + ?w) (guard_run (guard_roll t g) (x # xs)) \<le> budget_ms (dg_config g)"
        using sent_in_window [of "guard_roll t g" "x # xs" a] Cons.prems x roll by auto
      ultimately show ?thesis unfolding run using le_trans trans_le_add2 by blast
    qed
  qed
qed simp

lemma guard_run_skip:
  assumes "guard_ok g" and "\<forall>x \<in> set xs. dg_window_start_ms g \<le> fst x" and "sorted (map fst xs)"
  shows "sent_between a (a + dc_window_ms (dg_config g)) (guard_run g xs) \<le> 2 * budget_ms (dg_config g)"
  using assms
proof (induction xs arbitrary: g)
  case (Cons x xs)
  obtain t n where x: "x = (t, n)" by fastforce
  show ?case
  proof (cases "a \<le> t")
    case True
    with Cons.prems x have "\<forall>y \<in> set (x # xs). a \<le> fst y \<and> dg_window_start_ms g \<le> fst y" by fastforce
    from sent_from [OF Cons.prems(1) this Cons.prems(3)] show ?thesis by simp
  next
    case False
    obtain r g' where r: "guard_attempt t n g = (r, g')" by fastforce
    note ok = guard_attempt_ok [OF Cons.prems(1) r]
    from Cons.prems(1) r have "dg_window_start_ms g' \<le> max t (dg_window_start_ms g)"
      by (cases rule: guard_attempt_cases) (simp_all add: guard_roll_def)
    with Cons.prems(2,3) x have "\<forall>y \<in> set xs. dg_window_start_ms g' \<le> fst y" by fastforce
    with Cons.IH [of g'] ok Cons.prems(3) have "sent_between a (a + dc_window_ms (dg_config g)) (guard_run g' xs) \<le> 2 * budget_ms (dg_config g)"
      by simp
    with False x r show ?thesis by (cases r) simp_all
  qed
qed simp

text \<open>
  C38: The duty cycle bounds what a link sends in any interval. For attempts made in the order of
  time, the bytes the guard lets through within any interval as long as its window are at most
  twice the budget of a window.
\<close>

theorem duty_cycle_bounds_interval:
  assumes "sorted (map fst attempts)"
  shows "sent_between a (a + dc_window_ms config) (guard_run (guard_new config) attempts) \<le> 2 * budget_ms config"
  using guard_run_skip [of "guard_new config" attempts a] assms
  by (simp add: guard_ok_def guard_new_def)

theorem duty_cycle_bounds_interval_witness:
  "sent_between 1 101 (guard_run (guard_new \<lparr>dc_percent = 10, dc_window_ms = 100, dc_max_payload_bytes = 32\<rparr>)
      [(0, 4), (1, 4), (2, 4), (100, 10), (150, 1)])
    \<le> 2 * budget_ms \<lparr>dc_percent = 10, dc_window_ms = 100, dc_max_payload_bytes = 32\<rparr>"
  using duty_cycle_bounds_interval [of "[(0, 4), (1, 4), (2, 4), (100, 10), (150, 1)]" 1
    "\<lparr>dc_percent = 10, dc_window_ms = 100, dc_max_payload_bytes = 32\<rparr>"] by simp

text \<open>
  The window of the duty cycle does not slide. Whenever one payload can use up the budget of a
  window, two such payloads sent one millisecond apart are both let through, so that twice the
  budget is sent within one window's length.
\<close>

theorem duty_cycle_window_does_not_slide:
  assumes "0 < budget_ms config" and "budget_ms config \<le> dc_max_payload_bytes config" and "w = dc_window_ms config"
    and "1 < w"
  shows "sent_between (w - 1) (w - 1 + w)
    (guard_run (guard_new config) [(w - 1, budget_ms config), (w, budget_ms config)]) = 2 * budget_ms config"
proof -
  have add: "sat_add 0 (budget_ms config) = budget_ms config" using budget_lt [of config] by simp
  show ?thesis
    using assms add by (simp add: guard_new_def guard_attempt_def guard_roll_def) linarith
qed

theorem duty_cycle_window_does_not_slide_witness:
  "sent_between 99 199 (guard_run (guard_new \<lparr>dc_percent = 10, dc_window_ms = 100, dc_max_payload_bytes = 32\<rparr>)
     [(99, 10), (100, 10)]) = 20"
  using duty_cycle_window_does_not_slide [of "\<lparr>dc_percent = 10, dc_window_ms = 100, dc_max_payload_bytes = 32\<rparr>" 100]
  by (simp add: budget_ms_def sat_mul_def u64_max_def)

end
