(* ===== verification/Sidecar_Fs.thy ===== *)
theory Sidecar_Fs
  imports Field_Bus Access_Policy
begin

section \<open>Sidecar files\<close>

text \<open>
  The files of the field-bus and radio sidecars in \<open>src/apps/nine-door/src/host/namespace.rs\<close>:
  which file of which adapter a path names, and what a read and a write of it do. A write that
  fails part of the way leaves what it had done so far, as in the source.
\<close>

definition append_bounded :: "bytes \<Rightarrow> nat \<Rightarrow> (bytes, ninedoor_error, nat) st_op" where
  "append_bounded data max_bytes buffer =
     (if sat_add (length buffer) (length data) > max_bytes
      then (Err (Protocol ETooBig ''sidecar buffer capacity exceeded''), buffer)
      else (Ok (as_u32 (length data)), buffer @ data))"

text \<open>Appending to one of the buffers of a record.\<close>

definition append_field ::
  "('s \<Rightarrow> bytes) \<Rightarrow> ((bytes \<Rightarrow> bytes) \<Rightarrow> 's \<Rightarrow> 's) \<Rightarrow> bytes \<Rightarrow> nat \<Rightarrow> ('s, ninedoor_error, nat) st_op" where
  "append_field field upd data max_bytes s = (case append_bounded data max_bytes (field s) of
     (r, b) \<Rightarrow> (r, upd (\<lambda>_. b) s))"

subsection \<open>Field-bus adapters\<close>

datatype sidecar_kind = SidecarBus | SidecarLora

definition sidecar_kind_str :: "sidecar_kind \<Rightarrow> string" where
  "sidecar_kind_str k = (case k of SidecarBus \<Rightarrow> ''bus'' | SidecarLora \<Rightarrow> ''lora'')"

datatype sidecar_bus_file = BusCtl | BusTelemetry | BusLinkFile | BusReplay | BusSpool

record bus_adapter_state =
  bs_mount_root :: path
  bs_mount_label :: string
  bs_scope :: string
  bs_spool :: offline_spool
  bs_link_state :: link_state
  bs_telemetry :: bytes
  bs_ctl :: bytes
  bs_link :: bytes
  bs_replay :: bytes

definition bus_match_file :: "bus_adapter_state \<Rightarrow> path \<Rightarrow> sidecar_bus_file option" where
  "bus_match_file a path = (case strip_prefix (bs_mount_root a) path of
     Some [leaf] \<Rightarrow>
       if leaf = ''ctl'' then Some BusCtl else if leaf = ''telemetry'' then Some BusTelemetry
       else if leaf = ''link'' then Some BusLinkFile else if leaf = ''replay'' then Some BusReplay
       else if leaf = ''spool'' then Some BusSpool else None
   | _ \<Rightarrow> None)"

record sidecar_bus_adapter_config =
  sba_mount :: string
  sba_scope :: string
  sba_spool :: spool_config

record sidecar_bus_config =
  sbc_enabled :: bool
  sbc_mount_path :: path
  sbc_adapters :: "sidecar_bus_adapter_config list"

definition sidecar_bus_disabled :: sidecar_bus_config where
  "sidecar_bus_disabled = \<lparr>sbc_enabled = False, sbc_mount_path = [''bus''], sbc_adapters = []\<rparr>"

definition parse_sidecar_mount :: "string \<Rightarrow> string \<Rightarrow> ninedoor_error + path" where
  "parse_sidecar_mount label mount_at =
     (let trimmed = trim mount_at
      in if trimmed = [] \<or> hd trimmed \<noteq> CHR ''/''
      then Err (Protocol EInvalid (''sidecar '' @ label @ '' mount must be an absolute path''))
      else let components = filter (\<lambda>c. c \<noteq> []) (split_on CHR ''/'' trimmed)
        in if components = []
        then Err (Protocol EInvalid (''sidecar '' @ label @ '' mount must not be root''))
        else Ok components)"

definition sidecar_bus_enabled ::
  "string \<Rightarrow> sidecar_bus_adapter_config list \<Rightarrow> ninedoor_error + sidecar_bus_config" where
  "sidecar_bus_enabled mount_at adapters =
     and_then (parse_sidecar_mount ''bus'' mount_at) (\<lambda>mount_path.
       Ok \<lparr>sbc_enabled = True, sbc_mount_path = mount_path, sbc_adapters = adapters\<rparr>)"

record sidecar_bus_state =
  sbs_enabled :: bool
  sbs_mount_path :: path
  sbs_adapters :: "bus_adapter_state list"

definition sidecar_bus_new :: "sidecar_bus_config \<Rightarrow> sidecar_bus_state" where
  "sidecar_bus_new config =
     \<lparr>sbs_enabled = sbc_enabled config, sbs_mount_path = sbc_mount_path config,
      sbs_adapters = (if \<not> sbc_enabled config then [] else map (\<lambda>adapter.
        \<lparr>bs_mount_root = sbc_mount_path config @ [sba_mount adapter], bs_mount_label = sba_mount adapter,
         bs_scope = sba_scope adapter, bs_spool = spool_new (sba_spool adapter),
         bs_link_state = LinkOffline, bs_telemetry = [], bs_ctl = [], bs_link = [], bs_replay = []\<rparr>)
        (sbc_adapters config))\<rparr>"

definition sidecar_bus_scopes :: "sidecar_bus_state \<Rightarrow> sidecar_scope list" where
  "sidecar_bus_scopes s =
     map (\<lambda>a. \<lparr>sc_scope = bs_scope a, sc_mount_root = bs_mount_root a\<rparr>) (sbs_adapters s)"

definition sidecar_bus_matches_path :: "sidecar_bus_state \<Rightarrow> path \<Rightarrow> bool" where
  "sidecar_bus_matches_path s path \<longleftrightarrow> sbs_enabled s \<and>
     list_ex (\<lambda>a. prefix (bs_mount_root a) path \<or> prefix path (bs_mount_root a)) (sbs_adapters s)"

text \<open>\<open>iter_mut().find_map(..)\<close>: the first adapter the path names a file of, and its position.\<close>

fun find_adapter :: "('a \<Rightarrow> path \<Rightarrow> 'f option) \<Rightarrow> path \<Rightarrow> 'a list \<Rightarrow> (nat \<times> 'a \<times> 'f) option" where
  "find_adapter match path [] = None"
| "find_adapter match path (a # as) = (case match a path of
     Some file \<Rightarrow> Some (0, a, file)
   | None \<Rightarrow> map_option (\<lambda>(i, b, file). (Suc i, b, file)) (find_adapter match path as))"

definition render_spool_status :: "offline_spool \<Rightarrow> bytes" where
  "render_spool_status s =
     str_bytes (''entries='' @ show_nat (length (spool_snapshot s)) @ '' bytes='' @ show_nat (sl_bytes s)
       @ '' max_entries='' @ show_nat (sp_max_entries (sl_config s))
       @ '' max_bytes='' @ show_nat (sp_max_bytes (sl_config s)) @ newline
       @ concat (map (\<lambda>f. ''seq='' @ show_nat (sf_seq f) @ '' bytes='' @ show_nat (length (sf_payload f))
           @ '' payload='' @ from_utf8_lossy (sf_payload f) @ newline) (spool_snapshot s)))"

definition bus_read_file :: "sidecar_bus_file \<Rightarrow> bus_adapter_state \<Rightarrow> bytes" where
  "bus_read_file file a = (case file of
     BusCtl \<Rightarrow> bs_ctl a | BusTelemetry \<Rightarrow> bs_telemetry a | BusLinkFile \<Rightarrow> bs_link a
   | BusReplay \<Rightarrow> bs_replay a | BusSpool \<Rightarrow> render_spool_status (bs_spool a))"

definition sidecar_bus_read :: "path \<Rightarrow> nat \<Rightarrow> nat \<Rightarrow> sidecar_bus_state \<Rightarrow> bytes option" where
  "sidecar_bus_read path offset count s = (case find_adapter bus_match_file path (sbs_adapters s) of
     None \<Rightarrow> None
   | Some (i, a, file) \<Rightarrow> Some (read_slice (bus_read_file file a) offset count))"

definition replay_spool :: "nat \<Rightarrow> (bus_adapter_state, ninedoor_error, nat) st_op" where
  "replay_spool max_log_bytes a =
     (let snapshot = spool_snapshot (bs_spool a);
          total_bytes = sum_list (map (length \<circ> sf_payload) snapshot)
      in if sat_add (length (bs_telemetry a)) total_bytes > max_log_bytes
      then (Err (Protocol ETooBig ''sidecar telemetry buffer full''), a)
      else case spool_drain (bs_spool a) of
        (drained, spool) \<Rightarrow>
          append_field bs_replay bs_replay_update
            (str_bytes (''replay entries='' @ show_nat (length snapshot) @ '' bytes='' @ show_nat total_bytes @ newline))
            max_log_bytes
            (a\<lparr>bs_spool := spool, bs_telemetry := bs_telemetry a @ concat (map sf_payload drained)\<rparr>))"

definition bus_write_file ::
  "sidecar_bus_file \<Rightarrow> bytes \<Rightarrow> nat \<Rightarrow> (bus_adapter_state, ninedoor_error, nat) st_op" where
  "bus_write_file file data max_log_bytes a = (case file of
     BusCtl \<Rightarrow> append_field bs_ctl bs_ctl_update data max_log_bytes a
   | BusLinkFile \<Rightarrow> (case from_utf8 data of
       None \<Rightarrow> (Err (Protocol EInvalid ''invalid link payload''), a)
     | Some t \<Rightarrow>
         if trim t = ''online''
         then append_field bs_link bs_link_update data max_log_bytes (a\<lparr>bs_link_state := LinkOnline\<rparr>)
         else if trim t = ''offline''
         then append_field bs_link bs_link_update data max_log_bytes (a\<lparr>bs_link_state := LinkOffline\<rparr>)
         else (Err (Protocol EInvalid
           (''link state must be '' @ [CHR 0x27] @ ''online'' @ [CHR 0x27] @ '' or ''
             @ [CHR 0x27] @ ''offline'' @ [CHR 0x27])), a))
   | BusTelemetry \<Rightarrow> (case bs_link_state a of
       LinkOnline \<Rightarrow> append_field bs_telemetry bs_telemetry_update data max_log_bytes a
     | LinkOffline \<Rightarrow> (case spool_push data (bs_spool a) of
         (Ok _, spool) \<Rightarrow> (Ok (as_u32 (length data)), a\<lparr>bs_spool := spool\<rparr>)
       | (Err SpoolFull, spool) \<Rightarrow> (Err (Protocol ETooBig ''sidecar spool full''), a\<lparr>bs_spool := spool\<rparr>)
       | (Err (SpoolOversize _ _), spool) \<Rightarrow>
           (Err (Protocol ETooBig ''sidecar payload exceeds spool limit''), a\<lparr>bs_spool := spool\<rparr>)))
   | BusReplay \<Rightarrow> replay_spool max_log_bytes a
   | BusSpool \<Rightarrow> (Err (Protocol EPermission ''sidecar spool is read-only''), a))"

definition offset_refused :: ninedoor_error where
  "offset_refused = Protocol EInvalid ''sidecar writes must use append-only offsets''"

definition sidecar_bus_write ::
  "path \<Rightarrow> nat \<Rightarrow> bytes \<Rightarrow> nat \<Rightarrow> (sidecar_bus_state, ninedoor_error, nat option) st_op" where
  "sidecar_bus_write path offset data max_log_bytes s =
     (case find_adapter bus_match_file path (sbs_adapters s) of
        None \<Rightarrow> (Ok None, s)
      | Some (i, a, file) \<Rightarrow>
          if offset \<noteq> u64_max then (Err offset_refused, s)
          else case bus_write_file file data max_log_bytes a of
            (r, a') \<Rightarrow> (and_then r (\<lambda>n. Ok (Some n)), s\<lparr>sbs_adapters := (sbs_adapters s)[i := a']\<rparr>))"

subsection \<open>Radio adapters\<close>

datatype sidecar_lora_file = LoraCtl | LoraTelemetry | LoraTamper

record lora_adapter_state =
  ls_mount_root :: path
  ls_mount_label :: string
  ls_scope :: string
  ls_guard :: duty_cycle_guard
  ls_tamper :: tamper_log
  ls_telemetry :: bytes
  ls_ctl :: bytes

definition lora_match_file :: "lora_adapter_state \<Rightarrow> path \<Rightarrow> sidecar_lora_file option" where
  "lora_match_file a path = (case strip_prefix (ls_mount_root a) path of
     Some [leaf] \<Rightarrow>
       if leaf = ''ctl'' then Some LoraCtl else if leaf = ''telemetry'' then Some LoraTelemetry
       else if leaf = ''tamper'' then Some LoraTamper else None
   | _ \<Rightarrow> None)"

record sidecar_lora_adapter_config =
  sla_mount :: string
  sla_scope :: string
  sla_duty_cycle :: duty_cycle_config
  sla_tamper_log_max_entries :: nat

record sidecar_lora_config =
  slc_enabled :: bool
  slc_mount_path :: path
  slc_adapters :: "sidecar_lora_adapter_config list"

definition sidecar_lora_disabled :: sidecar_lora_config where
  "sidecar_lora_disabled = \<lparr>slc_enabled = False, slc_mount_path = [''lora''], slc_adapters = []\<rparr>"

definition sidecar_lora_enabled ::
  "string \<Rightarrow> sidecar_lora_adapter_config list \<Rightarrow> ninedoor_error + sidecar_lora_config" where
  "sidecar_lora_enabled mount_at adapters =
     and_then (parse_sidecar_mount ''lora'' mount_at) (\<lambda>mount_path.
       Ok \<lparr>slc_enabled = True, slc_mount_path = mount_path, slc_adapters = adapters\<rparr>)"

record sidecar_lora_state =
  sls_enabled :: bool
  sls_mount_path :: path
  sls_adapters :: "lora_adapter_state list"
  sls_clock_ms :: nat

definition sidecar_lora_new :: "sidecar_lora_config \<Rightarrow> sidecar_lora_state" where
  "sidecar_lora_new config =
     \<lparr>sls_enabled = slc_enabled config, sls_mount_path = slc_mount_path config,
      sls_adapters = (if \<not> slc_enabled config then [] else map (\<lambda>adapter.
        \<lparr>ls_mount_root = slc_mount_path config @ [sla_mount adapter], ls_mount_label = sla_mount adapter,
         ls_scope = sla_scope adapter, ls_guard = guard_new (sla_duty_cycle adapter),
         ls_tamper = tamper_new (sla_tamper_log_max_entries adapter), ls_telemetry = [], ls_ctl = []\<rparr>)
        (slc_adapters config)),
      sls_clock_ms = 0\<rparr>"

definition sidecar_lora_scopes :: "sidecar_lora_state \<Rightarrow> sidecar_scope list" where
  "sidecar_lora_scopes s =
     map (\<lambda>a. \<lparr>sc_scope = ls_scope a, sc_mount_root = ls_mount_root a\<rparr>) (sls_adapters s)"

definition sidecar_lora_matches_path :: "sidecar_lora_state \<Rightarrow> path \<Rightarrow> bool" where
  "sidecar_lora_matches_path s path \<longleftrightarrow> sls_enabled s \<and>
     list_ex (\<lambda>a. prefix (ls_mount_root a) path \<or> prefix path (ls_mount_root a)) (sls_adapters s)"

definition tamper_reason_str :: "tamper_reason \<Rightarrow> string" where
  "tamper_reason_str r = (case r of PayloadOversize \<Rightarrow> ''payload-oversize'' | DutyCycleExceeded \<Rightarrow> ''duty-cycle'')"

definition render_tamper_log :: "tamper_entry list \<Rightarrow> bytes" where
  "render_tamper_log entries =
     str_bytes (concat (map (\<lambda>e. ''tamper ts_ms='' @ show_nat (tp_timestamp_ms e)
       @ '' reason='' @ tamper_reason_str (tp_reason e) @ '' bytes='' @ show_nat (tp_payload_bytes e) @ newline) entries))"

definition lora_read_file :: "sidecar_lora_file \<Rightarrow> lora_adapter_state \<Rightarrow> bytes" where
  "lora_read_file file a = (case file of
     LoraCtl \<Rightarrow> ls_ctl a | LoraTelemetry \<Rightarrow> ls_telemetry a
   | LoraTamper \<Rightarrow> render_tamper_log (tl_entries (ls_tamper a)))"

definition sidecar_lora_read :: "path \<Rightarrow> nat \<Rightarrow> nat \<Rightarrow> sidecar_lora_state \<Rightarrow> bytes option" where
  "sidecar_lora_read path offset count s = (case find_adapter lora_match_file path (sls_adapters s) of
     None \<Rightarrow> None
   | Some (i, a, file) \<Rightarrow> Some (read_slice (lora_read_file file a) offset count))"

definition lora_denied :: "tamper_reason \<Rightarrow> ninedoor_error" where
  "lora_denied reason = (case reason of
     PayloadOversize \<Rightarrow> Protocol ETooBig ''lora payload exceeds max bytes''
   | DutyCycleExceeded \<Rightarrow> Protocol EBusy ''lora duty cycle exceeded'')"

text \<open>A control write, after it was logged: the guard decides whether the payload is sent.\<close>

definition lora_transmit :: "nat \<Rightarrow> bytes \<Rightarrow> nat \<Rightarrow> (lora_adapter_state, ninedoor_error, unit) st_op" where
  "lora_transmit now_ms data max_log_bytes a =
     (case guard_attempt now_ms (as_u32 (length data)) (ls_guard a) of
        (Ok _, g) \<Rightarrow> st_then (append_field ls_telemetry ls_telemetry_update data max_log_bytes) (st_return ())
          (a\<lparr>ls_guard := g\<rparr>)
      | (Err reason, g) \<Rightarrow>
          (Err (lora_denied reason),
           a\<lparr>ls_guard := g, ls_tamper := tamper_push
              \<lparr>tp_timestamp_ms = now_ms, tp_reason = reason, tp_payload_bytes = as_u32 (length data)\<rparr>
              (ls_tamper a)\<rparr>))"

definition sidecar_lora_write ::
  "path \<Rightarrow> nat \<Rightarrow> bytes \<Rightarrow> nat \<Rightarrow> (sidecar_lora_state, ninedoor_error, nat option) st_op" where
  "sidecar_lora_write path offset data max_log_bytes s =
     (case find_adapter lora_match_file path (sls_adapters s) of
        None \<Rightarrow> (Ok None, s)
      | Some (i, a, file) \<Rightarrow>
          if offset \<noteq> u64_max then (Err offset_refused, s)
          else case file of
            LoraCtl \<Rightarrow> (case append_field ls_ctl ls_ctl_update data max_log_bytes a of
                (Err e, a1) \<Rightarrow> (Err e, s\<lparr>sls_adapters := (sls_adapters s)[i := a1]\<rparr>)
              | (Ok count, a1) \<Rightarrow>
                  let now_ms = sat_add (sls_clock_ms s) 1
                  in (case lora_transmit now_ms data max_log_bytes a1 of
                    (r, a2) \<Rightarrow> (and_then r (\<lambda>_. Ok (Some count)),
                      s\<lparr>sls_clock_ms := now_ms, sls_adapters := (sls_adapters s)[i := a2]\<rparr>)))
          | LoraTelemetry \<Rightarrow> (Err (Protocol EPermission ''lora telemetry is read-only''), s)
          | LoraTamper \<Rightarrow> (Err (Protocol EPermission ''lora tamper log is read-only''), s))"

section \<open>No telemetry is lost\<close>

text \<open>A run of writes to the files of one adapter, with the telemetry accepted online and offline.\<close>

fun bus_step ::
  "nat \<Rightarrow> bus_adapter_state \<times> bytes list \<times> bytes list \<Rightarrow> sidecar_bus_file \<times> bytes \<Rightarrow>
    bus_adapter_state \<times> bytes list \<times> bytes list" where
  "bus_step max_log_bytes (a, online, offline) (file, data) =
     (case bus_write_file file data max_log_bytes a of (r, a') \<Rightarrow>
        (a',
         if file = BusTelemetry \<and> is_ok r \<and> bs_link_state a = LinkOnline then online @ [data] else online,
         if file = BusTelemetry \<and> is_ok r \<and> bs_link_state a = LinkOffline then offline @ [data] else offline))"

lemma shuffles_snoc: "zs \<in> shuffles xs ys \<Longrightarrow> zs @ [x] \<in> shuffles (xs @ [x]) ys"
proof (induction xs ys arbitrary: zs rule: shuffles.induct)
  case (1 ys)
  then have "zs = ys" by simp
  then show ?case by (induction ys arbitrary: zs) (auto simp: Cons_in_shuffles_rightI)
qed (auto simp: Cons_in_shuffles_iff)

lemma shuffles_append: "zs \<in> shuffles xs ys \<Longrightarrow> zs @ ds \<in> shuffles xs (ys @ ds)"
proof (induction ds arbitrary: zs ys)
  case (Cons d ds)
  have "zs @ [d] \<in> shuffles xs (ys @ [d])"
    using shuffles_snoc [of zs ys xs d] Cons.prems shuffles_commutes by metis
  from Cons.IH [OF this] show ?case by simp
qed simp

definition bus_inv :: "bus_adapter_state \<times> bytes list \<times> bytes list \<Rightarrow> bool" where
  "bus_inv = (\<lambda>(a, online, offline). \<exists>delivered drained.
     bs_telemetry a = concat delivered \<and> delivered \<in> shuffles online drained
     \<and> offline = drained @ queued_payloads (bs_spool a))"

lemma bus_invI:
  "bs_telemetry a = concat delivered \<Longrightarrow> delivered \<in> shuffles online drained \<Longrightarrow>
    offline = drained @ queued_payloads (bs_spool a) \<Longrightarrow> bus_inv (a, online, offline)"
  by (auto simp: bus_inv_def)

lemma append_field_cases:
  assumes "append_field field upd data n s = (r, s')"
  shows "(is_ok r \<and> s' = upd (\<lambda>_. field s @ data) s) \<or> (\<not> is_ok r \<and> s' = upd (\<lambda>_. field s) s)"
  using assms by (auto simp: append_field_def append_bounded_def split: if_splits)

lemma bus_inv_same:
  "bus_inv (a, onl, off) \<Longrightarrow> bs_telemetry a' = bs_telemetry a \<Longrightarrow> bs_spool a' = bs_spool a \<Longrightarrow> bus_inv (a', onl, off)"
  by (simp add: bus_inv_def)

lemma bus_inv_telemetry:
  assumes inv: "bus_inv (a, onl, off)"
  shows "bus_inv (bus_step m (a, onl, off) (BusTelemetry, data))"
proof -
  obtain delivered drained where d: "bs_telemetry a = concat delivered" "delivered \<in> shuffles onl drained"
      "off = drained @ queued_payloads (bs_spool a)" using inv by (auto simp: bus_inv_def)
  show ?thesis
  proof (cases "bs_link_state a")
    case LinkOnline
    obtain r a' where r: "append_field bs_telemetry bs_telemetry_update data m a = (r, a')" by fastforce
    from append_field_cases [OF r] show ?thesis
    proof
      assume ok: "is_ok r \<and> a' = bs_telemetry_update (\<lambda>_. bs_telemetry a @ data) a"
      have "bus_inv (a', onl @ [data], off)"
        by (rule bus_invI [OF _ shuffles_snoc [OF d(2)]]) (use ok d in simp_all)
      then show ?thesis using r ok LinkOnline by (auto simp: bus_write_file_def)
    qed (use r LinkOnline inv in \<open>auto simp: bus_write_file_def intro: bus_inv_same\<close>)
  next
    case LinkOffline
    obtain r sp where r: "spool_push data (bs_spool a) = (r, sp)" by fastforce
    show ?thesis
    proof (cases r)
      case (Inl e)
      with r have "sp = bs_spool a" by (auto dest: spool_push_Err)
      with r Inl LinkOffline inv show ?thesis
        by (cases e) (auto simp: bus_write_file_def intro: bus_inv_same)
    next
      case (Inr f)
      with r have "queued_payloads sp = queued_payloads (bs_spool a) @ [data]"
        by (auto simp: queued_payloads_def dest: spool_push_Ok)
      with r Inr LinkOffline d show ?thesis
        by (auto simp: bus_write_file_def bus_inv_def)
    qed
  qed
qed

lemma bus_inv_replay:
  assumes inv: "bus_inv (a, onl, off)"
  shows "bus_inv (bus_step m (a, onl, off) (BusReplay, data))"
proof -
  obtain delivered drained where d: "bs_telemetry a = concat delivered" "delivered \<in> shuffles onl drained"
      "off = drained @ queued_payloads (bs_spool a)" using inv by (auto simp: bus_inv_def)
  obtain r a' where r: "replay_spool m a = (r, a')" by fastforce
  show ?thesis
  proof (cases "a' = a")
    case True
    with r inv show ?thesis by (simp add: bus_write_file_def)
  next
    case False
    let ?t = "a\<lparr>bs_spool := (bs_spool a)\<lparr>sl_queue := [], sl_bytes := 0\<rparr>,
      bs_telemetry := bs_telemetry a @ concat (queued_payloads (bs_spool a))\<rparr>"
    obtain s where "append_field bs_replay bs_replay_update s m ?t = (r, a')"
      using r False
      by (auto simp: replay_spool_def Let_def spool_drain_def queued_payloads_def split: if_splits)
    from append_field_cases [OF this] have "bs_telemetry a' = bs_telemetry ?t" "bs_spool a' = bs_spool ?t" by auto
    then have "bs_telemetry a' = concat (delivered @ queued_payloads (bs_spool a))"
      "queued_payloads (bs_spool a') = []" using d(1) by (simp_all add: queued_payloads_def)
    then have "bus_inv (a', onl, off)"
      by (intro bus_invI [OF _ shuffles_append [OF d(2)]]) (simp_all add: d(3))
    with r show ?thesis by (simp add: bus_write_file_def)
  qed
qed

interpretation bus_run: step_invariant "bus_step m" bus_inv for m
proof
  fix st and w :: "sidecar_bus_file \<times> bytes" assume inv: "bus_inv st"
  obtain a onl off where st: "st = (a, onl, off)" by (metis prod.exhaust)
  obtain f data where w: "w = (f, data)" by fastforce
  have field: "bs_telemetry a' = bs_telemetry a0 \<and> bs_spool a' = bs_spool a0"
    if "append_field f u d m a0 = (r, a')" "\<And>g. bs_telemetry (u g a0) = bs_telemetry a0"
      "\<And>g. bs_spool (u g a0) = bs_spool a0" for f u d a0 r a'
    using append_field_cases [OF that(1)] that(2,3) by auto
  show "bus_inv (bus_step m st w)"
  proof (cases f)
    case BusTelemetry
    then show ?thesis using bus_inv_telemetry inv st w by blast
  next
    case BusReplay
    then show ?thesis using bus_inv_replay inv st w by blast
  next
    case BusCtl
    obtain r a' where r: "append_field bs_ctl bs_ctl_update data m a = (r, a')" by fastforce
    from field [OF r] have "bs_telemetry a' = bs_telemetry a \<and> bs_spool a' = bs_spool a" by simp
    with BusCtl inv r show ?thesis by (auto simp: st w bus_write_file_def intro: bus_inv_same)
  next
    case BusLinkFile
    have "bs_telemetry a' = bs_telemetry a \<and> bs_spool a' = bs_spool a"
      if "bus_write_file BusLinkFile data m a = (r, a')" for r a'
      using that field [of bs_link bs_link_update data "a\<lparr>bs_link_state := LinkOnline\<rparr>"]
        field [of bs_link bs_link_update data "a\<lparr>bs_link_state := LinkOffline\<rparr>"]
      by (auto simp: bus_write_file_def split: option.splits if_splits)
    with BusLinkFile inv show ?thesis
      by (cases "bus_write_file BusLinkFile data m a") (auto simp: st w intro: bus_inv_same)
  next
    case BusSpool
    with inv show ?thesis by (simp add: st w bus_write_file_def)
  qed
qed

text \<open>
  C16: A field-bus adapter neither loses nor invents telemetry. After any writes to its files, the
  telemetry file is a merge of the payloads accepted while the link was up and of a first part of
  the payloads accepted while it was down, each in the order they were written, and the rest of the
  latter is what the spool still holds.
\<close>

theorem bus_telemetry_conserved:
  assumes "a0 \<in> set (sbs_adapters (sidecar_bus_new config))"
    and "foldl (bus_step max_log_bytes) (a0, [], []) ws = (a, online, offline)"
  shows "\<exists>delivered drained. bs_telemetry a = concat delivered \<and> delivered \<in> shuffles online drained
    \<and> offline = drained @ queued_payloads (bs_spool a)"
proof -
  have "bus_inv (a0, [], [])"
    using assms(1)
    by (auto simp: bus_inv_def sidecar_bus_new_def queued_payloads_def spool_new_def split: if_splits)
  from bus_run.run_inv [OF this, of max_log_bytes ws] assms(2) show ?thesis by (simp add: bus_inv_def)
qed

definition sample_bus :: sidecar_bus_config where
  "sample_bus = \<lparr>sbc_enabled = True, sbc_mount_path = [''bus''],
     sbc_adapters = [\<lparr>sba_mount = ''m'', sba_scope = ''s'', sba_spool = \<lparr>sp_max_entries = 4, sp_max_bytes = 64\<rparr>\<rparr>]\<rparr>"

definition sample_bus_writes :: "(sidecar_bus_file \<times> bytes) list" where
  "sample_bus_writes = [(BusTelemetry, [1]), (BusLinkFile, str_bytes ''online''), (BusTelemetry, [2]), (BusReplay, [])]"

theorem bus_telemetry_conserved_witness:
  "\<exists>delivered drained.
     bs_telemetry (fst (foldl (bus_step 8192) (hd (sbs_adapters (sidecar_bus_new sample_bus)), [], []) sample_bus_writes))
       = concat delivered"
proof -
  let ?a = "hd (sbs_adapters (sidecar_bus_new sample_bus))"
  have "?a \<in> set (sbs_adapters (sidecar_bus_new sample_bus))"
    by (simp add: sidecar_bus_new_def sample_bus_def)
  moreover obtain a onl off where "foldl (bus_step 8192) (?a, [], []) sample_bus_writes = (a, onl, off)"
    by (metis prod.exhaust)
  ultimately show ?thesis using bus_telemetry_conserved by fastforce
qed

end
