(* ===== verification/Node_Tree.thy ===== *)
theory Node_Tree
  imports Cas_Store Telemetry_File Shard_Layout
begin

section \<open>The node tree\<close>

text \<open>
  \<open>Node\<close>, \<open>NodeKind\<close> and \<open>FileNode\<close> of \<open>src/apps/nine-door/src/host/namespace.rs\<close>. A node's path is
  where it stands in the tree: it is not stored, and its qid is computed from the path and the kind
  (\<open>DefaultHasher\<close> is the argument \<open>hash_path\<close>). Creating a child of a file panics, as in the source.
\<close>

datatype file_node =
  ReadOnly bytes
| AppendOnly bytes
| Telemetry telemetry_file
| TraceControl
| TraceEvents
| KernelMessages
| TaskTrace string
| CasManifestFile string
| CasChunkFile string bytes
| CasModelFile bytes model_file_kind

datatype node = Directory "(string \<times> node) list" | FileNode file_node

type_synonym 'a node_op = "(node, ninedoor_error fault, 'a) st_op"

fun node_is_directory :: "node \<Rightarrow> bool" where
  "node_is_directory (Directory _) = True"
| "node_is_directory (FileNode _) = False"

definition file_qid_type :: "file_node \<Rightarrow> qid_type" where
  "file_qid_type f = (case f of
     ReadOnly _ \<Rightarrow> FILE
   | AppendOnly _ \<Rightarrow> APPEND_ONLY
   | Telemetry _ \<Rightarrow> APPEND_ONLY
   | TraceControl \<Rightarrow> APPEND_ONLY
   | TraceEvents \<Rightarrow> FILE
   | KernelMessages \<Rightarrow> FILE
   | TaskTrace _ \<Rightarrow> FILE
   | CasManifestFile _ \<Rightarrow> APPEND_ONLY
   | CasChunkFile _ _ \<Rightarrow> APPEND_ONLY
   | CasModelFile _ _ \<Rightarrow> APPEND_ONLY)"

definition node_qid :: "(path \<Rightarrow> u64) \<Rightarrow> path \<Rightarrow> node \<Rightarrow> qid" where
  "node_qid hash_path path n = (case n of
     Directory _ \<Rightarrow> \<lparr>qid_ty = DIRECTORY, qid_version = 0, qid_path = hash_path path\<rparr>
   | FileNode f \<Rightarrow> \<lparr>qid_ty = file_qid_type f, qid_version = 0, qid_path = hash_path path\<rparr>)"

fun node_child :: "node \<Rightarrow> string \<Rightarrow> node option" where
  "node_child (Directory children) name = map_of children name"
| "node_child (FileNode _) name = None"

fun set_child :: "string \<Rightarrow> node \<Rightarrow> node \<Rightarrow> node" where
  "set_child name m (Directory children) = Directory (bt_insert name m children)"
| "set_child name m (FileNode f) = FileNode f"

fun remove_child :: "string \<Rightarrow> bool node_op" where
  "remove_child name (Directory children) =
     (Ok (bt_contains children name), Directory (bt_remove name children))"
| "remove_child name (FileNode f) = (Ok False, FileNode f)"

definition ensure_child :: "string \<Rightarrow> node \<Rightarrow> unit node_op" where
  "ensure_child name m n = (case n of
     Directory children \<Rightarrow> (Ok (), if bt_contains children name then n else set_child name m n)
   | FileNode _ \<Rightarrow> (Err Panic, n))"

definition ensure_directory :: "string \<Rightarrow> unit node_op" where
  "ensure_directory name = ensure_child name (Directory [])"

definition ensure_file :: "string \<Rightarrow> file_node \<Rightarrow> unit node_op" where
  "ensure_file name f = ensure_child name (FileNode f)"

definition list_children :: "node \<Rightarrow> string list" where
  "list_children n = (case n of Directory children \<Rightarrow> bt_keys children | FileNode _ \<Rightarrow> [])"

definition join_path :: "path \<Rightarrow> string" where
  "join_path path = (if path = [] then [] else join ''/'' path)"

definition path_not_found :: "path \<Rightarrow> ninedoor_error" where
  "path_not_found path = Protocol ENotFound (''path /'' @ join_path path @ '' not found'')"

text \<open>The walk of \<open>lookup\<close> and the one of \<open>lookup_mut_raw\<close>, which runs an operation on the node found.\<close>

fun node_at :: "path \<Rightarrow> node \<Rightarrow> node option" where
  "node_at [] n = Some n"
| "node_at (c # cs) n = (case node_child n c of None \<Rightarrow> None | Some m \<Rightarrow> node_at cs m)"

fun put_node :: "path \<Rightarrow> node \<Rightarrow> node \<Rightarrow> node" where
  "put_node [] m n = m"
| "put_node (c # cs) m n = (case node_child n c of None \<Rightarrow> n | Some k \<Rightarrow> set_child c (put_node cs m k) n)"

definition at_node :: "ninedoor_error \<Rightarrow> path \<Rightarrow> 'a node_op \<Rightarrow> 'a node_op" where
  "at_node e path f n = (case node_at path n of
     None \<Rightarrow> (Err (Fail e), n)
   | Some m \<Rightarrow> (case f m of (r, m') \<Rightarrow> (r, put_node path m' n)))"

definition read_listing :: "string list \<Rightarrow> bytes" where
  "read_listing entries = (if entries = [] then [] else str_bytes (join newline entries @ newline))"

subsection \<open>Laws\<close>

lemma node_child_set [simp]:
  "node_is_directory n \<Longrightarrow> node_child (set_child name m n) c = (if c = name then Some m else node_child n c)"
  by (cases n) auto

lemma node_is_directory_set [simp]: "node_is_directory (set_child name m n) = node_is_directory n"
  by (cases n) auto

lemma node_child_Some_dir: "node_child n c = Some m \<Longrightarrow> node_is_directory n"
  by (cases n) auto

lemma node_at_append: "node_at (p @ q) n = Option.bind (node_at p n) (node_at q)"
  by (induction p arbitrary: n) (auto split: option.split)

text \<open>Replacing the node at a path: what is found below it, above it and beside it.\<close>

lemma node_at_put_below: "node_at p n \<noteq> None \<Longrightarrow> node_at (p @ q) (put_node p m n) = node_at q m"
proof (induction p arbitrary: n)
  case (Cons c p)
  then obtain k where k: "node_child n c = Some k" "node_at p k \<noteq> None" by (auto split: option.splits)
  with Cons.IH [OF k(2)] node_child_Some_dir [OF k(1)] show ?case by simp
qed simp

lemma node_at_put_beside: "\<not> prefix p q \<Longrightarrow> \<not> prefix q p \<Longrightarrow> node_at q (put_node p m n) = node_at q n"
proof (induction p arbitrary: q n)
  case (Cons c p)
  show ?case
  proof (cases "node_child n c")
    case (Some k)
    note dir = node_child_Some_dir [OF Some]
    from Cons.prems(2) obtain d q' where q: "q = d # q'" by (cases q) auto
    show ?thesis
    proof (cases "d = c")
      case True
      with Cons.prems q have "\<not> prefix p q'" "\<not> prefix q' p" by auto
      from Cons.IH [OF this] Some dir True q show ?thesis by simp
    qed (use Some dir q in simp)
  qed simp
qed simp

text \<open>The file at a node, or none for a directory: all that well-formedness looks at.\<close>

fun node_file :: "node \<Rightarrow> file_node option" where
  "node_file (Directory _) = None"
| "node_file (FileNode f) = Some f"

lemma node_file_dir: "node_file n = None \<longleftrightarrow> node_is_directory n"
  by (cases n) auto

lemma node_file_set [simp]: "node_file (set_child name m n) = node_file n"
  by (cases n) auto

lemma node_at_put_above:
  "strict_prefix q p \<Longrightarrow>
    map_option node_file (node_at q (put_node p m n)) = map_option node_file (node_at q n)"
proof (induction p arbitrary: q n)
  case (Cons c p)
  show ?case
  proof (cases "node_child n c")
    case (Some k)
    note dir = node_child_Some_dir [OF Some]
    show ?thesis
    proof (cases q)
      case (Cons d q')
      with Cons.prems have "d = c" "strict_prefix q' p" by auto
      with Cons.IH [of q' k] Some dir Cons show ?thesis by simp
    qed (use Some dir in simp)
  qed simp
qed simp

lemma path_cases:
  obtains (below) r where "q = p @ r" | (above) "strict_prefix q p" | (beside) "\<not> prefix p q" "\<not> prefix q p"
  by (metis prefix_def prefix_order.less_le)

text \<open>
  A tree is well formed when each of its nodes is what \<open>Q\<close> asks for at its path: a file of some kind,
  or a directory. This is what the code relies on where it would panic.
\<close>

definition nodes_ok :: "(path \<Rightarrow> file_node option \<Rightarrow> bool) \<Rightarrow> path \<Rightarrow> node \<Rightarrow> bool" where
  "nodes_ok Q base n \<longleftrightarrow> (\<forall>p m. node_at p n = Some m \<longrightarrow> Q (base @ p) (node_file m))"

lemma nodes_ok_sub: "nodes_ok Q [] n \<Longrightarrow> node_at p n = Some m \<Longrightarrow> nodes_ok Q p m"
  unfolding nodes_ok_def by (metis append_Nil bind.bind_lunit node_at_append)

lemma nodes_ok_here: "nodes_ok Q p n \<Longrightarrow> Q p (node_file n)"
  unfolding nodes_ok_def by (metis append_Nil2 node_at.simps(1))

lemma nodes_ok_child: "nodes_ok Q p n \<Longrightarrow> node_child n c = Some m \<Longrightarrow> Q (p @ [c]) (node_file m)"
  unfolding nodes_ok_def by (metis node_at.simps option.simps(5))

lemma nodes_ok_put:
  assumes "nodes_ok Q [] n" and "node_at p n \<noteq> None" and "nodes_ok Q p m"
  shows "nodes_ok Q [] (put_node p m n)"
  unfolding nodes_ok_def
proof (intro allI impI)
  fix q k assume k: "node_at q (put_node p m n) = Some k"
  show "Q ([] @ q) (node_file k)"
  proof (cases rule: path_cases [of q p])
    case (below r)
    with k assms(2,3) show ?thesis by (auto simp: node_at_put_below nodes_ok_def)
  next
    case above
    then have "map_option node_file (node_at q n) = Some (node_file k)"
      using node_at_put_above [OF above, of m n] k by simp
    then obtain z where "node_at q n = Some z" "node_file z = node_file k" by auto
    with assms(1) show ?thesis unfolding nodes_ok_def by (metis append_Nil)
  next
    case beside
    with k assms(1) show ?thesis by (simp add: node_at_put_beside nodes_ok_def)
  qed
qed

lemma nodes_ok_leaf: "Q p (node_file n) \<Longrightarrow> node_file n \<noteq> None \<or> n = Directory [] \<Longrightarrow> nodes_ok Q p n"
proof -
  assume n: "Q p (node_file n)" "node_file n \<noteq> None \<or> n = Directory []"
  have "node_at q n = Some m \<Longrightarrow> q = [] \<and> m = n" for q m
    using n(2) by (cases q; cases n) auto
  with n(1) show ?thesis unfolding nodes_ok_def by (metis append_Nil2)
qed

lemma nodes_ok_children:
  assumes "nodes_ok Q p n" and "node_file n' = node_file n"
    and "\<And>c m. node_child n' c = Some m \<Longrightarrow> node_child n c = Some m \<or> nodes_ok Q (p @ [c]) m"
  shows "nodes_ok Q p n'"
  unfolding nodes_ok_def
proof (intro allI impI)
  fix q k assume k: "node_at q n' = Some k"
  show "Q (p @ q) (node_file k)"
  proof (cases q)
    case Nil
    with k assms(1,2) show ?thesis using nodes_ok_here by fastforce
  next
    case (Cons c cs)
    with k obtain m where m: "node_child n' c = Some m" "node_at cs m = Some k" by (auto split: option.splits)
    from assms(3) [OF m(1)] show ?thesis
    proof
      assume "node_child n c = Some m"
      with m(2) have "node_at q n = Some k" by (simp add: Cons)
      with assms(1) show ?thesis unfolding nodes_ok_def by blast
    next
      assume "nodes_ok Q (p @ [c]) m"
      with m(2) show ?thesis unfolding nodes_ok_def by (simp add: Cons)
    qed
  qed
qed

lemma nodes_ok_ensure_child:
  "nodes_ok Q p n \<Longrightarrow> nodes_ok Q (p @ [name]) m \<Longrightarrow> nodes_ok Q p (snd (ensure_child name m n))"
  by (rule nodes_ok_children [of Q p n]) (auto simp: ensure_child_def split: node.splits if_splits)

lemma nodes_ok_remove: "nodes_ok Q p n \<Longrightarrow> nodes_ok Q p (snd (remove_child name n))"
  by (rule nodes_ok_children [of Q p n]; cases n) (auto split: if_splits)

end
