(* ===== verification/Namespace.thy ===== *)
theory Namespace
  imports Node_Tree Sidecar_Fs Telemetry_Ingest Trace_Fs Observe_State
begin

section \<open>The namespace\<close>

text \<open>
  \<open>Namespace\<close> of \<open>src/apps/nine-door/src/host/namespace.rs\<close>: the node tree with the stores behind its
  files, and every operation of the server on it. An operation is a state transformer whose error is
  a protocol error or \<open>Panic\<close>, for the \<open>panic!\<close> of a child created under a file and the \<open>expect\<close>s of
  the start-up. What is not in the sources is in \<open>ns_ext\<close>: the cryptography of the content store,
  the clock, the path hash, the two JSON readers and the three test scripts included at build time.
\<close>

subsection \<open>Configuration and state\<close>

datatype host_provider = Systemd | K8s | Docker | Nvidia | Jetson | Net

record host_namespace_config =
  hn_enabled :: bool
  hn_mount_path :: path
  hn_providers :: "host_provider list"

definition host_disabled :: host_namespace_config where
  "host_disabled = \<lparr>hn_enabled = False, hn_mount_path = [''host''], hn_providers = []\<rparr>"

definition split_slash :: "string \<Rightarrow> string list" where
  "split_slash s = filter (\<lambda>c. c \<noteq> []) (split_on (CHR ''/'') s)"

definition parse_host_mount :: "string \<Rightarrow> ninedoor_error + path" where
  "parse_host_mount mount_at =
     (let trimmed = trim mount_at
      in if trimmed = [] \<or> hd trimmed \<noteq> CHR ''/''
         then Err (Protocol EInvalid ''host mount must be an absolute path'')
         else
           let components = split_slash trimmed
           in if components = [] then Err (Protocol EInvalid ''host mount must not be root'')
              else if ''..'' \<in> set components
              then Err (Protocol EInvalid (''host mount contains disallowed '' @ [CHR 0x27] @ ''..'' @ [CHR 0x27]))
              else Ok components)"

definition host_enabled :: "string \<Rightarrow> host_provider list \<Rightarrow> ninedoor_error + host_namespace_config" where
  "host_enabled mount_at providers =
     and_then (parse_host_mount mount_at)
       (\<lambda>p. Ok \<lparr>hn_enabled = True, hn_mount_path = p, hn_providers = providers\<rparr>)"

record sidecar_namespace_config =
  sn_modbus :: sidecar_bus_config
  sn_dnp3 :: sidecar_bus_config
  sn_lora :: sidecar_lora_config

definition sidecars_disabled :: sidecar_namespace_config where
  "sidecars_disabled =
     \<lparr>sn_modbus = sidecar_bus_disabled, sn_dnp3 = sidecar_bus_disabled, sn_lora = sidecar_lora_disabled\<rparr>"

text \<open>\<open>PolicyNamespaceConfig\<close>, \<open>AuditNamespaceConfig\<close> and \<open>ReplayNamespaceConfig\<close>: whether to mount, and the first contents.\<close>

record mount_config =
  mn_enabled :: bool
  mn_snapshot :: bytes

definition mount_disabled :: mount_config where
  "mount_disabled = \<lparr>mn_enabled = False, mn_snapshot = []\<rparr>"

definition mount_enabled :: "bytes \<Rightarrow> mount_config" where
  "mount_enabled snapshot = \<lparr>mn_enabled = True, mn_snapshot = snapshot\<rparr>"

record namespace =
  ns_root :: node
  ns_trace :: trace_fs
  ns_shards :: shard_layout
  ns_telemetry :: telemetry_config
  ns_manifest :: telemetry_manifest_store
  ns_ingest :: Telemetry_Ingest.ingest_state
  ns_cas :: cas_store
  ns_worker_ids :: "(string, unit) btree"
  ns_ui :: ui_provider_config
  ns_host :: host_namespace_config
  ns_modbus :: sidecar_bus_state
  ns_dnp3 :: sidecar_bus_state
  ns_lora :: sidecar_lora_state
  ns_bus_scopes :: "sidecar_scope list"
  ns_lora_scopes :: "sidecar_scope list"
  ns_policy :: mount_config
  ns_audit :: mount_config
  ns_replay :: mount_config

record telemetry_ctl_command =
  tcc_new :: string
  tcc_mime :: "string option"

record ns_ext =
  nx_cas :: cas_ext
  nx_now_ms :: nat
  nx_stack :: nat
  nx_hash_path :: "path \<Rightarrow> u64"
  nx_parse_ctl :: "string \<Rightarrow> string + telemetry_ctl_command"
  nx_parse_trace :: "string \<Rightarrow> string + trace_ctl_set"
  nx_selftest_quick :: bytes
  nx_selftest_full :: bytes
  nx_selftest_negative :: bytes

type_synonym 'a ns_op = "(namespace, ninedoor_error fault, 'a) st_op"

text \<open>The operations of a part of the state as operations of the namespace.\<close>

definition ns_fail :: "error_code \<Rightarrow> string \<Rightarrow> 'a ns_op" where
  "ns_fail code m = st_fail (Fail (Protocol code m))"

definition ns_lift :: "ninedoor_error + 'a \<Rightarrow> 'a ns_op" where
  "ns_lift r = st_lift (map_err Fail r)"

definition on_root :: "'a node_op \<Rightarrow> 'a ns_op" where
  "on_root m s = (case m (ns_root s) of (r, n) \<Rightarrow> (r, s\<lparr>ns_root := n\<rparr>))"

definition on_cas :: "(cas_store, ninedoor_error fault, 'a) st_op \<Rightarrow> 'a ns_op" where
  "on_cas m s = (case m (ns_cas s) of (r, c) \<Rightarrow> (r, s\<lparr>ns_cas := c\<rparr>))"

definition on_trace :: "(trace_fs, ninedoor_error fault, 'a) st_op \<Rightarrow> 'a ns_op" where
  "on_trace m s = (case m (ns_trace s) of (r, t) \<Rightarrow> (r, s\<lparr>ns_trace := t\<rparr>))"

definition on_ingest :: "(Telemetry_Ingest.ingest_state, ninedoor_error fault, 'a) st_op \<Rightarrow> 'a ns_op" where
  "on_ingest m s = (case m (ns_ingest s) of (r, t) \<Rightarrow> (r, s\<lparr>ns_ingest := t\<rparr>))"

definition st_when :: "bool \<Rightarrow> ('s, 'e, unit) st_op \<Rightarrow> ('s, 'e, unit) st_op" where
  "st_when b m = (if b then m else st_return ())"

definition st_seq :: "('s, 'e, unit) st_op list \<Rightarrow> ('s, 'e, unit) st_op" where
  "st_seq = st_for (\<lambda>m. m)"

subsection \<open>Paths\<close>

datatype cas_path =
  UpdatesRoot
| UpdateEpoch string
| UpdateManifest string
| UpdateStatus string ui_variant
| UpdateChunks string
| UpdateChunk string bytes
| ModelsRoot
| ModelRoot bytes
| ModelFile bytes model_file_kind

definition parse_update_path :: "cas_ext \<Rightarrow> string \<Rightarrow> path \<Rightarrow> ninedoor_error + cas_path option" where
  "parse_update_path x epoch rest = (case rest of
     [] \<Rightarrow> Ok (Some (UpdateEpoch epoch))
   | [leaf] \<Rightarrow>
       if leaf = ''manifest.cbor'' then Ok (Some (UpdateManifest epoch))
       else if leaf = ''status'' then Ok (Some (UpdateStatus epoch UiText))
       else if leaf = ''status.cbor'' then Ok (Some (UpdateStatus epoch UiCbor))
       else if leaf = ''chunks'' then Ok (Some (UpdateChunks epoch))
       else Ok None
   | [leaf, digest] \<Rightarrow>
       if leaf = ''chunks'' then and_then (parse_sha256 x digest) (\<lambda>d. Ok (Some (UpdateChunk epoch d)))
       else Ok None
   | _ \<Rightarrow> Ok None)"

definition parse_model_path :: "bytes \<Rightarrow> path \<Rightarrow> cas_path option" where
  "parse_model_path digest rest = (case rest of
     [] \<Rightarrow> Some (ModelRoot digest)
   | [leaf] \<Rightarrow>
       if leaf = ''weights'' then Some (ModelFile digest Weights)
       else if leaf = ''schema'' then Some (ModelFile digest Schema)
       else if leaf = ''signature'' then Some (ModelFile digest ModelSignature)
       else None
   | _ \<Rightarrow> None)"

definition parse_cas_path :: "cas_ext \<Rightarrow> path \<Rightarrow> ninedoor_error + cas_path option" where
  "parse_cas_path x path = (case path of
     [root] \<Rightarrow>
       if root = ''updates'' then Ok (Some UpdatesRoot)
       else if root = ''models'' then Ok (Some ModelsRoot)
       else Ok None
   | root # name # rest \<Rightarrow>
       if root = ''updates'' then and_then (validate_epoch name) (\<lambda>_. parse_update_path x name rest)
       else if root = ''models'' then and_then (parse_sha256 x name) (\<lambda>d. Ok (parse_model_path d rest))
       else Ok None
   | _ \<Rightarrow> Ok None)"

definition telemetry_ingest_ctl_device :: "path \<Rightarrow> string option" where
  "telemetry_ingest_ctl_device path = (case path of
     [a, b, device_id, leaf] \<Rightarrow>
       if a = ''queen'' \<and> b = ''telemetry'' \<and> leaf = ''ctl'' then Some device_id else None
   | _ \<Rightarrow> None)"

definition telemetry_ingest_segment_parts :: "path \<Rightarrow> (string \<times> string) option" where
  "telemetry_ingest_segment_parts path = (case path of
     [a, b, device_id, seg_dir, sid] \<Rightarrow>
       if a = ''queen'' \<and> b = ''telemetry'' \<and> seg_dir = ''seg'' then Some (device_id, sid) else None
   | _ \<Rightarrow> None)"

definition telemetry_ingest_device_root :: "path \<Rightarrow> string option" where
  "telemetry_ingest_device_root path = (case path of
     [a, b, device_id] \<Rightarrow>
       if a = ''queen'' \<and> b = ''telemetry'' then Some device_id else None
   | [a, b, device_id, leaf] \<Rightarrow>
       if a = ''queen'' \<and> b = ''telemetry'' \<and> leaf \<in> {''ctl'', ''latest'', ''seg''}
       then Some device_id else None
   | _ \<Rightarrow> None)"

definition map_telemetry_ingest_error :: "ingest_error \<Rightarrow> ninedoor_error" where
  "map_telemetry_ingest_error e =
     Protocol (case ie_kind e of
         IngestDisabled \<Rightarrow> ENotFound
       | IngestSegmentMissing \<Rightarrow> ENotFound
       | IngestQuotaExceeded \<Rightarrow> ETooBig) (ie_message e)"

definition resolve_path :: "cas_ext \<Rightarrow> shard_layout \<Rightarrow> path \<Rightarrow> path" where
  "resolve_path x shards path =
     (if legacy_worker_alias_enabled shards then
        (case path of
           a # worker_id # rest \<Rightarrow>
             if a = ''worker'' then worker_root (cx_sha256 x) shards worker_id @ rest else path
         | _ \<Rightarrow> path)
      else path)"

subsection \<open>Nodes\<close>

definition append_node :: "ninedoor_error \<Rightarrow> bytes \<Rightarrow> unit node_op" where
  "append_node e data n = (case n of
     FileNode (AppendOnly buf) \<Rightarrow> (Ok (), FileNode (AppendOnly (buf @ data)))
   | _ \<Rightarrow> (Err (Fail e), n))"

definition lookup_mut_raw :: "path \<Rightarrow> 'a node_op \<Rightarrow> 'a ns_op" where
  "lookup_mut_raw path f = on_root (at_node (path_not_found path) path f)"

definition ensure_dir_raw :: "path \<Rightarrow> string \<Rightarrow> unit ns_op" where
  "ensure_dir_raw parent name = lookup_mut_raw parent (ensure_directory name)"

definition ensure_file_raw :: "path \<Rightarrow> string \<Rightarrow> file_node \<Rightarrow> unit ns_op" where
  "ensure_file_raw parent name f = lookup_mut_raw parent (ensure_file name f)"

definition ensure_telemetry_ingest_device :: "string \<Rightarrow> unit ns_op" where
  "ensure_telemetry_ingest_device device_id = st_read (\<lambda>s.
     if \<not> ingest_enabled (ig_config (ns_ingest s)) then ns_fail ENotFound ''telemetry ingest disabled''
     else st_seq
       [ensure_dir_raw [] ''queen'',
        ensure_dir_raw [''queen''] ''telemetry'',
        ensure_dir_raw [''queen'', ''telemetry''] device_id,
        ensure_file_raw [''queen'', ''telemetry'', device_id] ''ctl'' (AppendOnly []),
        ensure_dir_raw [''queen'', ''telemetry'', device_id] ''seg'',
        ensure_file_raw [''queen'', ''telemetry'', device_id] ''latest'' (ReadOnly []),
        on_ingest (st_modify (\<lambda>st. ensure_device st device_id))])"

definition ensure_telemetry_ingest_path :: "path \<Rightarrow> unit ns_op" where
  "ensure_telemetry_ingest_path path = st_read (\<lambda>s.
     if \<not> ingest_enabled (ig_config (ns_ingest s)) then st_return ()
     else case telemetry_ingest_device_root path of
       None \<Rightarrow> st_return ()
     | Some device_id \<Rightarrow> ensure_telemetry_ingest_device device_id)"

subsection \<open>Lookups\<close>

text \<open>
  \<open>lookup_mut\<close> creates the nodes of a content-store path before it walks to it, and creating the
  nodes of an update calls \<open>lookup_mut\<close> again for the read-only status files. \<open>ensure_cas_path\<close> counts
  down the nested lookups the stack has room for (\<open>nx_stack\<close>); when there is none left the process
  aborts, which is \<open>Panic\<close>. The argument \<open>again\<close> is the nested call.
\<close>

definition lookup_mut_with :: "ns_ext \<Rightarrow> (path \<Rightarrow> unit ns_op) \<Rightarrow> path \<Rightarrow> 'a node_op \<Rightarrow> 'a ns_op" where
  "lookup_mut_with x again path f = st_read (\<lambda>s.
     let resolved = resolve_path (nx_cas x) (ns_shards s) path
     in st_then (ensure_telemetry_ingest_path resolved)
          (st_then (again resolved) (lookup_mut_raw resolved f)))"

definition ensure_cas_update_nodes :: "ns_ext \<Rightarrow> (path \<Rightarrow> unit ns_op) \<Rightarrow> string \<Rightarrow> unit ns_op" where
  "ensure_cas_update_nodes x again epoch = st_read (\<lambda>s.
     let update_path = [''updates'', epoch];
         read_only = (\<lambda>name. lookup_mut_with x again update_path (ensure_file name (ReadOnly [])))
     in st_seq
       [ensure_dir_raw [] ''updates'',
        ensure_dir_raw [''updates''] epoch,
        st_when (ui_updates_manifest (ns_ui s))
          (ensure_file_raw update_path ''manifest.cbor'' (CasManifestFile epoch)),
        st_when (ui_updates_status (ns_ui s)) (st_seq [read_only ''status'', read_only ''status.cbor'']),
        ensure_dir_raw update_path ''chunks''])"

definition ensure_cas_chunk_node :: "ns_ext \<Rightarrow> string \<Rightarrow> bytes \<Rightarrow> unit ns_op" where
  "ensure_cas_chunk_node x epoch digest =
     ensure_file_raw [''updates'', epoch, ''chunks''] (cx_hex (nx_cas x) digest) (CasChunkFile epoch digest)"

definition ensure_cas_model_nodes :: "ns_ext \<Rightarrow> bytes \<Rightarrow> unit ns_op" where
  "ensure_cas_model_nodes x digest =
     (let hex_digest = cx_hex (nx_cas x) digest
      in st_seq
        [ensure_dir_raw [] ''models'',
         ensure_dir_raw [''models''] hex_digest,
         ensure_file_raw [''models'', hex_digest] ''weights'' (CasModelFile digest Weights),
         ensure_file_raw [''models'', hex_digest] ''schema'' (CasModelFile digest Schema),
         ensure_file_raw [''models'', hex_digest] ''signature'' (CasModelFile digest ModelSignature)])"

definition ensure_cas_nodes :: "ns_ext \<Rightarrow> (path \<Rightarrow> unit ns_op) \<Rightarrow> cas_path \<Rightarrow> unit ns_op" where
  "ensure_cas_nodes x again cas_path =
     (let update_nodes = (\<lambda>epoch. st_then (on_cas (st_map_err Fail (ensure_update epoch)))
            (ensure_cas_update_nodes x again epoch));
          model_nodes = (\<lambda>digest. st_then (on_cas (st_map_err Fail (ensure_model_entry digest)))
            (ensure_cas_model_nodes x digest))
      in case cas_path of
        UpdatesRoot \<Rightarrow> st_read (\<lambda>s.
          if \<not> cc_enabled (cs_config (ns_cas s)) then ns_fail ENotFound ''cas disabled''
          else ensure_dir_raw [] ''updates'')
      | UpdateEpoch epoch \<Rightarrow> update_nodes epoch
      | UpdateManifest epoch \<Rightarrow> update_nodes epoch
      | UpdateStatus epoch _ \<Rightarrow> update_nodes epoch
      | UpdateChunks epoch \<Rightarrow> update_nodes epoch
      | UpdateChunk epoch digest \<Rightarrow> st_then (update_nodes epoch) (ensure_cas_chunk_node x epoch digest)
      | ModelsRoot \<Rightarrow> st_read (\<lambda>s.
          if \<not> (cc_enabled (cs_config (ns_cas s)) \<and> cc_models_enabled (cs_config (ns_cas s)))
          then ns_fail ENotFound ''models disabled''
          else ensure_dir_raw [] ''models'')
      | ModelRoot digest \<Rightarrow> model_nodes digest
      | ModelFile digest _ \<Rightarrow> model_nodes digest)"

primrec ensure_cas_path :: "ns_ext \<Rightarrow> nat \<Rightarrow> path \<Rightarrow> unit ns_op" where
  "ensure_cas_path x 0 path = st_fail Panic"
| "ensure_cas_path x (Suc stack) path =
     st_bind (ns_lift (parse_cas_path (nx_cas x) path)) (\<lambda>cas_path.
       case cas_path of
         None \<Rightarrow> st_return ()
       | Some p \<Rightarrow> ensure_cas_nodes x (ensure_cas_path x stack) p)"

definition lookup_mut :: "ns_ext \<Rightarrow> path \<Rightarrow> 'a node_op \<Rightarrow> 'a ns_op" where
  "lookup_mut x = lookup_mut_with x (ensure_cas_path x (nx_stack x))"

definition lookup :: "ns_ext \<Rightarrow> path \<Rightarrow> (qid \<times> bool) ns_op" where
  "lookup x path = st_read (\<lambda>s.
     let resolved = resolve_path (nx_cas x) (ns_shards s) path
     in st_then (ensure_telemetry_ingest_path resolved)
          (st_then (ensure_cas_path x (nx_stack x) resolved)
             (st_read (\<lambda>t. case node_at resolved (ns_root t) of
                None \<Rightarrow> st_fail (Fail (path_not_found path))
              | Some n \<Rightarrow> st_return (node_qid (nx_hash_path x) resolved n, node_is_directory n)))))"

definition ensure_dir :: "ns_ext \<Rightarrow> path \<Rightarrow> string \<Rightarrow> unit ns_op" where
  "ensure_dir x parent name = lookup_mut x parent (ensure_directory name)"

fun ensure_dir_steps :: "ns_ext \<Rightarrow> path \<Rightarrow> path \<Rightarrow> unit ns_op" where
  "ensure_dir_steps x current [] = st_return ()"
| "ensure_dir_steps x current (c # cs) =
     st_then (ensure_dir x current c) (ensure_dir_steps x (current @ [c]) cs)"

definition ensure_dir_path :: "ns_ext \<Rightarrow> path \<Rightarrow> unit ns_op" where
  "ensure_dir_path x path = ensure_dir_steps x [] path"

definition ensure_read_only_file :: "ns_ext \<Rightarrow> path \<Rightarrow> string \<Rightarrow> bytes \<Rightarrow> unit ns_op" where
  "ensure_read_only_file x parent name data = lookup_mut x parent (ensure_file name (ReadOnly data))"

definition ensure_append_only_file :: "ns_ext \<Rightarrow> path \<Rightarrow> string \<Rightarrow> bytes \<Rightarrow> unit ns_op" where
  "ensure_append_only_file x parent name data = lookup_mut x parent (ensure_file name (AppendOnly data))"

definition set_read_only_file :: "ns_ext \<Rightarrow> path \<Rightarrow> string \<Rightarrow> bytes \<Rightarrow> unit ns_op" where
  "set_read_only_file x parent name data =
     lookup_mut x parent (st_then (remove_child name) (ensure_file name (ReadOnly data)))"

definition set_append_only_file :: "ns_ext \<Rightarrow> path \<Rightarrow> string \<Rightarrow> bytes \<Rightarrow> unit ns_op" where
  "set_append_only_file x parent name data =
     lookup_mut x parent (st_then (remove_child name) (ensure_file name (AppendOnly data)))"

definition cas_directory_listing :: "ns_ext \<Rightarrow> path \<Rightarrow> string list option ns_op" where
  "cas_directory_listing x path =
     st_bind (ns_lift (parse_cas_path (nx_cas x) path)) (\<lambda>cas_path.
       let listing = (\<lambda>f. st_then (ensure_cas_path x (nx_stack x) path) (st_read (\<lambda>s. st_return (Some (f s)))))
       in case cas_path of
         None \<Rightarrow> st_return None
       | Some p \<Rightarrow> (case p of
           UpdatesRoot \<Rightarrow> listing (\<lambda>s. list_updates (ns_cas s))
         | UpdateEpoch _ \<Rightarrow> listing (\<lambda>s. [''chunks'']
             @ (if ui_updates_manifest (ns_ui s) then [''manifest.cbor''] else [])
             @ (if ui_updates_status (ns_ui s) then [''status'', ''status.cbor''] else []))
         | UpdateChunks epoch \<Rightarrow> listing (\<lambda>s. list_update_chunks (nx_cas x) epoch (ns_cas s))
         | ModelsRoot \<Rightarrow> listing (\<lambda>s. list_models (nx_cas x) (ns_cas s))
         | ModelRoot digest \<Rightarrow> listing (\<lambda>s. list_model_entries digest (ns_cas s))
         | _ \<Rightarrow> st_return None))"

subsection \<open>Audit lines\<close>

definition queen_log :: path where
  "queen_log = [''log'', ''queen.log'']"

definition record_telemetry_audit :: "ns_ext \<Rightarrow> telemetry_audit \<Rightarrow> unit ns_op" where
  "record_telemetry_audit x audit =
     (let level = (case ta_level audit of AuditInfo \<Rightarrow> TlInfo | AuditWarn \<Rightarrow> TlWarn)
      in st_then (on_trace (st_modify (trace_record (nx_now_ms x) level ''telemetry'' None (ta_message audit))))
           (lookup_mut x queen_log (append_node (Protocol EPermission ''cannot append telemetry audit line'')
              (str_bytes (''[audit] '' @ ta_message audit @ newline)))))"

definition emit_audit_notice :: "ns_ext \<Rightarrow> telemetry_audit_level \<Rightarrow> string \<Rightarrow> unit ns_op" where
  "emit_audit_notice x level m = record_telemetry_audit x (telemetry_audit_new level m)"

definition append_cas_log :: "ns_ext \<Rightarrow> string \<Rightarrow> unit ns_op" where
  "append_cas_log x m =
     lookup_mut x queen_log (append_node (Protocol EPermission ''cannot append cas log line'')
       (str_bytes (m @ newline)))"

definition flush_cas_events :: "ns_ext \<Rightarrow> unit ns_op" where
  "flush_cas_events x =
     st_bind (on_cas (\<lambda>c. case drain_events c of (events, c') \<Rightarrow> (Ok events, c'))) (st_for (\<lambda>event.
       st_then (on_trace (st_modify (trace_record (nx_now_ms x) (ce_level event) ''cas'' None (ce_message event))))
         (append_cas_log x (ce_message event))))"

definition ensure_ui_provider_enabled :: "bool \<Rightarrow> string \<Rightarrow> unit ns_op" where
  "ensure_ui_provider_enabled enabled label =
     (if \<not> enabled then ns_fail ENotFound (''ui provider '' @ label @ '' disabled'') else st_return ())"

definition set_update_status_payload :: "ns_ext \<Rightarrow> string \<Rightarrow> bytes \<Rightarrow> unit ns_op" where
  "set_update_status_payload x epoch data = st_read (\<lambda>s.
     st_then (ensure_ui_provider_enabled (ui_updates_status (ns_ui s)) ''updates/<epoch>/status'')
       (set_read_only_file x [''updates'', epoch] ''status'' data))"

definition set_update_status_cbor_payload :: "ns_ext \<Rightarrow> string \<Rightarrow> bytes \<Rightarrow> unit ns_op" where
  "set_update_status_cbor_payload x epoch data = st_read (\<lambda>s.
     st_then (ensure_ui_provider_enabled (ui_updates_status (ns_ui s)) ''updates/<epoch>/status.cbor'')
       (set_read_only_file x [''updates'', epoch] ''status.cbor'' data))"

definition write_update_status_payloads :: "ns_ext \<Rightarrow> string \<Rightarrow> bytes \<times> bytes \<Rightarrow> unit ns_op" where
  "write_update_status_payloads x epoch payloads =
     st_seq
       [ensure_cas_update_nodes x (ensure_cas_path x (nx_stack x)) epoch,
        set_update_status_payload x epoch (fst payloads),
        set_update_status_cbor_payload x epoch (snd payloads)]"

definition refresh_update_status :: "ns_ext \<Rightarrow> string \<Rightarrow> unit ns_op" where
  "refresh_update_status x epoch = st_read (\<lambda>s.
     if \<not> ui_updates_status (ns_ui s) \<or> \<not> cc_enabled (cs_config (ns_cas s)) then st_return ()
     else st_bind (ns_lift (update_status_payloads (nx_cas x) epoch (ns_cas s)))
            (write_update_status_payloads x epoch))"

subsection \<open>Telemetry ingest\<close>

definition device_path :: "string \<Rightarrow> path" where
  "device_path device_id = [''queen'', ''telemetry'', device_id]"

definition set_telemetry_ingest_latest :: "ns_ext \<Rightarrow> string \<Rightarrow> string \<Rightarrow> unit ns_op" where
  "set_telemetry_ingest_latest x device_id sid =
     set_read_only_file x (device_path device_id) ''latest'' (str_bytes (sid @ newline))"

definition ensure_telemetry_ingest_segment :: "ns_ext \<Rightarrow> string \<Rightarrow> string \<Rightarrow> unit ns_op" where
  "ensure_telemetry_ingest_segment x device_id sid =
     ensure_append_only_file x (device_path device_id @ [''seg'']) sid []"

definition remove_telemetry_ingest_segment :: "ns_ext \<Rightarrow> string \<Rightarrow> string \<Rightarrow> unit ns_op" where
  "remove_telemetry_ingest_segment x device_id sid =
     st_bind (lookup_mut x (device_path device_id @ [''seg'']) (remove_child sid)) (\<lambda>found.
       if found then st_return ()
       else ns_fail ENotFound (''telemetry segment '' @ sid @ '' not found''))"

definition mime_valid :: "string \<Rightarrow> bool" where
  "mime_valid mime \<longleftrightarrow> (let mime = trim mime
     in mime \<noteq> [] \<and> list_all (\<lambda>ch. ch \<noteq> CHR 0x0A \<and> ch \<noteq> CHR 0x0D \<and> ch \<noteq> CHR 0x00) mime)"

definition ingest_ctl_line :: "ns_ext \<Rightarrow> string \<Rightarrow> string \<Rightarrow> unit ns_op" where
  "ingest_ctl_line x device_id line =
     (let trimmed = trim line
      in if trimmed = [] then st_return ()
         else st_bind (ns_lift (map_err
                 (\<lambda>err. Protocol EInvalid (''invalid telemetry ctl command: '' @ err))
                 (nx_parse_ctl x trimmed))) (\<lambda>command.
           if (case tcc_mime command of None \<Rightarrow> False | Some mime \<Rightarrow> \<not> mime_valid mime)
           then ns_fail EInvalid ''telemetry ctl mime is invalid''
           else if tcc_new command \<noteq> ''segment''
           then ns_fail EInvalid (''unsupported telemetry ctl verb '' @ tcc_new command)
           else
             st_bind (on_ingest (st_map_err (\<lambda>e. Fail (map_telemetry_ingest_error e))
                 (\<lambda>st. create_segment st device_id))) (\<lambda>(sid, evicted).
               st_seq
                 [st_for (remove_telemetry_ingest_segment x device_id) evicted,
                  ensure_telemetry_ingest_segment x device_id sid,
                  set_telemetry_ingest_latest x device_id sid])))"

definition write_telemetry_ingest_ctl :: "ns_ext \<Rightarrow> string \<Rightarrow> bytes \<Rightarrow> nat ns_op" where
  "write_telemetry_ingest_ctl x device_id data =
     st_then (ensure_telemetry_ingest_device device_id)
    (st_then (lookup_mut x (device_path device_id @ [''ctl''])
        (append_node (Protocol EPermission ''telemetry ctl is not append-only'') data))
    (case from_utf8 data of
       None \<Rightarrow> ns_fail EInvalid (''telemetry ctl must be UTF-8: '' @ utf8_error_text data)
     | Some t \<Rightarrow> st_then (st_for (ingest_ctl_line x device_id) (str_lines t))
         (st_return (as_u32 (length data)))))"

definition segment_room :: "nat \<Rightarrow> path \<Rightarrow> (nat \<times> nat) node_op" where
  "segment_room max_bytes seg_path n = (case n of
     FileNode (AppendOnly buf) \<Rightarrow> (Ok (length buf, max_bytes - length buf), n)
   | _ \<Rightarrow> (Err (Fail (Protocol EPermission (''cannot write /'' @ join_path seg_path))), n))"

definition write_telemetry_ingest_segment :: "ns_ext \<Rightarrow> string \<Rightarrow> string \<Rightarrow> nat \<Rightarrow> bytes \<Rightarrow> nat ns_op" where
  "write_telemetry_ingest_segment x device_id sid offset data =
     (if length data > max_telemetry_record_bytes
      then ns_fail ETooBig (''telemetry record exceeds max_record_bytes '' @ show_nat max_telemetry_record_bytes)
      else
        let seg_path = device_path device_id @ [''seg'', sid]
        in st_read (\<lambda>s.
           st_bind (lookup_mut x seg_path (segment_room (max_bytes_per_segment (ig_config (ns_ingest s))) seg_path))
             (\<lambda>(expected_offset, remaining).
           let provided_offset = (if offset = u64_max then expected_offset else offset)
           in st_bind (ns_lift (map_err
                (\<lambda>err. Protocol EInvalid (''telemetry append offset rejected: '' @ append_only_offset_error_display err))
                (append_only_write_bounds expected_offset provided_offset remaining (length data)))) (\<lambda>bounds.
           if awb_short bounds then ns_fail ETooBig ''telemetry segment quota exceeded''
           else st_bind (on_ingest (st_map_err (\<lambda>e. Fail (map_telemetry_ingest_error e))
                (\<lambda>st. append_record st device_id sid (length data)))) (\<lambda>evicted.
           st_then (st_for (remove_telemetry_ingest_segment x device_id) evicted)
          (st_then (lookup_mut x seg_path
               (append_node (Protocol EPermission (''cannot write /'' @ join_path seg_path)) data))
             (st_return (as_u32 (length data)))))))))"

subsection \<open>Reading\<close>

definition read_sidecar :: "path \<Rightarrow> nat \<Rightarrow> nat \<Rightarrow> namespace \<Rightarrow> bytes option" where
  "read_sidecar path offset cnt s =
     (case sidecar_bus_read path offset cnt (ns_modbus s) of
        Some data \<Rightarrow> Some data
      | None \<Rightarrow> (case sidecar_bus_read path offset cnt (ns_dnp3 s) of
          Some data \<Rightarrow> Some data
        | None \<Rightarrow> sidecar_lora_read path offset cnt (ns_lora s)))"

datatype read_action =
  ReadData bytes "telemetry_audit option" "telemetry_manifest_entry option"
| ReadRefused telemetry_error
| ReadTraceControl
| ReadTraceEvents
| ReadKernelMessages
| ReadTaskTrace string
| ReadCasManifest string
| ReadCasChunk bytes
| ReadCasModel bytes model_file_kind

definition read_node :: "bool \<Rightarrow> nat \<Rightarrow> nat \<Rightarrow> read_action node_op" where
  "read_node keep_snapshot offset cnt n = (case n of
     Directory _ \<Rightarrow> (Ok (ReadData (read_slice (read_listing (list_children n)) offset cnt) None None), n)
   | FileNode (ReadOnly data) \<Rightarrow> (Ok (ReadData (read_slice data offset cnt) None None), n)
   | FileNode (AppendOnly data) \<Rightarrow> (Ok (ReadData (read_slice data offset cnt) None None), n)
   | FileNode (Telemetry f) \<Rightarrow> (case telemetry_read f offset cnt of
       (Ok outcome, f') \<Rightarrow>
         (Ok (ReadData (tro_data outcome) (tro_audit outcome)
            (if keep_snapshot then Some (telemetry_file_snapshot f') else None)), FileNode (Telemetry f'))
     | (Err e, f') \<Rightarrow> (Ok (ReadRefused e), FileNode (Telemetry f')))
   | FileNode TraceControl \<Rightarrow> (Ok ReadTraceControl, n)
   | FileNode TraceEvents \<Rightarrow> (Ok ReadTraceEvents, n)
   | FileNode KernelMessages \<Rightarrow> (Ok ReadKernelMessages, n)
   | FileNode (TaskTrace task) \<Rightarrow> (Ok (ReadTaskTrace task), n)
   | FileNode (CasManifestFile epoch) \<Rightarrow> (Ok (ReadCasManifest epoch), n)
   | FileNode (CasChunkFile _ digest) \<Rightarrow> (Ok (ReadCasChunk digest), n)
   | FileNode (CasModelFile digest kind) \<Rightarrow> (Ok (ReadCasModel digest kind), n))"

definition record_audit_option :: "ns_ext \<Rightarrow> telemetry_audit option \<Rightarrow> unit ns_op" where
  "record_audit_option x audit = (case audit of None \<Rightarrow> st_return () | Some a \<Rightarrow> record_telemetry_audit x a)"

definition persist_option :: "string option \<Rightarrow> telemetry_manifest_entry option \<Rightarrow> unit ns_op" where
  "persist_option worker_id snapshot = (case (worker_id, snapshot) of
     (Some w, Some e) \<Rightarrow> st_modify (\<lambda>s. s\<lparr>ns_manifest := persist_snapshot (ns_manifest s) w e\<rparr>)
   | _ \<Rightarrow> st_return ())"

definition read_path :: "ns_ext \<Rightarrow> path \<Rightarrow> nat \<Rightarrow> nat \<Rightarrow> bytes ns_op" where
  "read_path x path offset cnt = st_read (\<lambda>s.
     let retain = tc_retain_on_boot (ns_telemetry s);
         worker_id = worker_id_from_telemetry_path (cx_sha256 (nx_cas x)) (ns_shards s) path
     in st_bind (lookup_mut x path (read_node (retain \<and> worker_id \<noteq> None) offset cnt)) (\<lambda>action.
          case action of
            ReadData data audit snapshot \<Rightarrow>
              st_then (record_audit_option x audit)
                (st_then (st_when retain (persist_option worker_id snapshot)) (st_return data))
          | ReadRefused e \<Rightarrow> st_then (record_audit_option x (te_audit e)) (ns_fail EInvalid (te_message e))
          | ReadTraceControl \<Rightarrow> st_read (\<lambda>t. st_return (read_ctl (ns_trace t) offset cnt))
          | ReadTraceEvents \<Rightarrow> st_read (\<lambda>t. st_return (read_events (ns_trace t) offset cnt))
          | ReadKernelMessages \<Rightarrow> st_read (\<lambda>t. st_return (read_kmesg (ns_trace t) offset cnt))
          | ReadTaskTrace task \<Rightarrow> st_read (\<lambda>t. st_return (read_task task (ns_trace t) offset cnt))
          | ReadCasManifest epoch \<Rightarrow> st_read (\<lambda>t. ns_lift (read_manifest epoch offset cnt (ns_cas t)))
          | ReadCasChunk digest \<Rightarrow> st_read (\<lambda>t. ns_lift (read_chunk (nx_cas x) digest offset cnt (ns_cas t)))
          | ReadCasModel digest kind \<Rightarrow>
              st_read (\<lambda>t. ns_lift (read_model_file (nx_cas x) digest kind offset cnt (ns_cas t)))))"

definition read :: "ns_ext \<Rightarrow> path \<Rightarrow> nat \<Rightarrow> nat \<Rightarrow> bytes ns_op" where
  "read x path offset cnt = st_read (\<lambda>s.
     case read_sidecar path offset cnt s of
       Some data \<Rightarrow> st_return data
     | None \<Rightarrow>
         if legacy_worker_alias_enabled (ns_shards s) \<and> path = [''worker'']
         then st_return (read_slice (read_listing (bt_keys (ns_worker_ids s))) offset cnt)
         else st_bind (cas_directory_listing x path) (\<lambda>listing. case listing of
           Some entries \<Rightarrow> st_return (read_slice (read_listing entries) offset cnt)
         | None \<Rightarrow> read_path x path offset cnt))"

subsection \<open>Writing\<close>

definition write_sidecar :: "path \<Rightarrow> nat \<Rightarrow> bytes \<Rightarrow> nat option ns_op" where
  "write_sidecar path offset data =
     (let max_log_bytes = unat MAX_MSIZE
      in st_bind (\<lambda>s. case sidecar_bus_write path offset data max_log_bytes (ns_modbus s) of
             (r, t) \<Rightarrow> (map_err Fail r, s\<lparr>ns_modbus := t\<rparr>)) (\<lambda>cnt. case cnt of
           Some n \<Rightarrow> st_return (Some n)
         | None \<Rightarrow>
             st_bind (\<lambda>s. case sidecar_bus_write path offset data max_log_bytes (ns_dnp3 s) of
                 (r, t) \<Rightarrow> (map_err Fail r, s\<lparr>ns_dnp3 := t\<rparr>)) (\<lambda>cnt. case cnt of
               Some n \<Rightarrow> st_return (Some n)
             | None \<Rightarrow> (\<lambda>s. case sidecar_lora_write path offset data max_log_bytes (ns_lora s) of
                 (r, t) \<Rightarrow> (map_err Fail r, s\<lparr>ns_lora := t\<rparr>)))))"

datatype write_action =
  WriteResult "ninedoor_error + nat" "telemetry_audit option" "telemetry_manifest_entry option"
| WriteTraceControl
| WriteCasManifest string
| WriteCasChunk string bytes
| WriteCasModel bytes model_file_kind

definition telemetry_write_code :: "telemetry_error_kind \<Rightarrow> error_code" where
  "telemetry_write_code k = (if k = QuotaExceeded then ETooBig else EInvalid)"

definition write_node :: "bool \<Rightarrow> path \<Rightarrow> nat \<Rightarrow> bytes \<Rightarrow> write_action node_op" where
  "write_node keep_snapshot path offset data n =
     (let refused = (Ok (WriteResult (Err (Protocol EPermission
            (''cannot write read-only file /'' @ join_path path))) None None), n)
      in case n of
        FileNode (AppendOnly buf) \<Rightarrow>
          (Ok (WriteResult (Ok (as_u32 (length data))) None None), FileNode (AppendOnly (buf @ data)))
      | FileNode (Telemetry f) \<Rightarrow> (case telemetry_append f offset data of
          (Ok outcome, f') \<Rightarrow>
            (Ok (WriteResult (Ok (tao_count outcome)) (tao_audit outcome)
               (if keep_snapshot then Some (telemetry_file_snapshot f') else None)), FileNode (Telemetry f'))
        | (Err e, f') \<Rightarrow>
            (Ok (WriteResult (Err (Protocol (telemetry_write_code (te_kind e)) (te_message e))) (te_audit e) None),
             FileNode (Telemetry f')))
      | FileNode (ReadOnly _) \<Rightarrow> refused
      | FileNode TraceControl \<Rightarrow> (Ok WriteTraceControl, n)
      | FileNode TraceEvents \<Rightarrow> refused
      | FileNode KernelMessages \<Rightarrow> refused
      | FileNode (TaskTrace _) \<Rightarrow> refused
      | FileNode (CasManifestFile epoch) \<Rightarrow> (Ok (WriteCasManifest epoch), n)
      | FileNode (CasChunkFile epoch digest) \<Rightarrow> (Ok (WriteCasChunk epoch digest), n)
      | FileNode (CasModelFile digest kind) \<Rightarrow> (Ok (WriteCasModel digest kind), n)
      | Directory _ \<Rightarrow>
          (Ok (WriteResult (Err (Protocol EPermission (''cannot write directory /'' @ join_path path))) None None), n))"

text \<open>
  The outcome of a write is kept while the server finishes its work (\<open>st_try\<close>): a panic is not an
  outcome, and an error of the status refresh is dropped when the write itself failed.
\<close>

definition st_try :: "('s, 'e fault, 'a) st_op \<Rightarrow> ('s, 'e fault, 'e + 'a) st_op" where
  "st_try m s = (case m s of
     (Ok v, t) \<Rightarrow> (Ok (Ok v), t)
   | (Err (Fail e), t) \<Rightarrow> (Ok (Err e), t)
   | (Err Panic, t) \<Rightarrow> (Err Panic, t))"

definition perform_write :: "ns_ext \<Rightarrow> nat \<Rightarrow> bytes \<Rightarrow> write_action \<Rightarrow> nat ns_op" where
  "perform_write x offset data action = (case action of
     WriteResult r _ _ \<Rightarrow> ns_lift r
   | WriteTraceControl \<Rightarrow> on_trace (st_map_err Fail (trace_write_ctl (nx_parse_trace x) data))
   | WriteCasManifest epoch \<Rightarrow> on_cas (append_manifest (nx_cas x) epoch offset data)
   | WriteCasChunk epoch digest \<Rightarrow> on_cas (st_map_err Fail (append_chunk (nx_cas x) epoch digest offset data))
   | WriteCasModel digest kind \<Rightarrow> on_cas (append_model_file (nx_cas x) digest kind offset data))"

definition update_epoch :: "write_action \<Rightarrow> string option" where
  "update_epoch action = (case action of
     WriteCasManifest epoch \<Rightarrow> Some epoch | WriteCasChunk epoch _ \<Rightarrow> Some epoch | _ \<Rightarrow> None)"

definition write_audit :: "write_action \<Rightarrow> telemetry_audit option" where
  "write_audit action = (case action of WriteResult _ audit _ \<Rightarrow> audit | _ \<Rightarrow> None)"

definition write_snapshot :: "write_action \<Rightarrow> telemetry_manifest_entry option" where
  "write_snapshot action = (case action of WriteResult _ _ snapshot \<Rightarrow> snapshot | _ \<Rightarrow> None)"

definition refresh_after_write :: "ns_ext \<Rightarrow> bool \<Rightarrow> string option \<Rightarrow> unit ns_op" where
  "refresh_after_write x written epoch = (case epoch of
     None \<Rightarrow> st_return ()
   | Some e \<Rightarrow> st_bind (st_try (refresh_update_status x e)) (\<lambda>r. case r of
       Err err \<Rightarrow> if written then st_fail (Fail err) else st_return ()
     | Ok _ \<Rightarrow> st_return ()))"

definition write_path :: "ns_ext \<Rightarrow> path \<Rightarrow> nat \<Rightarrow> bytes \<Rightarrow> nat ns_op" where
  "write_path x path offset data = st_read (\<lambda>s.
     let retain = tc_retain_on_boot (ns_telemetry s);
         worker_id = worker_id_from_telemetry_path (cx_sha256 (nx_cas x)) (ns_shards s) path
     in st_bind (lookup_mut x path (write_node (retain \<and> worker_id \<noteq> None) path offset data)) (\<lambda>action.
        st_bind (st_try (perform_write x offset data action)) (\<lambda>result.
          st_then (refresh_after_write x (is_ok result) (update_epoch action))
         (st_then (record_audit_option x (write_audit action))
         (st_then (st_when retain (persist_option worker_id (write_snapshot action)))
         (st_then (flush_cas_events x) (ns_lift result)))))))"

definition write_append :: "ns_ext \<Rightarrow> path \<Rightarrow> nat \<Rightarrow> bytes \<Rightarrow> nat ns_op" where
  "write_append x path offset data =
     st_bind (write_sidecar path offset data) (\<lambda>cnt. case cnt of
       Some n \<Rightarrow> st_return n
     | None \<Rightarrow> st_read (\<lambda>s.
         if ingest_enabled (ig_config (ns_ingest s)) then
           (case telemetry_ingest_ctl_device path of
              Some device_id \<Rightarrow> write_telemetry_ingest_ctl x device_id data
            | None \<Rightarrow> (case telemetry_ingest_segment_parts path of
                Some (device_id, sid) \<Rightarrow> write_telemetry_ingest_segment x device_id sid offset data
              | None \<Rightarrow> write_path x path offset data))
         else write_path x path offset data))"

subsection \<open>Workers\<close>

definition has_child :: "string \<Rightarrow> bool node_op" where
  "has_child name n = (Ok (node_child n name \<noteq> None), n)"

text \<open>\<open>ensure_directory\<close> returns the child it found or made, and the telemetry file goes into it.\<close>

definition ensure_worker_dir :: "string \<Rightarrow> telemetry_file \<Rightarrow> unit node_op" where
  "ensure_worker_dir worker_id f =
     st_then (ensure_directory worker_id)
       (at_node (path_not_found [worker_id]) [worker_id] (ensure_file ''telemetry'' (Telemetry f)))"

definition worker_telemetry_file :: "string \<Rightarrow> telemetry_file ns_op" where
  "worker_telemetry_file worker_id s =
     (let config = ns_telemetry s
      in if tc_retain_on_boot config then
           (Ok (case restore_file (ns_manifest s) worker_id config of
              Some f \<Rightarrow> f | None \<Rightarrow> telemetry_file_new config), s)
         else (Ok (telemetry_file_new config), s\<lparr>ns_manifest := clear_worker (ns_manifest s) worker_id\<rparr>))"

definition create_worker :: "ns_ext \<Rightarrow> string \<Rightarrow> unit ns_op" where
  "create_worker x worker_id =
     (if worker_id = [] \<or> CHR ''/'' \<in> set worker_id
      then ns_fail EInvalid (''invalid worker id '' @ [CHR 0x27] @ worker_id @ [CHR 0x27])
      else st_read (\<lambda>s.
        let parent = worker_parent (cx_sha256 (nx_cas x)) (ns_shards s) worker_id
        in st_bind (lookup_mut x parent (has_child worker_id)) (\<lambda>found.
           if found then ns_fail EBusy (''worker '' @ worker_id @ '' already exists'')
           else st_bind (worker_telemetry_file worker_id) (\<lambda>f.
             st_seq
               [lookup_mut x parent (ensure_worker_dir worker_id f),
                st_modify (\<lambda>t. t\<lparr>ns_worker_ids := bt_insert worker_id () (ns_worker_ids t)\<rparr>),
                ensure_dir x [''proc''] worker_id,
                lookup_mut x [''proc'', worker_id] (ensure_file ''trace'' (TaskTrace worker_id))]))))"

definition remove_worker :: "ns_ext \<Rightarrow> string \<Rightarrow> unit ns_op" where
  "remove_worker x worker_id = st_read (\<lambda>s.
     if \<not> bt_contains (ns_worker_ids s) worker_id
     then ns_fail ENotFound (''worker '' @ worker_id @ '' not found'')
     else
       let parent = worker_parent (cx_sha256 (nx_cas x)) (ns_shards s) worker_id
       in st_seq
         [st_modify (\<lambda>t. t\<lparr>ns_worker_ids := bt_remove worker_id (ns_worker_ids t)\<rparr>),
          st_bind (lookup_mut x parent (remove_child worker_id)) (\<lambda>_. st_return ()),
          st_bind (st_try (lookup_mut x [''proc''] (remove_child worker_id))) (\<lambda>_. st_return ())])"

subsection \<open>Replacing the files of the providers\<close>

text \<open>
  The setters of the \<open>/proc\<close> files. Those of a user-interface provider come in two renderings and
  are refused when the provider is switched off; the others replace one file each.
\<close>

definition variant_name :: "string \<Rightarrow> ui_variant \<Rightarrow> string" where
  "variant_name name v = (case v of UiText \<Rightarrow> name | UiCbor \<Rightarrow> name @ ''.cbor'')"

definition set_provider_payload ::
  "ns_ext \<Rightarrow> (ui_provider_config \<Rightarrow> bool) \<Rightarrow> string \<Rightarrow> string \<Rightarrow> string \<Rightarrow> ui_variant \<Rightarrow> bytes \<Rightarrow> unit ns_op" where
  "set_provider_payload x enabled root dir name v data = st_read (\<lambda>s.
     st_then (ensure_ui_provider_enabled (enabled (ns_ui s))
         (root @ ''/'' @ dir @ ''/'' @ variant_name name v))
       (set_read_only_file x [root, dir] (variant_name name v) data))"

datatype proc_9p_file = FSessions | FOutstanding | FShortWrites

definition set_proc_9p_payload :: "ns_ext \<Rightarrow> proc_9p_file \<Rightarrow> ui_variant \<Rightarrow> bytes \<Rightarrow> unit ns_op" where
  "set_proc_9p_payload x f = (case f of
     FSessions \<Rightarrow> set_provider_payload x ui_proc_9p_sessions ''proc'' ''9p'' ''sessions''
   | FOutstanding \<Rightarrow> set_provider_payload x ui_proc_9p_outstanding ''proc'' ''9p'' ''outstanding''
   | FShortWrites \<Rightarrow> set_provider_payload x ui_proc_9p_short_writes ''proc'' ''9p'' ''short_writes'')"

datatype proc_ingest_file = FP50 | FP95 | FBackpressure

definition set_proc_ingest_payload :: "ns_ext \<Rightarrow> proc_ingest_file \<Rightarrow> ui_variant \<Rightarrow> bytes \<Rightarrow> unit ns_op" where
  "set_proc_ingest_payload x f = (case f of
     FP50 \<Rightarrow> set_provider_payload x ui_proc_ingest_p50_ms ''proc'' ''ingest'' ''p50_ms''
   | FP95 \<Rightarrow> set_provider_payload x ui_proc_ingest_p95_ms ''proc'' ''ingest'' ''p95_ms''
   | FBackpressure \<Rightarrow> set_provider_payload x ui_proc_ingest_backpressure ''proc'' ''ingest'' ''backpressure'')"

datatype preflight_file = FReq | FDiff

definition set_policy_preflight_payload :: "ns_ext \<Rightarrow> preflight_file \<Rightarrow> ui_variant \<Rightarrow> bytes \<Rightarrow> unit ns_op" where
  "set_policy_preflight_payload x f = (case f of
     FReq \<Rightarrow> set_provider_payload x ui_policy_preflight_req ''policy'' ''preflight'' ''req''
   | FDiff \<Rightarrow> set_provider_payload x ui_policy_preflight_diff ''policy'' ''preflight'' ''diff'')"

definition session_root :: path where
  "session_root = [''proc'', ''9p'', ''session'']"

definition ensure_proc_session_entry :: "ns_ext \<Rightarrow> nat \<Rightarrow> proc_9p_session_config \<Rightarrow> unit ns_op" where
  "ensure_proc_session_entry x session config =
     (if \<not> proc_9p_session_enabled config then st_return ()
      else
        let label = show_nat session; session_path = session_root @ [label]
        in st_seq
          [ensure_dir x session_root label,
           st_when (p9s_state config) (ensure_read_only_file x session_path ''state'' []),
           st_when (p9s_since_ms config) (ensure_read_only_file x session_path ''since_ms'' []),
           st_when (p9s_owner config) (ensure_read_only_file x session_path ''owner'' [])])"

definition set_proc_session_active_payload :: "ns_ext \<Rightarrow> bytes \<Rightarrow> unit ns_op" where
  "set_proc_session_active_payload x data = set_read_only_file x session_root ''active'' data"

datatype session_file = FState | FSince | FOwner

definition set_proc_session_payload :: "ns_ext \<Rightarrow> session_file \<Rightarrow> nat \<Rightarrow> bytes \<Rightarrow> unit ns_op" where
  "set_proc_session_payload x f session data =
     set_read_only_file x (session_root @ [show_nat session])
       (case f of FState \<Rightarrow> ''state'' | FSince \<Rightarrow> ''since_ms'' | FOwner \<Rightarrow> ''owner'') data"

definition set_proc_ingest_dropped_payload :: "ns_ext \<Rightarrow> bytes \<Rightarrow> unit ns_op" where
  "set_proc_ingest_dropped_payload x data = set_read_only_file x [''proc'', ''ingest''] ''dropped'' data"

definition set_proc_ingest_queued_payload :: "ns_ext \<Rightarrow> bytes \<Rightarrow> unit ns_op" where
  "set_proc_ingest_queued_payload x data = set_read_only_file x [''proc'', ''ingest''] ''queued'' data"

definition set_proc_ingest_watch_payload :: "ns_ext \<Rightarrow> bytes \<Rightarrow> unit ns_op" where
  "set_proc_ingest_watch_payload x data = set_append_only_file x [''proc'', ''ingest''] ''watch'' data"

datatype proc_root_file = FReachable | FLastSeen | FCutReason

definition set_proc_root_payload :: "ns_ext \<Rightarrow> proc_root_file \<Rightarrow> bytes \<Rightarrow> unit ns_op" where
  "set_proc_root_payload x f data =
     set_read_only_file x [''proc'', ''root'']
       (case f of FReachable \<Rightarrow> ''reachable'' | FLastSeen \<Rightarrow> ''last_seen_ms'' | FCutReason \<Rightarrow> ''cut_reason'') data"

definition set_proc_pressure_payload :: "ns_ext \<Rightarrow> pressure_kind \<Rightarrow> bytes \<Rightarrow> unit ns_op" where
  "set_proc_pressure_payload x f data =
     set_read_only_file x [''proc'', ''pressure'']
       (case f of PressureBusy \<Rightarrow> ''busy'' | PressureQuota \<Rightarrow> ''quota'' | PressureCut \<Rightarrow> ''cut'' | PressurePolicy \<Rightarrow> ''policy'') data"

datatype proc_lifecycle_file = FLifecycleState | FLifecycleReason | FLifecycleSince

definition set_proc_lifecycle_payload :: "ns_ext \<Rightarrow> proc_lifecycle_file \<Rightarrow> bytes \<Rightarrow> unit ns_op" where
  "set_proc_lifecycle_payload x f data =
     set_read_only_file x [''proc'', ''lifecycle'']
       (case f of FLifecycleState \<Rightarrow> ''state'' | FLifecycleReason \<Rightarrow> ''reason'' | FLifecycleSince \<Rightarrow> ''since'') data"

definition set_policy_ctl_payload :: "ns_ext \<Rightarrow> bytes \<Rightarrow> unit ns_op" where
  "set_policy_ctl_payload x data = set_append_only_file x [''policy''] ''ctl'' data"

definition set_action_queue_payload :: "ns_ext \<Rightarrow> bytes \<Rightarrow> unit ns_op" where
  "set_action_queue_payload x data = set_append_only_file x [''actions''] ''queue'' data"

definition set_action_status_payload :: "ns_ext \<Rightarrow> string \<Rightarrow> bytes \<Rightarrow> unit ns_op" where
  "set_action_status_payload x action_id data =
     st_then (ensure_dir x [''actions''] action_id)
       (set_read_only_file x [''actions'', action_id] ''status'' data)"

definition set_audit_journal_payload :: "ns_ext \<Rightarrow> bytes \<Rightarrow> unit ns_op" where
  "set_audit_journal_payload x data = set_append_only_file x [''audit''] ''journal'' data"

definition set_audit_decisions_payload :: "ns_ext \<Rightarrow> bytes \<Rightarrow> unit ns_op" where
  "set_audit_decisions_payload x data = set_append_only_file x [''audit''] ''decisions'' data"

definition set_audit_export_payload :: "ns_ext \<Rightarrow> bytes \<Rightarrow> unit ns_op" where
  "set_audit_export_payload x data = set_read_only_file x [''audit''] ''export'' data"

definition set_replay_ctl_payload :: "ns_ext \<Rightarrow> bytes \<Rightarrow> unit ns_op" where
  "set_replay_ctl_payload x data = set_append_only_file x [''replay''] ''ctl'' data"

definition set_replay_status_payload :: "ns_ext \<Rightarrow> bytes \<Rightarrow> unit ns_op" where
  "set_replay_status_payload x data = set_read_only_file x [''replay''] ''status'' data"

definition set_gpu_bridge_status :: "ns_ext \<Rightarrow> bytes \<Rightarrow> unit ns_op" where
  "set_gpu_bridge_status x data = set_read_only_file x [''gpu'', ''bridge''] ''status'' data"

definition set_gpu_node :: "ns_ext \<Rightarrow> string \<Rightarrow> bytes \<Rightarrow> bytes \<Rightarrow> bytes \<Rightarrow> bytes \<Rightarrow> unit ns_op" where
  "set_gpu_node x gpu_id info ctl lease status =
     (let base = [''gpu'', gpu_id]
      in st_seq
        [ensure_dir x [''gpu''] gpu_id,
         set_read_only_file x base ''info'' info,
         set_append_only_file x base ''ctl'' ctl,
         set_append_only_file x base ''lease'' lease,
         set_append_only_file x base ''status'' status,
         set_append_only_file x base ''job'' []])"

text \<open>A model catalog is the list of model identifiers with their manifests, and the active model.\<close>

definition set_gpu_models :: "ns_ext \<Rightarrow> (string \<times> bytes) list \<Rightarrow> string \<Rightarrow> unit ns_op" where
  "set_gpu_models x available active =
     st_seq
       [ensure_dir x [''gpu''] ''models'',
        ensure_dir x [''gpu'', ''models''] ''available'',
        st_for (\<lambda>(model_id, manifest_toml).
          st_then (ensure_dir x [''gpu'', ''models'', ''available''] model_id)
            (set_read_only_file x [''gpu'', ''models'', ''available'', model_id] ''manifest.toml'' manifest_toml))
          available,
        set_append_only_file x [''gpu'', ''models''] ''active'' (str_bytes (active @ newline))]"

definition set_lora_export_job :: "ns_ext \<Rightarrow> string \<Rightarrow> bytes \<Rightarrow> bytes \<Rightarrow> bytes \<Rightarrow> unit ns_op" where
  "set_lora_export_job x job_id telemetry base_model policy = st_read (\<lambda>s.
     if \<not> ingest_enabled (ig_config (ns_ingest s)) then ns_fail ENotFound ''queen export disabled''
     else
       let job_root = [''queen'', ''export'', ''lora_jobs'', job_id]
       in st_seq
         [ensure_dir_raw [''queen'', ''export''] ''lora_jobs'',
          ensure_dir_raw [''queen'', ''export'', ''lora_jobs''] job_id,
          set_read_only_file x job_root ''telemetry.cbor'' telemetry,
          set_read_only_file x job_root ''base_model.ref'' base_model,
          set_read_only_file x job_root ''policy.toml'' policy])"

definition set_gpu_telemetry_schema :: "ns_ext \<Rightarrow> bytes \<Rightarrow> unit ns_op" where
  "set_gpu_telemetry_schema x descriptor =
     st_then (ensure_dir x [''gpu''] ''telemetry'')
       (set_read_only_file x [''gpu'', ''telemetry''] ''schema.json'' descriptor)"

definition append_gpu_status :: "ns_ext \<Rightarrow> string \<Rightarrow> bytes \<Rightarrow> unit ns_op" where
  "append_gpu_status x gpu_id payload =
     st_bind (write_append x [''gpu'', gpu_id, ''status''] u64_max payload) (\<lambda>_. st_return ())"

subsection \<open>Start-up\<close>

definition read_only_files :: "ns_ext \<Rightarrow> path \<Rightarrow> string list \<Rightarrow> unit ns_op" where
  "read_only_files x parent = st_for (\<lambda>name. ensure_read_only_file x parent name [])"

definition bus_bootstrap :: "ns_ext \<Rightarrow> sidecar_bus_state \<Rightarrow> unit ns_op" where
  "bus_bootstrap x b =
     (if \<not> sbs_enabled b then st_return ()
      else st_then (ensure_dir_path x (sbs_mount_path b))
        (st_for (\<lambda>adapter.
           let adapter_path = sbs_mount_path b @ [bs_mount_label adapter]
           in st_seq
             [ensure_dir_path x adapter_path,
              ensure_append_only_file x adapter_path ''ctl'' [],
              ensure_append_only_file x adapter_path ''telemetry'' [],
              ensure_append_only_file x adapter_path ''link'' [],
              ensure_append_only_file x adapter_path ''replay'' [],
              ensure_read_only_file x adapter_path ''spool'' []]) (sbs_adapters b)))"

definition lora_bootstrap :: "ns_ext \<Rightarrow> sidecar_lora_state \<Rightarrow> unit ns_op" where
  "lora_bootstrap x l =
     (if \<not> sls_enabled l then st_return ()
      else st_then (ensure_dir_path x (sls_mount_path l))
        (st_for (\<lambda>adapter.
           let adapter_path = sls_mount_path l @ [ls_mount_label adapter]
           in st_seq
             [ensure_dir_path x adapter_path,
              ensure_append_only_file x adapter_path ''ctl'' [],
              ensure_append_only_file x adapter_path ''telemetry'' [],
              ensure_read_only_file x adapter_path ''tamper'' []]) (sls_adapters l)))"

definition bootstrap_sidecars :: "ns_ext \<Rightarrow> unit ns_op" where
  "bootstrap_sidecars x = st_read (\<lambda>s.
     st_seq [bus_bootstrap x (ns_modbus s), bus_bootstrap x (ns_dnp3 s), lora_bootstrap x (ns_lora s)])"

definition install_host_systemd :: "ns_ext \<Rightarrow> path \<Rightarrow> unit ns_op" where
  "install_host_systemd x host_root =
     st_then (ensure_dir x host_root ''systemd'')
       (st_for (\<lambda>unit.
          let systemd_root = host_root @ [''systemd'']; unit_path = systemd_root @ [unit]
          in st_seq
            [ensure_dir x systemd_root unit,
             ensure_append_only_file x unit_path ''status'' (str_bytes ''active''),
             ensure_append_only_file x unit_path ''restart'' []])
         [''cohesix-agent.service'', ''ssh.service''])"

definition install_host_k8s :: "ns_ext \<Rightarrow> path \<Rightarrow> unit ns_op" where
  "install_host_k8s x host_root =
     (let k8s_root = host_root @ [''k8s'']; nodes_root = k8s_root @ [''node'']; node_path = nodes_root @ [''node-1'']
      in st_seq
        [ensure_dir x host_root ''k8s'',
         ensure_dir x k8s_root ''node'',
         ensure_dir x nodes_root ''node-1'',
         ensure_append_only_file x node_path ''status'' (str_bytes ''unknown''),
         ensure_append_only_file x node_path ''cordon'' [],
         ensure_append_only_file x node_path ''drain'' []])"

definition install_host_docker :: "ns_ext \<Rightarrow> path \<Rightarrow> unit ns_op" where
  "install_host_docker x host_root =
     st_seq
       [ensure_dir x host_root ''docker'',
        ensure_append_only_file x (host_root @ [''docker'']) ''status'' (str_bytes ''unknown'')]"

definition install_host_nvidia :: "ns_ext \<Rightarrow> path \<Rightarrow> unit ns_op" where
  "install_host_nvidia x host_root =
     (let nvidia_root = host_root @ [''nvidia'']; gpu_root = nvidia_root @ [''gpu'']; gpu_path = gpu_root @ [''0'']
      in st_seq
        [ensure_dir x host_root ''nvidia'',
         ensure_dir x nvidia_root ''gpu'',
         ensure_dir x gpu_root ''0'',
         ensure_append_only_file x gpu_path ''status'' (str_bytes ''ok''),
         ensure_append_only_file x gpu_path ''power_cap'' [],
         ensure_append_only_file x gpu_path ''thermal'' (str_bytes ''42C'')])"

definition bootstrap_host :: "ns_ext \<Rightarrow> unit ns_op" where
  "bootstrap_host x = st_read (\<lambda>s.
     let host_root = hn_mount_path (ns_host s)
     in st_then (ensure_dir_path x host_root)
          (st_for (\<lambda>provider. case provider of
             Systemd \<Rightarrow> install_host_systemd x host_root
           | K8s \<Rightarrow> install_host_k8s x host_root
           | Docker \<Rightarrow> install_host_docker x host_root
           | Nvidia \<Rightarrow> install_host_nvidia x host_root
           | Jetson \<Rightarrow> ensure_dir x host_root ''jetson''
           | Net \<Rightarrow> ensure_dir x host_root ''net'') (hn_providers (ns_host s))))"

definition bootstrap_policy :: "ns_ext \<Rightarrow> unit ns_op" where
  "bootstrap_policy x = st_read (\<lambda>s.
     let req = ui_policy_preflight_req (ns_ui s); diff = ui_policy_preflight_diff (ns_ui s)
     in st_seq
       [ensure_dir x [] ''policy'',
        ensure_append_only_file x [''policy''] ''ctl'' [],
        ensure_read_only_file x [''policy''] ''rules'' (mn_snapshot (ns_policy s)),
        st_when (req \<or> diff) (st_seq
          [ensure_dir x [''policy''] ''preflight'',
           st_when req (read_only_files x [''policy'', ''preflight''] [''req'', ''req.cbor'']),
           st_when diff (read_only_files x [''policy'', ''preflight''] [''diff'', ''diff.cbor''])]),
        ensure_dir x [] ''actions'',
        ensure_append_only_file x [''actions''] ''queue'' []])"

definition bootstrap_audit :: "ns_ext \<Rightarrow> unit ns_op" where
  "bootstrap_audit x = st_read (\<lambda>s. st_seq
     [ensure_dir x [] ''audit'',
      ensure_append_only_file x [''audit''] ''journal'' [],
      ensure_append_only_file x [''audit''] ''decisions'' [],
      ensure_read_only_file x [''audit''] ''export'' (mn_snapshot (ns_audit s))])"

definition bootstrap_replay :: "ns_ext \<Rightarrow> unit ns_op" where
  "bootstrap_replay x = st_read (\<lambda>s. st_seq
     [ensure_dir x [] ''replay'',
      ensure_append_only_file x [''replay''] ''ctl'' [],
      ensure_read_only_file x [''replay''] ''status'' (mn_snapshot (ns_replay s))])"

definition ensure_gpu_bridge :: "ns_ext \<Rightarrow> unit ns_op" where
  "ensure_gpu_bridge x = st_seq
     [ensure_dir x [''gpu''] ''bridge'',
      ensure_append_only_file x [''gpu'', ''bridge''] ''ctl'' [],
      ensure_read_only_file x [''gpu'', ''bridge''] ''status'' (str_bytes (''state=idle'' @ newline))]"

definition boot_text :: bytes where
  "boot_text = str_bytes (concat (map (\<lambda>l. l @ newline)
     [''Cohesix boot: root-task online'', ''spawned user-component endpoint 1'', ''tick 1'', ''PING 1'',
      ''PONG 1'', ''tick 2'', ''tick 3'', ''root-task shutdown'']))"

definition bootstrap_proc :: "ns_ext \<Rightarrow> unit ns_op" where
  "bootstrap_proc x = st_seq
     [ensure_dir x [] ''proc'',
      ensure_read_only_file x [''proc''] ''boot'' boot_text,
      ensure_dir x [''proc''] ''tests'',
      ensure_read_only_file x [''proc'', ''tests''] ''selftest_quick.coh'' (nx_selftest_quick x),
      ensure_read_only_file x [''proc'', ''tests''] ''selftest_full.coh'' (nx_selftest_full x),
      ensure_read_only_file x [''proc'', ''tests''] ''selftest_negative.coh'' (nx_selftest_negative x),
      ensure_dir x [''proc''] ''lifecycle'',
      ensure_read_only_file x [''proc'', ''lifecycle''] ''state'' (str_bytes ''state=BOOTING''),
      ensure_read_only_file x [''proc'', ''lifecycle''] ''reason'' (str_bytes ''reason=boot''),
      ensure_read_only_file x [''proc'', ''lifecycle''] ''since'' (str_bytes ''since_ms=0'')]"

definition bootstrap_queen :: "ns_ext \<Rightarrow> unit ns_op" where
  "bootstrap_queen x = st_read (\<lambda>s. st_seq
     [ensure_dir x [] ''log'',
      ensure_append_only_file x [''log''] ''queen.log'' boot_text,
      ensure_dir x [] ''queen'',
      ensure_append_only_file x [''queen''] ''ctl'' [],
      ensure_dir x [''queen''] ''lifecycle'',
      ensure_append_only_file x [''queen'', ''lifecycle''] ''ctl'' [],
      st_when (ingest_enabled (ig_config (ns_ingest s))) (st_seq
        [ensure_dir x [''queen''] ''telemetry'',
         ensure_dir x [''queen''] ''export'',
         ensure_dir x [''queen'', ''export''] ''lora_jobs''])])"

definition bootstrap_workers :: "ns_ext \<Rightarrow> unit ns_op" where
  "bootstrap_workers x = st_read (\<lambda>s.
     if sl_enabled (ns_shards s) then st_seq
       [ensure_dir x [] ''shard'',
        st_for (\<lambda>label. st_then (ensure_dir x [''shard''] label)
          (ensure_dir x [''shard'', label] ''worker'')) (shard_labels (ns_shards s)),
        st_when (legacy_worker_alias_enabled (ns_shards s)) (ensure_dir x [] ''worker'')]
     else ensure_dir x [] ''worker'')"

definition bootstrap :: "ns_ext \<Rightarrow> unit ns_op" where
  "bootstrap x = st_map_err (\<lambda>_. Panic) (st_read (\<lambda>s. st_seq
     [bootstrap_proc x,
      bootstrap_queen x,
      bootstrap_workers x,
      st_when (cc_enabled (cs_config (ns_cas s))) (st_then (ensure_dir x [] ''updates'')
        (st_when (cc_models_enabled (cs_config (ns_cas s))) (ensure_dir x [] ''models''))),
      ensure_dir x [] ''gpu'',
      ensure_gpu_bridge x,
      ensure_dir x [] ''trace'',
      lookup_mut x [''trace''] (ensure_file ''ctl'' TraceControl),
      lookup_mut x [''trace''] (ensure_file ''events'' TraceEvents),
      lookup_mut x [] (ensure_file ''kmesg'' KernelMessages),
      bootstrap_sidecars x,
      st_when (hn_enabled (ns_host s)) (bootstrap_host x),
      st_when (mn_enabled (ns_policy s)) (bootstrap_policy x),
      st_when (mn_enabled (ns_audit s)) (bootstrap_audit x),
      st_when (mn_enabled (ns_replay s)) (bootstrap_replay x)]))"

record namespace_config =
  nc_telemetry :: telemetry_config
  nc_ingest :: ingest_config
  nc_manifest :: telemetry_manifest_store
  nc_cas :: cas_config
  nc_shards :: shard_layout
  nc_ui :: ui_provider_config
  nc_host :: host_namespace_config
  nc_sidecars :: sidecar_namespace_config
  nc_policy :: mount_config
  nc_audit :: mount_config
  nc_replay :: mount_config

definition empty_namespace :: "ns_ext \<Rightarrow> namespace_config \<Rightarrow> namespace" where
  "empty_namespace x c =
     (let modbus = sidecar_bus_new (sn_modbus (nc_sidecars c));
          dnp3 = sidecar_bus_new (sn_dnp3 (nc_sidecars c));
          lora = sidecar_lora_new (sn_lora (nc_sidecars c))
      in \<lparr>ns_root = Directory [], ns_trace = trace_fs_new (nx_now_ms x), ns_shards = nc_shards c,
          ns_telemetry = nc_telemetry c, ns_manifest = nc_manifest c, ns_ingest = ingest_new (nc_ingest c),
          ns_cas = cas_store_new (nc_cas c), ns_worker_ids = [], ns_ui = nc_ui c, ns_host = nc_host c,
          ns_modbus = modbus, ns_dnp3 = dnp3, ns_lora = lora,
          ns_bus_scopes = sidecar_bus_scopes modbus @ sidecar_bus_scopes dnp3,
          ns_lora_scopes = sidecar_lora_scopes lora,
          ns_policy = nc_policy c, ns_audit = nc_audit c, ns_replay = nc_replay c\<rparr>)"

definition namespace_new :: "ns_ext \<Rightarrow> namespace_config \<Rightarrow> (ninedoor_error fault + unit) \<times> namespace" where
  "namespace_new x c = bootstrap x (empty_namespace x c)"

definition namespace_config_default :: namespace_config where
  "namespace_config_default =
     \<lparr>nc_telemetry = telemetry_config_default, nc_ingest = ingest_config_default, nc_manifest = Map.empty,
      nc_cas = cas_disabled, nc_shards = shard_layout_default, nc_ui = ui_default, nc_host = host_disabled,
      nc_sidecars = sidecars_disabled, nc_policy = mount_disabled, nc_audit = mount_disabled,
      nc_replay = mount_disabled\<rparr>"

text \<open>
  \<open>ObserveConfig::enabled\<close> and \<open>Proc9pConfig::enabled\<close> decide which directories exist under \<open>/proc\<close>.
\<close>

definition proc_9p_enabled :: "proc_9p_config \<Rightarrow> bool" where
  "proc_9p_enabled c \<longleftrightarrow> p9_sessions c \<or> p9_outstanding c \<or> p9_short_writes c"

definition observe_config_enabled :: "observe_config \<Rightarrow> bool" where
  "observe_config_enabled c \<longleftrightarrow> proc_9p_enabled (oc_proc_9p c) \<or> proc_9p_session_enabled (oc_proc_9p_session c)
     \<or> proc_ingest_enabled (oc_proc_ingest c) \<or> proc_root_enabled (oc_proc_root c)
     \<or> proc_pressure_enabled (oc_proc_pressure c)"

definition install_proc_9p :: "ns_ext \<Rightarrow> observe_config \<Rightarrow> unit ns_op" where
  "install_proc_9p x c = st_read (\<lambda>s.
     let p = oc_proc_9p c; q = oc_proc_9p_session c; dir = [''proc'', ''9p'']
     in st_when (proc_9p_enabled p \<or> proc_9p_session_enabled q) (st_seq
       [ensure_dir x [''proc''] ''9p'',
        st_when (p9_sessions p \<and> ui_proc_9p_sessions (ns_ui s)) (read_only_files x dir [''sessions'', ''sessions.cbor'']),
        st_when (p9_outstanding p \<and> ui_proc_9p_outstanding (ns_ui s))
          (read_only_files x dir [''outstanding'', ''outstanding.cbor'']),
        st_when (p9_short_writes p \<and> ui_proc_9p_short_writes (ns_ui s))
          (read_only_files x dir [''short_writes'', ''short_writes.cbor'']),
        st_when (proc_9p_session_enabled q) (st_seq
          [ensure_dir x dir ''session'',
           st_when (p9s_active q) (ensure_read_only_file x session_root ''active'' [])])]))"

definition install_proc_ingest :: "ns_ext \<Rightarrow> observe_config \<Rightarrow> unit ns_op" where
  "install_proc_ingest x c = st_read (\<lambda>s.
     let p = oc_proc_ingest c; dir = [''proc'', ''ingest'']
     in st_when (proc_ingest_enabled p) (st_seq
       [ensure_dir x [''proc''] ''ingest'',
        st_when (pi_p50_ms p \<and> ui_proc_ingest_p50_ms (ns_ui s)) (read_only_files x dir [''p50_ms'', ''p50_ms.cbor'']),
        st_when (pi_p95_ms p \<and> ui_proc_ingest_p95_ms (ns_ui s)) (read_only_files x dir [''p95_ms'', ''p95_ms.cbor'']),
        st_when (pi_backpressure p \<and> ui_proc_ingest_backpressure (ns_ui s))
          (read_only_files x dir [''backpressure'', ''backpressure.cbor'']),
        st_when (pi_dropped p) (read_only_files x dir [''dropped'']),
        st_when (pi_queued p) (read_only_files x dir [''queued'']),
        st_when (pi_watch p) (ensure_append_only_file x dir ''watch'' [])]))"

definition install_observability :: "ns_ext \<Rightarrow> observe_config \<Rightarrow> unit ns_op" where
  "install_observability x c =
     (let r = oc_proc_root c; p = oc_proc_pressure c
      in if \<not> observe_config_enabled c then st_return ()
         else st_seq
           [install_proc_9p x c,
            install_proc_ingest x c,
            st_when (proc_root_enabled r) (st_seq
              [ensure_dir x [''proc''] ''root'',
               st_when (pro_reachable r) (read_only_files x [''proc'', ''root''] [''reachable'']),
               st_when (pro_last_seen_ms r) (read_only_files x [''proc'', ''root''] [''last_seen_ms'']),
               st_when (pro_cut_reason r) (read_only_files x [''proc'', ''root''] [''cut_reason''])]),
            st_when (proc_pressure_enabled p) (st_seq
              [ensure_dir x [''proc''] ''pressure'',
               st_when (pp_busy p) (read_only_files x [''proc'', ''pressure''] [''busy'']),
               st_when (pp_quota p) (read_only_files x [''proc'', ''pressure''] [''quota'']),
               st_when (pp_cut p) (read_only_files x [''proc'', ''pressure''] [''cut'']),
               st_when (pp_policy p) (read_only_files x [''proc'', ''pressure''] [''policy''])])])"

subsection \<open>Queries\<close>

definition ui_provider_info :: "path \<Rightarrow> namespace \<Rightarrow> (ui_provider_kind \<times> ui_variant \<times> bool) option" where
  "ui_provider_info path s = (case match_ui_provider path of
     None \<Rightarrow> None
   | Some (kind, variant) \<Rightarrow>
       let ui = ns_ui s; cas = cc_enabled (cs_config (ns_cas s));
           enabled = (case kind of
             Proc9pSessions \<Rightarrow> ui_proc_9p_sessions ui
           | Proc9pOutstanding \<Rightarrow> ui_proc_9p_outstanding ui
           | Proc9pShortWrites \<Rightarrow> ui_proc_9p_short_writes ui
           | ProcIngestP50 \<Rightarrow> ui_proc_ingest_p50_ms ui
           | ProcIngestP95 \<Rightarrow> ui_proc_ingest_p95_ms ui
           | ProcIngestBackpressure \<Rightarrow> ui_proc_ingest_backpressure ui
           | PolicyPreflightReq \<Rightarrow> ui_policy_preflight_req ui \<and> mn_enabled (ns_policy s)
           | PolicyPreflightDiff \<Rightarrow> ui_policy_preflight_diff ui \<and> mn_enabled (ns_policy s)
           | UpdatesManifest \<Rightarrow> ui_updates_manifest ui \<and> cas
           | UpdatesStatus \<Rightarrow> ui_updates_status ui \<and> cas)
       in Some (kind, variant, enabled))"

definition host_mount_path :: "namespace \<Rightarrow> path option" where
  "host_mount_path s = (if hn_enabled (ns_host s) then Some (hn_mount_path (ns_host s)) else None)"

definition sidecar_kind_for_path :: "path \<Rightarrow> namespace \<Rightarrow> sidecar_kind option" where
  "sidecar_kind_for_path path s =
     (if sidecar_bus_matches_path (ns_modbus s) path \<or> sidecar_bus_matches_path (ns_dnp3 s) path
      then Some SidecarBus
      else if sidecar_lora_matches_path (ns_lora s) path then Some SidecarLora
      else None)"

definition scope_exists :: "sidecar_scope list \<Rightarrow> string \<Rightarrow> bool" where
  "scope_exists scopes scope \<longleftrightarrow> (\<exists>entry \<in> set scopes. sc_scope entry = scope)"

definition root_qid :: "ns_ext \<Rightarrow> namespace \<Rightarrow> qid" where
  "root_qid x s = node_qid (nx_hash_path x) [] (ns_root s)"

end
