(* ===== verification/Namespace_Safety.thy ===== *)
theory Namespace_Safety
  imports Namespace Cas_Integrity
begin

section \<open>The namespace is well typed\<close>

text \<open>
  What the server relies on when it walks its own tree. Every path that the code creates nodes at has
  a type (\<open>ns_shape\<close>): a directory, or a file of one kind. The start-up establishes the types and
  every request of a client keeps them, and on a well-typed tree no request reaches one of the
  panics of the code. The exception is the last section: the status files of an update.
\<close>

subsection \<open>Operations that do not panic\<close>

text \<open>
  \<open>st_guarded b P R m\<close>: from a state with \<open>P\<close> the operation ends in a state with \<open>P\<close>, related to the
  first by \<open>R\<close>, and (when \<open>b\<close>) without a panic.
\<close>

definition st_guarded :: "bool \<Rightarrow> ('s \<Rightarrow> bool) \<Rightarrow> ('s \<Rightarrow> 's \<Rightarrow> bool) \<Rightarrow> ('s, 'e fault, 'a) st_op \<Rightarrow> bool" where
  "st_guarded b P R m \<longleftrightarrow> (\<forall>s. P s \<longrightarrow> (b \<longrightarrow> fst (m s) \<noteq> Err Panic) \<and> P (snd (m s)) \<and> R s (snd (m s)))"

lemma st_guardedD:
  "st_guarded b P R m \<Longrightarrow> P s \<Longrightarrow> m s = (r, t) \<Longrightarrow> (b \<longrightarrow> r \<noteq> Err Panic) \<and> P t \<and> R s t"
  unfolding st_guarded_def by (metis fst_conv snd_conv)

locale guarded = evolution R for R :: "'s \<Rightarrow> 's \<Rightarrow> bool" +
  fixes P :: "'s \<Rightarrow> bool"
begin

lemma guarded_basic:
  "st_guarded b P R (st_return v)" "st_guarded b P R (st_fail (Fail e))"
  "st_guarded b P R (st_lift (map_err Fail r))"
  by (auto simp: st_guarded_def st_defs refl map_err_def split: sum.split)

lemma guarded_panic: "\<not> b \<Longrightarrow> st_guarded b P R (st_fail Panic)"
  by (simp add: st_guarded_def st_defs refl)

lemma guarded_modify: "(\<And>s. P s \<Longrightarrow> P (f s) \<and> R s (f s)) \<Longrightarrow> st_guarded b P R (st_modify f)"
  by (simp add: st_guarded_def st_modify_def)

lemma guarded_read: "(\<And>s. P s \<Longrightarrow> st_guarded b P R (f s)) \<Longrightarrow> st_guarded b P R (st_read f)"
  by (simp add: st_guarded_def st_read_def)

lemma guarded_if: "(c \<Longrightarrow> st_guarded b P R m) \<Longrightarrow> (\<not> c \<Longrightarrow> st_guarded b P R k) \<Longrightarrow> st_guarded b P R (if c then m else k)"
  by simp

lemma guarded_bind:
  assumes "st_guarded b P R m" and "\<And>v. st_guarded b P R (f v)"
  shows "st_guarded b P R (st_bind m f)"
  unfolding st_guarded_def
proof (intro allI impI)
  fix s assume s: "P s"
  obtain r t where m: "m s = (r, t)" by fastforce
  note 1 = st_guardedD [OF assms(1) s m]
  show "(b \<longrightarrow> fst (st_bind m f s) \<noteq> Err Panic) \<and> P (snd (st_bind m f s)) \<and> R s (snd (st_bind m f s))"
  proof (cases r)
    case (Inr v)
    obtain r' u where f: "f v t = (r', u)" by fastforce
    from st_guardedD [OF assms(2) _ f] 1 have "(b \<longrightarrow> r' \<noteq> Err Panic) \<and> P u \<and> R t u" by blast
    moreover from this 1 have "R s u" using trans by blast
    ultimately show ?thesis using Inr f m by (simp add: st_bind_def)
  qed (use 1 m in \<open>auto simp: st_bind_def\<close>)
qed

lemma guarded_for: "(\<And>v. v \<in> set vs \<Longrightarrow> st_guarded b P R (f v)) \<Longrightarrow> st_guarded b P R (st_for f vs)"
  by (induction vs) (auto intro: guarded_bind guarded_basic)

lemma guarded_seq: "(\<And>m. m \<in> set ms \<Longrightarrow> st_guarded b P R m) \<Longrightarrow> st_guarded b P R (st_seq ms)"
  unfolding st_seq_def by (rule guarded_for)

lemma guarded_when: "(c \<Longrightarrow> st_guarded b P R m) \<Longrightarrow> st_guarded b P R (st_when c m)"
  by (simp add: st_when_def guarded_basic)

lemma guarded_try: "st_guarded b P R m \<Longrightarrow> st_guarded b P R (st_try m)"
  by (auto simp: st_guarded_def st_try_def split: prod.split sum.split fault.split)

lemma guarded_expect: "st_guarded b P R m \<Longrightarrow> \<not> b \<Longrightarrow> st_guarded b P R (st_map_err f m)"
  by (simp add: st_guarded_def st_map_err_def split_beta)

lemma guarded_option:
  "(st_guarded b P R m) \<Longrightarrow> (\<And>v. o' = Some v \<Longrightarrow> st_guarded b P R (f v)) \<Longrightarrow>
    st_guarded b P R (case o' of None \<Rightarrow> m | Some v \<Rightarrow> f v)"
  by (cases o') auto

lemmas guarded = guarded_basic guarded_read guarded_if guarded_bind guarded_when guarded_try guarded_option

end

subsection \<open>The types of the paths\<close>

definition is_read_only :: "file_node option \<Rightarrow> bool" where
  "is_read_only f = (case f of Some (ReadOnly _) \<Rightarrow> True | _ \<Rightarrow> False)"

definition is_append_only :: "file_node option \<Rightarrow> bool" where
  "is_append_only f = (case f of Some (AppendOnly _) \<Rightarrow> True | _ \<Rightarrow> False)"

definition is_model_file :: "ns_ext \<Rightarrow> string \<Rightarrow> model_file_kind \<Rightarrow> file_node option \<Rightarrow> bool" where
  "is_model_file x name kind f = (case f of
     Some (CasModelFile d k) \<Rightarrow> cx_hex (nx_cas x) d = name \<and> k = kind | _ \<Rightarrow> False)"

definition is_chunk_file :: "ns_ext \<Rightarrow> string \<Rightarrow> string \<Rightarrow> file_node option \<Rightarrow> bool" where
  "is_chunk_file x epoch name f = (case f of
     Some (CasChunkFile e d) \<Rightarrow> e = epoch \<and> cx_hex (nx_cas x) d = name | _ \<Rightarrow> False)"

definition device_shape :: "path \<Rightarrow> file_node option \<Rightarrow> bool" where
  "device_shape p f = (case p of
     [] \<Rightarrow> f = None
   | [leaf] \<Rightarrow>
       (if leaf = ''ctl'' then is_append_only f
        else if leaf = ''latest'' then is_read_only f
        else leaf = ''seg'' \<and> f = None)
   | [dir, sid] \<Rightarrow> dir = ''seg'' \<and> is_append_only f
   | _ \<Rightarrow> False)"

definition update_shape :: "ns_ext \<Rightarrow> string \<Rightarrow> path \<Rightarrow> file_node option \<Rightarrow> bool" where
  "update_shape x epoch p f = (case p of
     [] \<Rightarrow> f = None
   | [leaf] \<Rightarrow>
       (if leaf = ''manifest.cbor'' then f = Some (CasManifestFile epoch)
        else if leaf = ''status'' \<or> leaf = ''status.cbor'' then is_read_only f
        else leaf = ''chunks'' \<and> f = None)
   | [dir, name] \<Rightarrow> dir = ''chunks'' \<and> is_chunk_file x epoch name f
   | _ \<Rightarrow> False)"

definition model_shape :: "ns_ext \<Rightarrow> string \<Rightarrow> path \<Rightarrow> file_node option \<Rightarrow> bool" where
  "model_shape x name p f = (case p of
     [] \<Rightarrow> f = None
   | [leaf] \<Rightarrow>
       (if leaf = ''weights'' then is_model_file x name Weights f
        else if leaf = ''schema'' then is_model_file x name Schema f
        else leaf = ''signature'' \<and> is_model_file x name ModelSignature f)
   | _ \<Rightarrow> False)"

text \<open>
  Below \<open>/queen/telemetry\<close>, \<open>/updates\<close> and \<open>/models\<close> there is nothing but what the types name; the
  log of the queen is append-only; elsewhere the server and its configuration are free.
\<close>

definition ns_shape :: "ns_ext \<Rightarrow> path \<Rightarrow> file_node option \<Rightarrow> bool" where
  "ns_shape x p f = (case p of
     [] \<Rightarrow> f = None
   | [a] \<Rightarrow> a \<in> {''queen'', ''updates'', ''models'', ''log''} \<longrightarrow> f = None
   | a # b # rest \<Rightarrow>
       (if a = ''queen'' \<and> b = ''telemetry'' then
          (case rest of [] \<Rightarrow> f = None | dev # q \<Rightarrow> device_shape q f)
        else if a = ''updates'' then update_shape x b rest f
        else if a = ''models'' then model_shape x b rest f
        else if a = ''log'' \<and> b = ''queen.log'' then rest = [] \<and> is_append_only f
        else True))"

definition outside :: "path \<Rightarrow> bool" where
  "outside p \<longleftrightarrow> p \<noteq> [] \<and> hd p \<notin> {''queen'', ''updates'', ''models'', ''log''}"

text \<open>
  The mounts a configuration may choose are outside the directories the server keeps for itself. With
  the content store on, the status files of the updates are switched off.
\<close>

definition mounts_ok :: "namespace \<Rightarrow> bool" where
  "mounts_ok s \<longleftrightarrow> outside (hn_mount_path (ns_host s)) \<and> outside (sbs_mount_path (ns_modbus s))
     \<and> outside (sbs_mount_path (ns_dnp3 s)) \<and> outside (sls_mount_path (ns_lora s))"

definition ns_wf :: "ns_ext \<Rightarrow> namespace \<Rightarrow> bool" where
  "ns_wf x s \<longleftrightarrow> nodes_ok (ns_shape x) [] (ns_root s) \<and> cas_inv (nx_cas x) (ns_cas s)
     \<and> (cc_enabled (cs_config (ns_cas s)) \<longrightarrow> \<not> ui_updates_status (ns_ui s)) \<and> mounts_ok s"

subsection \<open>How the tree grows\<close>

fun segment_path :: "path \<Rightarrow> bool" where
  "segment_path (a # b # _ # d # _ # _) \<longleftrightarrow> a = ''queen'' \<and> b = ''telemetry'' \<and> d = ''seg''"
| "segment_path _ \<longleftrightarrow> False"

definition latest_path :: "path \<Rightarrow> bool" where
  "latest_path p = (case p of [a, b, _, d] \<Rightarrow> a = ''queen'' \<and> b = ''telemetry'' \<and> d = ''latest'' | _ \<Rightarrow> False)"

text \<open>
  A directory stays a directory, an append-only file is extended, a read-only file keeps its bytes
  (the server's note of the latest telemetry segment apart), and every other file stays what it is.
\<close>

definition file_evolves :: "path \<Rightarrow> file_node option \<Rightarrow> file_node option \<Rightarrow> bool" where
  "file_evolves p f g = (case f of
     Some (AppendOnly d) \<Rightarrow> (case g of Some (AppendOnly e) \<Rightarrow> prefix d e | _ \<Rightarrow> False)
   | Some (Telemetry _) \<Rightarrow> (case g of Some (Telemetry _) \<Rightarrow> True | _ \<Rightarrow> False)
   | Some (ReadOnly _) \<Rightarrow> g = f \<or> latest_path p \<and> is_read_only g
   | _ \<Rightarrow> g = f)"

definition tree_evolves :: "path \<Rightarrow> node \<Rightarrow> node \<Rightarrow> bool" where
  "tree_evolves base n n' \<longleftrightarrow> (\<forall>q k. node_at q n = Some k \<longrightarrow> \<not> segment_path (base @ q) \<longrightarrow>
     (\<exists>k'. node_at q n' = Some k' \<and> file_evolves (base @ q) (node_file k) (node_file k')))"

definition ns_extends :: "namespace \<Rightarrow> namespace \<Rightarrow> bool" where
  "ns_extends s s' \<longleftrightarrow> tree_evolves [] (ns_root s) (ns_root s') \<and> cas_extends (ns_cas s) (ns_cas s')
     \<and> ns_shards s' = ns_shards s \<and> ns_ui s' = ns_ui s"

lemma file_evolves_refl: "file_evolves p f f"
  by (auto simp: file_evolves_def split: option.split file_node.split)

lemma file_evolves_trans: "file_evolves p f g \<Longrightarrow> file_evolves p g h \<Longrightarrow> file_evolves p f h"
  by (auto simp: file_evolves_def is_read_only_def split: option.splits file_node.splits intro: prefix_order.trans)

lemma tree_evolves_refl: "tree_evolves base n n"
  by (auto simp: tree_evolves_def file_evolves_refl)

lemma tree_evolves_trans: "tree_evolves base n m \<Longrightarrow> tree_evolves base m k \<Longrightarrow> tree_evolves base n k"
  unfolding tree_evolves_def by (meson file_evolves_trans)

interpretation tree: guarded "tree_evolves p" "nodes_ok (ns_shape x) p" for p x
  by unfold_locales (auto intro: tree_evolves_refl tree_evolves_trans)

interpretation ns: guarded ns_extends "ns_wf x" for x
  by unfold_locales
    (auto simp: ns_extends_def intro: tree_evolves_refl tree_evolves_trans cas_extends_refl cas_extends_trans)

lemma tree_evolves_put:
  assumes "node_at p n = Some m" and "tree_evolves p m m'"
  shows "tree_evolves [] n (put_node p m' n)"
  unfolding tree_evolves_def
proof (intro allI impI)
  fix q k assume k: "node_at q n = Some k" "\<not> segment_path ([] @ q)"
  show "\<exists>k'. node_at q (put_node p m' n) = Some k' \<and> file_evolves ([] @ q) (node_file k) (node_file k')"
  proof (cases rule: path_cases [of q p])
    case (below r)
    with k(1) assms(1) have "node_at r m = Some k" by (simp add: node_at_append)
    with assms(2) k(2) below obtain k' where "node_at r m' = Some k'" "file_evolves q (node_file k) (node_file k')"
      unfolding tree_evolves_def by fastforce
    with below assms(1) show ?thesis by (simp add: node_at_put_below)
  next
    case above
    then have "map_option node_file (node_at q (put_node p m' n)) = Some (node_file k)"
      using node_at_put_above [OF above, of m' n] k(1) by simp
    then obtain k' where "node_at q (put_node p m' n) = Some k'" "node_file k' = node_file k" by auto
    then show ?thesis by (simp add: file_evolves_refl)
  next
    case beside
    with k show ?thesis by (simp add: node_at_put_beside file_evolves_refl)
  qed
qed

lemma segment_path_append: "segment_path p \<Longrightarrow> segment_path (p @ q)"
  by (cases p rule: segment_path.cases) auto

lemma tree_evolves_children:
  assumes "node_file n' = node_file n"
    and "\<And>c m. node_child n c = Some m \<Longrightarrow> node_child n' c = Some m \<or> segment_path (p @ [c])"
  shows "tree_evolves p n n'"
  unfolding tree_evolves_def
proof (intro allI impI)
  fix q k assume k: "node_at q n = Some k" "\<not> segment_path (p @ q)"
  show "\<exists>k'. node_at q n' = Some k' \<and> file_evolves (p @ q) (node_file k) (node_file k')"
  proof (cases q)
    case (Cons c cs)
    with k(1) obtain m where m: "node_child n c = Some m" "node_at cs m = Some k" by (auto split: option.splits)
    have "segment_path (p @ [c]) \<Longrightarrow> segment_path (p @ c # cs)"
      using segment_path_append [of "p @ [c]" cs] by simp
    with assms(2) [OF m(1)] k(2) m(2) Cons show ?thesis by (auto simp: file_evolves_refl)
  qed (use k assms(1) in \<open>simp add: file_evolves_refl\<close>)
qed

subsection \<open>Operations on one node\<close>

lemma guarded_ensure_child:
  assumes "nodes_ok (ns_shape x) (p @ [name]) m" and "b \<Longrightarrow> \<forall>f. ns_shape x p f \<longrightarrow> f = None"
  shows "st_guarded b (nodes_ok (ns_shape x) p) (tree_evolves p) (ensure_child name m)"
  unfolding st_guarded_def
proof (intro allI impI conjI)
  fix n assume n: "nodes_ok (ns_shape x) p n"
  show "fst (ensure_child name m n) \<noteq> Err Panic" if b
  proof -
    have "node_file n = None" using assms(2) [OF that] nodes_ok_here [OF n] by blast
    then show ?thesis by (cases n) (auto simp: ensure_child_def)
  qed
  show "nodes_ok (ns_shape x) p (snd (ensure_child name m n))"
    by (rule nodes_ok_ensure_child [OF n assms(1)])
  show "tree_evolves p n (snd (ensure_child name m n))"
    by (rule tree_evolves_children) (auto simp: ensure_child_def bt_contains_def split: node.split)
qed

lemma guarded_ensure_file:
  "ns_shape x (p @ [name]) (Some f) \<Longrightarrow> (b \<Longrightarrow> \<forall>f. ns_shape x p f \<longrightarrow> f = None) \<Longrightarrow>
    st_guarded b (nodes_ok (ns_shape x) p) (tree_evolves p) (ensure_file name f)"
  unfolding ensure_file_def by (rule guarded_ensure_child) (auto intro: nodes_ok_leaf)

lemma guarded_ensure_directory:
  "ns_shape x (p @ [name]) None \<Longrightarrow> (b \<Longrightarrow> \<forall>f. ns_shape x p f \<longrightarrow> f = None) \<Longrightarrow>
    st_guarded b (nodes_ok (ns_shape x) p) (tree_evolves p) (ensure_directory name)"
  unfolding ensure_directory_def by (rule guarded_ensure_child) (auto intro: nodes_ok_leaf)

lemma guarded_remove_segment:
  "segment_path (p @ [name]) \<Longrightarrow> st_guarded b (nodes_ok (ns_shape x) p) (tree_evolves p) (remove_child name)"
  unfolding st_guarded_def
proof (intro allI impI conjI)
  fix n assume "segment_path (p @ [name])" and n: "nodes_ok (ns_shape x) p n"
  then show "tree_evolves p n (snd (remove_child name n))"
    by (intro tree_evolves_children; cases n) auto
  show "nodes_ok (ns_shape x) p (snd (remove_child name n))" by (rule nodes_ok_remove [OF n])
  show "fst (remove_child name n) \<noteq> Err Panic" by (cases n) auto
qed

lemma ns_shape_content:
  "ns_shape x p (Some (AppendOnly d)) = ns_shape x p (Some (AppendOnly e))"
  "ns_shape x p (Some (Telemetry t)) = ns_shape x p (Some (Telemetry u))"
  by (simp_all add: ns_shape_def device_shape_def update_shape_def model_shape_def is_append_only_def
      is_read_only_def is_chunk_file_def is_model_file_def split: list.split)

text \<open>An operation that at most extends an append-only file or changes a telemetry file.\<close>

lemma guarded_content:
  assumes "\<And>n. fst (f n) \<noteq> Err Panic"
    and "\<And>n. snd (f n) = n \<or> (\<exists>t u. n = FileNode (Telemetry t) \<and> snd (f n) = FileNode (Telemetry u))
      \<or> (\<exists>d e. n = FileNode (AppendOnly d) \<and> snd (f n) = FileNode (AppendOnly (d @ e)))"
  shows "st_guarded b (nodes_ok (ns_shape x) p) (tree_evolves p) f"
  unfolding st_guarded_def
proof (intro allI impI)
  fix n assume n: "nodes_ok (ns_shape x) p n"
  have leaf: "nodes_ok (ns_shape x) p (FileNode g') \<and> tree_evolves p (FileNode g) (FileNode g')"
    if "file_evolves p (Some g) (Some g')" and "ns_shape x p (Some g')" for g g'
  proof -
    have "node_at q (FileNode g) = Some k \<Longrightarrow> q = [] \<and> k = FileNode g" for q k by (cases q) auto
    with that show ?thesis by (fastforce simp: tree_evolves_def intro!: nodes_ok_leaf)
  qed
  have "nodes_ok (ns_shape x) p (snd (f n)) \<and> tree_evolves p n (snd (f n))"
    using assms(2) [of n]
  proof (elim disjE exE conjE)
    fix t u assume eq: "n = FileNode (Telemetry t)" "snd (f n) = FileNode (Telemetry u)"
    have "ns_shape x p (Some (Telemetry u))"
      using nodes_ok_here [OF n] ns_shape_content(2) [of x p t u] by (simp add: eq)
    then show ?thesis using leaf [of "Telemetry t" "Telemetry u"] by (simp add: eq(1) eq(2) [unfolded eq(1)] file_evolves_def)
  next
    fix d e assume eq: "n = FileNode (AppendOnly d)" "snd (f n) = FileNode (AppendOnly (d @ e))"
    have "ns_shape x p (Some (AppendOnly (d @ e)))"
      using nodes_ok_here [OF n] ns_shape_content(1) [of x p d "d @ e"] by (simp add: eq)
    then show ?thesis using leaf [of "AppendOnly d" "AppendOnly (d @ e)"] by (simp add: eq(1) eq(2) [unfolded eq(1)] file_evolves_def)
  qed (use n in \<open>simp add: tree_evolves_refl\<close>)
  with assms(1) [of n] show "(b \<longrightarrow> fst (f n) \<noteq> Err Panic) \<and> nodes_ok (ns_shape x) p (snd (f n)) \<and> tree_evolves p n (snd (f n))"
    by blast
qed

lemma guarded_append_node: "st_guarded b (nodes_ok (ns_shape x) p) (tree_evolves p) (append_node e data)"
  by (rule guarded_content) (auto simp: append_node_def split: node.splits file_node.splits)

lemma guarded_read_node: "st_guarded b (nodes_ok (ns_shape x) p) (tree_evolves p) (read_node k offset cnt)"
  by (rule guarded_content)
    (auto simp: read_node_def split: node.splits file_node.splits prod.splits sum.splits)

lemma guarded_write_node: "st_guarded b (nodes_ok (ns_shape x) p) (tree_evolves p) (write_node k path offset data)"
  by (rule guarded_content)
    (auto simp: write_node_def Let_def split: node.splits file_node.splits prod.splits sum.splits)

lemma guarded_look: "(\<And>n. snd (f n) = n \<and> fst (f n) \<noteq> Err Panic) \<Longrightarrow>
    st_guarded b (nodes_ok (ns_shape x) p) (tree_evolves p) f"
  by (rule guarded_content) auto

text \<open>Rewriting the server's note of the latest segment.\<close>

lemma guarded_replace_latest:
  assumes "latest_path (p @ [name])"
  shows "st_guarded True (nodes_ok (ns_shape x) p) (tree_evolves p)
    (st_then (remove_child name) (ensure_file name (ReadOnly d)))"
  unfolding st_guarded_def
proof (intro allI impI)
  fix n assume n: "nodes_ok (ns_shape x) p n"
  from assms obtain dev where p: "p = [''queen'', ''telemetry'', dev]" and name: "name = ''latest''"
    by (auto simp: latest_path_def append_eq_Cons_conv split: list.splits)
  from nodes_ok_here [OF n] obtain ch where ch: "n = Directory ch"
    by (cases n) (auto simp: p ns_shape_def device_shape_def)
  have run: "st_then (remove_child name) (ensure_file name (ReadOnly d)) n
      = (Ok (), Directory (bt_insert name (FileNode (ReadOnly d)) (bt_remove name ch)))"
    by (simp add: ch st_bind_def ensure_file_def ensure_child_def bt_contains_def)
  let ?n' = "Directory (bt_insert name (FileNode (ReadOnly d)) (bt_remove name ch))"
  have shape: "ns_shape x (p @ [name]) (Some (ReadOnly d))"
    by (simp add: p name ns_shape_def device_shape_def is_read_only_def)
  have ok: "nodes_ok (ns_shape x) p ?n'"
    using nodes_ok_leaf [of "ns_shape x" "p @ [name]" "FileNode (ReadOnly d)"] shape
    by (intro nodes_ok_children [OF n]) (auto simp: ch split: if_splits)
  have "tree_evolves p n ?n'"
    unfolding tree_evolves_def
  proof (intro allI impI)
    fix q k assume k: "node_at q n = Some k"
    show "\<exists>k'. node_at q ?n' = Some k' \<and> file_evolves (p @ q) (node_file k) (node_file k')"
    proof (cases "\<exists>r. q = name # r")
      case True
      then obtain r m where r: "q = name # r" "node_child n name = Some m" "node_at r m = Some k"
        using k by (auto split: option.splits)
      from nodes_ok_child [OF n r(2)] have "is_read_only (node_file m)"
        by (simp add: p name ns_shape_def device_shape_def)
      then have "r = []" "is_read_only (node_file k)" using r(3) by (cases m; cases r; auto simp: is_read_only_def)+
      with r(1) assms show ?thesis
        by (auto simp: file_evolves_def is_read_only_def split: option.splits file_node.splits)
    next
      case False
      then show ?thesis using k by (cases q) (auto simp: ch file_evolves_refl split: option.splits)
    qed
  qed
  with run ok show "(True \<longrightarrow> fst (st_then (remove_child name) (ensure_file name (ReadOnly d)) n) \<noteq> Err Panic)
    \<and> nodes_ok (ns_shape x) p (snd (st_then (remove_child name) (ensure_file name (ReadOnly d)) n))
    \<and> tree_evolves p n (snd (st_then (remove_child name) (ensure_file name (ReadOnly d)) n))"
    by simp
qed

subsection \<open>Operations of the namespace\<close>

lemma guarded_raw:
  assumes "st_guarded b (nodes_ok (ns_shape x) p) (tree_evolves p) f"
  shows "st_guarded b (ns_wf x) ns_extends (lookup_mut_raw p f)"
  unfolding st_guarded_def
proof (intro allI impI)
  fix s assume s: "ns_wf x s"
  show "(b \<longrightarrow> fst (lookup_mut_raw p f s) \<noteq> Err Panic) \<and> ns_wf x (snd (lookup_mut_raw p f s)) \<and>
    ns_extends s (snd (lookup_mut_raw p f s))"
  proof (cases "node_at p (ns_root s)")
    case None
    with s show ?thesis
      by (simp add: lookup_mut_raw_def on_root_def at_node_def ns.refl)
  next
    case (Some m)
    obtain r m' where f: "f m = (r, m')" by fastforce
    have "nodes_ok (ns_shape x) p m" using s Some by (auto simp: ns_wf_def intro: nodes_ok_sub)
    from st_guardedD [OF assms this f] have m': "(b \<longrightarrow> r \<noteq> Err Panic)" "nodes_ok (ns_shape x) p m'" "tree_evolves p m m'"
      by auto
    have run: "lookup_mut_raw p f s = (r, s\<lparr>ns_root := put_node p m' (ns_root s)\<rparr>)"
      by (simp add: lookup_mut_raw_def on_root_def at_node_def Some f)
    from s m' Some show ?thesis
      by (auto simp: run ns_wf_def mounts_ok_def ns_extends_def cas_extends_refl intro: nodes_ok_put tree_evolves_put)
  qed
qed

lemma guarded_other:
  assumes "\<And>s. fst (m s) \<noteq> Err Panic" and "\<And>s. ns_root (snd (m s)) = ns_root s" and "\<And>s. ns_cas (snd (m s)) = ns_cas s"
    and "\<And>s. ns_ui (snd (m s)) = ns_ui s" and "\<And>s. ns_shards (snd (m s)) = ns_shards s"
    and "\<And>s. mounts_ok s \<Longrightarrow> mounts_ok (snd (m s))"
  shows "st_guarded b (ns_wf x) ns_extends m"
  using assms by (simp add: st_guarded_def ns_wf_def ns_extends_def tree_evolves_refl cas_extends_refl)

lemma guarded_trace: "(\<And>t. fst (m t) \<noteq> Err Panic) \<Longrightarrow> st_guarded b (ns_wf x) ns_extends (on_trace m)"
  by (rule guarded_other) (simp_all add: on_trace_def mounts_ok_def split_beta)

lemma guarded_ingest: "(\<And>t. fst (m t) \<noteq> Err Panic) \<Longrightarrow> st_guarded b (ns_wf x) ns_extends (on_ingest m)"
  by (rule guarded_other) (simp_all add: on_ingest_def mounts_ok_def split_beta)

lemma guarded_cas:
  assumes "st_moves (cas_evolves (nx_cas x)) m" and "\<And>c. fst (m c) \<noteq> Err Panic"
  shows "st_guarded b (ns_wf x) ns_extends (on_cas m)"
  unfolding st_guarded_def
proof (intro allI impI)
  fix s assume s: "ns_wf x s"
  obtain r c where m: "m (ns_cas s) = (r, c)" by fastforce
  have "cas_evolves (nx_cas x) (ns_cas s) c" using st_movesD [OF assms(1) m] .
  with s have "cas_inv (nx_cas x) c" "cas_extends (ns_cas s) c" by (simp_all add: cas_evolves_def ns_wf_def)
  moreover have "r \<noteq> Err Panic" using assms(2) [of "ns_cas s"] by (simp add: m)
  ultimately show "(b \<longrightarrow> fst (on_cas m s) \<noteq> Err Panic) \<and> ns_wf x (snd (on_cas m s)) \<and> ns_extends s (snd (on_cas m s))"
    using s by (simp add: on_cas_def m ns_wf_def mounts_ok_def ns_extends_def tree_evolves_refl cas_extends_def)
qed

lemma no_panic_map_err [simp]: "fst (st_map_err Fail m s) \<noteq> Err Panic"
  by (auto simp: st_map_err_def map_err_def split: prod.split sum.split)

lemmas shape_defs = ns_shape_def device_shape_def update_shape_def model_shape_def is_append_only_def
  is_read_only_def is_chunk_file_def is_model_file_def

lemma guarded_dir_raw:
  "ns_shape x (p @ [name]) None \<Longrightarrow> (b \<Longrightarrow> \<forall>f. ns_shape x p f \<longrightarrow> f = None) \<Longrightarrow>
    st_guarded b (ns_wf x) ns_extends (ensure_dir_raw p name)"
  unfolding ensure_dir_raw_def by (intro guarded_raw guarded_ensure_directory)

lemma guarded_file_raw:
  "ns_shape x (p @ [name]) (Some f) \<Longrightarrow> (b \<Longrightarrow> \<forall>f. ns_shape x p f \<longrightarrow> f = None) \<Longrightarrow>
    st_guarded b (ns_wf x) ns_extends (ensure_file_raw p name f)"
  unfolding ensure_file_raw_def by (intro guarded_raw guarded_ensure_file)

lemma guarded_ingest_device: "st_guarded b (ns_wf x) ns_extends (ensure_telemetry_ingest_device dev)"
  unfolding ensure_telemetry_ingest_device_def ns_fail_def
  by (intro ns.guarded ns.guarded_seq)
    (auto intro!: guarded_dir_raw guarded_file_raw guarded_ingest simp: shape_defs st_defs)

lemma guarded_ingest_path: "st_guarded b (ns_wf x) ns_extends (ensure_telemetry_ingest_path p)"
  unfolding ensure_telemetry_ingest_path_def by (intro ns.guarded guarded_ingest_device)

lemma guarded_lookup_with:
  assumes "\<And>q. st_guarded b (ns_wf x) ns_extends (again q)"
    and "\<And>s :: namespace. st_guarded b (nodes_ok (ns_shape x) (resolve_path (nx_cas x) (ns_shards s) p))
      (tree_evolves (resolve_path (nx_cas x) (ns_shards s) p)) f"
  shows "st_guarded b (ns_wf x) ns_extends (lookup_mut_with x again p f)"
  unfolding lookup_mut_with_def Let_def
  by (intro ns.guarded guarded_ingest_path guarded_raw) (rule assms)+

lemma guarded_update_nodes:
  "st_guarded b (\<lambda>s. ns_wf x s \<and> \<not> ui_updates_status (ns_ui s)) ns_extends (ensure_cas_update_nodes x again epoch)"
proof -
  have seq: "st_guarded b (ns_wf x) ns_extends (st_seq
       [ensure_dir_raw [] ''updates'', ensure_dir_raw [''updates''] epoch,
        st_when c (ensure_file_raw [''updates'', epoch] ''manifest.cbor'' (CasManifestFile epoch)),
        st_when False m, ensure_dir_raw [''updates'', epoch] ''chunks''])" for c m
    by (intro ns.guarded_seq) (auto intro!: ns.guarded guarded_dir_raw guarded_file_raw simp: shape_defs)
  show ?thesis
    unfolding st_guarded_def
  proof (intro allI impI, elim conjE)
    fix s assume s: "ns_wf x s" "\<not> ui_updates_status (ns_ui s)"
    define m where "m = ensure_cas_update_nodes x again epoch s"
    have "(b \<longrightarrow> fst m \<noteq> Err Panic) \<and> ns_wf x (snd m) \<and> ns_extends s (snd m)"
      using seq s unfolding m_def ensure_cas_update_nodes_def st_read_def Let_def st_guarded_def by simp
    with s(2) show "(b \<longrightarrow> fst m \<noteq> Err Panic) \<and> (ns_wf x (snd m) \<and> \<not> ui_updates_status (ns_ui (snd m))) \<and> ns_extends s (snd m)"
      by (simp add: ns_extends_def)
  qed
qed

lemma cas_step_moves:
  "st_moves (cas_evolves x) (ensure_update epoch)" "st_moves (cas_evolves x) (ensure_model_entry d)"
  "st_moves (cas_evolves x) (append_manifest x epoch offset data)"
  "st_moves (cas_evolves x) (append_chunk x epoch d offset data)"
  "st_moves (cas_evolves x) (append_model_file x d kind offset data)"
  using cas_step_evolves [of x _ "EnsureUpdate epoch"] cas_step_evolves [of x _ "EnsureModelEntry d"]
    cas_step_evolves [of x _ "AppendManifest epoch offset data"] cas_step_evolves [of x _ "AppendChunk epoch d offset data"]
    cas_step_evolves [of x _ "AppendModelFile d kind offset data"]
  by (simp_all add: st_moves_def)

lemma guarded_ensure_update: "st_guarded b (ns_wf x) ns_extends (on_cas (st_map_err Fail (ensure_update epoch)))"
  by (intro guarded_cas cas.moves_map_err cas_step_moves no_panic_map_err)

text \<open>An update is only ensured when the content store is on, and then there are no status files.\<close>

lemma guarded_update:
  "st_guarded b (ns_wf x) ns_extends
    (st_then (on_cas (st_map_err Fail (ensure_update epoch))) (ensure_cas_update_nodes x again epoch))"
  unfolding st_guarded_def
proof (intro allI impI)
  let ?m = "on_cas (st_map_err Fail (ensure_update epoch)) :: unit ns_op"
  fix s assume s: "ns_wf x s"
  obtain r t where m: "?m s = (r, t)" by fastforce
  note 1 = st_guardedD [OF guarded_ensure_update [where b = b] s m]
  show "(b \<longrightarrow> fst (st_then ?m (ensure_cas_update_nodes x again epoch) s) \<noteq> Err Panic)
    \<and> ns_wf x (snd (st_then ?m (ensure_cas_update_nodes x again epoch) s))
    \<and> ns_extends s (snd (st_then ?m (ensure_cas_update_nodes x again epoch) s))"
  proof (cases r)
    case (Inr v)
    then have "cc_enabled (cs_config (ns_cas s))"
      using m by (auto simp: on_cas_def st_map_err_def ensure_update_def ensure_enabled_def map_err_def st_bind_def st_defs
          split: prod.splits sum.splits if_splits)
    with s 1 have t: "ns_wf x t" "\<not> ui_updates_status (ns_ui t)" by (auto simp: ns_wf_def ns_extends_def)
    obtain r' u where u: "ensure_cas_update_nodes x again epoch t = (r', u)" by fastforce
    from st_guardedD [OF guarded_update_nodes [where b = b and x = x] _ u] t
    have "(b \<longrightarrow> r' \<noteq> Err Panic) \<and> ns_wf x u \<and> ns_extends t u" by blast
    moreover from this 1 have "ns_extends s u" using ns.trans by blast
    ultimately show ?thesis using Inr m u by (simp add: st_bind_def)
  qed (use 1 m in \<open>auto simp: st_bind_def\<close>)
qed

lemma guarded_cas_nodes: "st_guarded b (ns_wf x) ns_extends (ensure_cas_nodes x again p)"
proof -
  have dir: "st_guarded b (ns_wf x) ns_extends (ensure_dir_raw [] name)" if "name = ''updates'' \<or> name = ''models''" for name
    using that by (intro guarded_dir_raw) (auto simp: shape_defs)
  have chunk: "st_guarded b (ns_wf x) ns_extends (ensure_cas_chunk_node x epoch d)" for epoch d
    unfolding ensure_cas_chunk_node_def by (intro guarded_file_raw) (auto simp: shape_defs)
  have model: "st_guarded b (ns_wf x) ns_extends
    (st_then (on_cas (st_map_err Fail (ensure_model_entry d))) (ensure_cas_model_nodes x d))" for d
    unfolding ensure_cas_model_nodes_def Let_def
    by (intro ns.guarded_bind guarded_cas cas.moves_map_err cas_step_moves no_panic_map_err ns.guarded_seq)
      (auto intro!: guarded_dir_raw guarded_file_raw simp: shape_defs)
  show ?thesis
    unfolding ensure_cas_nodes_def Let_def ns_fail_def
    by (cases p) (auto intro!: ns.guarded_read ns.guarded_basic dir chunk model guarded_update
        ns.guarded_bind [OF guarded_update chunk])
qed

lemma guarded_cas_path: "0 < stack \<or> \<not> b \<Longrightarrow> st_guarded b (ns_wf x) ns_extends (ensure_cas_path x stack p)"
proof (cases stack)
  case 0
  then show "0 < stack \<or> \<not> b \<Longrightarrow> ?thesis" by (simp add: ns.guarded_panic)
next
  case (Suc n)
  then show ?thesis
    by (simp add: ns_lift_def) (intro ns.guarded guarded_cas_nodes)
qed

lemma guarded_lookup_mut:
  assumes "0 < nx_stack x \<or> \<not> b"
    and "\<And>s :: namespace. st_guarded b (nodes_ok (ns_shape x) (resolve_path (nx_cas x) (ns_shards s) p))
      (tree_evolves (resolve_path (nx_cas x) (ns_shards s) p)) f"
  shows "st_guarded b (ns_wf x) ns_extends (lookup_mut x p f)"
  unfolding lookup_mut_def by (intro guarded_lookup_with guarded_cas_path assms)

lemma resolve_path_other [simp]: "p = [] \<or> hd p \<noteq> ''worker'' \<Longrightarrow> resolve_path x shards p = p"
  by (auto simp: resolve_path_def split: list.split)

lemma resolve_path_single [simp]: "resolve_path x shards [a] = [a]"
  by (simp add: resolve_path_def)

subsection \<open>Requests\<close>

lemma guarded_lookup: "0 < nx_stack x \<Longrightarrow> st_guarded b (ns_wf x) ns_extends (lookup x p)"
  unfolding lookup_def Let_def by (intro ns.guarded guarded_ingest_path guarded_cas_path) simp

lemma guarded_audit: "0 < nx_stack x \<Longrightarrow> st_guarded b (ns_wf x) ns_extends (record_telemetry_audit x a)"
  unfolding record_telemetry_audit_def Let_def
  by (intro ns.guarded_bind guarded_trace guarded_lookup_mut guarded_append_node) (auto simp: st_defs)

lemma guarded_audit_option: "0 < nx_stack x \<Longrightarrow> st_guarded b (ns_wf x) ns_extends (record_audit_option x a)"
  unfolding record_audit_option_def by (intro ns.guarded guarded_audit)

lemma guarded_flush: "0 < nx_stack x \<Longrightarrow> st_guarded b (ns_wf x) ns_extends (flush_cas_events x)"
proof -
  have drain: "st_moves (cas_evolves (nx_cas x)) (\<lambda>c. case drain_events c of (e, c') \<Rightarrow> (Ok e, c'))"
    using cas_step_evolves [of "nx_cas x" _ DrainEvents] by (auto simp: st_moves_def split_beta)
  show "0 < nx_stack x \<Longrightarrow> ?thesis"
    unfolding flush_cas_events_def append_cas_log_def
    by (intro ns.guarded_bind ns.guarded_for guarded_cas drain guarded_trace guarded_lookup_mut guarded_append_node)
      (auto simp: st_defs split_beta)
qed

lemma guarded_persist: "st_guarded b (ns_wf x) ns_extends (persist_option w e)"
  by (rule guarded_other) (auto simp: persist_option_def mounts_ok_def st_defs split: option.split)

text \<open>With the content store on there are no status files to refresh.\<close>

lemma guarded_refresh: "st_guarded b (ns_wf x) ns_extends (refresh_update_status x epoch)"
  unfolding refresh_update_status_def
  by (rule ns.guarded_read) (auto simp: ns_wf_def intro: ns.guarded_basic)

lemma guarded_listing: "0 < nx_stack x \<Longrightarrow> st_guarded b (ns_wf x) ns_extends (cas_directory_listing x p)"
proof -
  assume "0 < nx_stack x"
  then have l: "st_guarded b (ns_wf x) ns_extends
    (st_then (ensure_cas_path x (nx_stack x) p) (st_read (\<lambda>s. st_return (Some (f s)))))" for f :: "namespace \<Rightarrow> string list"
    by (intro ns.guarded guarded_cas_path) simp
  show ?thesis
    unfolding cas_directory_listing_def ns_lift_def Let_def
    by (intro ns.guarded_bind ns.guarded_basic ns.guarded_option) (auto split: cas_path.split intro: l ns.guarded_basic)
qed

lemma guarded_read_request: "0 < nx_stack x \<Longrightarrow> st_guarded b (ns_wf x) ns_extends (read x p offset cnt)"
proof -
  assume x: "0 < nx_stack x"
  have "st_guarded b (ns_wf x) ns_extends (read_path x p offset cnt)"
    unfolding read_path_def Let_def ns_lift_def ns_fail_def
    by (intro ns.guarded_read ns.guarded_bind guarded_lookup_mut guarded_read_node)
      (auto split: read_action.split intro!: ns.guarded guarded_audit_option guarded_persist simp: x)
  then show ?thesis
    unfolding read_def by (intro ns.guarded guarded_listing x)
qed

lemma sidecar_mount_path [simp]:
  "sidecar_bus_write p offset data k b = (r, b') \<Longrightarrow> sbs_mount_path b' = sbs_mount_path b"
  "sidecar_lora_write p offset data k l = (q, l') \<Longrightarrow> sls_mount_path l' = sls_mount_path l"
  by (auto simp: sidecar_bus_write_def sidecar_lora_write_def Let_def split: option.splits if_splits prod.splits
      sidecar_lora_file.splits sum.splits)

lemma guarded_sidecar: "st_guarded b (ns_wf x) ns_extends (write_sidecar p offset data)"
  unfolding write_sidecar_def Let_def
  by (intro ns.guarded_bind ns.guarded_option ns.guarded_basic guarded_other)
    (auto simp: map_err_def mounts_ok_def split: prod.split sum.split)

lemma guarded_perform: "st_guarded b (ns_wf x) ns_extends (perform_write x offset data action)"
  unfolding perform_write_def ns_lift_def
  by (auto split: write_action.split intro!: ns.guarded_basic guarded_trace guarded_cas cas_step_moves
      cas.moves_map_err append_manifest_no_panic append_model_file_no_panic no_panic_map_err)

lemma guarded_write_path: "0 < nx_stack x \<Longrightarrow> st_guarded b (ns_wf x) ns_extends (write_path x p offset data)"
proof -
  assume x: "0 < nx_stack x"
  have "st_guarded b (ns_wf x) ns_extends (refresh_after_write x w e)" for w e
    unfolding refresh_after_write_def
    by (intro ns.guarded_option ns.guarded_bind ns.guarded_try guarded_refresh ns.guarded_basic)
      (auto split: sum.split intro!: ns.guarded_basic)
  then show ?thesis
    unfolding write_path_def Let_def ns_lift_def
    by (intro ns.guarded_read ns.guarded_bind guarded_lookup_mut guarded_write_node ns.guarded_try guarded_perform
        guarded_audit_option ns.guarded_when guarded_persist guarded_flush ns.guarded_basic) (auto simp: x)
qed

lemma guarded_remove_file:
  "0 < nx_stack x \<Longrightarrow> st_guarded b (ns_wf x) ns_extends (remove_telemetry_ingest_segment x dev sid)"
  unfolding remove_telemetry_ingest_segment_def ns_fail_def
  by (intro ns.guarded_bind ns.guarded_if ns.guarded_basic guarded_lookup_mut)
    (auto simp: device_path_def intro!: guarded_remove_segment)

lemma guarded_ingest_ctl:
  "0 < nx_stack x \<Longrightarrow> st_guarded True (ns_wf x) ns_extends (write_telemetry_ingest_ctl x dev data)"
proof -
  assume x: "0 < nx_stack x"
  have "st_guarded True (ns_wf x) ns_extends (ensure_telemetry_ingest_segment x dev sid)" for sid
    unfolding ensure_telemetry_ingest_segment_def ensure_append_only_file_def
    by (intro guarded_lookup_mut guarded_ensure_file) (auto simp: x device_path_def shape_defs)
  moreover have "st_guarded True (ns_wf x) ns_extends (set_telemetry_ingest_latest x dev sid)" for sid
    unfolding set_telemetry_ingest_latest_def set_read_only_file_def
    by (intro guarded_lookup_mut guarded_replace_latest) (auto simp: x device_path_def latest_path_def)
  moreover have "st_guarded True (ns_wf x) ns_extends
      (on_ingest (st_map_err (\<lambda>e. Fail (map_telemetry_ingest_error e)) (\<lambda>st. create_segment st dev)))"
    by (rule guarded_ingest) (auto simp: st_map_err_def map_err_def split: prod.split sum.split)
  ultimately have "st_guarded True (ns_wf x) ns_extends (ingest_ctl_line x dev line)" for line
    unfolding ingest_ctl_line_def ns_lift_def ns_fail_def Let_def
    by (auto intro!: ns.guarded_if ns.guarded_bind ns.guarded_basic ns.guarded_seq ns.guarded_for
        guarded_remove_file simp: x split: prod.split)
  then show ?thesis
    unfolding write_telemetry_ingest_ctl_def ns_fail_def
    by (intro ns.guarded_bind guarded_ingest_device guarded_lookup_mut guarded_append_node ns.guarded_option
        ns.guarded_for ns.guarded_basic) (auto simp: x)
qed

lemma guarded_ingest_segment:
  "0 < nx_stack x \<Longrightarrow> st_guarded b (ns_wf x) ns_extends (write_telemetry_ingest_segment x dev sid offset data)"
proof -
  assume x: "0 < nx_stack x"
  have room: "st_guarded b (ns_wf x) ns_extends (lookup_mut x p (segment_room k q))" for p k q
    by (intro guarded_lookup_mut guarded_look) (auto simp: x segment_room_def split: node.splits file_node.splits)
  have app: "st_guarded b (ns_wf x) ns_extends (lookup_mut x p (append_node e d))" for p e d
    by (intro guarded_lookup_mut guarded_append_node) (simp add: x)
  have rec: "st_guarded b (ns_wf x) ns_extends
      (on_ingest (st_map_err (\<lambda>e. Fail (map_telemetry_ingest_error e)) (\<lambda>st. append_record st dev sid n)))" for n
    by (rule guarded_ingest) (auto simp: st_map_err_def map_err_def split: prod.split sum.split)
  show ?thesis
    unfolding write_telemetry_ingest_segment_def ns_lift_def ns_fail_def Let_def
    by (auto intro!: ns.guarded_if ns.guarded_read ns.guarded_bind ns.guarded_basic ns.guarded_for
        guarded_remove_file room app rec simp: x split: prod.split)
qed

lemma guarded_write: "0 < nx_stack x \<Longrightarrow> st_guarded True (ns_wf x) ns_extends (write_append x p offset data)"
  unfolding write_append_def
  by (intro ns.guarded_bind ns.guarded_option ns.guarded_read ns.guarded_if guarded_sidecar ns.guarded_basic
      guarded_ingest_ctl guarded_write_path)
    (auto intro: guarded_ingest_segment guarded_write_path split: option.split)

subsection \<open>Start-up\<close>

lemma shape_outside: "outside p \<Longrightarrow> ns_shape x p f"
  by (cases p) (auto simp: outside_def ns_shape_def split: list.split)

lemma outside_append: "outside p \<Longrightarrow> outside (p @ q)"
  by (simp add: outside_def)

lemma outside_resolve: "outside p \<Longrightarrow> outside (resolve_path y shards p)"
  by (auto simp: outside_def resolve_path_def worker_root_def worker_parent_def legacy_worker_alias_enabled_def
      split: list.splits)

lemma boot_ensure:
  assumes "outside p \<or> (p = [] \<or> hd p \<noteq> ''worker'') \<and> ns_shape x (p @ [name]) (node_file m)"
    and "node_file m \<noteq> None \<or> m = Directory []"
  shows "st_guarded False (ns_wf x) ns_extends (lookup_mut x p (ensure_child name m))"
proof (rule guarded_lookup_mut)
  fix s :: namespace
  let ?p = "resolve_path (nx_cas x) (ns_shards s) p"
  have "ns_shape x (?p @ [name]) (node_file m)"
    using assms(1) outside_resolve [of p] shape_outside [OF outside_append] by auto
  then show "st_guarded False (nodes_ok (ns_shape x) ?p) (tree_evolves ?p) (ensure_child name m)"
    using assms(2) by (intro guarded_ensure_child nodes_ok_leaf) auto
qed simp

lemma boot_dir:
  "outside p \<or> (p = [] \<or> hd p \<noteq> ''worker'') \<and> ns_shape x (p @ [name]) None \<Longrightarrow>
    st_guarded False (ns_wf x) ns_extends (ensure_dir x p name)"
  unfolding ensure_dir_def ensure_directory_def by (intro boot_ensure) auto

lemma boot_file:
  "outside p \<or> (p = [] \<or> hd p \<noteq> ''worker'') \<and> ns_shape x (p @ [name]) (Some f) \<Longrightarrow>
    st_guarded False (ns_wf x) ns_extends (lookup_mut x p (ensure_file name f))"
  unfolding ensure_file_def by (intro boot_ensure) auto

lemma boot_read_only:
  "outside p \<Longrightarrow> st_guarded False (ns_wf x) ns_extends (ensure_read_only_file x p name d)"
  unfolding ensure_read_only_file_def by (intro boot_file) auto

lemma boot_append_only:
  "outside p \<or> (p = [] \<or> hd p \<noteq> ''worker'') \<and> ns_shape x (p @ [name]) (Some (AppendOnly d)) \<Longrightarrow>
    st_guarded False (ns_wf x) ns_extends (ensure_append_only_file x p name d)"
  unfolding ensure_append_only_file_def by (rule boot_file)

lemma boot_read_only_files: "outside p \<Longrightarrow> st_guarded False (ns_wf x) ns_extends (read_only_files x p names)"
  unfolding read_only_files_def by (intro ns.guarded_for boot_read_only)

lemma boot_dir_steps:
  "outside (current @ cs) \<Longrightarrow> current = [] \<or> outside current \<Longrightarrow>
    st_guarded False (ns_wf x) ns_extends (ensure_dir_steps x current cs)"
proof (induction cs arbitrary: current)
  case (Cons c cs)
  then have "outside (current @ [c])" by (auto simp: outside_def)
  with Cons show ?case
    by (auto intro!: ns.guarded_bind boot_dir shape_outside)
qed (simp add: ns.guarded_basic)

lemma boot_dir_path: "outside p \<Longrightarrow> st_guarded False (ns_wf x) ns_extends (ensure_dir_path x p)"
  unfolding ensure_dir_path_def by (rule boot_dir_steps) auto

lemmas boot = ns.guarded_basic ns.guarded_bind ns.guarded_for ns.guarded_seq ns.guarded_when ns.guarded_if
  boot_dir boot_read_only boot_append_only boot_read_only_files boot_dir_path

lemma boot_bus: "outside (sbs_mount_path b) \<Longrightarrow> st_guarded False (ns_wf x) ns_extends (bus_bootstrap x b)"
  unfolding bus_bootstrap_def Let_def by (auto intro!: boot dest: outside_append)

lemma boot_lora: "outside (sls_mount_path b) \<Longrightarrow> st_guarded False (ns_wf x) ns_extends (lora_bootstrap x b)"
  unfolding lora_bootstrap_def Let_def by (auto intro!: boot dest: outside_append)

lemma boot_host: "outside p \<Longrightarrow>
   st_guarded False (ns_wf x) ns_extends (install_host_systemd x p) \<and>
   st_guarded False (ns_wf x) ns_extends (install_host_k8s x p) \<and>
   st_guarded False (ns_wf x) ns_extends (install_host_docker x p) \<and>
   st_guarded False (ns_wf x) ns_extends (install_host_nvidia x p)"
  unfolding install_host_systemd_def install_host_k8s_def install_host_docker_def install_host_nvidia_def Let_def
  by (auto intro!: boot dest: outside_append)

lemma boot_namespace: "st_guarded False (ns_wf x) ns_extends (bootstrap x)"
proof -
  have proc: "st_guarded False (ns_wf x) ns_extends (bootstrap_proc x)"
    unfolding bootstrap_proc_def by (rule ns.guarded_seq) (auto intro!: boot simp: outside_def shape_defs)
  have queen: "st_guarded False (ns_wf x) ns_extends (bootstrap_queen x)"
    unfolding bootstrap_queen_def
    by (intro ns.guarded_read ns.guarded_seq) (auto intro!: boot simp: outside_def shape_defs)
  have workers: "st_guarded False (ns_wf x) ns_extends (bootstrap_workers x)"
    unfolding bootstrap_workers_def
    by (intro ns.guarded_read) (auto intro!: boot simp: outside_def shape_defs)
  have gpu: "st_guarded False (ns_wf x) ns_extends (ensure_gpu_bridge x)"
    unfolding ensure_gpu_bridge_def by (rule ns.guarded_seq) (auto intro!: boot simp: outside_def shape_defs)
  have sidecars: "st_guarded False (ns_wf x) ns_extends (bootstrap_sidecars x)"
    unfolding bootstrap_sidecars_def
    by (intro ns.guarded_read) (auto intro!: ns.guarded_seq boot_bus boot_lora simp: ns_wf_def mounts_ok_def)
  have host: "st_guarded False (ns_wf x) ns_extends (bootstrap_host x)"
    unfolding bootstrap_host_def Let_def
    by (intro ns.guarded_read)
      (auto intro!: ns.guarded_bind ns.guarded_for boot_dir_path boot_dir simp: boot_host ns_wf_def mounts_ok_def
        split: host_provider.split)
  have mounts: "st_guarded False (ns_wf x) ns_extends (bootstrap_policy x)"
    "st_guarded False (ns_wf x) ns_extends (bootstrap_audit x)" "st_guarded False (ns_wf x) ns_extends (bootstrap_replay x)"
    unfolding bootstrap_policy_def bootstrap_audit_def bootstrap_replay_def Let_def
    by (intro ns.guarded_read; auto intro!: boot simp: outside_def shape_defs)+
  show ?thesis
    unfolding bootstrap_def
    by (intro ns.guarded_expect ns.guarded_read ns.guarded_seq)
      (auto intro!: proc queen workers gpu sidecars host mounts boot boot_file simp: outside_def shape_defs)
qed

definition config_ok :: "namespace_config \<Rightarrow> bool" where
  "config_ok c \<longleftrightarrow> outside (hn_mount_path (nc_host c))
     \<and> outside (sbc_mount_path (sn_modbus (nc_sidecars c))) \<and> outside (sbc_mount_path (sn_dnp3 (nc_sidecars c)))
     \<and> outside (slc_mount_path (sn_lora (nc_sidecars c)))
     \<and> cc_chunk_bytes (nc_cas c) * CAS_MAX_CHUNKS < u64_max
     \<and> (cc_enabled (nc_cas c) \<longrightarrow> \<not> ui_updates_status (nc_ui c))"

lemma ns_wf_empty: "config_ok c \<Longrightarrow> ns_wf x (empty_namespace x c)"
  using nodes_ok_leaf [of "ns_shape x" "[]" "Directory []"] cas_new_inv [of "nc_cas c" "nx_cas x"]
  by (simp add: config_ok_def ns_wf_def mounts_ok_def empty_namespace_def Let_def sidecar_bus_new_def sidecar_lora_new_def
      ns_shape_def cas_store_new_def)

lemma ns_wf_new: "config_ok c \<Longrightarrow> namespace_new x c = (r, s) \<Longrightarrow> ns_wf x s"
  unfolding namespace_new_def using st_guardedD [OF boot_namespace ns_wf_empty] by blast

subsection \<open>Runs\<close>

text \<open>A run of requests, each at its own time: walks and opens look a path up, the others read or write.\<close>

datatype request_op = ReqLookup path | ReqRead path nat nat | ReqWrite path nat bytes

fun ns_step :: "ns_ext \<Rightarrow> namespace \<Rightarrow> nat \<times> request_op \<Rightarrow> namespace" where
  "ns_step x s (now, ReqLookup p) = snd (lookup (x\<lparr>nx_now_ms := now\<rparr>) p s)"
| "ns_step x s (now, ReqRead p offset cnt) = snd (read (x\<lparr>nx_now_ms := now\<rparr>) p offset cnt s)"
| "ns_step x s (now, ReqWrite p offset data) = snd (write_append (x\<lparr>nx_now_ms := now\<rparr>) p offset data s)"

definition ns_run :: "ns_ext \<Rightarrow> namespace \<Rightarrow> (nat \<times> request_op) list \<Rightarrow> namespace" where
  "ns_run x = foldl (ns_step x)"

lemma ns_wf_now [simp]: "ns_wf (x\<lparr>nx_now_ms := now\<rparr>) s = ns_wf x s"
proof -
  have "is_chunk_file (x\<lparr>nx_now_ms := now\<rparr>) = is_chunk_file x" "is_model_file (x\<lparr>nx_now_ms := now\<rparr>) = is_model_file x"
    by (intro ext, simp add: is_chunk_file_def is_model_file_def split: option.split file_node.split)+
  then have "ns_shape (x\<lparr>nx_now_ms := now\<rparr>) = ns_shape x"
    by (intro ext) (simp only: ns_shape_def update_shape_def model_shape_def)
  then show ?thesis by (simp add: ns_wf_def)
qed

lemma ns_step_wf: "0 < nx_stack x \<Longrightarrow> ns_wf x s \<Longrightarrow> ns_wf x (ns_step x s r) \<and> ns_extends s (ns_step x s r)"
proof -
  assume x: "0 < nx_stack x" and s: "ns_wf x s"
  obtain now q where r: "r = (now, q)" by fastforce
  let ?x = "x\<lparr>nx_now_ms := now\<rparr>"
  have "0 < nx_stack ?x" "ns_wf ?x s" using x s by simp_all
  then show ?thesis
    using guarded_lookup [of ?x True] guarded_read_request [of ?x True] guarded_write [of ?x]
    by (cases q) (auto simp: r st_guarded_def)
qed

lemma ns_run_wf: "0 < nx_stack x \<Longrightarrow> ns_wf x s \<Longrightarrow> ns_wf x (ns_run x s rs) \<and> ns_extends s (ns_run x s rs)"
proof (induction rs arbitrary: s)
  case (Cons r rs)
  have step: "ns_wf x (ns_step x s r)" "ns_extends s (ns_step x s r)"
    using ns_step_wf [OF Cons.prems] by auto
  from Cons.IH [OF Cons.prems(1) step(1)]
  have "ns_wf x (ns_run x s (r # rs))" "ns_extends (ns_step x s r) (ns_run x s (r # rs))"
    by (simp_all add: ns_run_def)
  with ns.trans [OF step(2)] show ?case by blast
qed (simp add: ns_run_def ns.refl)

text \<open>
  C2: The namespace is well typed and requests do not make the server panic. Whatever the
  configuration (with its mounts outside the server's own directories and no status files
  beside a content store), after the start-up and any run of walks, reads and writes every node
  below \<open>/queen/telemetry\<close>, \<open>/updates\<close>, \<open>/models\<close> and the queen's log is a directory or a file of
  the kind its path says, a chunk file stands under the name of its digest, and the next request of
  any kind ends without a panic.
\<close>

theorem namespace_requests_well_typed:
  assumes "config_ok c" and "0 < nx_stack x" and "namespace_new x c = (Inr (), s)"
  shows "nodes_ok (ns_shape x) [] (ns_root (ns_run x s rs))
    \<and> fst (lookup x p (ns_run x s rs)) \<noteq> Inl Panic
    \<and> fst (read x p offset cnt (ns_run x s rs)) \<noteq> Inl Panic
    \<and> fst (write_append x p offset data (ns_run x s rs)) \<noteq> Inl Panic"
proof -
  have wf: "ns_wf x (ns_run x s rs)"
    using ns_run_wf [OF assms(2) ns_wf_new [OF assms(1,3)]] by blast
  then show ?thesis
    using guarded_lookup [OF assms(2), of True] guarded_read_request [OF assms(2), of True] guarded_write [OF assms(2)]
    by (auto simp: st_guarded_def ns_wf_def)
qed


subsection \<open>Sample configuration\<close>

text \<open>Lookups of the paths that neither the telemetry devices nor the content store create.\<close>

definition plain_path :: "path \<Rightarrow> bool" where
  "plain_path p \<longleftrightarrow> p = [] \<or> hd p \<notin> {''worker'', ''updates'', ''models''} \<and> telemetry_ingest_device_root p = None"

lemma lookup_plain:
  assumes "0 < nx_stack x" and "plain_path p"
  shows "lookup_mut x p f s = lookup_mut_raw p f s"
proof -
  obtain n where n: "nx_stack x = Suc n" using assms(1) by (cases "nx_stack x") auto
  have "parse_cas_path (nx_cas x) p = Ok None"
    using assms(2) by (auto simp: parse_cas_path_def plain_path_def split: list.splits)
  moreover have "telemetry_ingest_device_root p = None"
    using assms(2) by (auto simp: plain_path_def telemetry_ingest_device_root_def)
  moreover have "resolve_path (nx_cas x) (ns_shards s) p = p" using assms(2) by (auto simp: plain_path_def)
  ultimately show ?thesis
    by (simp add: lookup_mut_def lookup_mut_with_def n ensure_telemetry_ingest_path_def st_read_def Let_def ns_lift_def
        st_bind_def st_lift_def st_return_def map_err_def)
qed

lemma raw_run:
  "lookup_mut_raw p f s = (case node_at p (ns_root s) of
     None \<Rightarrow> (Err (Fail (path_not_found p)), s)
   | Some m \<Rightarrow> (case f m of (r, m') \<Rightarrow> (r, s\<lparr>ns_root := put_node p m' (ns_root s)\<rparr>)))"
  by (simp add: lookup_mut_raw_def on_root_def at_node_def split: option.split prod.split)

lemmas ns_eval = st_seq_def st_bind_def st_return_def st_read_def st_when_def st_map_err_def map_err_def
  ensure_dir_def ensure_read_only_file_def ensure_append_only_file_def read_only_files_def lookup_plain plain_path_def
  telemetry_ingest_device_root_def raw_run Let_def ensure_directory_def ensure_file_def ensure_child_def bt_contains_def

definition sample_ns_ext :: ns_ext where
  "sample_ns_ext =
     \<lparr>nx_cas = sample_ext, nx_now_ms = 0, nx_stack = 1, nx_hash_path = (\<lambda>_. 0), nx_parse_ctl = (\<lambda>_. Err []),
      nx_parse_trace = (\<lambda>_. Err []), nx_selftest_quick = [], nx_selftest_full = [], nx_selftest_negative = []\<rparr>"

definition sample_ns_config :: namespace_config where
  "sample_ns_config = namespace_config_default\<lparr>nc_shards := layout_disabled\<rparr>"

lemmas boot_eval = ns_eval namespace_new_def bootstrap_def bootstrap_proc_def bootstrap_queen_def bootstrap_workers_def
  ensure_gpu_bridge_def bootstrap_sidecars_def bus_bootstrap_def lora_bootstrap_def
  empty_namespace_def sample_ns_ext_def sample_ns_config_def namespace_config_default_def cas_store_new_def cas_disabled_def
  layout_disabled_def ingest_new_def ingest_config_default_def ingest_enabled_def host_disabled_def sidecars_disabled_def
  sidecar_bus_disabled_def sidecar_lora_disabled_def sidecar_bus_new_def sidecar_lora_new_def mount_disabled_def

lemma sample_boot_ok: "fst (namespace_new sample_ns_ext sample_ns_config) = Ok ()"
  by (simp add: boot_eval)

lemma sample_boot: "namespace_new sample_ns_ext sample_ns_config = (Ok (), snd (namespace_new sample_ns_ext sample_ns_config))"
  by (simp add: prod_eq_iff sample_boot_ok)

lemma sample_boot_log:
  "node_at [''log'', ''queen.log''] (ns_root (snd (namespace_new sample_ns_ext sample_ns_config)))
    = Some (FileNode (AppendOnly boot_text))"
  by (simp add: boot_eval)

lemma sample_config_ok: "config_ok sample_ns_config"
  by (simp add: config_ok_def sample_ns_config_def namespace_config_default_def outside_def host_disabled_def
      sidecars_disabled_def sidecar_bus_disabled_def sidecar_lora_disabled_def cas_disabled_def u64_max_def)

lemma sample_stack: "0 < nx_stack sample_ns_ext"
  by (simp add: sample_ns_ext_def)

theorem namespace_requests_well_typed_witness:
  "fst (write_append sample_ns_ext [''log'', ''queen.log''] 0 [1]
     (ns_run sample_ns_ext (snd (namespace_new sample_ns_ext sample_ns_config)) [(3, ReqRead [''proc''] 0 9)])) \<noteq> Inl Panic"
  by (rule namespace_requests_well_typed [OF sample_config_ok sample_stack sample_boot, THEN conjunct2, THEN conjunct2,
        THEN conjunct2])


section \<open>The status files of an update\<close>

lemma raw_ensure:
  assumes "nodes_ok (ns_shape x) [] (ns_root s)" and "node_at p (ns_root s) = Some n"
    and "\<forall>f. ns_shape x p f \<longrightarrow> f = None"
    and "ns_shape x (p @ [name]) (node_file m)" and "node_file m \<noteq> None \<or> m = Directory []"
  obtains root k where "lookup_mut_raw p (ensure_child name m) s = (Ok (), s\<lparr>ns_root := root\<rparr>)"
    and "nodes_ok (ns_shape x) [] root" and "node_at (p @ [name]) root = Some k"
proof -
  let ?n = "snd (ensure_child name m n)" and ?root = "put_node p (snd (ensure_child name m n)) (ns_root s)"
  have n: "nodes_ok (ns_shape x) p n" using assms(1,2) by (rule nodes_ok_sub)
  then have dir: "node_is_directory n" using nodes_ok_here assms(3) node_file_dir by blast
  then have run: "ensure_child name m n = (Ok (), ?n)" by (cases n) (auto simp: ensure_child_def)
  have "lookup_mut_raw p (ensure_child name m) s = (Ok (), s\<lparr>ns_root := ?root\<rparr>)"
    using assms(2) run by (simp add: raw_run split_beta prod_eq_iff)
  moreover have "nodes_ok (ns_shape x) [] ?root"
    using assms nodes_ok_leaf n by (intro nodes_ok_put nodes_ok_ensure_child) auto
  moreover have "node_at (p @ [name]) ?root = node_at [name] ?n"
    by (rule node_at_put_below) (simp add: assms(2))
  moreover have "\<exists>k. node_at [name] ?n = Some k"
    using dir by (cases n) (auto simp: ensure_child_def bt_contains_def split: option.split)
  ultimately show ?thesis using that by metis
qed

definition update_admitted :: "string \<Rightarrow> cas_store \<Rightarrow> bool" where
  "update_admitted epoch c \<longleftrightarrow> cc_enabled (cs_config c) \<and> validate_epoch epoch = Ok ()
     \<and> (bt_contains (cs_updates c) epoch \<or> length (cs_updates c) < CAS_MAX_UPDATES)"

lemma ensure_update_admitted:
  "update_admitted epoch c \<Longrightarrow> \<exists>c'. ensure_update epoch c = (Ok (), c') \<and> update_admitted epoch c'"
  by (auto simp: update_admitted_def ensure_update_def ensure_enabled_def ensure_epoch_def st_bind_def st_defs
      set_bundle_def bt_contains_def)

definition status_loop :: "ns_ext \<Rightarrow> string \<Rightarrow> namespace \<Rightarrow> bool" where
  "status_loop x epoch s \<longleftrightarrow> nodes_ok (ns_shape x) [] (ns_root s) \<and> ui_updates_status (ns_ui s)
     \<and> update_admitted epoch (ns_cas s)"

lemma update_nodes_overflow:
  assumes "\<And>t. status_loop x epoch t \<Longrightarrow> fst (again [''updates'', epoch] t) = Err Panic" and "status_loop x epoch s"
  shows "fst (ensure_cas_update_nodes x again epoch s) = Err Panic"
proof -
  have root: "nodes_ok (ns_shape x) [] (ns_root s)" and ui: "ui_updates_status (ns_ui s)"
    and adm: "update_admitted epoch (ns_cas s)"
    using assms(2) by (auto simp: status_loop_def)
  obtain r1 k1 where 1: "ensure_dir_raw [] ''updates'' s = (Ok (), s\<lparr>ns_root := r1\<rparr>)"
      "nodes_ok (ns_shape x) [] r1" "node_at [''updates''] r1 = Some k1"
    unfolding ensure_dir_raw_def ensure_directory_def
    by (rule raw_ensure [OF root, of "[]" "ns_root s" "''updates''" "Directory []"]) (simp_all add: shape_defs)
  obtain r2 k2 where 2: "ensure_dir_raw [''updates''] epoch (s\<lparr>ns_root := r1\<rparr>) = (Ok (), s\<lparr>ns_root := r2\<rparr>)"
      "nodes_ok (ns_shape x) [] r2" "node_at [''updates'', epoch] r2 = Some k2"
    unfolding ensure_dir_raw_def ensure_directory_def
    by (rule raw_ensure [of x "s\<lparr>ns_root := r1\<rparr>" "[''updates'']" k1 epoch "Directory []"]) (use 1 in \<open>simp_all add: shape_defs\<close>)
  obtain r3 where 3: "st_when (ui_updates_manifest (ns_ui s))
        (ensure_file_raw [''updates'', epoch] ''manifest.cbor'' (CasManifestFile epoch)) (s\<lparr>ns_root := r2\<rparr>)
      = (Ok (), s\<lparr>ns_root := r3\<rparr>)" "nodes_ok (ns_shape x) [] r3"
  proof (cases "ui_updates_manifest (ns_ui s)")
    case True
    show ?thesis
      by (rule raw_ensure [of x "s\<lparr>ns_root := r2\<rparr>" "[''updates'', epoch]" k2 "''manifest.cbor''" "FileNode (CasManifestFile epoch)"])
        (use 2 True that in \<open>simp_all add: shape_defs st_when_def ensure_file_raw_def ensure_file_def\<close>)
  qed (use 2 that in \<open>simp add: st_when_def st_return_def\<close>)
  have "status_loop x epoch (s\<lparr>ns_root := r3\<rparr>)" using 3(2) ui adm by (simp add: status_loop_def)
  from assms(1) [OF this] have "fst (lookup_mut_with x again [''updates'', epoch] f (s\<lparr>ns_root := r3\<rparr>)) = Err Panic" for f :: "unit node_op"
    by (cases "again [''updates'', epoch] (s\<lparr>ns_root := r3\<rparr>)")
      (simp add: lookup_mut_with_def st_read_def Let_def ensure_telemetry_ingest_path_def telemetry_ingest_device_root_def
        st_bind_def st_return_def)
  then have "fst (st_seq [lookup_mut_with x again [''updates'', epoch] f, g] (s\<lparr>ns_root := r3\<rparr>)) = Err Panic" for f g
    by (simp add: st_seq_def st_bind_def split_beta)
  then show ?thesis
    using 1(1) 2(1) 3(1) ui
    by (simp add: ensure_cas_update_nodes_def st_read_def Let_def st_seq_def st_bind_def st_when_def split_beta split: sum.split)
qed

lemma cas_nodes_overflow:
  assumes "\<And>t. status_loop x epoch t \<Longrightarrow> fst (again [''updates'', epoch] t) = Err Panic" and "status_loop x epoch s"
    and "p \<in> {UpdateEpoch epoch, UpdateManifest epoch, UpdateStatus epoch v, UpdateChunks epoch, UpdateChunk epoch d}"
  shows "fst (ensure_cas_nodes x again p s) = Err Panic"
proof -
  from assms(2) obtain c where c: "ensure_update epoch (ns_cas s) = (Ok (), c)" "update_admitted epoch c"
    using ensure_update_admitted by (auto simp: status_loop_def)
  have "status_loop x epoch (s\<lparr>ns_cas := c\<rparr>)" using assms(2) c(2) by (simp add: status_loop_def)
  from update_nodes_overflow [of x epoch again, OF assms(1) this]
  have "fst (st_then (on_cas (st_map_err Fail (ensure_update epoch))) (ensure_cas_update_nodes x again epoch) s) = Err Panic"
    by (simp add: st_bind_def on_cas_def st_map_err_def map_err_def c(1))
  moreover from this have "fst (st_then (st_then (on_cas (st_map_err Fail (ensure_update epoch)))
      (ensure_cas_update_nodes x again epoch)) g s) = Err Panic" for g :: "unit ns_op"
    by (simp add: st_bind_def [of "st_then _ _"] split_beta)
  ultimately show ?thesis using assms(3) by (auto simp: ensure_cas_nodes_def Let_def)
qed

lemma parse_update_cases:
  "parse_cas_path y (''updates'' # epoch # rest) = Ok (Some p) \<Longrightarrow>
    \<exists>v d. p \<in> {UpdateEpoch epoch, UpdateManifest epoch, UpdateStatus epoch v, UpdateChunks epoch, UpdateChunk epoch d}"
  by (auto simp: parse_cas_path_def parse_update_path_def outcome_splits split: list.splits if_splits)

lemma cas_path_overflow:
  assumes "status_loop x epoch s" and "parse_cas_path (nx_cas x) (''updates'' # epoch # rest) = Ok (Some p)"
  shows "fst (ensure_cas_path x stack (''updates'' # epoch # rest) s) = Err Panic"
  using assms
proof (induction stack arbitrary: s rest p)
  case (Suc stack)
  from Suc.prems(2) have "validate_epoch epoch = Ok ()"
    by (auto simp: parse_cas_path_def outcome_splits split: list.splits)
  then have "parse_cas_path (nx_cas x) [''updates'', epoch] = Ok (Some (UpdateEpoch epoch))"
    by (simp add: parse_cas_path_def parse_update_path_def)
  from Suc.IH [OF _ this] have again: "status_loop x epoch t \<Longrightarrow> fst (ensure_cas_path x stack [''updates'', epoch] t) = Err Panic" for t .
  from parse_update_cases [OF Suc.prems(2)] obtain v d
    where "p \<in> {UpdateEpoch epoch, UpdateManifest epoch, UpdateStatus epoch v, UpdateChunks epoch, UpdateChunk epoch d}" by blast
  from cas_nodes_overflow [of x epoch "ensure_cas_path x stack", OF again Suc.prems(1) this] Suc.prems(2) show ?case
    by (simp add: st_bind_def ns_lift_def st_lift_def map_err_def)
qed (simp add: st_fail_def)

text \<open>
  C37: A lookup below an update never returns when the status files are served. With the content store
  and the status provider on, creating the nodes of an update looks the same update up again, so the
  lookup of any path of an update that the store admits exhausts the stack, however large it is. Both
  are on in the default configuration of the providers.
\<close>

theorem update_lookup_exhausts_stack:
  assumes "cc_enabled (cs_config (ns_cas s))" and "ui_updates_status (ns_ui s)"
    and "nodes_ok (ns_shape x) [] (ns_root s)"
    and "bt_contains (cs_updates (ns_cas s)) epoch \<or> length (cs_updates (ns_cas s)) < CAS_MAX_UPDATES"
    and "parse_cas_path (nx_cas x) (''updates'' # epoch # rest) = Inr (Some p)"
  shows "fst (lookup (x\<lparr>nx_stack := stack\<rparr>) (''updates'' # epoch # rest) s) = Inl Panic"
proof -
  let ?x = "x\<lparr>nx_stack := stack\<rparr>" and ?p = "''updates'' # epoch # rest"
  have "is_chunk_file ?x = is_chunk_file x" "is_model_file ?x = is_model_file x"
    by (intro ext, simp add: is_chunk_file_def is_model_file_def split: option.split file_node.split)+
  then have "ns_shape ?x = ns_shape x"
    by (intro ext) (simp only: ns_shape_def update_shape_def model_shape_def)
  moreover from assms(5) have "validate_epoch epoch = Ok ()"
    by (auto simp: parse_cas_path_def outcome_splits split: list.splits)
  ultimately have "status_loop ?x epoch s" using assms by (simp add: status_loop_def update_admitted_def)
  from cas_path_overflow [OF this, of rest p stack] assms(5)
  have "fst (ensure_cas_path ?x stack ?p s) = Err Panic" by simp
  moreover have "telemetry_ingest_device_root ?p = None" by (auto simp: telemetry_ingest_device_root_def split: list.split)
  ultimately show ?thesis
    by (cases "ensure_cas_path ?x stack ?p s")
      (simp add: lookup_def st_read_def Let_def ensure_telemetry_ingest_path_def st_bind_def st_return_def)
qed

theorem update_lookup_exhausts_stack_witness:
  "fst (lookup (sample_ns_ext\<lparr>nx_stack := 1000000\<rparr>) [''updates'', ''42'', ''manifest.cbor'']
     (empty_namespace sample_ns_ext (sample_ns_config\<lparr>nc_cas := sample_cas\<rparr>))) = Inl Panic"
proof -
  let ?s = "empty_namespace sample_ns_ext (sample_ns_config\<lparr>nc_cas := sample_cas\<rparr>)"
  have "nodes_ok (ns_shape sample_ns_ext) [] (ns_root ?s)"
    by (simp add: empty_namespace_def Let_def nodes_ok_leaf ns_shape_def)
  moreover have "cc_enabled (cs_config (ns_cas ?s))" "ui_updates_status (ns_ui ?s)"
    "length (cs_updates (ns_cas ?s)) < CAS_MAX_UPDATES"
    by (simp_all add: empty_namespace_def Let_def cas_store_new_def sample_bound sample_ns_config_def
        namespace_config_default_def ui_default_def ui_all_def CAS_MAX_UPDATES_def)
  moreover have "parse_cas_path (nx_cas sample_ns_ext) [''updates'', ''42'', ''manifest.cbor''] = Ok (Some (UpdateManifest ''42''))"
    by (simp add: parse_cas_path_def parse_update_path_def sample_epoch)
  ultimately show ?thesis
    using update_lookup_exhausts_stack [of ?s sample_ns_ext "''42''" "[''manifest.cbor'']" "UpdateManifest ''42''" 1000000]
    by simp
qed

end
