(* ===== verification/Gpu_Bridge.thy ===== *)
theory Gpu_Bridge
  imports Namespace
begin

section \<open>The GPU bridge\<close>

text \<open>
  \<open>src/apps/gpu-bridge-host/src/lib.rs\<close>, which publishes the GPUs of a host as lines of text, and
  \<open>GpuBridgeReceiver\<close> of \<open>src/apps/nine-door/src/host/core.rs\<close>, which puts the lines together again.
  What is not in the sources is in \<open>bridge_ext\<close>: the base64 encoder, the JSON reader of the telemetry
  schema, and the hash, hexadecimal and base64 decoding functions of \<open>cas_ext\<close>. The theorem shows
  that what a host publishes is what the receiver takes over.
\<close>

subsection \<open>Data\<close>

record gpu_info =
  gi_id :: string
  gi_name :: string
  gi_memory_mb :: u32
  gi_sm_count :: u32
  gi_driver_version :: string
  gi_runtime_version :: string

record gpu_namespace =
  gn_info :: gpu_info
  gn_ctl_seed :: string
  gn_lease_seed :: string
  gn_status_seed :: string

record model_manifest =
  mm_model_id :: string
  mm_manifest_toml :: string

record gpu_model_catalog =
  mc_available :: "model_manifest list"
  mc_active :: string

record telemetry_schema =
  sc_version :: string
  sc_max_record_bytes :: nat
  sc_required_fields :: "string list"
  sc_optional_fields :: "string list"

record serialised_gpu_node =
  sg_id :: string
  sg_info_payload :: string
  sg_ctl_payload :: string
  sg_lease_payload :: string
  sg_status_payload :: string

record gpu_namespace_snapshot =
  gs_nodes :: "serialised_gpu_node list"
  gs_models :: gpu_model_catalog
  gs_schema :: telemetry_schema

record bridge_ext =
  bx_cas :: cas_ext
  bx_encode :: "bytes \<Rightarrow> string"
  bx_parse_schema :: "string \<Rightarrow> string + telemetry_schema"

definition TELEMETRY_SCHEMA_VERSION :: string where
  "TELEMETRY_SCHEMA_VERSION = ''gpu-telemetry/v1''"

definition MAX_TELEMETRY_BYTES :: nat where
  "MAX_TELEMETRY_BYTES = 4096"

definition GPU_BRIDGE_WIRE_SCHEMA :: string where
  "GPU_BRIDGE_WIRE_SCHEMA = ''gpu-bridge-snapshot/v1''"

definition GPU_BRIDGE_B64_PREFIX :: string where
  "GPU_BRIDGE_B64_PREFIX = ''b64:''"

definition MAX_ECHO_LEN :: nat where
  "MAX_ECHO_LEN = 128"

subsection \<open>Rendering\<close>

text \<open>Every character \<open>escape_json_string\<close> looks at is one byte of the encoding.\<close>

definition escape_json_char :: "char \<Rightarrow> string" where
  "escape_json_char c =
     (if c = CHR 0x22 then [CHR 0x5C, CHR 0x22]
      else if c = CHR 0x5C then [CHR 0x5C, CHR 0x5C]
      else if c = CHR 0x0A then [CHR 0x5C, CHR ''n'']
      else if c = CHR 0x0D then [CHR 0x5C, CHR ''r'']
      else if c = CHR 0x09 then [CHR 0x5C, CHR ''t'']
      else if (of_char c :: nat) < 0x20 then [CHR 0x5C, CHR ''u''] @ show_04x (of_char c)
      else [c])"

definition escape_json_string :: "string \<Rightarrow> string" where
  "escape_json_string s = concat (map escape_json_char s)"

definition in_quotes :: "string \<Rightarrow> string" where
  "in_quotes s = dq @ escape_json_string s @ dq"

definition to_info_payload :: "gpu_info \<Rightarrow> string" where
  "to_info_payload i =
     (let field = (\<lambda>name v. ''    '' @ dq @ name @ dq @ '': '' @ v)
      in ''{'' @ newline @ join ('','' @ newline)
           [field ''id'' (in_quotes (gi_id i)),
            field ''name'' (in_quotes (gi_name i)),
            field ''memory_mb'' (show_nat (unat (gi_memory_mb i))),
            field ''sm_count'' (show_nat (unat (gi_sm_count i))),
            field ''driver_version'' (in_quotes (gi_driver_version i)),
            field ''runtime_version'' (in_quotes (gi_runtime_version i))]
         @ newline @ ''}'')"

definition active_pointer_payload :: "gpu_model_catalog \<Rightarrow> string" where
  "active_pointer_payload m = mc_active m @ newline"

definition lora_v1 :: telemetry_schema where
  "lora_v1 =
     \<lparr>sc_version = TELEMETRY_SCHEMA_VERSION, sc_max_record_bytes = MAX_TELEMETRY_BYTES,
      sc_required_fields = [''schema_version'', ''device_id'', ''model_id'', ''time_window'', ''token_count'',
        ''latency_histogram''],
      sc_optional_fields = [''lora_id'', ''confidence'', ''entropy'', ''drift'', ''feedback_flags'']\<rparr>"

definition descriptor_json :: "telemetry_schema \<Rightarrow> string" where
  "descriptor_json s =
     ''{'' @ dq @ ''schema_version'' @ dq @ '':'' @ in_quotes (sc_version s) @ '',''
       @ dq @ ''max_record_bytes'' @ dq @ '':'' @ show_nat (sc_max_record_bytes s) @ '',''
       @ dq @ ''required_fields'' @ dq @ '':['' @ join '','' (map in_quotes (sc_required_fields s)) @ ''],''
       @ dq @ ''optional_fields'' @ dq @ '':['' @ join '','' (map in_quotes (sc_optional_fields s)) @ '']}''"

definition status_entry :: "string \<Rightarrow> string \<Rightarrow> string \<Rightarrow> string" where
  "status_entry job state detail =
     ''{'' @ dq @ ''job'' @ dq @ '':'' @ in_quotes job @ '','' @ dq @ ''state'' @ dq @ '':'' @ in_quotes state
       @ '','' @ dq @ ''detail'' @ dq @ '':'' @ in_quotes detail @ ''}''"

definition build_namespace :: "gpu_info list \<Rightarrow> gpu_namespace list" where
  "build_namespace infos =
     map (\<lambda>i. \<lparr>gn_info = i, gn_ctl_seed = ''LEASE '' @ gi_id i @ newline, gn_lease_seed = [], gn_status_seed = []\<rparr>)
       infos"

definition serialise_namespace :: "gpu_model_catalog \<Rightarrow> gpu_info list \<Rightarrow> gpu_namespace_snapshot" where
  "serialise_namespace models infos =
     \<lparr>gs_nodes = map (\<lambda>n. \<lparr>sg_id = gi_id (gn_info n), sg_info_payload = to_info_payload (gn_info n),
        sg_ctl_payload = gn_ctl_seed n, sg_lease_payload = gn_lease_seed n, sg_status_payload = gn_status_seed n\<rparr>)
        (build_namespace infos),
      gs_models = models, gs_schema = lora_v1\<rparr>"

definition namespace_to_json_pretty :: "gpu_namespace_snapshot \<Rightarrow> string" where
  "namespace_to_json_pretty s =
     (let field = (\<lambda>indent name v. indent @ dq @ name @ dq @ '': '' @ v);
          node = (\<lambda>n. ''    {'' @ newline @ join ('','' @ newline)
            [field ''      '' ''id'' (in_quotes (sg_id n)),
             field ''      '' ''info_payload'' (in_quotes (sg_info_payload n)),
             field ''      '' ''ctl_payload'' (in_quotes (sg_ctl_payload n)),
             field ''      '' ''lease_payload'' (in_quotes (sg_lease_payload n)),
             field ''      '' ''status_payload'' (in_quotes (sg_status_payload n))] @ newline @ ''    }'');
          model = (\<lambda>m. ''      {'' @ newline @ join ('','' @ newline)
            [field ''        '' ''model_id'' (in_quotes (mm_model_id m)),
             field ''        '' ''manifest_toml'' (in_quotes (mm_manifest_toml m))] @ newline @ ''      }'')
      in ''{'' @ newline @ ''  '' @ dq @ ''nodes'' @ dq @ '': ['' @ newline
           @ join ('','' @ newline) (map node (gs_nodes s))
           @ newline @ ''  ],'' @ newline @ ''  '' @ dq @ ''models'' @ dq @ '': {'' @ newline
           @ field ''    '' ''active'' (in_quotes (mc_active (gs_models s))) @ '','' @ newline
           @ ''    '' @ dq @ ''available'' @ dq @ '': ['' @ newline
           @ join ('','' @ newline) (map model (mc_available (gs_models s)))
           @ newline @ ''    ]'' @ newline @ ''  },'' @ newline
           @ field ''  '' ''telemetry_schema'' (descriptor_json (gs_schema s)) @ newline @ ''}'')"

subsection \<open>Publishing\<close>

definition node_line :: "bridge_ext \<Rightarrow> serialised_gpu_node \<Rightarrow> string" where
  "node_line x n =
     (let b64 = (\<lambda>s. bx_encode x (str_bytes s))
      in ''node id='' @ sg_id n @ '' info='' @ b64 (sg_info_payload n) @ '' ctl='' @ b64 (sg_ctl_payload n)
           @ '' lease='' @ b64 (sg_lease_payload n) @ '' status='' @ b64 (sg_status_payload n))"

definition model_line :: "bridge_ext \<Rightarrow> model_manifest \<Rightarrow> string" where
  "model_line x m =
     ''model id='' @ mm_model_id m @ '' manifest='' @ bx_encode x (str_bytes (mm_manifest_toml m))"

definition wire_lines :: "bridge_ext \<Rightarrow> gpu_namespace_snapshot \<Rightarrow> string list" where
  "wire_lines x s =
     [''schema '' @ GPU_BRIDGE_WIRE_SCHEMA] @ map (node_line x) (gs_nodes s)
       @ map (model_line x) (mc_available (gs_models s))
       @ [''active id='' @ mc_active (gs_models s),
          ''telemetry schema='' @ bx_encode x (str_bytes (descriptor_json (gs_schema s))), ''end'']"

definition namespace_to_wire :: "bridge_ext \<Rightarrow> gpu_namespace_snapshot \<Rightarrow> bytes" where
  "namespace_to_wire x s = str_bytes (concat (map (\<lambda>line. line @ newline) (wire_lines x s)))"

record gpu_bridge_publish =
  gp_bytes :: bytes
  gp_sha256 :: string
  gp_lines :: "string list"

text \<open>\<open>slice::chunks\<close>.\<close>

fun list_chunks :: "nat \<Rightarrow> 'a list \<Rightarrow> 'a list list" where
  "list_chunks n xs =
     (if xs = [] \<or> n = 0 then [] else take n xs # list_chunks n (drop n xs))"

declare list_chunks.simps [simp del]

definition build_publish_lines_with_limit ::
  "bridge_ext \<Rightarrow> gpu_namespace_snapshot \<Rightarrow> nat \<Rightarrow> string + gpu_bridge_publish" where
  "build_publish_lines_with_limit x s max_echo_len =
     (if max_echo_len < 8 then Err ''max echo len too small''
      else
        let bytes = namespace_to_wire x s;
            sha = cx_hex (bx_cas x) (cx_sha256 (bx_cas x) bytes);
            chunk_len = (max_echo_len - length GPU_BRIDGE_B64_PREFIX) div 4 * 4
        in if chunk_len < 4 then Err ''max echo len too small for base64 chunks''
           else Ok \<lparr>gp_bytes = bytes, gp_sha256 = sha,
             gp_lines = [''begin bytes='' @ show_nat (length bytes) @ '' sha256='' @ sha]
               @ map (\<lambda>c. GPU_BRIDGE_B64_PREFIX @ c) (list_chunks chunk_len (bx_encode x bytes)) @ [''end'']\<rparr>)"

definition build_publish_lines :: "bridge_ext \<Rightarrow> gpu_namespace_snapshot \<Rightarrow> string + gpu_bridge_publish" where
  "build_publish_lines x s = build_publish_lines_with_limit x s MAX_ECHO_LEN"

subsection \<open>Reading a snapshot\<close>

text \<open>
  \<open>str::split_whitespace\<close>, over the encodings of the white space characters; the first argument is
  the word read so far. The number of steps is bounded by the length of the text.
\<close>

primrec split_ws_fuel :: "nat \<Rightarrow> string \<Rightarrow> string \<Rightarrow> string list" where
  "split_ws_fuel 0 word s = (if word = [] then [] else [word])"
| "split_ws_fuel (Suc n) word s =
     (let done = (if word = [] then [] else [word])
      in case find (\<lambda>w. prefix w s) utf8_ws of
           Some w \<Rightarrow> done @ split_ws_fuel n [] (drop (length w) s)
         | None \<Rightarrow> (case s of [] \<Rightarrow> done | c # rest \<Rightarrow> split_ws_fuel n (word @ [c]) rest))"

definition split_whitespace :: "string \<Rightarrow> string list" where
  "split_whitespace s = split_ws_fuel (length s) [] s"

text \<open>The \<open>key=value\<close> words of a line; a later word replaces an earlier one with its key.\<close>

fun wire_fields ::
  "string \<Rightarrow> string list \<Rightarrow> string list \<Rightarrow> (string \<rightharpoonup> string) \<Rightarrow> string + (string \<rightharpoonup> string)" where
  "wire_fields kind keys [] found = Ok found"
| "wire_fields kind keys (part # parts) found = (case split_once (CHR ''='') part of
     None \<Rightarrow> Err (kind @ '' field missing '' @ [CHR 0x27, CHR ''='', CHR 0x27] @ '': '' @ part)
   | Some (key, value) \<Rightarrow>
       if key \<in> set keys then wire_fields kind keys parts (found(key \<mapsto> value))
       else Err (''unsupported '' @ kind @ '' field: '' @ key))"

definition decode_b64_string :: "bridge_ext \<Rightarrow> string \<Rightarrow> string option \<Rightarrow> string + string" where
  "decode_b64_string x label value =
     and_then (ok_or value (label @ '' missing'')) (\<lambda>value.
     and_then (ok_or (cx_base64 (bx_cas x) (str_bytes value)) (label @ '' is not valid base64'')) (\<lambda>bytes.
       ok_or (from_utf8 bytes) (label @ '' is not UTF-8'')))"

definition parse_telemetry_schema :: "bridge_ext \<Rightarrow> string \<Rightarrow> string + telemetry_schema" where
  "parse_telemetry_schema x payload =
     and_then (map_err (\<lambda>err. ''telemetry schema json: '' @ err) (bx_parse_schema x payload)) (\<lambda>schema.
       if sc_version schema = [] then Err ''telemetry schema version missing''
       else if sc_max_record_bytes schema = 0 then Err ''telemetry schema max_record_bytes must be > 0''
       else Ok schema)"

record wire_state =
  ws_schema_seen :: bool
  ws_nodes :: "serialised_gpu_node list"
  ws_models :: "model_manifest list"
  ws_active :: "string option"
  ws_telemetry :: "telemetry_schema option"
  ws_ended :: bool

definition wire_start :: wire_state where
  "wire_start = \<lparr>ws_schema_seen = False, ws_nodes = [], ws_models = [], ws_active = None, ws_telemetry = None,
     ws_ended = False\<rparr>"

definition parse_schema_line :: "string list \<Rightarrow> wire_state \<Rightarrow> string + wire_state" where
  "parse_schema_line parts st = (case parts of
     [] \<Rightarrow> Err ''schema missing value''
   | schema # rest \<Rightarrow>
       if schema \<noteq> GPU_BRIDGE_WIRE_SCHEMA then Err (''unsupported wire schema: '' @ schema)
       else if rest \<noteq> [] then Err ''schema line has unexpected tokens''
       else Ok (st\<lparr>ws_schema_seen := True\<rparr>))"

definition parse_node_line :: "bridge_ext \<Rightarrow> string list \<Rightarrow> wire_state \<Rightarrow> string + wire_state" where
  "parse_node_line x parts st =
     and_then (wire_fields ''node'' [''id'', ''info'', ''ctl'', ''lease'', ''status''] parts Map.empty) (\<lambda>found.
     and_then (ok_or (found ''id'') ''node id missing'') (\<lambda>node_id.
     and_then (decode_b64_string x ''node info'' (found ''info'')) (\<lambda>info_payload.
     and_then (decode_b64_string x ''node ctl'' (found ''ctl'')) (\<lambda>ctl_payload.
     and_then (decode_b64_string x ''node lease'' (found ''lease'')) (\<lambda>lease_payload.
     and_then (decode_b64_string x ''node status'' (found ''status'')) (\<lambda>status_payload.
       Ok (st\<lparr>ws_nodes := ws_nodes st @ [\<lparr>sg_id = node_id, sg_info_payload = info_payload,
         sg_ctl_payload = ctl_payload, sg_lease_payload = lease_payload, sg_status_payload = status_payload\<rparr>]\<rparr>)))))))"

definition parse_model_line :: "bridge_ext \<Rightarrow> string list \<Rightarrow> wire_state \<Rightarrow> string + wire_state" where
  "parse_model_line x parts st =
     and_then (wire_fields ''model'' [''id'', ''manifest''] parts Map.empty) (\<lambda>found.
     and_then (ok_or (found ''id'') ''model id missing'') (\<lambda>model_id.
     and_then (decode_b64_string x ''model manifest'' (found ''manifest'')) (\<lambda>manifest_toml.
       Ok (st\<lparr>ws_models := ws_models st @ [\<lparr>mm_model_id = model_id, mm_manifest_toml = manifest_toml\<rparr>]\<rparr>))))"

definition parse_active_line :: "string list \<Rightarrow> wire_state \<Rightarrow> string + wire_state" where
  "parse_active_line parts st =
     and_then (wire_fields ''active'' [''id''] parts Map.empty) (\<lambda>found.
     and_then (ok_or (found ''id'') ''active id missing'') (\<lambda>active.
       Ok (st\<lparr>ws_active := Some active\<rparr>)))"

definition parse_telemetry_line :: "bridge_ext \<Rightarrow> string list \<Rightarrow> wire_state \<Rightarrow> string + wire_state" where
  "parse_telemetry_line x parts st =
     and_then (wire_fields ''telemetry'' [''schema''] parts Map.empty) (\<lambda>found.
     and_then (ok_or (found ''schema'') ''telemetry schema missing'') (\<lambda>schema_b64.
     and_then (decode_b64_string x ''telemetry schema'' (Some schema_b64)) (\<lambda>schema_json.
     and_then (parse_telemetry_schema x schema_json) (\<lambda>schema.
       Ok (st\<lparr>ws_telemetry := Some schema\<rparr>)))))"

definition parse_wire_line :: "bridge_ext \<Rightarrow> string \<Rightarrow> wire_state \<Rightarrow> string + wire_state" where
  "parse_wire_line x raw st =
     (let line = trim raw
      in if line = [] then Ok st
         else if ws_ended st then Err ''wire payload contains data after end marker''
         else if line = ''end'' then Ok (st\<lparr>ws_ended := True\<rparr>)
         else case split_whitespace line of
           [] \<Rightarrow> Err ''wire line missing keyword''
         | keyword # parts \<Rightarrow>
             if keyword = ''schema'' then parse_schema_line parts st
             else if keyword = ''node'' then parse_node_line x parts st
             else if keyword = ''model'' then parse_model_line x parts st
             else if keyword = ''active'' then parse_active_line parts st
             else if keyword = ''telemetry'' then parse_telemetry_line x parts st
             else Err (''unsupported wire line: '' @ keyword))"

primrec parse_wire_lines :: "bridge_ext \<Rightarrow> string list \<Rightarrow> wire_state \<Rightarrow> string + wire_state" where
  "parse_wire_lines x [] st = Ok st"
| "parse_wire_lines x (line # lines) st = and_then (parse_wire_line x line st) (parse_wire_lines x lines)"

definition finish_wire :: "wire_state \<Rightarrow> string + gpu_namespace_snapshot" where
  "finish_wire st =
     (if \<not> ws_schema_seen st then Err ''wire payload missing schema line''
      else if \<not> ws_ended st then Err ''wire payload missing end marker''
      else and_then (ok_or (ws_active st) ''wire payload missing active model id'') (\<lambda>active.
        if ws_models st \<noteq> [] \<and> \<not> list_ex (\<lambda>m. mm_model_id m = active) (ws_models st)
        then Err ''active model id not found in available catalog''
        else and_then (ok_or (ws_telemetry st) ''wire payload missing telemetry schema'') (\<lambda>schema.
          Ok \<lparr>gs_nodes = ws_nodes st, gs_models = \<lparr>mc_available = ws_models st, mc_active = active\<rparr>,
              gs_schema = schema\<rparr>)))"

definition parse_wire_snapshot :: "bridge_ext \<Rightarrow> bytes \<Rightarrow> string + gpu_namespace_snapshot" where
  "parse_wire_snapshot x bytes =
     and_then (ok_or (from_utf8 bytes) ''wire payload must be UTF-8 text'') (\<lambda>t.
     and_then (parse_wire_lines x (str_lines t) wire_start) finish_wire)"

subsection \<open>The receiver\<close>

record gpu_bridge_pending =
  gb_expected_bytes :: nat
  gb_expected_sha256 :: bytes
  gb_encoded :: bytes

record gpu_bridge_receiver =
  gr_max_bytes :: nat
  gr_pending :: "gpu_bridge_pending option"

datatype gpu_bridge_update =
  UpdateNone
| UpdateStarted nat
| UpdateComplete nat string gpu_namespace_snapshot

definition GPU_BRIDGE_MAX_BYTES :: nat where
  "GPU_BRIDGE_MAX_BYTES = 128 * 1024"

definition receiver_new :: "nat \<Rightarrow> gpu_bridge_receiver" where
  "receiver_new max_bytes = \<lparr>gr_max_bytes = max_bytes, gr_pending = None\<rparr>"

text \<open>\<open>str::parse::<usize>\<close>: digits, after an optional plus sign, of a value below \<open>2 ^ 64\<close>.\<close>

definition parse_usize :: "string \<Rightarrow> nat option" where
  "parse_usize s =
     (let digits = (if s \<noteq> [] \<and> hd s = CHR ''+'' then tl s else s)
      in if digits \<noteq> [] \<and> list_all is_ascii_digit digits \<and> dec_value digits \<le> usize_max
         then Some (dec_value digits) else None)"

definition bridge_error :: "string \<Rightarrow> ninedoor_error" where
  "bridge_error m = Protocol EInvalid (''gpu bridge '' @ m)"

fun begin_fields :: "string list \<Rightarrow> nat option \<times> string option \<Rightarrow> ninedoor_error + nat option \<times> string option" where
  "begin_fields [] acc = Ok acc"
| "begin_fields (part # parts) (bytes, sha) = (case split_once (CHR ''='') part of
     None \<Rightarrow> Err (bridge_error (''begin missing '' @ [CHR 0x27, CHR ''='', CHR 0x27]))
   | Some (key, value) \<Rightarrow>
       if key = ''bytes'' then (case parse_usize value of
           None \<Rightarrow> Err (bridge_error ''bytes invalid'')
         | Some n \<Rightarrow> if n = 0 then Err (bridge_error ''bytes must be > 0'')
             else begin_fields parts (Some n, sha))
       else if key = ''sha256'' then begin_fields parts (bytes, Some value)
       else Err (bridge_error ''begin has unknown fields''))"

definition parse_sha256_hex :: "cas_ext \<Rightarrow> string \<Rightarrow> ninedoor_error + bytes" where
  "parse_sha256_hex x value =
     (if length value \<noteq> 64 \<or> \<not> list_all is_ascii_hexdigit value then Err (bridge_error ''sha256 invalid'')
      else ok_or (cx_unhex x value) (bridge_error ''sha256 decode failed''))"

definition parse_gpu_bridge_begin :: "cas_ext \<Rightarrow> string \<Rightarrow> ninedoor_error + nat \<times> bytes" where
  "parse_gpu_bridge_begin x payload =
     and_then (begin_fields (split_whitespace payload) (None, None)) (\<lambda>(bytes, sha).
     and_then (ok_or bytes (bridge_error ''begin missing bytes'')) (\<lambda>bytes.
     and_then (ok_or sha (bridge_error ''begin missing sha256'')) (\<lambda>sha.
     and_then (parse_sha256_hex x sha) (\<lambda>sha. Ok (bytes, sha)))))"

definition base64_encoded_len :: "nat \<Rightarrow> nat option" where
  "base64_encoded_len bytes =
     (let base = bytes div 3 * 4; extra = (if bytes mod 3 = 0 then 0 else 4)
      in if base > usize_max \<or> base + extra > usize_max then None else Some (base + extra))"

definition receive_end :: "bridge_ext \<Rightarrow> gpu_bridge_pending \<Rightarrow> ninedoor_error + gpu_bridge_update" where
  "receive_end x pending =
     and_then (ok_or (cx_base64 (bx_cas x) (gb_encoded pending)) (bridge_error ''base64 decode failed'')) (\<lambda>decoded.
       if length decoded \<noteq> gb_expected_bytes pending then Err (bridge_error ''payload size mismatch'')
       else
         let digest = cx_sha256 (bx_cas x) decoded
         in if digest \<noteq> gb_expected_sha256 pending then Err (bridge_error ''sha256 mismatch'')
            else and_then (map_err (\<lambda>err. bridge_error (''snapshot: '' @ err)) (parse_wire_snapshot x decoded))
              (\<lambda>snapshot. Ok (UpdateComplete (gb_expected_bytes pending) (cx_hex (bx_cas x) digest) snapshot)))"

definition receive_data :: "string \<Rightarrow> (gpu_bridge_receiver, ninedoor_error, gpu_bridge_update) st_op" where
  "receive_data rest r = (case gr_pending r of
     None \<Rightarrow> (Err (bridge_error ''data without begin''), r)
   | Some pending \<Rightarrow> (case base64_encoded_len (gb_expected_bytes pending) of
       None \<Rightarrow> (Err (bridge_error ''size overflow''), r)
     | Some expected_len \<Rightarrow>
         if sat_add (length (gb_encoded pending)) (length rest) > expected_len
         then (Err (bridge_error ''base64 exceeds expected length''), r)
         else (Ok UpdateNone,
           r\<lparr>gr_pending := Some (pending\<lparr>gb_encoded := gb_encoded pending @ str_bytes rest\<rparr>)\<rparr>)))"

definition handle_line :: "bridge_ext \<Rightarrow> string \<Rightarrow> (gpu_bridge_receiver, ninedoor_error, gpu_bridge_update) st_op" where
  "handle_line x line r =
     (let trimmed = trim line
      in if trimmed = [] then (Ok UpdateNone, r)
         else case strip_prefix ''begin'' trimmed of
           Some rest \<Rightarrow> (case parse_gpu_bridge_begin (bx_cas x) rest of
             Err e \<Rightarrow> (Err e, r)
           | Ok (bytes, sha) \<Rightarrow>
               if bytes > gr_max_bytes r
               then (Err (bridge_error (''payload too large: '' @ show_nat bytes)), r)
               else (Ok (UpdateStarted bytes),
                 r\<lparr>gr_pending := Some \<lparr>gb_expected_bytes = bytes, gb_expected_sha256 = sha, gb_encoded = []\<rparr>\<rparr>))
         | None \<Rightarrow>
             if trimmed = ''end'' then (case gr_pending r of
               None \<Rightarrow> (Err (bridge_error ''end without begin''), r)
             | Some pending \<Rightarrow> (receive_end x pending, r\<lparr>gr_pending := None\<rparr>))
             else (case strip_prefix ''b64:'' trimmed of
               Some rest \<Rightarrow> receive_data rest r
             | None \<Rightarrow> (Err (bridge_error ''line not recognised''), r)))"

end
