(* ===== verification/Queen_Control.thy ===== *)
theory Queen_Control
  imports Policy_Store Budget
begin

section \<open>Queen commands and audit lines\<close>

text \<open>
  \<open>src/apps/nine-door/src/host/control.rs\<close>: the commands accepted by \<open>/queen/ctl\<close>, the budgets they
  give to workers, and the audit lines of host writes and policy decisions. The JSON reader of
  \<open>QueenCommand::parse\<close> is not in the sources: it is the argument \<open>parse_json\<close>, a command or the text of
  an error. The theorem is about what a budget override does to the limits it does not mention.
\<close>

subsection \<open>Host writes\<close>

datatype host_write_outcome = HostAllowed | HostDenied

datatype host_control_kind = SystemdRestart | K8sCordon | K8sDrain | NvidiaPowerCap

definition host_control_label :: "host_control_kind \<Rightarrow> string" where
  "host_control_label k = (case k of
     SystemdRestart \<Rightarrow> ''systemd.restart'' | K8sCordon \<Rightarrow> ''k8s.cordon'' | K8sDrain \<Rightarrow> ''k8s.drain''
   | NvidiaPowerCap \<Rightarrow> ''nvidia.power_cap'')"

record host_write_target_rec =
  hw_path :: "string list"
  hw_control :: "string option"

definition host_control_of :: "string list \<Rightarrow> host_control_kind option" where
  "host_control_of relative = (case relative of
     [a, _, leaf] \<Rightarrow> if a = ''systemd'' \<and> leaf = ''restart'' then Some SystemdRestart else None
   | [a, b, _, leaf] \<Rightarrow>
       if a = ''k8s'' \<and> b = ''node'' \<and> leaf = ''cordon'' then Some K8sCordon
       else if a = ''k8s'' \<and> b = ''node'' \<and> leaf = ''drain'' then Some K8sDrain
       else if a = ''nvidia'' \<and> b = ''gpu'' \<and> leaf = ''power_cap'' then Some NvidiaPowerCap
       else None
   | _ \<Rightarrow> None)"

definition host_write_target :: "string list \<Rightarrow> string list option \<Rightarrow> host_write_target_rec option" where
  "host_write_target path host_mount =
     Option.bind host_mount (\<lambda>mount. Option.bind (strip_prefix mount path) (\<lambda>relative.
       if relative = [] then None
       else Some \<lparr>hw_path = path, hw_control = map_option host_control_label (host_control_of relative)\<rparr>))"

subsection \<open>Audit lines\<close>

definition role_or_unauthenticated :: "role option \<Rightarrow> string" where
  "role_or_unauthenticated r = (case r of Some r \<Rightarrow> role_label r | None \<Rightarrow> ''unauthenticated'')"

definition ticket_or_none :: "string option \<Rightarrow> string" where
  "ticket_or_none t = (case t of Some t \<Rightarrow> t | None \<Rightarrow> ''none'')"

definition path_label :: "string list \<Rightarrow> string" where
  "path_label path = (if path = [] then ''/'' else ''/'' @ join ''/'' path)"

definition format_host_write_audit ::
  "host_write_target_rec \<Rightarrow> host_write_outcome \<Rightarrow> role option \<Rightarrow> string option \<Rightarrow> nat option \<Rightarrow> string" where
  "format_host_write_audit target outcome r ticket bytes =
     ''host-write outcome='' @ (case outcome of HostAllowed \<Rightarrow> ''allow'' | HostDenied \<Rightarrow> ''deny'')
       @ '' role='' @ role_or_unauthenticated r @ '' ticket='' @ ticket_or_none ticket
       @ '' path='' @ path_label (hw_path target)
       @ (case hw_control target of None \<Rightarrow> [] | Some control \<Rightarrow> '' control='' @ control)
       @ (case bytes of None \<Rightarrow> [] | Some n \<Rightarrow> '' bytes='' @ show_nat n)"

definition format_policy_action_audit :: "policy_action_audit \<Rightarrow> role option \<Rightarrow> string option \<Rightarrow> string" where
  "format_policy_action_audit action r ticket =
     ''policy-action role='' @ role_or_unauthenticated r @ '' ticket='' @ ticket_or_none ticket
       @ '' id='' @ paa_id action @ '' decision='' @ policy_decision_label (paa_decision action)
       @ '' target='' @ paa_target action"

definition format_policy_gate_allow ::
  "string list \<Rightarrow> policy_gate_allowance \<Rightarrow> role option \<Rightarrow> string option \<Rightarrow> string option" where
  "format_policy_gate_allow path allowance r ticket = (case allowance of
     AllowedBy action_id target \<Rightarrow> Some
       (''policy-gate outcome=allow role='' @ role_or_unauthenticated r @ '' ticket='' @ ticket_or_none ticket
          @ '' id='' @ action_id @ '' target='' @ target @ '' path='' @ path_label path)
   | Ungated \<Rightarrow> None
   | NotRequired \<Rightarrow> None)"

definition format_policy_gate_deny ::
  "string list \<Rightarrow> policy_gate_denial \<Rightarrow> role option \<Rightarrow> string option \<Rightarrow> string" where
  "format_policy_gate_deny path denial r ticket =
     ''policy-gate outcome=deny role='' @ role_or_unauthenticated r @ '' ticket='' @ ticket_or_none ticket
       @ (case denial of
            Missing \<Rightarrow> '' reason=missing-approval''
          | DeniedBy action_id target \<Rightarrow> '' id='' @ action_id @ '' target='' @ target)
       @ '' path='' @ path_label path"

subsection \<open>Commands\<close>

datatype spawn_target = SpawnHeartbeat | SpawnGpu

record budget_fields =
  bf_ttl_s :: "u64 option"
  bf_ops :: "u64 option"

record gpu_lease_fields =
  glf_gpu_id :: string
  glf_mem_mb :: u32
  glf_streams :: byte
  glf_ttl_s :: u32
  glf_priority :: byte

record spawn_command =
  sp_spawn :: spawn_target
  sp_ticks :: "u64 option"
  sp_budget :: "budget_fields option"
  sp_lease :: "gpu_lease_fields option"

record bind_spec =
  bn_from :: string
  bn_to :: string

datatype queen_command =
  CmdSpawn spawn_command
| CmdKill string
| CmdBudget budget_fields
| CmdBind bind_spec
| CmdMount mount_spec

definition queen_command_parse :: "(string \<Rightarrow> string + queen_command) \<Rightarrow> string \<Rightarrow> ninedoor_error + queen_command" where
  "queen_command_parse parse_json line =
     map_err (\<lambda>err. Protocol EInvalid (''invalid queen command: '' @ err)) (parse_json line)"

definition budget_fields_apply :: "budget_fields \<Rightarrow> budget_spec \<Rightarrow> budget_spec" where
  "budget_fields_apply f spec = with_ops (with_ttl spec (bf_ttl_s f)) (bf_ops f)"

text \<open>The number of streams is a byte, so \<open>streams as u64 * 8\<close> does not overflow.\<close>

definition spawn_budget_spec :: "spawn_command \<Rightarrow> budget_spec \<Rightarrow> ninedoor_error + budget_spec" where
  "spawn_budget_spec spec defaults =
     (let override = (\<lambda>b. case sp_budget spec of Some f \<Rightarrow> budget_fields_apply f b | None \<Rightarrow> b)
      in case sp_spawn spec of
        SpawnHeartbeat \<Rightarrow>
          and_then (ok_or (sp_ticks spec) (Protocol EInvalid ''heartbeat spawn requires ticks'')) (\<lambda>ticks.
            Ok (override (with_ticks defaults (Some ticks))))
      | SpawnGpu \<Rightarrow>
          and_then (ok_or (sp_lease spec) (Protocol EInvalid ''gpu spawn requires lease'')) (\<lambda>lease.
            Ok (override (with_ops (with_ttl defaults (Some (ucast (glf_ttl_s lease))))
              (Some (ucast (glf_streams lease) * 8))))))"

definition parse_absolute_path :: "string \<Rightarrow> ninedoor_error + string list" where
  "parse_absolute_path input =
     (let q = [CHR 0x27]
      in if input = [] \<or> hd input \<noteq> CHR ''/''
         then Err (Protocol EInvalid (''path '' @ q @ input @ q @ '' must be absolute''))
         else
           let components = filter (\<lambda>c. c \<noteq> []) (split_on (CHR ''/'') input)
           in if ''.'' \<in> set components \<or> ''..'' \<in> set components
              then Err (Protocol EInvalid (''path '' @ q @ input @ q @ '' contains traversal component''))
              else Ok components)"

definition bind_into_parts :: "bind_spec \<Rightarrow> ninedoor_error + string \<times> string \<times> string list \<times> string list" where
  "bind_into_parts b =
     and_then (parse_absolute_path (bn_from b)) (\<lambda>source.
     and_then (parse_absolute_path (bn_to b)) (\<lambda>mount.
       Ok (bn_from b, bn_to b, source, mount)))"

definition mount_into_parts :: "mount_spec \<Rightarrow> ninedoor_error + string \<times> string \<times> string list" where
  "mount_into_parts m =
     and_then (parse_absolute_path (ms_at m)) (\<lambda>mount. Ok (ms_service m, ms_at m, mount))"

subsection \<open>What an override leaves of the defaults\<close>

text \<open>
  A budget override replaces both limits it can carry: a heartbeat spawn that overrides only the
  number of operations is given a worker with no time limit, whatever the default was, and one that
  overrides only the time limit is given a worker with no limit on operations.
\<close>

theorem partial_override_lifts_limit:
  assumes "sp_spawn spec = SpawnHeartbeat" and "sp_ticks spec = Some t" and "sp_budget spec = Some f"
  shows "\<exists>b. spawn_budget_spec spec defaults = Inr b \<and> bs_ticks b = Some t \<and>
    bs_ttl_s b = bf_ttl_s f \<and> bs_ops b = bf_ops f \<and>
    (bf_ttl_s f = None \<longrightarrow> (\<forall>now. \<exists>s. budget_new b now = Some s \<and> bu_deadline s = None))"
  using assms
  by (simp add: spawn_budget_spec_def ok_or_def budget_fields_apply_def with_ops_def with_ttl_def with_ticks_def budget_new_def)

definition quickstart_spawn :: spawn_command where
  "quickstart_spawn = \<lparr>sp_spawn = SpawnHeartbeat, sp_ticks = Some 25,
     sp_budget = Some \<lparr>bf_ttl_s = None, bf_ops = Some 555\<rparr>, sp_lease = None\<rparr>"

theorem partial_override_lifts_limit_witness:
  "\<exists>b s. spawn_budget_spec quickstart_spawn budget_default_heartbeat = Inr b \<and> bs_ttl_s budget_default_heartbeat = Some 300 \<and>
    bs_ttl_s b = None \<and> budget_new b 7 = Some s \<and> bu_deadline s = None"
  using partial_override_lifts_limit [of quickstart_spawn 25 "\<lparr>bf_ttl_s = None, bf_ops = Some 555\<rparr>" budget_default_heartbeat]
  by (auto simp: quickstart_spawn_def budget_default_heartbeat_def)

end
