(* ===== verification/Control_Plane.thy ===== *)
theory Control_Plane
  imports Gpu_Bridge Queen_Control Audit_Store Replay Lifecycle
begin

section \<open>The control plane\<close>

text \<open>
  \<open>ControlPlane\<close> of \<open>src/apps/nine-door/src/host/core.rs\<close>: the namespace with the workers, the GPU
  leases, the services, the lifecycle machine and the policy, audit and replay stores, and the
  operations behind the control files. It composes the models of those stores. The hash maps are
  lists of entries in key order; no operation depends on their iteration order. \<open>WorkerGpuLease\<close> and
  \<open>JobDescriptor\<close> are those of \<open>src/apps/worker-gpu/src/host.rs\<close>. The JSON readers and writers are
  the fields of \<open>cp_ext\<close>.
\<close>

subsection \<open>GPU leases and jobs\<close>

record gpu_lease =
  gl_gpu_id :: string
  gl_mem_mb :: u32
  gl_streams :: byte
  gl_ttl_s :: u32
  gl_priority :: byte
  gl_worker_id :: string

definition gpu_lease_new :: "gpu_lease_fields \<Rightarrow> string \<Rightarrow> string + gpu_lease" where
  "gpu_lease_new f worker_id =
     (if glf_streams f = 0 then Err ''streams must be at least 1''
      else Ok \<lparr>gl_gpu_id = glf_gpu_id f, gl_mem_mb = glf_mem_mb f, gl_streams = glf_streams f,
        gl_ttl_s = glf_ttl_s f, gl_priority = glf_priority f, gl_worker_id = worker_id\<rparr>)"

record gpu_lease_entry =
  ge_schema :: string
  ge_state :: string
  ge_lease :: gpu_lease

datatype kernel_kind = Vadd | Matmul

record job_descriptor =
  jd_job :: string
  jd_kernel :: kernel_kind
  jd_grid :: "u32 \<times> u32 \<times> u32"
  jd_block :: "u32 \<times> u32 \<times> u32"
  jd_bytes_hash :: string
  jd_inputs :: "string list"
  jd_outputs :: "string list"
  jd_timeout_ms :: u32
  jd_payload_b64 :: "string option"

definition job_validate :: "cas_ext \<Rightarrow> job_descriptor \<Rightarrow> string + unit" where
  "job_validate x d = (case strip_prefix ''sha256:'' (jd_bytes_hash d) of
     None \<Rightarrow> Err ''bytes_hash must use sha256:<hex> format''
   | Some expected \<Rightarrow>
       if length expected \<noteq> 64 \<or> \<not> list_all is_ascii_hexdigit expected
       then Err ''bytes_hash must contain 64 hex characters''
       else (case jd_payload_b64 d of
         None \<Rightarrow> Ok ()
       | Some encoded \<Rightarrow>
           and_then (ok_or (cx_base64 x (str_bytes encoded)) ''payload_b64 is not valid base64'') (\<lambda>payload.
             if cx_hex x (cx_sha256 x payload) \<noteq> expected then Err ''payload hash mismatch'' else Ok ())))"

definition GPU_LEASE_SCHEMA :: string where "GPU_LEASE_SCHEMA = ''gpu-lease/v1''"
definition GPU_LEASE_STATE_ACTIVE :: string where "GPU_LEASE_STATE_ACTIVE = ''ACTIVE''"
definition GPU_LEASE_STATE_RELEASED :: string where "GPU_LEASE_STATE_RELEASED = ''RELEASED''"
definition GPU_BRIDGE_STATUS_MAX_BYTES :: nat where "GPU_BRIDGE_STATUS_MAX_BYTES = 512"

subsection \<open>State\<close>

datatype worker_kind = KindHeartbeat | KindGpu gpu_lease

record worker_record =
  wr_budget :: budget_spec
  wr_kind :: worker_kind

datatype queen_event =
  Spawned string
| Killed string
| BudgetUpdated
| Bound path path
| Mounted path path

record control_plane =
  cp_ns :: namespace
  cp_workers :: "(string, worker_record) btree"
  cp_next_worker_id :: nat
  cp_default_budget :: budget_spec
  cp_services :: "(string, path) btree"
  cp_gpu_nodes :: "(string, unit) btree"
  cp_leases :: "(string, string) btree"
  cp_bridge :: gpu_bridge_receiver
  cp_lifecycle :: lifecycle_machine
  cp_policy :: policy_store
  cp_audit :: audit_store
  cp_replay :: replay_state

record cp_ext =
  px_ns :: ns_ext
  px_bridge :: bridge_ext
  px_queen :: "string \<Rightarrow> string + queen_command"
  px_job :: "string \<Rightarrow> string + job_descriptor"
  px_action :: "string \<Rightarrow> string + action_request"
  px_value :: "string \<Rightarrow> string + unit"
  px_replay :: "string \<Rightarrow> string + nat"
  px_status_json :: "policy_status_snapshot \<Rightarrow> string + bytes"
  px_journal_json :: "audit_journal_entry \<Rightarrow> string + string"
  px_decision_json :: "decision_entry \<Rightarrow> string + string"
  px_error_json :: "string \<Rightarrow> string + string"
  px_lease_json :: "gpu_lease_entry \<Rightarrow> string + string"

type_synonym 'a cp_op = "(control_plane, ninedoor_error fault, 'a) st_op"

definition control_plane_new :: "namespace \<Rightarrow> policy_store \<Rightarrow> audit_store \<Rightarrow> replay_state \<Rightarrow> nat \<Rightarrow> control_plane" where
  "control_plane_new ns policy audit replay now =
     \<lparr>cp_ns = ns, cp_workers = [], cp_next_worker_id = 1, cp_default_budget = budget_default_heartbeat,
      cp_services = [], cp_gpu_nodes = [], cp_leases = [], cp_bridge = receiver_new GPU_BRIDGE_MAX_BYTES,
      cp_lifecycle = lifecycle_new now, cp_policy = policy, cp_audit = audit, cp_replay = replay\<rparr>"

text \<open>The operations of a part of the state as operations of the control plane.\<close>

definition cp_fail :: "error_code \<Rightarrow> string \<Rightarrow> 'a cp_op" where
  "cp_fail code m = st_fail (Fail (Protocol code m))"

definition cp_lift :: "ninedoor_error + 'a \<Rightarrow> 'a cp_op" where
  "cp_lift r = st_lift (map_err Fail r)"

definition on_ns :: "'a ns_op \<Rightarrow> 'a cp_op" where
  "on_ns m s = (case m (cp_ns s) of (r, n) \<Rightarrow> (r, s\<lparr>cp_ns := n\<rparr>))"

definition on_policy :: "(policy_store, ninedoor_error, 'a) st_op \<Rightarrow> 'a cp_op" where
  "on_policy m s = (case m (cp_policy s) of (r, p) \<Rightarrow> (map_err Fail r, s\<lparr>cp_policy := p\<rparr>))"

definition on_audit :: "(audit_store, ninedoor_error, 'a) st_op \<Rightarrow> 'a cp_op" where
  "on_audit m s = (case m (cp_audit s) of (r, a) \<Rightarrow> (map_err Fail r, s\<lparr>cp_audit := a\<rparr>))"

definition on_replay :: "(replay_state, ninedoor_error, 'a) st_op \<Rightarrow> 'a cp_op" where
  "on_replay m s = (case m (cp_replay s) of (r, a) \<Rightarrow> (map_err Fail r, s\<lparr>cp_replay := a\<rparr>))"

definition on_bridge :: "(gpu_bridge_receiver, ninedoor_error, 'a) st_op \<Rightarrow> 'a cp_op" where
  "on_bridge m s = (case m (cp_bridge s) of (r, b) \<Rightarrow> (map_err Fail r, s\<lparr>cp_bridge := b\<rparr>))"

definition on_lifecycle :: "(lifecycle_machine \<Rightarrow> 'a \<times> lifecycle_machine) \<Rightarrow> 'a cp_op" where
  "on_lifecycle m s = (case m (cp_lifecycle s) of (r, l) \<Rightarrow> (Ok r, s\<lparr>cp_lifecycle := l\<rparr>))"

subsection \<open>Logging\<close>

definition append_queen_log :: "cp_ext \<Rightarrow> string \<Rightarrow> unit cp_op" where
  "append_queen_log x m =
     st_then (on_ns (write_append (px_ns x) queen_log u64_max (str_bytes (m @ newline)))) (st_return ())"

definition log_event :: "cp_ext \<Rightarrow> string \<Rightarrow> trace_level \<Rightarrow> string option \<Rightarrow> string \<Rightarrow> unit cp_op" where
  "log_event x category level task m =
     st_then (on_ns (on_trace (st_modify (trace_record (nx_now_ms (px_ns x)) level category task m))))
       (append_queen_log x m)"

text \<open>What the four recorders do when an entry has pushed older ones out of a log.\<close>

definition note_truncation :: "cp_ext \<Rightarrow> string \<Rightarrow> audit_append_outcome \<Rightarrow> unit cp_op" where
  "note_truncation x log outcome =
     (if ao_dropped_bytes outcome > 0 then
        let m = ''audit '' @ log @ '' truncation dropped_bytes='' @ show_nat (ao_dropped_bytes outcome)
              @ '' new_base='' @ show_nat (ao_new_base outcome)
        in st_then (on_ns (emit_audit_notice (px_ns x) AuditWarn m)) (log_event x ''audit'' TlWarn None m)
      else st_return ())"

definition publish_journal :: "cp_ext \<Rightarrow> audit_append_outcome \<Rightarrow> unit cp_op" where
  "publish_journal x outcome = st_read (\<lambda>s.
     st_seq
       [on_ns (set_audit_journal_payload (px_ns x) (log_snapshot (as_journal (cp_audit s)))),
        on_ns (set_audit_export_payload (px_ns x) (as_export_snapshot (cp_audit s))),
        note_truncation x ''journal'' outcome])"

definition publish_decisions :: "cp_ext \<Rightarrow> audit_append_outcome \<Rightarrow> unit cp_op" where
  "publish_decisions x outcome = st_read (\<lambda>s.
     st_seq
       [on_ns (set_audit_decisions_payload (px_ns x) (log_snapshot (as_decisions (cp_audit s)))),
        on_ns (set_audit_export_payload (px_ns x) (as_export_snapshot (cp_audit s))),
        note_truncation x ''decisions'' outcome])"

definition audit_on :: "unit cp_op \<Rightarrow> unit cp_op" where
  "audit_on m = st_read (\<lambda>s. if \<not> ac_enabled (as_config (cp_audit s)) then st_return () else m)"

definition record_control_audit ::
  "cp_ext \<Rightarrow> path \<Rightarrow> bytes \<Rightarrow> control_outcome \<Rightarrow> role option \<Rightarrow> string option \<Rightarrow> unit cp_op" where
  "record_control_audit x path data outcome r ticket = audit_on
     (st_bind (on_audit (record_control (px_journal_json x) (''/'' @ join ''/'' path) data outcome
        (map_option role_label r) ticket)) (publish_journal x))"

definition cp_record_decision_action ::
  "cp_ext \<Rightarrow> policy_action_audit \<Rightarrow> role option \<Rightarrow> string option \<Rightarrow> unit cp_op" where
  "cp_record_decision_action x action r ticket = audit_on
     (st_bind (on_audit (record_decision_action (px_decision_json x)
        \<lparr>ad_id = paa_id action, ad_decision = policy_decision_label (paa_decision action), ad_target = paa_target action\<rparr>
        (map_option role_label r) ticket)) (publish_decisions x))"

definition cp_record_decision_gate ::
  "cp_ext \<Rightarrow> path \<Rightarrow> policy_gate_allowance \<Rightarrow> role option \<Rightarrow> string option \<Rightarrow> unit cp_op" where
  "cp_record_decision_gate x path allowance r ticket = audit_on (case allowance of
     AllowedBy action_id target \<Rightarrow>
       st_bind (on_audit (record_decision_gate (px_decision_json x)
         \<lparr>ag_outcome = ''allow'', ag_id = Some action_id, ag_target = Some target, ag_path = ''/'' @ join ''/'' path\<rparr>
         (map_option role_label r) ticket)) (publish_decisions x)
   | Ungated \<Rightarrow> st_return ()
   | NotRequired \<Rightarrow> st_return ())"

definition cp_record_decision_gate_denial ::
  "cp_ext \<Rightarrow> path \<Rightarrow> policy_gate_denial \<Rightarrow> role option \<Rightarrow> string option \<Rightarrow> unit cp_op" where
  "cp_record_decision_gate_denial x path denial r ticket = audit_on
     (st_bind (on_audit (record_decision_gate (px_decision_json x)
        (case denial of
           Missing \<Rightarrow> \<lparr>ag_outcome = ''deny'', ag_id = None, ag_target = None, ag_path = ''/'' @ join ''/'' path\<rparr>
         | DeniedBy action_id target \<Rightarrow>
             \<lparr>ag_outcome = ''deny'', ag_id = Some action_id, ag_target = Some target, ag_path = ''/'' @ join ''/'' path\<rparr>)
        (map_option role_label r) ticket)) (publish_decisions x))"

definition record_audit_denial :: "cp_ext \<Rightarrow> string \<Rightarrow> unit cp_op" where
  "record_audit_denial x m = log_event x ''audit'' TlWarn None m"

definition record_ui_provider_denial ::
  "cp_ext \<Rightarrow> path \<Rightarrow> ui_provider_kind \<times> ui_variant \<times> bool \<Rightarrow> string \<Rightarrow> role option \<Rightarrow> string option \<Rightarrow> nat option \<Rightarrow> unit cp_op" where
  "record_ui_provider_denial x path info reason r ticket cnt = log_event x ''ui'' TlWarn None
     (''ui-provider outcome=deny reason='' @ reason @ '' provider='' @ ui_label (fst info)
        @ '' variant='' @ (case fst (snd info) of UiText \<Rightarrow> ''text'' | UiCbor \<Rightarrow> ''cbor'')
        @ '' role='' @ role_or_unauthenticated r @ '' ticket='' @ ticket_or_none ticket @ '' path='' @ path_label path
        @ (case cnt of None \<Rightarrow> [] | Some n \<Rightarrow> '' count='' @ show_nat n))"

definition record_host_write_audit ::
  "cp_ext \<Rightarrow> host_write_target_rec \<Rightarrow> host_write_outcome \<Rightarrow> role option \<Rightarrow> string option \<Rightarrow> nat option \<Rightarrow> unit cp_op" where
  "record_host_write_audit x target outcome r ticket bytes =
     log_event x ''host'' (case outcome of HostAllowed \<Rightarrow> TlInfo | HostDenied \<Rightarrow> TlWarn) None
       (format_host_write_audit target outcome r ticket bytes)"

definition record_policy_action_audit :: "cp_ext \<Rightarrow> policy_action_audit \<Rightarrow> role option \<Rightarrow> string option \<Rightarrow> unit cp_op" where
  "record_policy_action_audit x action r ticket =
     log_event x ''policy'' TlInfo None (format_policy_action_audit action r ticket)"

definition record_policy_gate_audit ::
  "cp_ext \<Rightarrow> path \<Rightarrow> policy_gate_allowance \<Rightarrow> role option \<Rightarrow> string option \<Rightarrow> unit cp_op" where
  "record_policy_gate_audit x path allowance r ticket = (case format_policy_gate_allow path allowance r ticket of
     Some m \<Rightarrow> log_event x ''policy'' TlInfo None m
   | None \<Rightarrow> st_return ())"

definition record_policy_gate_denial ::
  "cp_ext \<Rightarrow> path \<Rightarrow> policy_gate_denial \<Rightarrow> role option \<Rightarrow> string option \<Rightarrow> unit cp_op" where
  "record_policy_gate_denial x path denial r ticket =
     log_event x ''policy'' TlWarn None (format_policy_gate_deny path denial r ticket)"

subsection \<open>Lifecycle\<close>

definition refresh_proc_lifecycle :: "cp_ext \<Rightarrow> nat \<Rightarrow> unit cp_op" where
  "refresh_proc_lifecycle x now = st_read (\<lambda>s.
     let snapshot = lifecycle_snap (cp_lifecycle s) now
     in st_seq
       [on_ns (set_proc_lifecycle_payload (px_ns x) FLifecycleState
          (str_bytes (''state='' @ lifecycle_state_str (ls_state snapshot)))),
        on_ns (set_proc_lifecycle_payload (px_ns x) FLifecycleReason (str_bytes (''reason='' @ ls_reason snapshot))),
        on_ns (set_proc_lifecycle_payload (px_ns x) FLifecycleSince
          (str_bytes (''since_ms='' @ show_nat (ls_since_ms snapshot))))])"

definition record_lifecycle_transition :: "cp_ext \<Rightarrow> lifecycle_transition \<Rightarrow> unit cp_op" where
  "record_lifecycle_transition x t = append_queen_log x (format_transition_log t)"

definition record_lifecycle_denied :: "cp_ext \<Rightarrow> string \<Rightarrow> lifecycle_error \<Rightarrow> unit cp_op" where
  "record_lifecycle_denied x action e = st_read (\<lambda>s.
     append_queen_log x (format_denied_log (lm_state (cp_lifecycle s)) action e))"

definition ensure_lifecycle_gate :: "cp_ext \<Rightarrow> lifecycle_gate \<Rightarrow> unit cp_op" where
  "ensure_lifecycle_gate x gate = st_read (\<lambda>s.
     if gate_allows (cp_lifecycle s) gate then st_return ()
     else st_then (append_queen_log x (format_gate_denied_log (lm_state (cp_lifecycle s)) (gate_name gate)))
       (cp_fail EPermission ''EPERM''))"

text \<open>Skipping the blank lines of a control write, as every handler does.\<close>

definition command_lines :: "string \<Rightarrow> string list" where
  "command_lines t = filter (\<lambda>l. l \<noteq> []) (map trim (str_lines t))"

definition utf8_command :: "bytes \<Rightarrow> string \<Rightarrow> string cp_op" where
  "utf8_command data what = (case from_utf8 data of
     Some t \<Rightarrow> st_return t
   | None \<Rightarrow> cp_fail EInvalid (what @ '' must be UTF-8: '' @ utf8_error_text data))"

definition lifecycle_ctl :: path where
  "lifecycle_ctl = [''queen'', ''lifecycle'', ''ctl'']"

definition lifecycle_refused :: "cp_ext \<Rightarrow> role option \<Rightarrow> string option \<Rightarrow> string \<Rightarrow> lifecycle_error \<Rightarrow> unit cp_op" where
  "lifecycle_refused x r ticket line err =
     (let protocol = lifecycle_error_to_protocol err
      in st_then (record_lifecycle_denied x line err)
        (st_then (record_control_audit x lifecycle_ctl (str_bytes line) (control_from_error protocol) r ticket)
          (st_fail (Fail protocol))))"

definition lifecycle_line :: "cp_ext \<Rightarrow> role option \<Rightarrow> string option \<Rightarrow> nat \<Rightarrow> string \<Rightarrow> unit cp_op" where
  "lifecycle_line x r ticket now line = (case parse_command line of
     Err err \<Rightarrow> lifecycle_refused x r ticket line err
   | Ok command \<Rightarrow> st_read (\<lambda>s.
       st_bind (on_lifecycle (\<lambda>m. apply_command m command now (length (cp_workers s)))) (\<lambda>result. case result of
         Ok tr \<Rightarrow> st_seq
           [record_lifecycle_transition x tr, refresh_proc_lifecycle x now,
            record_control_audit x lifecycle_ctl (str_bytes line) control_ok r ticket]
       | Err err \<Rightarrow> lifecycle_refused x r ticket line err)))"

definition process_lifecycle_ctl_write ::
  "cp_ext \<Rightarrow> bytes \<Rightarrow> role option \<Rightarrow> string option \<Rightarrow> nat \<Rightarrow> nat cp_op" where
  "process_lifecycle_ctl_write x data r ticket now =
     st_then (on_ns (write_append (px_ns x) lifecycle_ctl u64_max data))
    (st_bind (utf8_command data ''lifecycle command'') (\<lambda>t.
     st_then (st_for (lifecycle_line x r ticket now) (command_lines t))
       (st_return (as_u32 (length data)))))"

subsection \<open>Services and GPUs\<close>

definition register_service :: "cp_ext \<Rightarrow> string \<Rightarrow> path \<Rightarrow> unit cp_op" where
  "register_service x service target =
     st_then (on_ns (lookup (px_ns x) target))
       (st_modify (\<lambda>s. s\<lparr>cp_services := bt_insert service target (cp_services s)\<rparr>))"

definition install_gpu_node :: "cp_ext \<Rightarrow> serialised_gpu_node \<Rightarrow> unit cp_op" where
  "install_gpu_node x n =
     st_then (on_ns (set_gpu_node (px_ns x) (sg_id n) (str_bytes (sg_info_payload n)) (str_bytes (sg_ctl_payload n))
        (str_bytes (sg_lease_payload n)) (str_bytes (sg_status_payload n))))
       (st_modify (\<lambda>s. s\<lparr>cp_gpu_nodes := bt_insert (sg_id n) () (cp_gpu_nodes s)\<rparr>))"

definition install_gpu_nodes :: "cp_ext \<Rightarrow> gpu_namespace_snapshot \<Rightarrow> unit cp_op" where
  "install_gpu_nodes x topology = st_seq
     [st_for (install_gpu_node x) (gs_nodes topology),
      on_ns (set_gpu_models (px_ns x)
        (map (\<lambda>m. (mm_model_id m, str_bytes (mm_manifest_toml m))) (mc_available (gs_models topology)))
        (mc_active (gs_models topology))),
      on_ns (set_gpu_telemetry_schema (px_ns x) (str_bytes (descriptor_json (gs_schema topology))))]"

text \<open>\<open>String::truncate\<close> panics when the new length is inside a character.\<close>

definition str_truncate :: "nat \<Rightarrow> string \<Rightarrow> ninedoor_error fault + string" where
  "str_truncate n s =
     (if n < length s \<and> utf8_cont (char_byte (s ! n)) then Err Panic else Ok (take n s))"

definition with_newline :: "string \<Rightarrow> string" where
  "with_newline s = (if s \<noteq> [] \<and> last s = CHR 0x0A then s else s @ newline)"

definition cp_set_gpu_bridge_status :: "cp_ext \<Rightarrow> string \<Rightarrow> unit cp_op" where
  "cp_set_gpu_bridge_status x line =
     (let payload = with_newline line
      in st_bind (if length payload > GPU_BRIDGE_STATUS_MAX_BYTES
           then st_bind (st_lift (str_truncate GPU_BRIDGE_STATUS_MAX_BYTES payload)) (\<lambda>cut. st_return (with_newline cut))
           else st_return payload)
         (\<lambda>payload. on_ns (set_gpu_bridge_status (px_ns x) (str_bytes payload))))"

definition gpu_bridge_error_message :: "ninedoor_error \<Rightarrow> string" where
  "gpu_bridge_error_message err = (case err of Protocol _ m \<Rightarrow> m | _ \<Rightarrow> ninedoor_error_display err)"

definition gpu_bridge_line :: "cp_ext \<Rightarrow> string \<Rightarrow> unit cp_op" where
  "gpu_bridge_line x line =
     st_bind (st_try (on_bridge (handle_line (px_bridge x) line))) (\<lambda>update. case update of
       Ok UpdateNone \<Rightarrow> st_return ()
     | Ok (UpdateStarted n) \<Rightarrow> cp_set_gpu_bridge_status x (''state=receiving bytes='' @ show_nat n)
     | Ok (UpdateComplete n sha snapshot) \<Rightarrow>
         st_then (install_gpu_nodes x snapshot)
           (cp_set_gpu_bridge_status x (''state=ok bytes='' @ show_nat n @ '' sha256='' @ sha))
     | Err err \<Rightarrow>
         st_then (st_try (cp_set_gpu_bridge_status x (''state=err reason='' @ gpu_bridge_error_message err)))
           (st_fail (Fail err)))"

definition process_gpu_bridge_ctl_write :: "cp_ext \<Rightarrow> nat \<Rightarrow> bytes \<Rightarrow> nat cp_op" where
  "process_gpu_bridge_ctl_write x offset data =
     st_bind (on_ns (write_append (px_ns x) [''gpu'', ''bridge'', ''ctl''] offset data)) (\<lambda>cnt.
     st_bind (utf8_command data ''gpu bridge payload'') (\<lambda>t.
     st_then (st_for (gpu_bridge_line x) (command_lines t)) (st_return cnt)))"

definition cp_set_lora_export_job :: "cp_ext \<Rightarrow> string \<Rightarrow> bytes \<Rightarrow> bytes \<Rightarrow> bytes \<Rightarrow> unit cp_op" where
  "cp_set_lora_export_job x job_id telemetry base_model policy =
     on_ns (set_lora_export_job (px_ns x) job_id telemetry base_model policy)"

definition gpu_lease_entry_bytes :: "cp_ext \<Rightarrow> gpu_lease \<Rightarrow> string \<Rightarrow> ninedoor_error + bytes" where
  "gpu_lease_entry_bytes x lease state =
     and_then (map_err (\<lambda>err. Protocol EInvalid (''gpu lease entry serialization failed: '' @ err))
        (px_lease_json x \<lparr>ge_schema = GPU_LEASE_SCHEMA, ge_state = state, ge_lease = lease\<rparr>))
       (\<lambda>json. Ok (str_bytes (json @ newline)))"

definition release_gpu_for_worker :: "cp_ext \<Rightarrow> string \<Rightarrow> worker_record \<Rightarrow> string \<Rightarrow> unit cp_op" where
  "release_gpu_for_worker x worker_id record reason = (case wr_kind record of
     KindHeartbeat \<Rightarrow> st_return ()
   | KindGpu lease \<Rightarrow>
       let gpu_id = gl_gpu_id lease
       in st_then (st_modify (\<lambda>s. s\<lparr>cp_leases := bt_remove gpu_id (cp_leases s)\<rparr>))
         (st_then (on_ns (write_append (px_ns x) [''gpu'', gpu_id, ''ctl''] u64_max
             (str_bytes (''RELEASE '' @ worker_id @ '' '' @ reason @ newline))))
         (st_bind (cp_lift (gpu_lease_entry_bytes x lease GPU_LEASE_STATE_RELEASED)) (\<lambda>lease_bytes.
          st_then (on_ns (write_append (px_ns x) [''gpu'', gpu_id, ''lease''] u64_max lease_bytes))
            (on_ns (append_gpu_status (px_ns x) gpu_id
              (str_bytes (status_entry worker_id ''LEASE-ENDED'' reason @ newline))))))))"

subsection \<open>Policy, audit and replay files\<close>

definition ignore_not_found :: "unit cp_op \<Rightarrow> unit cp_op" where
  "ignore_not_found m = st_bind (st_try m) (\<lambda>result. case result of
     Ok _ \<Rightarrow> st_return ()
   | Err err \<Rightarrow> (case err of
       Protocol code _ \<Rightarrow> if code = ENotFound then st_return () else st_fail (Fail err)
     | _ \<Rightarrow> st_fail (Fail err)))"

definition apply_policy_preflight :: "cp_ext \<Rightarrow> policy_preflight_payloads \<Rightarrow> preflight_file \<Rightarrow> unit cp_op" where
  "apply_policy_preflight x payloads f = st_seq
     [ignore_not_found (on_ns (set_policy_preflight_payload (px_ns x) f UiText (ppp_text payloads))),
      ignore_not_found (on_ns (set_policy_preflight_payload (px_ns x) f UiCbor (ppp_cbor payloads)))]"

definition refresh_policy_preflight :: "cp_ext \<Rightarrow> unit cp_op" where
  "refresh_policy_preflight x = st_read (\<lambda>s.
     if \<not> pc_enabled (ps_config (cp_policy s)) then st_return ()
     else st_bind (cp_lift (preflight_req_payloads (cp_policy s))) (\<lambda>req.
       st_then (apply_policy_preflight x req FReq)
      (st_bind (cp_lift (preflight_diff_payloads (cp_policy s))) (\<lambda>diff.
       apply_policy_preflight x diff FDiff))))"

definition process_policy_ctl_write :: "cp_ext \<Rightarrow> nat \<Rightarrow> bytes \<Rightarrow> nat cp_op" where
  "process_policy_ctl_write x offset data =
     st_bind (on_policy (append_policy_ctl (px_value x) offset data)) (\<lambda>cnt.
     st_then (st_read (\<lambda>s. on_ns (set_policy_ctl_payload (px_ns x) (ps_ctl_log (cp_policy s)))))
       (st_return cnt))"

definition refresh_action_status :: "cp_ext \<Rightarrow> string \<Rightarrow> unit cp_op" where
  "refresh_action_status x action_id = st_read (\<lambda>s.
     case action_status_payload (px_status_json x) (cp_policy s) action_id of
       None \<Rightarrow> st_return ()
     | Some payload \<Rightarrow> on_ns (set_action_status_payload (px_ns x) action_id payload))"

definition process_action_queue_write :: "cp_ext \<Rightarrow> nat \<Rightarrow> bytes \<Rightarrow> (nat \<times> policy_action_audit list) cp_op" where
  "process_action_queue_write x offset data =
     st_bind (on_policy (append_action_queue (px_action x) offset data)) (\<lambda>outcome.
     st_then (st_read (\<lambda>s. on_ns (set_action_queue_payload (px_ns x) (ps_queue_log (cp_policy s)))))
    (st_then (st_for (\<lambda>a. refresh_action_status x (paa_id a)) (pqo_appended outcome))
    (st_then (refresh_policy_preflight x)
       (st_return (pqo_count outcome, pqo_appended outcome)))))"

definition consume_policy_gate :: "cp_ext \<Rightarrow> path \<Rightarrow> policy_gate_decision cp_op" where
  "consume_policy_gate x path =
     st_bind (on_policy (\<lambda>p. case consume_gate path p of (d, p') \<Rightarrow> (Ok d, p'))) (\<lambda>decision.
     st_then (case decision of
         Allowed (AllowedBy action_id _) \<Rightarrow> refresh_action_status x action_id
       | Denied (DeniedBy action_id _) \<Rightarrow> refresh_action_status x action_id
       | _ \<Rightarrow> st_return ())
    (st_then (refresh_policy_preflight x) (st_return decision)))"

definition process_audit_journal_write ::
  "cp_ext \<Rightarrow> nat \<Rightarrow> bytes \<Rightarrow> role option \<Rightarrow> string option \<Rightarrow> nat cp_op" where
  "process_audit_journal_write x offset data r ticket =
     st_bind (st_try (on_audit (append_manual_journal (px_value x) offset data))) (\<lambda>result. case result of
       Err err \<Rightarrow>
         st_then (log_event x ''audit'' TlWarn None (''audit journal append rejected: '' @ ninedoor_error_display err))
           (st_fail (Fail err))
     | Ok outcome \<Rightarrow>
         st_then (publish_journal x outcome)
        (st_then (case r of
            None \<Rightarrow> st_return ()
          | Some r \<Rightarrow> log_event x ''audit'' TlInfo None (''audit journal append role='' @ role_label r @ '' ticket=''
              @ ticket_or_none ticket @ '' bytes='' @ show_nat (ao_count outcome)))
           (st_return (ao_count outcome))))"

definition replay_window_message :: "replay_window_error \<Rightarrow> error_code \<times> string" where
  "replay_window_message e = (case e of
     ReplayStale requested start \<Rightarrow> (EInvalid,
       ''replay cursor stale requested='' @ show_nat requested @ '' window_start='' @ show_nat start)
   | ReplayFuture requested stop \<Rightarrow> (EInvalid,
       ''replay cursor beyond window requested='' @ show_nat requested @ '' window_end='' @ show_nat stop)
   | TooManyEntries requested most \<Rightarrow> (ETooBig,
       ''replay exceeds max entries '' @ show_nat requested @ '' > '' @ show_nat most))"

definition publish_replay_status :: "cp_ext \<Rightarrow> unit cp_op" where
  "publish_replay_status x = st_read (\<lambda>s. on_ns (set_replay_status_payload (px_ns x) (rp_status (cp_replay s))))"

definition replay_range :: "cp_ext \<Rightarrow> nat \<Rightarrow> unit cp_op" where
  "replay_range x start = st_read (\<lambda>s.
     case replay_summary (cp_audit s) start (rc_max_entries (ac_replay (as_config (cp_audit s)))) of
       Err e \<Rightarrow>
         let (code, m) = replay_window_message e
         in st_then (on_replay (set_status_err (px_error_json x) m))
           (st_then (publish_replay_status x)
           (st_then (log_event x ''audit'' TlWarn None m) (cp_fail code m)))
     | Ok summary \<Rightarrow> st_seq
         [on_replay (set_status_ok summary), publish_replay_status x,
          log_event x ''audit'' TlInfo None (''replay ok from='' @ show_nat (rs_from summary) @ '' to=''
            @ show_nat (rs_to summary) @ '' entries='' @ show_nat (rs_entries summary) @ '' match=true'')])"

definition process_replay_ctl_write :: "cp_ext \<Rightarrow> nat \<Rightarrow> bytes \<Rightarrow> nat cp_op" where
  "process_replay_ctl_write x offset data = st_read (\<lambda>s.
     if \<not> rc_enabled (rp_config (cp_replay s)) then cp_fail EPermission ''replay disabled''
     else st_bind (st_try (on_replay (replay_append_ctl (px_replay x) offset data))) (\<lambda>result. case result of
       Err err \<Rightarrow>
         st_then (log_event x ''audit'' TlWarn None (''replay control rejected: '' @ ninedoor_error_display err))
           (st_fail (Fail err))
     | Ok start \<Rightarrow>
         st_then (st_read (\<lambda>s. on_ns (set_replay_ctl_payload (px_ns x) (rp_ctl_log (cp_replay s)))))
        (st_then (replay_range x start) (st_return (as_u32 (length data))))))"

subsection \<open>Workers\<close>

definition worker_name :: "nat \<Rightarrow> string" where
  "worker_name n = ''worker-'' @ show_nat n"

definition lease_gpu :: "cp_ext \<Rightarrow> spawn_command \<Rightarrow> string \<Rightarrow> gpu_lease cp_op" where
  "lease_gpu x spec worker_id = (case sp_lease spec of
     None \<Rightarrow> st_fail Panic
   | Some f \<Rightarrow> st_read (\<lambda>s.
       if \<not> bt_contains (cp_gpu_nodes s) (glf_gpu_id f)
       then cp_fail ENotFound (''gpu '' @ glf_gpu_id f @ '' not registered'')
       else if bt_contains (cp_leases s) (glf_gpu_id f)
       then cp_fail EBusy (''gpu '' @ glf_gpu_id f @ '' already leased'')
       else st_bind (cp_lift (map_err (\<lambda>err. Protocol EInvalid (''invalid gpu lease: '' @ err))
           (gpu_lease_new f worker_id))) (\<lambda>lease.
         st_then (st_modify (\<lambda>s. s\<lparr>cp_leases := bt_insert (gl_gpu_id lease) worker_id (cp_leases s)\<rparr>))
           (st_return lease))))"

definition announce_lease :: "cp_ext \<Rightarrow> gpu_lease \<Rightarrow> string \<Rightarrow> unit cp_op" where
  "announce_lease x lease worker_id =
     (let gpu_id = gl_gpu_id lease
      in st_then (on_ns (write_append (px_ns x) [''gpu'', gpu_id, ''ctl''] u64_max
            (str_bytes (''LEASE '' @ worker_id @ '' mem='' @ show_nat (unat (gl_mem_mb lease)) @ '' streams=''
              @ show_nat (unat (gl_streams lease)) @ '' priority='' @ show_nat (unat (gl_priority lease)) @ newline))))
        (st_bind (cp_lift (gpu_lease_entry_bytes x lease GPU_LEASE_STATE_ACTIVE)) (\<lambda>lease_bytes.
         st_then (on_ns (write_append (px_ns x) [''gpu'', gpu_id, ''lease''] u64_max lease_bytes))
           (log_event x ''worker'' TlInfo (Some worker_id) (''spawned '' @ worker_id @ '' gpu='' @ gpu_id @ '' ttl=''
             @ show_nat (unat (gl_ttl_s lease)) @ '' streams='' @ show_nat (unat (gl_streams lease)))))))"

definition make_worker :: "cp_ext \<Rightarrow> spawn_command \<Rightarrow> budget_spec \<Rightarrow> string \<Rightarrow> worker_record cp_op" where
  "make_worker x spec budget worker_id = (case sp_spawn spec of
     SpawnHeartbeat \<Rightarrow>
       st_then (log_event x ''worker'' TlInfo (Some worker_id) (''spawned '' @ worker_id
          @ '' ticks='' @ format_budget_value (bs_ticks budget) @ '' ttl='' @ format_budget_value (bs_ttl_s budget)
          @ '' ops='' @ format_budget_value (bs_ops budget)))
         (st_return \<lparr>wr_budget = budget, wr_kind = KindHeartbeat\<rparr>)
   | SpawnGpu \<Rightarrow>
       st_bind (lease_gpu x spec worker_id) (\<lambda>lease.
         st_then (announce_lease x lease worker_id)
           (st_return \<lparr>wr_budget = budget, wr_kind = KindGpu lease\<rparr>)))"

text \<open>The worker counter is a \<open>u64\<close>.\<close>

definition next_worker :: "string cp_op" where
  "next_worker s =
     (Ok (worker_name (cp_next_worker_id s)), s\<lparr>cp_next_worker_id := (cp_next_worker_id s + 1) mod 2 ^ 64\<rparr>)"

definition spawn_worker :: "cp_ext \<Rightarrow> spawn_command \<Rightarrow> string cp_op" where
  "spawn_worker x spec = st_read (\<lambda>s.
     let defaults = (case sp_spawn spec of SpawnHeartbeat \<Rightarrow> cp_default_budget s | SpawnGpu \<Rightarrow> budget_default_gpu)
     in st_bind (cp_lift (spawn_budget_spec spec defaults)) (\<lambda>budget.
        st_bind next_worker (\<lambda>worker_id.
        st_then (on_ns (create_worker (px_ns x) worker_id))
       (st_bind (make_worker x spec budget worker_id) (\<lambda>record.
        st_then (st_modify (\<lambda>s. s\<lparr>cp_workers := bt_insert worker_id record (cp_workers s)\<rparr>))
          (st_return worker_id))))))"

definition take_worker :: "string \<Rightarrow> worker_record option cp_op" where
  "take_worker worker_id s =
     (Ok (map_of (cp_workers s) worker_id), s\<lparr>cp_workers := bt_remove worker_id (cp_workers s)\<rparr>)"

definition kill_worker :: "cp_ext \<Rightarrow> string \<Rightarrow> unit cp_op" where
  "kill_worker x worker_id = st_bind (take_worker worker_id) (\<lambda>record. case record of
     None \<Rightarrow> cp_fail ENotFound (''worker '' @ worker_id @ '' not found'')
   | Some record \<Rightarrow> st_seq
       [release_gpu_for_worker x worker_id record ''killed by queen'',
        on_ns (remove_worker (px_ns x) worker_id),
        log_event x ''queen'' TlInfo (Some worker_id) (''killed '' @ worker_id)])"

text \<open>A \<open>remove_worker\<close> that fails with an error that is not a protocol error is ignored too.\<close>

definition revoke_worker :: "cp_ext \<Rightarrow> string \<Rightarrow> string \<Rightarrow> bool cp_op" where
  "revoke_worker x worker_id reason = st_bind (take_worker worker_id) (\<lambda>record. case record of
     None \<Rightarrow> st_return False
   | Some record \<Rightarrow>
       st_then (release_gpu_for_worker x worker_id record reason)
      (st_then (st_bind (st_try (on_ns (remove_worker (px_ns x) worker_id))) (\<lambda>r. case r of
           Err (Protocol code m) \<Rightarrow> if code \<noteq> ENotFound then st_fail (Fail (Protocol code m)) else st_return ()
         | _ \<Rightarrow> st_return ()))
      (st_then (log_event x ''queen'' TlInfo (Some worker_id) (''revoked '' @ worker_id @ '': '' @ reason))
         (st_return True))))"

definition update_default_budget :: "cp_ext \<Rightarrow> budget_fields \<Rightarrow> unit cp_op" where
  "update_default_budget x f =
     st_then (st_modify (\<lambda>s. s\<lparr>cp_default_budget := budget_fields_apply f (cp_default_budget s)\<rparr>))
       (st_read (\<lambda>s. let budget = cp_default_budget s
          in log_event x ''queen'' TlInfo None (''updated default budget ttl='' @ format_budget_value (bs_ttl_s budget)
            @ '' ops='' @ format_budget_value (bs_ops budget) @ '' ticks='' @ format_budget_value (bs_ticks budget))))"

primrec parse_jobs :: "cp_ext \<Rightarrow> string list \<Rightarrow> ninedoor_error + job_descriptor list" where
  "parse_jobs x [] = Ok []"
| "parse_jobs x (line # rest) =
     and_then (map_err (\<lambda>err. Protocol EInvalid (''invalid gpu job descriptor: '' @ err)) (px_job x line)) (\<lambda>d.
     and_then (map_err (\<lambda>err. Protocol EInvalid (''gpu job validation failed: '' @ err))
       (job_validate (nx_cas (px_ns x)) d)) (\<lambda>_.
     and_then (parse_jobs x rest) (\<lambda>ds. Ok (d # ds))))"

text \<open>The telemetry lines of a job are formatted without escaping the job identifier.\<close>

definition job_telemetry :: "string \<Rightarrow> string \<Rightarrow> string \<Rightarrow> string" where
  "job_telemetry job state detail =
     ''{'' @ dq @ ''job'' @ dq @ '':'' @ dq @ job @ dq @ '','' @ dq @ ''state'' @ dq @ '':'' @ dq @ state @ dq
       @ '','' @ dq @ ''detail'' @ dq @ '':'' @ dq @ detail @ dq @ ''}'' @ newline"

definition run_job :: "cp_ext \<Rightarrow> string \<Rightarrow> string \<Rightarrow> job_descriptor \<Rightarrow> unit cp_op" where
  "run_job x worker_id gpu_id d =
     (let job = jd_job d;
          status = (\<lambda>state detail. on_ns (append_gpu_status (px_ns x) gpu_id
            (str_bytes (status_entry job state detail @ newline))));
          telemetry = (\<lambda>state detail. st_then (on_ns (write_append (px_ns x) [''worker'', worker_id, ''telemetry''] u64_max
            (str_bytes (job_telemetry job state detail)))) (st_return ()))
      in st_seq
        [status ''QUEUED'' ''accepted'', status ''RUNNING'' ''scheduled'', status ''OK'' ''completed'',
         telemetry ''RUNNING'' ''scheduled'', telemetry ''OK'' ''completed''])"

definition process_gpu_job :: "cp_ext \<Rightarrow> string \<Rightarrow> string \<Rightarrow> bytes \<Rightarrow> nat cp_op" where
  "process_gpu_job x worker_id gpu_id data =
     st_bind (utf8_command data ''gpu job descriptor'') (\<lambda>t.
     st_bind (cp_lift (parse_jobs x (command_lines t))) (\<lambda>descriptors.
     st_bind (on_ns (write_append (px_ns x) [''gpu'', gpu_id, ''job''] u64_max data)) (\<lambda>cnt.
     st_then (st_for (run_job x worker_id gpu_id) descriptors) (st_return cnt))))"

subsection \<open>Queen commands\<close>

definition queen_ctl :: path where
  "queen_ctl = [''queen'', ''ctl'']"

definition bind_path :: "cp_ext \<Rightarrow> bind_spec \<Rightarrow> queen_event cp_op" where
  "bind_path x b = st_bind (cp_lift (bind_into_parts b)) (\<lambda>(from_raw, to_raw, source, mount).
     if mount = [] then cp_fail EInvalid ''bind target must not be root''
     else st_then (on_ns (lookup (px_ns x) source))
       (st_then (log_event x ''queen'' TlInfo None (''bound '' @ from_raw @ '' -> '' @ to_raw))
         (st_return (Bound source mount))))"

definition mount_service :: "cp_ext \<Rightarrow> mount_spec \<Rightarrow> queen_event cp_op" where
  "mount_service x m = st_bind (cp_lift (mount_into_parts m)) (\<lambda>(service, at_raw, mount).
     if mount = [] then cp_fail EInvalid ''mount point must not be root''
     else st_read (\<lambda>s. case map_of (cp_services s) service of
       None \<Rightarrow> cp_fail ENotFound (''service '' @ service @ '' not registered'')
     | Some target \<Rightarrow>
         st_then (log_event x ''queen'' TlInfo None (''mounted '' @ service @ '' at '' @ at_raw))
           (st_return (Mounted target mount))))"

definition needs_new_work_gate :: "queen_command \<Rightarrow> bool" where
  "needs_new_work_gate c = (case c of
     CmdSpawn _ \<Rightarrow> True | CmdKill _ \<Rightarrow> False | CmdBudget _ \<Rightarrow> False | CmdBind _ \<Rightarrow> True | CmdMount _ \<Rightarrow> True)"

definition run_queen_command :: "cp_ext \<Rightarrow> queen_command \<Rightarrow> queen_event cp_op" where
  "run_queen_command x c = (case c of
     CmdSpawn spec \<Rightarrow> st_bind (spawn_worker x spec) (\<lambda>worker_id. st_return (Spawned worker_id))
   | CmdKill worker_id \<Rightarrow> st_then (kill_worker x worker_id) (st_return (Killed worker_id))
   | CmdBudget f \<Rightarrow> st_then (update_default_budget x f) (st_return BudgetUpdated)
   | CmdBind b \<Rightarrow> bind_path x b
   | CmdMount m \<Rightarrow> mount_service x m)"

definition audited ::
  "cp_ext \<Rightarrow> role option \<Rightarrow> string option \<Rightarrow> string \<Rightarrow> ninedoor_error + 'a \<Rightarrow> 'a cp_op" where
  "audited x r ticket line outcome = (case outcome of
     Err err \<Rightarrow>
       st_then (record_control_audit x queen_ctl (str_bytes line) (control_from_error err) r ticket) (st_fail (Fail err))
   | Ok v \<Rightarrow> st_then (record_control_audit x queen_ctl (str_bytes line) control_ok r ticket) (st_return v))"

definition queen_line :: "cp_ext \<Rightarrow> role option \<Rightarrow> string option \<Rightarrow> string \<Rightarrow> queen_event cp_op" where
  "queen_line x r ticket line = (case queen_command_parse (px_queen x) line of
     Err err \<Rightarrow> audited x r ticket line (Err err)
   | Ok c \<Rightarrow>
       st_then (st_when (needs_new_work_gate c) (ensure_lifecycle_gate x GATE_NEW_WORK))
         (st_bind (st_try (run_queen_command x c)) (audited x r ticket line)))"

primrec queen_lines :: "cp_ext \<Rightarrow> role option \<Rightarrow> string option \<Rightarrow> string list \<Rightarrow> queen_event list cp_op" where
  "queen_lines x r ticket [] = st_return []"
| "queen_lines x r ticket (line # rest) =
     st_bind (queen_line x r ticket line) (\<lambda>event.
     st_bind (queen_lines x r ticket rest) (\<lambda>events. st_return (event # events)))"

definition process_queen_write :: "cp_ext \<Rightarrow> bytes \<Rightarrow> role option \<Rightarrow> string option \<Rightarrow> queen_event list cp_op" where
  "process_queen_write x data r ticket =
     st_then (on_ns (write_append (px_ns x) queen_ctl u64_max data))
    (st_bind (utf8_command data ''queen command'') (\<lambda>t. queen_lines x r ticket (command_lines t)))"

end
