(* ===== verification/Control_Safety.thy ===== *)
theory Control_Safety
  imports Control_Plane Namespace_Safety
begin

section \<open>Workers, leases and the lifecycle under control writes\<close>

text \<open>
  Every operation of the control plane as a step, with its own readers and clock. Most of them only
  touch the namespace and the stores: they leave the workers, the leases and the lifecycle as they
  are. The others keep the leases of the workers exclusive and a quiesced node free of workers.
\<close>

subsection \<open>What most operations leave alone\<close>

definition cp_core :: "control_plane \<Rightarrow> (string, worker_record) btree \<times> (string, string) btree \<times> lifecycle_machine" where
  "cp_core s = (cp_workers s, cp_leases s, cp_lifecycle s)"

definition same_core :: "control_plane \<Rightarrow> control_plane \<Rightarrow> bool" where
  "same_core s t \<longleftrightarrow> cp_core s = cp_core t"

interpretation core: evolution same_core
  by unfold_locales (simp_all add: same_core_def)

lemma core_for: "(\<And>x. st_moves same_core (f x)) \<Longrightarrow> st_moves same_core (st_for f xs)"
  by (induction xs) (auto intro: core.moves)

lemma core_try: "st_moves same_core m \<Longrightarrow> st_moves same_core (st_try m)"
proof -
  have "snd (st_try m s) = snd (m s)" for s
    by (simp add: st_try_def split_beta split: sum.split fault.split)
  then show "st_moves same_core m \<Longrightarrow> st_moves same_core (st_try m)" by (simp add: st_moves_def)
qed

lemma core_seq: "list_all (st_moves same_core) ms \<Longrightarrow> st_moves same_core (st_seq ms)"
  by (induction ms) (auto simp: st_seq_def intro: core.moves)

lemma core_when: "st_moves same_core m \<Longrightarrow> st_moves same_core (st_when b m)"
  by (simp add: st_when_def core.moves)

lemma core_parts:
  "st_moves same_core (on_ns m)" "st_moves same_core (on_policy p)" "st_moves same_core (on_audit a)"
  "st_moves same_core (on_replay r)" "st_moves same_core (on_bridge b)"
  by (simp_all add: st_moves_def same_core_def cp_core_def on_ns_def on_policy_def on_audit_def on_replay_def
      on_bridge_def split_beta)

lemma core_basic: "st_moves same_core (cp_fail c m)" "st_moves same_core (cp_lift r)"
  by (simp_all add: cp_fail_def cp_lift_def core.moves)

lemma core_modify:
  "(\<And>s. cp_workers (f s) = cp_workers s) \<Longrightarrow> (\<And>s. cp_leases (f s) = cp_leases s) \<Longrightarrow>
    (\<And>s. cp_lifecycle (f s) = cp_lifecycle s) \<Longrightarrow> st_moves same_core (st_modify f)"
  by (rule core.moves_modify) (simp add: same_core_def cp_core_def)

lemmas core = core.moves core_for core_try core_seq core_when core_parts core_basic core_modify

lemma core_log:
  "st_moves same_core (append_queen_log x m)" "st_moves same_core (log_event x category level task m)"
  by (simp_all add: append_queen_log_def log_event_def core)

lemma core_publish:
  "st_moves same_core (note_truncation x log out)" "st_moves same_core (publish_journal x out)"
  "st_moves same_core (publish_decisions x out)"
  by (simp_all add: note_truncation_def publish_journal_def publish_decisions_def core core_log Let_def)

lemma core_audit_on: "st_moves same_core m \<Longrightarrow> st_moves same_core (audit_on m)"
  by (simp add: audit_on_def core)

lemma core_record:
  "st_moves same_core (record_control_audit x path data outcome r ticket)"
  "st_moves same_core (cp_record_decision_action x action r ticket)"
  "st_moves same_core (cp_record_decision_gate x path allowance r ticket)"
  "st_moves same_core (cp_record_decision_gate_denial x path denial r ticket)"
  by (auto simp: record_control_audit_def cp_record_decision_action_def cp_record_decision_gate_def
      cp_record_decision_gate_denial_def split: policy_gate_allowance.split intro!: core_audit_on core core_publish)

lemma core_records:
  "st_moves same_core (record_audit_denial x m)"
  "st_moves same_core (record_ui_provider_denial x path info reason r ticket cnt)"
  "st_moves same_core (record_host_write_audit x target outcome r ticket bytes)"
  "st_moves same_core (record_policy_action_audit x action r ticket)"
  "st_moves same_core (record_policy_gate_audit x path allowance r ticket)"
  "st_moves same_core (record_policy_gate_denial x path denial r ticket)"
  by (auto simp: record_audit_denial_def record_ui_provider_denial_def record_host_write_audit_def
      record_policy_action_audit_def record_policy_gate_audit_def record_policy_gate_denial_def core_log core
      split: option.split)

lemma core_lifecycle:
  "st_moves same_core (refresh_proc_lifecycle x now)" "st_moves same_core (record_lifecycle_transition x tr)"
  "st_moves same_core (record_lifecycle_denied x action e)" "st_moves same_core (ensure_lifecycle_gate x gate)"
  "st_moves same_core (utf8_command data what)" "st_moves same_core (lifecycle_refused x r ticket line e)"
  by (auto simp: refresh_proc_lifecycle_def record_lifecycle_transition_def record_lifecycle_denied_def
      ensure_lifecycle_gate_def utf8_command_def lifecycle_refused_def Let_def split: option.split
      intro!: core core_log core_record)

lemma core_gpu:
  "st_moves same_core (register_service x service target)" "st_moves same_core (install_gpu_nodes x topology)"
  "st_moves same_core (cp_set_gpu_bridge_status x line)"
  by (auto simp: register_service_def install_gpu_nodes_def install_gpu_node_def cp_set_gpu_bridge_status_def Let_def
      intro!: core)

lemma core_gpu_bridge:
  "st_moves same_core (gpu_bridge_line x line)" "st_moves same_core (process_gpu_bridge_ctl_write x offset data)"
proof -
  show line: "st_moves same_core (gpu_bridge_line x line)" for line
    by (auto simp: gpu_bridge_line_def split: sum.split gpu_bridge_update.split intro!: core core_gpu)
  show "st_moves same_core (process_gpu_bridge_ctl_write x offset data)"
    by (auto simp: process_gpu_bridge_ctl_write_def intro!: core core_lifecycle line)
qed

lemma core_policy:
  "st_moves same_core (refresh_policy_preflight x)" "st_moves same_core (process_policy_ctl_write x offset data)"
  "st_moves same_core (refresh_action_status x action_id)" "st_moves same_core (process_action_queue_write x offset data)"
  "st_moves same_core (consume_policy_gate x path)"
proof -
  have i: "st_moves same_core m \<Longrightarrow> st_moves same_core (ignore_not_found m)" for m
    by (auto simp: ignore_not_found_def split: sum.split ninedoor_error.split intro!: core)
  show p: "st_moves same_core (refresh_policy_preflight x)"
    by (auto simp: refresh_policy_preflight_def apply_policy_preflight_def intro!: core i)
  show a: "st_moves same_core (refresh_action_status x action_id)" for action_id
    by (auto simp: refresh_action_status_def split: option.split intro!: core)
  show "st_moves same_core (process_policy_ctl_write x offset data)"
    by (auto simp: process_policy_ctl_write_def intro!: core)
  show "st_moves same_core (process_action_queue_write x offset data)"
    by (auto simp: process_action_queue_write_def intro!: core a p)
  show "st_moves same_core (consume_policy_gate x path)"
    by (auto simp: consume_policy_gate_def split: policy_gate_decision.split policy_gate_allowance.split
        policy_gate_denial.split intro!: core a p)
qed

lemma core_journal:
  "st_moves same_core (process_audit_journal_write x offset data r ticket)"
  "st_moves same_core (process_replay_ctl_write x offset data)"
  by (auto simp: process_audit_journal_write_def process_replay_ctl_write_def replay_range_def publish_replay_status_def
      split: sum.split option.split prod.split intro!: core core_log core_publish)

lemma core_jobs:
  "st_moves same_core (process_gpu_job x worker_id gpu_id data)" "st_moves same_core (update_default_budget x f)"
  "st_moves same_core (bind_path x b)" "st_moves same_core (mount_service x m)" "st_moves same_core (announce_lease x l w)"
  by (auto simp: process_gpu_job_def run_job_def update_default_budget_def bind_path_def mount_service_def
      announce_lease_def Let_def split: option.split prod.split intro!: core core_log core_lifecycle)

lemma core_audited: "st_moves same_core (audited x r ticket line outcome)"
  by (auto simp: audited_def split: sum.split intro!: core core_record)

lemma core_next: "st_moves same_core next_worker"
  by (simp add: st_moves_def next_worker_def same_core_def cp_core_def)

subsection \<open>Triples\<close>

text \<open>
  From a state with \<open>P\<close> the operation ends with a result and a state in \<open>Q\<close>, or with an error and a
  state in \<open>E\<close>.
\<close>

definition st_triple :: "('s \<Rightarrow> bool) \<Rightarrow> ('s, 'e, 'a) st_op \<Rightarrow> ('a \<Rightarrow> 's \<Rightarrow> bool) \<Rightarrow> ('s \<Rightarrow> bool) \<Rightarrow> bool" where
  "st_triple P m Q E \<longleftrightarrow> (\<forall>s. P s \<longrightarrow> (case m s of (Inr v, t) \<Rightarrow> Q v t | (Inl _, t) \<Rightarrow> E t))"

lemma triple_bind:
  assumes "st_triple P m R E" and "\<And>v. st_triple (R v) (f v) Q E"
  shows "st_triple P (st_bind m f) Q E"
  unfolding st_triple_def
proof (intro allI impI)
  fix s assume "P s"
  with assms(1) have m: "case m s of (Inr v, t) \<Rightarrow> R v t | (Inl _, t) \<Rightarrow> E t" by (simp add: st_triple_def)
  obtain r t where ms: "m s = (r, t)" by fastforce
  show "case st_bind m f s of (Inr v, t) \<Rightarrow> Q v t | (Inl _, t) \<Rightarrow> E t"
  proof (cases r)
    case (Inr v)
    with m ms assms(2) [of v] show ?thesis by (simp add: st_bind_def st_triple_def)
  qed (use m ms in \<open>simp add: st_bind_def\<close>)
qed

lemma triple_core:
  assumes "st_moves same_core m" and "\<And>s t. same_core s t \<Longrightarrow> P s \<Longrightarrow> P t" and "\<And>s. P s \<Longrightarrow> E s"
  shows "st_triple P m (\<lambda>_. P) E"
  unfolding st_triple_def
proof (intro allI impI)
  fix s assume "P s"
  obtain r t where ms: "m s = (r, t)" by fastforce
  with assms(1) have "same_core s t" by (rule st_movesD)
  with assms \<open>P s\<close> have "P t" "E t" by blast+
  with ms show "case m s of (Inr v, t) \<Rightarrow> P t | (Inl _, t) \<Rightarrow> E t" by (simp split: sum.split)
qed

lemma triple_read: "(\<And>s. P s \<Longrightarrow> st_triple (\<lambda>t. t = s) (f s) Q E) \<Longrightarrow> st_triple P (st_read f) Q E"
  by (simp add: st_triple_def st_read_def)

lemma triple_any: "(\<And>s. st_triple P (f s) Q E) \<Longrightarrow> st_triple P (st_read f) Q E"
  by (simp add: st_triple_def st_read_def)

lemma triple_return: "(\<And>s. P s \<Longrightarrow> Q v s) \<Longrightarrow> st_triple P (st_return v) Q E"
  by (simp add: st_triple_def st_return_def)

lemma triple_modify: "(\<And>s. P s \<Longrightarrow> Q () (f s)) \<Longrightarrow> st_triple P (st_modify f) Q E"
  by (simp add: st_triple_def st_modify_def)

lemma triple_fail: "(\<And>s. P s \<Longrightarrow> E s) \<Longrightarrow> st_triple P (st_fail e) Q E"
  by (simp add: st_triple_def st_fail_def)

lemma triple_pre: "st_triple P m Q E \<Longrightarrow> (\<And>s. P' s \<Longrightarrow> P s) \<Longrightarrow> st_triple P' m Q E"
  by (simp add: st_triple_def)

lemma triple_post:
  assumes "st_triple P m Q E" and "\<And>v s. Q v s \<Longrightarrow> Q' v s" and "\<And>s. E s \<Longrightarrow> E' s"
  shows "st_triple P m Q' E'"
  unfolding st_triple_def
proof (intro allI impI)
  fix s assume "P s"
  with assms(1) have "case m s of (Inr v, t) \<Rightarrow> Q v t | (Inl _, t) \<Rightarrow> E t" by (simp add: st_triple_def)
  then show "case m s of (Inr v, t) \<Rightarrow> Q' v t | (Inl _, t) \<Rightarrow> E' t"
    using assms(2,3) by (simp split: prod.splits sum.splits)
qed

lemma triple_keeps: "st_triple P m (\<lambda>_. P) P \<longleftrightarrow> st_keeps P m"
  by (simp add: st_triple_def st_keeps_def split_beta split: sum.split)

subsection \<open>The invariant\<close>

definition leases_held :: "(string, worker_record) btree \<Rightarrow> (string, string) btree \<Rightarrow> bool" where
  "leases_held ws ls \<longleftrightarrow>
     (\<forall>w r l. map_of ws w = Some r \<longrightarrow> wr_kind r = KindGpu l \<longrightarrow> map_of ls (gl_gpu_id l) = Some w)"

definition cp_inv :: "control_plane \<Rightarrow> bool" where
  "cp_inv s \<longleftrightarrow> bt_ok (cp_workers s) \<and> leases_held (cp_workers s) (cp_leases s) \<and>
     (lm_state (cp_lifecycle s) = Booting \<or> lm_state (cp_lifecycle s) = Quiesced \<longrightarrow> cp_workers s = [])"

definition cp_working :: "control_plane \<Rightarrow> bool" where
  "cp_working s \<longleftrightarrow> cp_inv s \<and> gate_allows (cp_lifecycle s) GATE_NEW_WORK"

lemma cp_inv_core: "same_core s t \<Longrightarrow> cp_inv s \<Longrightarrow> cp_inv t"
  by (simp add: same_core_def cp_core_def cp_inv_def)

lemma cp_working_core: "same_core s t \<Longrightarrow> cp_working s \<Longrightarrow> cp_working t"
  by (auto simp: cp_working_def intro: cp_inv_core) (simp add: same_core_def cp_core_def)

lemma core_keeps: "st_moves same_core m \<Longrightarrow> st_keeps cp_inv m"
  unfolding st_keeps_def st_moves_def using cp_inv_core by blast

lemma core_works: "st_moves same_core m \<Longrightarrow> st_triple cp_working m (\<lambda>_. cp_working) cp_working"
  by (rule triple_core) (auto intro: cp_working_core)

lemma leases_held_lease:
  "leases_held ws ls \<Longrightarrow> map_of ls g = None \<Longrightarrow> leases_held ws (bt_insert g w ls)"
  by (auto simp: leases_held_def)

lemma leases_held_spawn:
  "leases_held ws ls \<Longrightarrow> (\<And>l. wr_kind r = KindGpu l \<Longrightarrow> map_of ls (gl_gpu_id l) = Some w) \<Longrightarrow>
    leases_held (bt_insert w r ws) ls"
  by (auto simp: leases_held_def)

lemma leases_held_remove: "leases_held ws ls \<Longrightarrow> leases_held (bt_remove w ws) ls"
  by (auto simp: leases_held_def)

lemma leases_held_release:
  "leases_held ws ls \<Longrightarrow> map_of ws w = Some r \<Longrightarrow> wr_kind r = KindGpu l \<Longrightarrow>
    leases_held (bt_remove w ws) (bt_remove (gl_gpu_id l) ls)"
  by (auto simp: leases_held_def) (metis option.inject)

text \<open>A gate that is open for new work is not open while the node is booting or quiesced.\<close>

lemma working_state: "gate_allows m GATE_NEW_WORK \<Longrightarrow> lm_state m \<noteq> Booting \<and> lm_state m \<noteq> Quiesced"
  by (auto simp: gate_allows_def gate_allows_state_def)

subsection \<open>Spawning\<close>

definition lease_in_place :: "string \<Rightarrow> worker_kind \<Rightarrow> control_plane \<Rightarrow> bool" where
  "lease_in_place w k s \<longleftrightarrow> cp_working s \<and> (\<forall>l. k = KindGpu l \<longrightarrow> map_of (cp_leases s) (gl_gpu_id l) = Some w)"

lemma lease_in_place_core: "same_core s t \<Longrightarrow> lease_in_place w k s \<Longrightarrow> lease_in_place w k t"
  by (auto simp: lease_in_place_def intro: cp_working_core) (simp add: same_core_def cp_core_def)

lemma triple_lease_gpu:
  "st_triple cp_working (lease_gpu x spec w) (\<lambda>l. lease_in_place w (KindGpu l)) cp_working"
  unfolding lease_gpu_def cp_fail_def cp_lift_def
  by (auto simp: st_triple_def st_defs st_bind_def gpu_lease_new_def lease_in_place_def cp_working_def cp_inv_def
      bt_contains_def leases_held_lease split: option.split)

lemma triple_make_worker:
  "st_triple cp_working (make_worker x spec b w) (\<lambda>r. lease_in_place w (wr_kind r)) cp_working"
proof (cases "sp_spawn spec")
  case SpawnHeartbeat
  have "st_triple cp_working (log_event x ''worker'' TlInfo (Some w) m) (\<lambda>_. cp_working) cp_working" for m
    by (rule core_works) (rule core_log)
  with SpawnHeartbeat show ?thesis
    by (auto simp: make_worker_def lease_in_place_def intro!: triple_bind triple_return)
next
  case SpawnGpu
  have "st_triple (lease_in_place w (KindGpu l)) (announce_lease x l w) (\<lambda>_. lease_in_place w (KindGpu l)) cp_working" for l
    by (rule triple_core [OF core_jobs(5)], erule (1) lease_in_place_core) (simp add: lease_in_place_def)
  with SpawnGpu show ?thesis
    by (auto simp: make_worker_def intro!: triple_bind [OF triple_lease_gpu] triple_bind triple_return)
qed

lemma triple_insert_worker:
  "st_triple (lease_in_place w (wr_kind r)) (st_modify (\<lambda>s. s\<lparr>cp_workers := bt_insert w r (cp_workers s)\<rparr>))
    (\<lambda>_. cp_working) cp_working"
  by (rule triple_modify)
    (auto simp: lease_in_place_def cp_working_def cp_inv_def intro!: leases_held_spawn dest: working_state)

lemma triple_spawn_worker: "st_triple cp_working (spawn_worker x spec) (\<lambda>_. cp_working) cp_working"
  unfolding spawn_worker_def Let_def
  by (intro triple_any triple_bind [OF core_works [OF core_basic(2)]] triple_bind [OF core_works [OF core_next]]
      triple_bind [OF core_works [OF core_parts(1)]] triple_bind [OF triple_make_worker]
      triple_bind [OF triple_insert_worker] triple_return)

subsection \<open>Killing and revoking\<close>

definition lease_loose :: "worker_record option \<Rightarrow> control_plane \<Rightarrow> bool" where
  "lease_loose r s \<longleftrightarrow> cp_inv s \<and> (\<forall>r' l. r = Some r' \<longrightarrow> wr_kind r' = KindGpu l \<longrightarrow>
     leases_held (cp_workers s) (bt_remove (gl_gpu_id l) (cp_leases s)))"

lemma bt_remove_Nil [simp]: "bt_remove k [] = []"
  by (simp add: bt_remove_def)

lemma triple_take_worker: "st_triple cp_inv (take_worker w) lease_loose cp_inv"
  by (auto simp: st_triple_def take_worker_def lease_loose_def cp_inv_def
      intro: leases_held_remove leases_held_release)

lemma triple_then_core:
  assumes "st_triple P m (\<lambda>_. cp_inv) cp_inv" and "\<And>v. st_moves same_core (f v)"
  shows "st_triple P (st_bind m f) (\<lambda>_. cp_inv) cp_inv"
  by (rule triple_bind [OF assms(1)]) (simp add: triple_keeps core_keeps assms(2))

lemma triple_release: "st_triple (lease_loose (Some r)) (release_gpu_for_worker x w r reason) (\<lambda>_. cp_inv) cp_inv"
proof (cases "wr_kind r")
  case KindHeartbeat
  then show ?thesis
    by (auto simp: release_gpu_for_worker_def lease_loose_def intro!: triple_return)
next
  case (KindGpu l)
  let ?drop = "st_modify (\<lambda>s. s\<lparr>cp_leases := bt_remove (gl_gpu_id l) (cp_leases s)\<rparr>) :: unit cp_op"
  have "st_triple (lease_loose (Some r)) ?drop (\<lambda>_. cp_inv) cp_inv"
    by (rule triple_modify) (simp add: lease_loose_def cp_inv_def KindGpu)
  then show ?thesis
    unfolding release_gpu_for_worker_def KindGpu Let_def worker_kind.case
    by (rule triple_then_core) (intro core)
qed

lemma keeps_kill: "st_keeps cp_inv (kill_worker x w)"
proof -
  have "st_triple (lease_loose r) (case r of
      None \<Rightarrow> cp_fail ENotFound (''worker '' @ w @ '' not found'')
    | Some r \<Rightarrow> st_seq
       [release_gpu_for_worker x w r ''killed by queen'', on_ns (remove_worker (px_ns x) w),
        log_event x ''queen'' TlInfo (Some w) (''killed '' @ w)]) (\<lambda>_. cp_inv) cp_inv" for r
    by (auto simp: st_seq_def cp_fail_def lease_loose_def split: option.split
        intro!: triple_fail triple_then_core [OF triple_release] core core_log)
  then show ?thesis
    unfolding kill_worker_def triple_keeps [symmetric] by (rule triple_bind [OF triple_take_worker])
qed

lemma keeps_revoke: "st_keeps cp_inv (revoke_worker x w reason)"
proof -
  have "st_triple (lease_loose r) (case r of
      None \<Rightarrow> st_return False
    | Some r \<Rightarrow>
        st_then (release_gpu_for_worker x w r reason)
       (st_then (st_bind (st_try (on_ns (remove_worker (px_ns x) w))) (\<lambda>r. case r of
            Err (Protocol code m) \<Rightarrow> if code \<noteq> ENotFound then st_fail (Fail (Protocol code m)) else st_return ()
          | _ \<Rightarrow> st_return ()))
       (st_then (log_event x ''queen'' TlInfo (Some w) (''revoked '' @ w @ '': '' @ reason))
          (st_return True)))) (\<lambda>_. cp_inv) cp_inv" for r
    by (auto simp: lease_loose_def split: option.split sum.split ninedoor_error.split
        intro!: triple_return triple_then_core [OF triple_release] core core_log)
  then show ?thesis
    unfolding revoke_worker_def triple_keeps [symmetric] by (rule triple_bind [OF triple_take_worker])
qed

subsection \<open>Lifecycle and queen writes\<close>

lemma apply_command_quiet:
  "apply_command m c now n = (r, m') \<Longrightarrow> lm_state m' = Booting \<or> lm_state m' = Quiesced \<Longrightarrow> lm_state m' = lm_state m \<or> n = 0"
  by (cases c) (auto simp: apply_command_def command_target_def Let_def split: if_splits)

lemma triple_lifecycle:
  assumes "cp_inv s"
  shows "st_triple (\<lambda>t. t = s) (on_lifecycle (\<lambda>m. apply_command m c now (length (cp_workers s)))) (\<lambda>_. cp_inv) cp_inv"
proof -
  obtain r m where a: "apply_command (cp_lifecycle s) c now (length (cp_workers s)) = (r, m)" by fastforce
  from apply_command_quiet [OF this] assms have "cp_inv (s\<lparr>cp_lifecycle := m\<rparr>)" by (auto simp: cp_inv_def)
  with a show ?thesis by (simp add: st_triple_def on_lifecycle_def)
qed

lemma keeps_lifecycle_line: "st_keeps cp_inv (lifecycle_line x r ticket now line)"
proof -
  have "st_keeps cp_inv (st_seq [record_lifecycle_transition x tr, refresh_proc_lifecycle x now,
      record_control_audit x lifecycle_ctl (str_bytes line) control_ok r ticket])" for tr
    by (intro core_keeps core) (simp add: core_lifecycle core_record)
  moreover have "st_keeps cp_inv (lifecycle_refused x r ticket line e)" for e
    by (intro core_keeps core_lifecycle)
  ultimately show ?thesis
    unfolding lifecycle_line_def triple_keeps [symmetric]
    by (auto split: sum.split intro!: triple_read triple_bind [OF triple_lifecycle])
qed

lemma keeps_lifecycle_write: "st_keeps cp_inv (process_lifecycle_ctl_write x data r ticket now)"
  unfolding process_lifecycle_ctl_write_def
  by (intro st_keeps_bind st_keeps_for keeps_lifecycle_line st_keeps_basic core_keeps core core_lifecycle)

lemma triple_gate: "st_triple cp_inv (ensure_lifecycle_gate x GATE_NEW_WORK) (\<lambda>_. cp_working) cp_inv"
proof -
  have "st_triple (\<lambda>t. t = s) (st_then (append_queen_log x m) (cp_fail EPermission ''EPERM'')) (\<lambda>_. cp_working) cp_inv"
    if "cp_inv s" for s m
  proof (rule triple_bind)
    show "st_triple (\<lambda>t. t = s) (append_queen_log x m) (\<lambda>_. cp_inv) cp_inv"
      by (rule triple_pre [of cp_inv]) (use that in \<open>simp_all add: triple_keeps core_keeps core_log\<close>)
  qed (simp add: cp_fail_def triple_fail)
  then show ?thesis
    unfolding ensure_lifecycle_gate_def
    by (auto simp: cp_working_def intro!: triple_read triple_return)
qed

lemma triple_try: "st_triple P m (\<lambda>_. E) E \<Longrightarrow> st_triple P (st_try m) (\<lambda>_. E) E"
  by (fastforce simp: st_triple_def st_try_def split: prod.splits sum.splits fault.splits)

lemma keeps_queen_command: "\<not> needs_new_work_gate c \<Longrightarrow> st_keeps cp_inv (run_queen_command x c)"
  by (cases c) (simp_all add: needs_new_work_gate_def run_queen_command_def
      st_keeps_bind [OF keeps_kill] st_keeps_basic core_keeps core core_jobs)

lemma triple_queen_command: "st_triple cp_working (run_queen_command x c) (\<lambda>_. cp_inv) cp_inv"
proof -
  have spawn: "st_triple cp_working (spawn_worker x spec) (\<lambda>_. cp_inv) cp_inv" for spec
    by (rule triple_post [OF triple_spawn_worker]) (simp_all add: cp_working_def)
  have other: "st_keeps cp_inv m \<Longrightarrow> st_triple cp_working m (\<lambda>_. cp_inv) cp_inv" for m
    by (rule triple_pre [of cp_inv]) (simp_all add: triple_keeps cp_working_def)
  show ?thesis
  proof (cases c)
    case (CmdSpawn spec)
    then show ?thesis by (auto simp: run_queen_command_def intro!: triple_bind [OF spawn] triple_return)
  next
    case (CmdBind b)
    then show ?thesis by (simp add: run_queen_command_def other core_keeps core_jobs)
  next
    case (CmdMount m)
    then show ?thesis by (simp add: run_queen_command_def other core_keeps core_jobs)
  qed (simp_all add: other keeps_queen_command needs_new_work_gate_def)
qed

lemma keeps_queen_line: "st_keeps cp_inv (queen_line x r ticket line)"
proof -
  have audit: "st_triple cp_inv (audited x r ticket line out) (\<lambda>_. cp_inv) cp_inv" for out :: "ninedoor_error + queen_event"
    unfolding triple_keeps by (intro core_keeps core_audited)
  have "st_triple cp_inv (st_then (st_when (needs_new_work_gate c) (ensure_lifecycle_gate x GATE_NEW_WORK))
      (st_bind (st_try (run_queen_command x c)) (audited x r ticket line))) (\<lambda>_. cp_inv) cp_inv" for c
  proof (cases "needs_new_work_gate c")
    case True
    then show ?thesis
      by (auto simp: st_when_def intro!: triple_bind [OF triple_gate] triple_bind [OF triple_try [OF triple_queen_command]] audit)
  next
    case False
    then have "st_triple cp_inv (run_queen_command x c) (\<lambda>_. cp_inv) cp_inv"
      using keeps_queen_command triple_keeps by blast
    from triple_bind [OF triple_try [OF this] audit] False show ?thesis
      by (simp add: st_when_def st_bind_def st_return_def st_triple_def)
  qed
  then show ?thesis
    unfolding queen_line_def triple_keeps [symmetric] using audit by (auto split: sum.split)
qed

lemma keeps_queen_lines: "st_keeps cp_inv (queen_lines x r ticket lines)"
  by (induction lines) (auto intro: st_keeps_bind keeps_queen_line st_keeps_basic)

lemma keeps_queen_write: "st_keeps cp_inv (process_queen_write x data r ticket)"
  unfolding process_queen_write_def
  by (intro st_keeps_bind keeps_queen_lines core_keeps core core_lifecycle)

subsection \<open>Runs\<close>

datatype cp_request =
  QueenWrite bytes "role option" "string option"
| LifecycleWrite bytes "role option" "string option" nat
| PolicyWrite nat bytes
| QueueWrite nat bytes
| PassGate path
| JournalWrite nat bytes "role option" "string option"
| ReplayWrite nat bytes
| BridgeWrite nat bytes
| GpuJobWrite string string bytes
| Revoke string string
| InstallGpus gpu_namespace_snapshot
| Register string path
| BootDone nat
| NamespaceOp "unit ns_op"

definition cp_step :: "control_plane \<Rightarrow> cp_ext \<times> cp_request \<Rightarrow> control_plane" where
  "cp_step s e = (case e of (x, req) \<Rightarrow> (case req of
     QueenWrite data r ticket \<Rightarrow> snd (process_queen_write x data r ticket s)
   | LifecycleWrite data r ticket now \<Rightarrow> snd (process_lifecycle_ctl_write x data r ticket now s)
   | PolicyWrite offset data \<Rightarrow> snd (process_policy_ctl_write x offset data s)
   | QueueWrite offset data \<Rightarrow> snd (process_action_queue_write x offset data s)
   | PassGate path \<Rightarrow> snd (consume_policy_gate x path s)
   | JournalWrite offset data r ticket \<Rightarrow> snd (process_audit_journal_write x offset data r ticket s)
   | ReplayWrite offset data \<Rightarrow> snd (process_replay_ctl_write x offset data s)
   | BridgeWrite offset data \<Rightarrow> snd (process_gpu_bridge_ctl_write x offset data s)
   | GpuJobWrite worker_id gpu_id data \<Rightarrow> snd (process_gpu_job x worker_id gpu_id data s)
   | Revoke worker_id reason \<Rightarrow> snd (revoke_worker x worker_id reason s)
   | InstallGpus topology \<Rightarrow> snd (install_gpu_nodes x topology s)
   | Register service target \<Rightarrow> snd (register_service x service target s)
   | BootDone now \<Rightarrow> snd (on_lifecycle (\<lambda>m. auto_boot_complete m now) s)
   | NamespaceOp m \<Rightarrow> snd (on_ns m s)))"

lemma keeps_boot: "st_keeps cp_inv (on_lifecycle (\<lambda>m. auto_boot_complete m now))"
  by (auto simp: st_keeps_def on_lifecycle_def auto_boot_complete_def apply_auto_transition_def cp_inv_def Let_def)

lemma keeps_request:
  "st_keeps cp_inv (process_policy_ctl_write x o1 d1)" "st_keeps cp_inv (process_action_queue_write x o1 d1)"
  "st_keeps cp_inv (consume_policy_gate x path)" "st_keeps cp_inv (process_audit_journal_write x o1 d1 r ticket)"
  "st_keeps cp_inv (process_replay_ctl_write x o1 d1)" "st_keeps cp_inv (process_gpu_bridge_ctl_write x o1 d1)"
  "st_keeps cp_inv (process_gpu_job x w g d1)" "st_keeps cp_inv (install_gpu_nodes x topology)"
  "st_keeps cp_inv (register_service x service path)" "st_keeps cp_inv (on_ns m)"
  by (intro core_keeps core_policy core_journal core_gpu_bridge core_gpu core_jobs core)+

lemma keeps_after: "st_keeps P m \<Longrightarrow> P s \<Longrightarrow> P (snd (m s))"
  by (simp add: st_keeps_def)

interpretation control: step_invariant cp_step cp_inv
proof
  fix s e assume "cp_inv s"
  then show "cp_inv (cp_step s e)"
    by (auto simp: cp_step_def split: prod.split cp_request.split
        intro: keeps_after keeps_queen_write keeps_lifecycle_write keeps_revoke keeps_boot keeps_request)
qed

lemma cp_inv_new: "cp_inv (control_plane_new ns policy audit replay now)"
  by (simp add: cp_inv_def control_plane_new_def leases_held_def)

text \<open>The GPUs the workers hold leases on, worker by worker.\<close>

definition worker_gpus :: "worker_record \<Rightarrow> string list" where
  "worker_gpus r = (case wr_kind r of KindGpu l \<Rightarrow> [gl_gpu_id l] | KindHeartbeat \<Rightarrow> [])"

definition leased_gpus :: "(string, worker_record) btree \<Rightarrow> string list" where
  "leased_gpus ws = concat (map (\<lambda>e. worker_gpus (snd e)) ws)"

lemma worker_gpus_set: "g \<in> set (worker_gpus r) \<longleftrightarrow> (\<exists>k. wr_kind r = KindGpu k \<and> gl_gpu_id k = g)"
  by (cases "wr_kind r") (auto simp: worker_gpus_def)

lemma leased_gpus_set:
  "g \<in> set (leased_gpus ws) \<longleftrightarrow> (\<exists>v q k. (v, q) \<in> set ws \<and> wr_kind q = KindGpu k \<and> gl_gpu_id k = g)"
  by (force simp: leased_gpus_def worker_gpus_set)

lemma leased_gpus_distinct: "bt_ok ws \<Longrightarrow> leases_held ws ls \<Longrightarrow> distinct (leased_gpus ws)"
proof (induction ws)
  case (Cons e ws)
  obtain w r where e: "e = (w, r)" by fastforce
  have d: "distinct (map fst (e # ws))" using bt_keys_distinct [OF Cons.prems(1)] by (simp add: bt_keys_def)
  have "leases_held ws ls"
    unfolding leases_held_def
  proof (intro allI impI)
    fix v q l assume v: "map_of ws v = Some q" "wr_kind q = KindGpu l"
    from v(1) have "v \<noteq> w" using d by (auto simp: e rev_image_eqI dest: map_of_SomeD)
    with v(1) have "map_of (e # ws) v = Some q" by (simp add: e)
    with Cons.prems(2) v(2) show "map_of ls (gl_gpu_id l) = Some v" by (simp only: leases_held_def)
  qed
  moreover have "bt_ok ws" using Cons.prems(1) by (simp add: bt_ok_def bt_keys_def)
  moreover have "gl_gpu_id l \<notin> set (leased_gpus ws)" if k: "wr_kind r = KindGpu l" for l
  proof
    assume "gl_gpu_id l \<in> set (leased_gpus ws)"
    then obtain v q k where v: "(v, q) \<in> set ws" "wr_kind q = KindGpu k" "gl_gpu_id k = gl_gpu_id l"
      by (auto simp: leased_gpus_set)
    then have "map_of (e # ws) v = Some q" "v \<noteq> w" using d by (auto simp: e rev_image_eqI)
    with v Cons.prems(2) k have "map_of ls (gl_gpu_id l) = Some v" "map_of ls (gl_gpu_id l) = Some w"
      unfolding leases_held_def e by (metis, simp)
    with \<open>v \<noteq> w\<close> show False by simp
  qed
  ultimately show ?case
    using Cons.IH by (simp add: leased_gpus_def worker_gpus_def e split: worker_kind.split)
qed (simp add: leased_gpus_def)

text \<open>
  C13: A GPU is leased to one worker at a time: after any run of control operations, whatever succeeds
  and whatever fails on the way, no two workers hold a lease on the same GPU.
\<close>

theorem gpu_leases_exclusive:
  "distinct (leased_gpus (cp_workers (foldl cp_step (control_plane_new ns policy audit replay now) es)))"
  using control.run_inv [OF cp_inv_new, of ns policy audit replay now es] leased_gpus_distinct
  by (auto simp: cp_inv_def)

text \<open>
  C15: A node that is quiesced, or booting again after a reset, has no workers: the lifecycle commands
  that lead there are refused while a worker is left, and none is spawned until the node is resumed.
\<close>

theorem quiesced_node_has_no_workers:
  assumes "s = foldl cp_step (control_plane_new ns policy audit replay now) es"
    and "lm_state (cp_lifecycle s) = Quiesced \<or> lm_state (cp_lifecycle s) = Booting"
  shows "cp_workers s = []"
  using control.run_inv [OF cp_inv_new, of ns policy audit replay now es] assms by (auto simp: cp_inv_def)

subsection \<open>Appending to a log\<close>

definition no_sidecar :: "path \<Rightarrow> namespace \<Rightarrow> bool" where
  "no_sidecar p s \<longleftrightarrow> find_adapter bus_match_file p (sbs_adapters (ns_modbus s)) = None
     \<and> find_adapter bus_match_file p (sbs_adapters (ns_dnp3 s)) = None
     \<and> find_adapter lora_match_file p (sls_adapters (ns_lora s)) = None"

lemma write_sidecar_none: "no_sidecar p s \<Longrightarrow> write_sidecar p offset data s = (Ok None, s)"
  by (simp add: no_sidecar_def write_sidecar_def sidecar_bus_write_def sidecar_lora_write_def st_bind_def Let_def map_err_def)

definition log_path :: "path \<Rightarrow> bool" where
  "log_path p \<longleftrightarrow> plain_path p \<and> telemetry_ingest_ctl_device p = None \<and> telemetry_ingest_segment_parts p = None"

text \<open>A write to a file of a log path always appends, and touches nothing else.\<close>

lemma write_append_log:
  assumes "0 < nx_stack x" and "log_path p" and "no_sidecar p s" and "cs_events (ns_cas s) = []"
    and "node_at p (ns_root s) = Some (FileNode (AppendOnly buf))"
  shows "write_append x p offset data s =
    (Ok (as_u32 (length data)), s\<lparr>ns_root := put_node p (FileNode (AppendOnly (buf @ data))) (ns_root s)\<rparr>)"
proof -
  let ?t = "s\<lparr>ns_root := put_node p (FileNode (AppendOnly (buf @ data))) (ns_root s)\<rparr>"
  have l: "lookup_mut x p (write_node b p offset data) s = (Ok (WriteResult (Ok (as_u32 (length data))) None None), ?t)" for b
    using assms by (simp add: lookup_plain log_path_def raw_run write_node_def Let_def)
  have "ns_cas ?t = ns_cas s" by simp
  then have f: "flush_cas_events x ?t = (Ok (), ?t)"
    using assms(4) by (simp add: flush_cas_events_def st_bind_def on_cas_def drain_events_def st_return_def)
  have "write_path x p offset data s = (Ok (as_u32 (length data)), ?t)"
    using l f
    by (simp add: write_path_def st_read_def Let_def st_bind_def st_try_def perform_write_def ns_lift_def st_lift_def
        refresh_after_write_def update_epoch_def write_audit_def write_snapshot_def record_audit_option_def
        st_when_def persist_option_def st_return_def split: option.split)
  with assms(2,3) show ?thesis
    by (simp add: write_append_def st_bind_def write_sidecar_none st_read_def log_path_def)
qed

definition sample_ns :: namespace where
  "sample_ns = snd (namespace_new sample_ns_ext sample_ns_config)"

lemma sample_ns_files:
  "node_at queen_log (ns_root sample_ns) = Some (FileNode (AppendOnly boot_text))"
  "node_at lifecycle_ctl (ns_root sample_ns) = Some (FileNode (AppendOnly []))"
  by (simp_all add: sample_ns_def boot_eval queen_log_def lifecycle_ctl_def)

lemma sample_ns_state: "no_sidecar p sample_ns" "cs_events (ns_cas sample_ns) = []"
  by (simp_all add: sample_ns_def boot_eval no_sidecar_def)

lemma sample_ns_log: "log_path lifecycle_ctl" "log_path queen_log"
  by (simp_all add: log_path_def plain_path_def lifecycle_ctl_def queen_log_def telemetry_ingest_device_root_def
      telemetry_ingest_ctl_device_def telemetry_ingest_segment_parts_def)

lemma core_after: "st_moves same_core m \<Longrightarrow> cp_lifecycle (snd (m s)) = cp_lifecycle s"
  by (auto simp: st_moves_def same_core_def cp_core_def)

lemma quiesce_line:
  assumes "lm_state (cp_lifecycle s) = Online" and "cp_workers s = []"
  shows "lm_state (cp_lifecycle (snd (lifecycle_line x r ticket now ''quiesce'' s))) = Quiesced"
proof -
  have "parse_command ''quiesce'' = Ok Quiesce" by code_simp
  moreover obtain tr m where a: "apply_command (cp_lifecycle s) Quiesce now 0 = (Ok tr, m)" and m: "lm_state m = Quiesced"
    using assms(1) by (simp add: apply_command_def command_target_def command_allowed_def)
  moreover have "cp_lifecycle (snd (st_seq [record_lifecycle_transition x tr, refresh_proc_lifecycle x now,
      record_control_audit x lifecycle_ctl (str_bytes ''quiesce'') control_ok r ticket] t)) = cp_lifecycle t" for t
    by (rule core_after, rule core_seq) (simp add: core_lifecycle core_record)
  ultimately show ?thesis
    using assms(2) by (simp add: lifecycle_line_def st_read_def st_bind_def on_lifecycle_def)
qed

lemma quiesce_write:
  assumes "write_append (px_ns x) lifecycle_ctl u64_max (str_bytes ''quiesce'') (cp_ns s) = (Ok n, t)"
    and "lm_state (cp_lifecycle s) = Online" and "cp_workers s = []"
  shows "lm_state (cp_lifecycle (snd (process_lifecycle_ctl_write x (str_bytes ''quiesce'') r ticket now s))) = Quiesced"
proof -
  have "from_utf8 (str_bytes ''quiesce'') = Some ''quiesce''" "command_lines ''quiesce'' = [''quiesce'']" by code_simp+
  then show ?thesis
    using quiesce_line [of "s\<lparr>cp_ns := t\<rparr>" x r ticket now] assms
    by (auto simp: process_lifecycle_ctl_write_def st_bind_def on_ns_def utf8_command_def st_return_def
        split: prod.split sum.split)
qed

definition sample_cp_ext :: cp_ext where
  "sample_cp_ext =
     \<lparr>px_ns = sample_ns_ext, px_bridge = \<lparr>bx_cas = sample_ext, bx_encode = (\<lambda>_. []), bx_parse_schema = (\<lambda>_. Err [])\<rparr>,
      px_queen = (\<lambda>_. Err []), px_job = (\<lambda>_. Err []), px_action = (\<lambda>_. Err []), px_value = (\<lambda>_. Ok ()),
      px_replay = (\<lambda>_. Err []), px_status_json = (\<lambda>_. Ok []), px_journal_json = (\<lambda>_. Ok []),
      px_decision_json = (\<lambda>_. Ok []), px_error_json = (\<lambda>_. Ok []), px_lease_json = (\<lambda>_. Ok [])\<rparr>"

definition sample_cp :: "policy_store \<Rightarrow> control_plane" where
  "sample_cp policy = control_plane_new sample_ns policy (audit_store_new audit_disabled) (replay_state_new replay_disabled) 0"

theorem quiesced_node_has_no_workers_witness:
  "lm_state (cp_lifecycle (foldl cp_step (sample_cp sample_store) [(sample_cp_ext, BootDone 5),
     (sample_cp_ext, LifecycleWrite (str_bytes ''quiesce'') (Some Queen) None 9)])) = Quiesced \<and>
   cp_workers (foldl cp_step (sample_cp sample_store) [(sample_cp_ext, BootDone 5),
     (sample_cp_ext, LifecycleWrite (str_bytes ''quiesce'') (Some Queen) None 9)]) = []" (is "?q \<and> ?w")
proof
  let ?s = "cp_step (sample_cp sample_store) (sample_cp_ext, BootDone 5)"
  have s: "lm_state (cp_lifecycle ?s) = Online" "cp_workers ?s = []" "cp_ns ?s = sample_ns"
    by (simp_all add: sample_cp_def control_plane_new_def cp_step_def on_lifecycle_def auto_boot_complete_def
        apply_auto_transition_def lifecycle_new_def lifecycle_config_default_def auto_transition_allowed_def)
  have "nx_stack sample_ns_ext = 1" by (simp add: sample_ns_ext_def)
  with s(3) obtain n t where "write_append sample_ns_ext lifecycle_ctl u64_max (str_bytes ''quiesce'') (cp_ns ?s) = (Ok n, t)"
    using write_append_log [OF _ sample_ns_log(1) sample_ns_state sample_ns_files(2), of sample_ns_ext] by simp
  then show q: ?q
    using quiesce_write [of sample_cp_ext ?s] s by (simp add: sample_cp_ext_def cp_step_def)
  show ?w
    using quiesced_node_has_no_workers [OF refl disjI1 [OF q [unfolded sample_cp_def]]] by (simp only: sample_cp_def)
qed

end
