(* ===== verification/Gpu_Publish.thy ===== *)
theory Gpu_Publish
  imports Gpu_Bridge
begin

section \<open>What a host publishes is what the receiver takes over\<close>

text \<open>
  The words of a published line are separated by single spaces and free of white space, so the
  lines, the words of a line and the fields of a word are read back as they were written. With the
  documented behaviour of the base64 and hexadecimal codecs, the receiver rebuilds the snapshot.
\<close>

subsection \<open>Words and lines\<close>

definition plain :: "string \<Rightarrow> bool" where
  "plain s \<longleftrightarrow> (\<forall>c \<in> set s. 0x20 < (of_char c :: nat) \<and> (of_char c :: nat) < 0x7F)"

lemma plain_append [simp]: "plain (a @ b) \<longleftrightarrow> plain a \<and> plain b"
  by (auto simp: plain_def)

lemma plain_Nil [simp]: "plain []"
  by (simp add: plain_def)

lemma plain_Cons [simp]:
  "plain (c # s) \<longleftrightarrow> 0x20 < (of_char c :: nat) \<and> (of_char c :: nat) < 0x7F \<and> plain s"
  by (simp add: plain_def)

lemma ws_not_plain: "w \<in> set utf8_ws \<Longrightarrow> c \<in> set w \<Longrightarrow> \<not> plain [c]"
  by (auto simp: utf8_ws_def)

lemma find_ws_plain: "plain [c] \<Longrightarrow> find (\<lambda>w. prefix w (c # s)) utf8_ws = None"
  using ws_not_plain utf8_ws_nonempty
  by (fastforce simp: find_None_iff prefix_Cons simp del: plain_Cons)

lemma find_ws_Nil: "find (\<lambda>w. w = []) utf8_ws = None"
  by (auto simp: find_None_iff dest: utf8_ws_nonempty)

lemma find_ws_space: "find (\<lambda>w. prefix w (CHR 0x20 # s)) utf8_ws = Some [CHR 0x20]"
  by (simp add: utf8_ws_def)

lemma find_ws_end: "plain [c] \<Longrightarrow> find (\<lambda>w. suffix w (s @ [c])) utf8_ws = None"
proof -
  assume c: "plain [c]"
  have "\<not> suffix w (s @ [c])" if w: "w \<in> set utf8_ws" for w
  proof
    assume "suffix w (s @ [c])"
    with utf8_ws_nonempty [OF w] have "c \<in> set w"
      by (metis last_in_set last_snoc last_appendR suffix_def)
    with ws_not_plain [OF w] c show False by blast
  qed
  then show ?thesis by (auto simp: find_None_iff)
qed

lemma trim_plain_ends:
  assumes "s \<noteq> []" and "plain [hd s]" and "plain [last s]"
  shows "trim s = s"
proof -
  from assms(1) obtain c t where s: "s = c # t" by (cases s) auto
  with assms(2) have "trim_start_fuel (length s) s = s"
    using find_ws_plain [of c t] by simp
  moreover from assms(1) obtain a d where sd: "s = a @ [d]" by (cases s rule: rev_cases) auto
  with assms(3) have "trim_end_fuel (length s) s = s"
    using find_ws_end [of d a] by simp
  ultimately show ?thesis by (simp add: trim_def)
qed

lemma split_ws_word:
  "plain v \<Longrightarrow> split_ws_fuel (length v + n) u (v @ s) = split_ws_fuel n (u @ v) s"
  by (induction v arbitrary: u) (simp_all add: find_ws_plain)

lemma split_ws_end: "split_ws_fuel n u [] = (if u = [] then [] else [u])"
  by (cases n) (simp_all add: find_ws_Nil)

lemma split_whitespace_words:
  "list_all (\<lambda>w. plain w \<and> w \<noteq> []) ws \<Longrightarrow> split_whitespace (join '' '' ws) = ws"
  unfolding split_whitespace_def
proof (induction "'' ''" ws rule: join.induct)
  case (2 x)
  then show ?case using split_ws_word [of x 0 "[]" "[]"] by (simp add: split_ws_end)
next
  case (3 x y ys)
  have "split_ws_fuel (length (join '' '' (x # y # ys))) [] (join '' '' (x # y # ys)) =
      split_ws_fuel (Suc (length (join '' '' (y # ys)))) x (CHR 0x20 # join '' '' (y # ys))"
    using split_ws_word [of x "Suc (length (join '' '' (y # ys)))" "[]" "CHR 0x20 # join '' '' (y # ys)"] 3(2)
    by simp
  also have "\<dots> = x # y # ys"
    using 3 by (simp add: find_ws_space)
  finally show ?case .
qed simp_all

lemma split_inclusive_line:
  "CHR 0x0A \<notin> set l \<Longrightarrow> split_inclusive (CHR 0x0A) (l @ CHR 0x0A # s) = (l @ newline) # split_inclusive (CHR 0x0A) s"
  by (induction l) auto

lemma str_lines_unlines:
  assumes "\<And>l. l \<in> set ls \<Longrightarrow> CHR 0x0A \<notin> set l \<and> (l = [] \<or> last l \<noteq> CHR 0x0D)"
  shows "str_lines (concat (map (\<lambda>l. l @ newline) ls)) = ls"
  using assms by (induction ls) (auto simp: str_lines_def split_inclusive_line strip_eol_def)

lemma join_nonempty: "ws \<noteq> [] \<Longrightarrow> last ws \<noteq> [] \<Longrightarrow> join sep ws \<noteq> []"
  by (induction sep ws rule: join.induct) (auto split: if_splits)

lemma last_join: "ws \<noteq> [] \<Longrightarrow> last ws \<noteq> [] \<Longrightarrow> last (join sep ws) = last (last ws)"
proof (induction sep ws rule: join.induct)
  case (3 sep x y ys)
  then show ?case using join_nonempty [of "y # ys" sep] by (simp add: last_append)
qed auto

lemma hd_join: "x \<noteq> [] \<Longrightarrow> hd (join sep (x # xs)) = hd x"
  by (cases xs) auto

lemma set_join: "set (join sep ws) \<subseteq> set sep \<union> (\<Union>w \<in> set ws. set w)"
  by (induction sep ws rule: join.induct) auto

text \<open>A line of plain words is read back as it was written.\<close>

definition plain_words :: "string list \<Rightarrow> bool" where
  "plain_words ws \<longleftrightarrow> ws \<noteq> [] \<and> list_all (\<lambda>w. plain w \<and> w \<noteq> []) ws"

lemma plain_words_simps [simp]:
  "plain_words [w] \<longleftrightarrow> plain w \<and> w \<noteq> []"
  "plain_words (v # w # ws) \<longleftrightarrow> plain v \<and> v \<noteq> [] \<and> plain_words (w # ws)"
  by (auto simp: plain_words_def)

lemma plain_hd_last: "plain s \<Longrightarrow> s \<noteq> [] \<Longrightarrow> plain [hd s] \<and> plain [last s]"
  by (auto simp: plain_def)

lemma line_words:
  assumes "plain_words ws"
  shows "trim (join '' '' ws) = join '' '' ws" and "split_whitespace (join '' '' ws) = ws"
    and "join '' '' ws \<noteq> []"
proof -
  have w: "ws \<noteq> []" "hd ws \<noteq> []" "last ws \<noteq> []" "plain (hd ws)" "plain (last ws)"
    using assms by (auto simp: plain_words_def list_all_iff)
  show n: "join '' '' ws \<noteq> []" using w join_nonempty by blast
  have "hd (join '' '' ws) = hd (hd ws)" using w hd_join by (cases ws) auto
  moreover have "last (join '' '' ws) = last (last ws)" using w last_join by blast
  ultimately show "trim (join '' '' ws) = join '' '' ws"
    using trim_plain_ends [OF n] plain_hd_last w by simp
  show "split_whitespace (join '' '' ws) = ws"
    using assms split_whitespace_words by (simp add: plain_words_def)
qed

lemma line_chars:
  assumes "plain_words ws" and "c \<in> set (join '' '' ws)"
  shows "0x20 \<le> (of_char c :: nat) \<and> (of_char c :: nat) < 0x7F"
proof -
  have "c = CHR 0x20 \<or> (\<exists>w \<in> set ws. c \<in> set w)" using assms(2) set_join [of "'' ''" ws] by auto
  with assms(1) show ?thesis by (auto simp: plain_words_def list_all_iff plain_def intro: less_imp_le)
qed

lemma line_shape:
  assumes "plain_words ws"
  shows "CHR 0x0A \<notin> set (join '' '' ws)" and "last (join '' '' ws) \<noteq> CHR 0x0D"
proof -
  show "CHR 0x0A \<notin> set (join '' '' ws)" using line_chars [OF assms] by force
  have "last (join '' '' ws) \<in> set (join '' '' ws)" using line_words(3) [OF assms] by simp
  from line_chars [OF assms this] show "last (join '' '' ws) \<noteq> CHR 0x0D" by force
qed

lemma ascii_byte: "(of_char c :: nat) \<le> 0x7F \<Longrightarrow> char_byte c \<le> 0x7F"
  by (simp add: char_byte_def word_le_nat_alt unat_of_nat)

lemma plain_lines_read:
  assumes "\<And>ws. ws \<in> set lss \<Longrightarrow> plain_words ws"
  shows "from_utf8 (str_bytes (concat (map (\<lambda>l. l @ newline) (map (join '' '') lss)))) =
      Some (concat (map (\<lambda>l. l @ newline) (map (join '' '') lss)))" (is "?u = Some ?t")
    and "str_lines (concat (map (\<lambda>l. l @ newline) (map (join '' '') lss))) = map (join '' '') lss"
proof -
  have "(of_char c :: nat) < 0x7F" if c: "c \<in> set ?t" for c
  proof -
    from c consider "c = CHR 0x0A" | ws where "ws \<in> set lss" "c \<in> set (join '' '' ws)"
      by (auto split: if_splits)
    then show ?thesis using line_chars assms by cases auto
  qed
  then have "\<forall>b \<in> set (str_bytes ?t). b \<le> 0x7F"
    by (simp add: str_bytes_def ascii_byte less_imp_le)
  then show "?u = Some ?t" by (simp add: utf8_valid_ascii utf8_str_def)
  show "str_lines ?t = map (join '' '') lss"
    by (rule str_lines_unlines) (use assms line_shape in auto)
qed

subsection \<open>Reading a published snapshot\<close>

text \<open>
  The documented behaviour of the codecs: base64 decoding inverts encoding, an encoding is made of
  the base64 alphabet and takes four characters for every three bytes, and the 32 bytes of a hash
  are written as 64 hexadecimal digits that are read back.
\<close>

definition codec_laws :: "bridge_ext \<Rightarrow> bool" where
  "codec_laws x \<longleftrightarrow>
     (\<forall>b. cx_base64 (bx_cas x) (str_bytes (bx_encode x b)) = Some b
        \<and> length (bx_encode x b) = (length b + 2) div 3 * 4
        \<and> list_all (\<lambda>c. is_ascii_alphanumeric c \<or> c \<in> set ''+/='') (bx_encode x b)
        \<and> length (cx_sha256 (bx_cas x) b) = 32) \<and>
     (\<forall>d. length d = 32 \<longrightarrow> length (cx_hex (bx_cas x) d) = 64
        \<and> list_all is_ascii_hexdigit (cx_hex (bx_cas x) d) \<and> cx_unhex (bx_cas x) (cx_hex (bx_cas x) d) = Some d)"

text \<open>
  A snapshot that can be published: its names are plain words, its texts are UTF-8, the active model
  is one of the catalog, and the JSON reader reads back the descriptor of the telemetry schema.
\<close>

definition publishable :: "bridge_ext \<Rightarrow> gpu_namespace_snapshot \<Rightarrow> bool" where
  "publishable x s \<longleftrightarrow>
     list_all (\<lambda>n. plain (sg_id n) \<and> utf8_str (sg_info_payload n) \<and> utf8_str (sg_ctl_payload n)
       \<and> utf8_str (sg_lease_payload n) \<and> utf8_str (sg_status_payload n)) (gs_nodes s) \<and>
     list_all (\<lambda>m. plain (mm_model_id m) \<and> utf8_str (mm_manifest_toml m)) (mc_available (gs_models s)) \<and>
     plain (mc_active (gs_models s)) \<and>
     (mc_available (gs_models s) = [] \<or> list_ex (\<lambda>m. mm_model_id m = mc_active (gs_models s)) (mc_available (gs_models s))) \<and>
     utf8_str (descriptor_json (gs_schema s)) \<and> sc_version (gs_schema s) \<noteq> [] \<and> sc_max_record_bytes (gs_schema s) \<noteq> 0 \<and>
     bx_parse_schema x (descriptor_json (gs_schema s)) = Ok (gs_schema s)"

definition b64 :: "bridge_ext \<Rightarrow> string \<Rightarrow> string" where
  "b64 x t = bx_encode x (str_bytes t)"

lemma b64_char: "is_ascii_alphanumeric c \<or> c \<in> set ''+/='' \<Longrightarrow> plain [c]"
  by (auto simp: is_ascii_alphanumeric_def is_ascii_digit_def is_ascii_alphabetic_def)

lemma b64_plain: "codec_laws x \<Longrightarrow> plain (bx_encode x b)"
  using b64_char unfolding codec_laws_def list_all_iff plain_def by (metis list.set_intros(1))

lemma decode_b64:
  "codec_laws x \<Longrightarrow> utf8_str t \<Longrightarrow> decode_b64_string x label (Some (bx_encode x (str_bytes t))) = Ok t"
  by (simp add: codec_laws_def decode_b64_string_def ok_or_def)

definition schema_words :: "string list" where
  "schema_words = [''schema'', GPU_BRIDGE_WIRE_SCHEMA]"

definition node_words :: "bridge_ext \<Rightarrow> serialised_gpu_node \<Rightarrow> string list" where
  "node_words x n =
     [''node'', ''id='' @ sg_id n, ''info='' @ b64 x (sg_info_payload n), ''ctl='' @ b64 x (sg_ctl_payload n),
      ''lease='' @ b64 x (sg_lease_payload n), ''status='' @ b64 x (sg_status_payload n)]"

definition model_words :: "bridge_ext \<Rightarrow> model_manifest \<Rightarrow> string list" where
  "model_words x m = [''model'', ''id='' @ mm_model_id m, ''manifest='' @ b64 x (mm_manifest_toml m)]"

definition closing_words :: "bridge_ext \<Rightarrow> gpu_namespace_snapshot \<Rightarrow> string list list" where
  "closing_words x s =
     [[''active'', ''id='' @ mc_active (gs_models s)],
      [''telemetry'', ''schema='' @ b64 x (descriptor_json (gs_schema s))], [''end'']]"

definition snapshot_words :: "bridge_ext \<Rightarrow> gpu_namespace_snapshot \<Rightarrow> string list list" where
  "snapshot_words x s =
     schema_words # map (node_words x) (gs_nodes s) @ map (model_words x) (mc_available (gs_models s)) @ closing_words x s"

lemmas words_defs = schema_words_def node_words_def model_words_def closing_words_def b64_def GPU_BRIDGE_WIRE_SCHEMA_def

lemma wire_lines_words: "wire_lines x s = map (join '' '') (snapshot_words x s)"
  by (simp add: wire_lines_def snapshot_words_def words_defs node_line_def model_line_def comp_def Let_def)

lemma snapshot_words_plain:
  assumes "codec_laws x" and "publishable x s" and "ws \<in> set (snapshot_words x s)"
  shows "plain_words ws"
  using assms b64_plain [OF assms(1)]
  by (auto simp: snapshot_words_def words_defs publishable_def list_all_iff)

lemma parse_words:
  assumes "plain_words (w # ws)" and "\<not> ws_ended st" and "ws \<noteq> []"
  shows "parse_wire_line x (join '' '' (w # ws)) st =
    (if w = ''schema'' then parse_schema_line ws st
     else if w = ''node'' then parse_node_line x ws st
     else if w = ''model'' then parse_model_line x ws st
     else if w = ''active'' then parse_active_line ws st
     else if w = ''telemetry'' then parse_telemetry_line x ws st
     else Err (''unsupported wire line: '' @ w))"
proof -
  have "CHR 0x20 \<in> set (join '' '' (w # ws))" using assms(3) by (cases ws) auto
  then have "join '' '' (w # ws) \<noteq> ''end''" by auto
  then show ?thesis
    using line_words [OF assms(1)] assms(2) by (simp add: parse_wire_line_def)
qed

lemma parse_end: "\<not> ws_ended st \<Longrightarrow> parse_wire_line x ''end'' st = Ok (st\<lparr>ws_ended := True\<rparr>)"
  using line_words(1) [of "[''end'']"] by (simp add: parse_wire_line_def)

lemma parse_node_words:
  assumes "codec_laws x" and "plain (sg_id n)" and "utf8_str (sg_info_payload n)" and "utf8_str (sg_ctl_payload n)"
    and "utf8_str (sg_lease_payload n)" and "utf8_str (sg_status_payload n)" and "\<not> ws_ended st"
  shows "parse_wire_line x (join '' '' (node_words x n)) st = Ok (st\<lparr>ws_nodes := ws_nodes st @ [n]\<rparr>)"
proof -
  have "plain_words (node_words x n)" using assms b64_plain [OF assms(1)] by (simp add: words_defs)
  with assms show ?thesis
    by (simp add: words_defs parse_words parse_node_line_def decode_b64 ok_or_def del: join.simps)
qed

lemma parse_model_words:
  assumes "codec_laws x" and "plain (mm_model_id m)" and "utf8_str (mm_manifest_toml m)" and "\<not> ws_ended st"
  shows "parse_wire_line x (join '' '' (model_words x m)) st = Ok (st\<lparr>ws_models := ws_models st @ [m]\<rparr>)"
proof -
  have "plain_words (model_words x m)" using assms b64_plain [OF assms(1)] by (simp add: words_defs)
  with assms show ?thesis
    by (simp add: words_defs parse_words parse_model_line_def decode_b64 ok_or_def del: join.simps)
qed

lemma parse_wire_lines_append:
  "parse_wire_lines x (as @ bs) st = and_then (parse_wire_lines x as st) (parse_wire_lines x bs)"
  by (induction as arbitrary: st) (simp_all add: and_then_def split: sum.split)

lemma parse_nodes:
  assumes "codec_laws x" and "\<not> ws_ended st"
    and "list_all (\<lambda>n. plain (sg_id n) \<and> utf8_str (sg_info_payload n) \<and> utf8_str (sg_ctl_payload n)
       \<and> utf8_str (sg_lease_payload n) \<and> utf8_str (sg_status_payload n)) ns"
  shows "parse_wire_lines x (map (join '' '' \<circ> node_words x) ns) st = Ok (st\<lparr>ws_nodes := ws_nodes st @ ns\<rparr>)"
  using assms(2,3) by (induction ns arbitrary: st) (simp_all add: parse_node_words [OF assms(1)])

lemma parse_models:
  assumes "codec_laws x" and "\<not> ws_ended st"
    and "list_all (\<lambda>m. plain (mm_model_id m) \<and> utf8_str (mm_manifest_toml m)) ms"
  shows "parse_wire_lines x (map (join '' '' \<circ> model_words x) ms) st = Ok (st\<lparr>ws_models := ws_models st @ ms\<rparr>)"
  using assms(2,3) by (induction ms arbitrary: st) (simp_all add: parse_model_words [OF assms(1)])

lemma parse_closing:
  assumes "codec_laws x" and "publishable x s" and "\<not> ws_ended st"
  shows "parse_wire_lines x (map (join '' '') (closing_words x s)) st =
    Ok (st\<lparr>ws_active := Some (mc_active (gs_models s)), ws_telemetry := Some (gs_schema s), ws_ended := True\<rparr>)"
proof -
  note p = assms(2) [unfolded publishable_def] and b = b64_plain [OF assms(1)]
  have a: "parse_wire_line x (join '' '' [''active'', ''id='' @ mc_active (gs_models s)]) st =
      Ok (st\<lparr>ws_active := Some (mc_active (gs_models s))\<rparr>)"
    using p assms(3) by (simp add: parse_words parse_active_line_def ok_or_def del: join.simps)
  have t: "parse_wire_line x (join '' '' [''telemetry'', ''schema='' @ b64 x (descriptor_json (gs_schema s))]) st =
      Ok (st\<lparr>ws_telemetry := Some (gs_schema s)\<rparr>)" if "\<not> ws_ended st" for st
    using p b that decode_b64 [OF assms(1)]
    by (simp add: parse_words b64_def parse_telemetry_line_def parse_telemetry_schema_def ok_or_def del: join.simps)
  show ?thesis
    unfolding closing_words_def list.map parse_wire_lines.simps a and_then_Ok
    by (subst t) (use assms(3) in \<open>simp_all add: parse_end\<close>)
qed

lemma parse_published:
  assumes "codec_laws x" and "publishable x s"
  shows "parse_wire_snapshot x (namespace_to_wire x s) = Ok s"
proof -
  note p = assms(2) [unfolded publishable_def]
  have w: "namespace_to_wire x s = str_bytes (concat (map (\<lambda>l. l @ newline) (map (join '' '') (snapshot_words x s))))"
    by (simp add: namespace_to_wire_def wire_lines_words)
  have first: "parse_wire_line x (join '' '' schema_words) wire_start = Ok (wire_start\<lparr>ws_schema_seen := True\<rparr>)"
    by (simp add: schema_words_def GPU_BRIDGE_WIRE_SCHEMA_def parse_words parse_schema_line_def wire_start_def del: join.simps)
  have start: "\<not> ws_ended wire_start" "ws_nodes wire_start = []" "ws_models wire_start = []"
    by (simp_all add: wire_start_def)
  have "parse_wire_lines x (map (join '' '') (snapshot_words x s)) wire_start =
      Ok \<lparr>ws_schema_seen = True, ws_nodes = gs_nodes s, ws_models = mc_available (gs_models s),
          ws_active = Some (mc_active (gs_models s)), ws_telemetry = Some (gs_schema s), ws_ended = True\<rparr>"
    using p parse_closing [OF assms]
    by (simp add: snapshot_words_def first parse_wire_lines_append parse_nodes [OF assms(1)] parse_models [OF assms(1)]
        start del: join.simps)
  then show ?thesis
    using plain_lines_read [of "snapshot_words x s"] snapshot_words_plain [OF assms] p
    by (auto simp: parse_wire_snapshot_def w ok_or_def finish_wire_def)
qed

subsection \<open>Receiving the lines\<close>

fun receive_all ::
  "bridge_ext \<Rightarrow> string list \<Rightarrow> gpu_bridge_receiver \<Rightarrow> (ninedoor_error + gpu_bridge_update) list \<times> gpu_bridge_receiver" where
  "receive_all x [] r = ([], r)"
| "receive_all x (line # lines) r =
     (case handle_line x line r of (u, r1) \<Rightarrow> case receive_all x lines r1 of (us, r2) \<Rightarrow> (u # us, r2))"

lemma receive_all_append:
  "receive_all x (as @ bs) r =
    (case receive_all x as r of (us, r1) \<Rightarrow> case receive_all x bs r1 of (vs, r2) \<Rightarrow> (us @ vs, r2))"
  by (induction as arbitrary: r) (simp_all split: prod.splits)

lemma list_chunks_concat: "0 < n \<Longrightarrow> concat (list_chunks n xs) = xs"
proof (induction n xs rule: list_chunks.induct)
  case (1 n xs)
  then show ?case by (subst list_chunks.simps) simp
qed

lemma list_chunks_set: "c \<in> set (list_chunks n xs) \<Longrightarrow> c \<noteq> [] \<and> set c \<subseteq> set xs"
proof (induction n xs rule: list_chunks.induct)
  case (1 n xs)
  from 1(2) have xs: "\<not> (xs = [] \<or> n = 0)" and c: "c = take n xs \<or> c \<in> set (list_chunks n (drop n xs))"
    by (subst (asm) list_chunks.simps, simp split: if_splits)+
  then show ?case
    using 1(1) [OF xs] set_take_subset [of n xs] set_drop_subset [of n xs] by auto
qed

lemma receive_chunk:
  assumes "plain c" and "c \<noteq> []" and "gr_pending r = Some p" and "base64_encoded_len (gb_expected_bytes p) = Some e"
    and "length (gb_encoded p) + length c \<le> e"
  shows "handle_line x (''b64:'' @ c) r =
    (Ok UpdateNone, r\<lparr>gr_pending := Some (p\<lparr>gb_encoded := gb_encoded p @ str_bytes c\<rparr>)\<rparr>)"
proof -
  have "trim (''b64:'' @ c) = ''b64:'' @ c"
    using line_words(1) [of "[''b64:'' @ c]"] assms(1) by simp
  moreover have "sat_add (length (gb_encoded p)) (length c) \<le> e"
    using assms(5) le_trans [OF sat_add_le] by blast
  ultimately show ?thesis
    using assms(3,4) by (simp add: handle_line_def strip_prefix_def receive_data_def)
qed

lemma receive_chunks:
  assumes "base64_encoded_len (gb_expected_bytes p) = Some e" and "gr_pending r = Some p"
    and "\<And>c. c \<in> set cs \<Longrightarrow> plain c \<and> c \<noteq> []" and "length (gb_encoded p) + length (concat cs) \<le> e"
  shows "receive_all x (map (\<lambda>c. ''b64:'' @ c) cs) r =
    (replicate (length cs) (Ok UpdateNone),
     r\<lparr>gr_pending := Some (p\<lparr>gb_encoded := gb_encoded p @ str_bytes (concat cs)\<rparr>)\<rparr>)"
  using assms
proof (induction cs arbitrary: p r)
  case Nil
  then show ?case by (simp add: str_bytes_def)
next
  case (Cons c cs)
  let ?p = "p\<lparr>gb_encoded := gb_encoded p @ str_bytes c\<rparr>"
  have "handle_line x (''b64:'' @ c) r = (Ok UpdateNone, r\<lparr>gr_pending := Some ?p\<rparr>)"
    by (rule receive_chunk [where e = e]) (use Cons.prems in auto)
  with Cons.IH [of ?p "r\<lparr>gr_pending := Some ?p\<rparr>"] Cons.prems
  show ?case by (simp add: str_bytes_def)
qed

lemma dec_digits_plain: "plain (show_nat n)"
  using show_nat_digits [of n] by (auto simp: list_all_iff plain_def is_ascii_digit_def)

lemma hexdigits_plain: "list_all is_ascii_hexdigit h \<Longrightarrow> plain h"
  by (auto simp: list_all_iff plain_def is_ascii_hexdigit_def is_ascii_digit_def)

lemma parse_usize_show: "n \<le> usize_max \<Longrightarrow> parse_usize (show_nat n) = Some n"
proof -
  have "show_nat n \<noteq> []" by (subst show_nat.simps) simp
  moreover from this have "hd (show_nat n) \<noteq> CHR ''+''"
    using show_nat_digits [of n] by (cases "show_nat n") (auto simp: is_ascii_digit_def)
  ultimately show "n \<le> usize_max \<Longrightarrow> parse_usize (show_nat n) = Some n"
    using show_nat_digits [of n] by (simp add: parse_usize_def dec_value_show_nat)
qed

lemma receive_begin:
  assumes "codec_laws x" and "0 < n" and "n \<le> gr_max_bytes r" and "gr_max_bytes r \<le> usize_max" and "length d = 32"
  shows "handle_line x (''begin bytes='' @ show_nat n @ '' sha256='' @ cx_hex (bx_cas x) d) r =
    (Ok (UpdateStarted n),
     r\<lparr>gr_pending := Some \<lparr>gb_expected_bytes = n, gb_expected_sha256 = d, gb_encoded = []\<rparr>\<rparr>)"
proof -
  let ?h = "cx_hex (bx_cas x) d"
  have h: "length ?h = 64" "list_all is_ascii_hexdigit ?h" "cx_unhex (bx_cas x) ?h = Some d"
    using assms(1,5) by (simp_all add: codec_laws_def)
  let ?ws = "[''begin'', ''bytes='' @ show_nat n, ''sha256='' @ ?h]"
  have pl: "plain_words ?ws" "plain_words (tl ?ws)"
    using dec_digits_plain hexdigits_plain [OF h(2)] by simp_all
  have "split_whitespace (CHR 0x20 # join '' '' (tl ?ws)) = tl ?ws"
    using line_words(2) [OF pl(2)] by (simp add: split_whitespace_def find_ws_space)
  moreover have "''begin bytes='' @ show_nat n @ '' sha256='' @ ?h = ''begin'' @ (CHR 0x20 # join '' '' (tl ?ws))"
    by simp
  moreover have "trim (''begin bytes='' @ show_nat n @ '' sha256='' @ ?h) = ''begin bytes='' @ show_nat n @ '' sha256='' @ ?h"
    using line_words(1) [OF pl(1)] by simp
  moreover have "begin_fields (tl ?ws) (None, None) = Ok (Some n, Some ?h)"
    using assms(2-4) parse_usize_show [of n] by simp
  ultimately show ?thesis
    using h assms(3)
    by (simp add: handle_line_def strip_prefix_def parse_gpu_bridge_begin_def parse_sha256_hex_def ok_or_def)
qed

lemma receive_end_line:
  assumes "codec_laws x" and "publishable x s" and "gr_pending r = Some p"
    and "gb_expected_bytes p = length (namespace_to_wire x s)"
    and "gb_expected_sha256 p = cx_sha256 (bx_cas x) (namespace_to_wire x s)"
    and "gb_encoded p = str_bytes (bx_encode x (namespace_to_wire x s))"
  shows "handle_line x ''end'' r =
    (Ok (UpdateComplete (length (namespace_to_wire x s))
       (cx_hex (bx_cas x) (cx_sha256 (bx_cas x) (namespace_to_wire x s))) s), r\<lparr>gr_pending := None\<rparr>)"
proof -
  have "trim ''end'' = ''end''" using line_words(1) [of "[''end'']"] by simp
  with assms show ?thesis
    by (simp add: handle_line_def strip_prefix_def receive_end_def ok_or_def parse_published codec_laws_def)
qed

lemma encoded_len: "n \<le> usize_max div 4 \<Longrightarrow> base64_encoded_len n = Some ((n + 2) div 3 * 4)"
proof -
  assume n: "n \<le> usize_max div 4"
  have "n div 3 * 4 + (if n mod 3 = 0 then 0 else 4) = (n + 2) div 3 * 4" by presburger
  moreover have "n div 3 * 4 + 4 \<le> usize_max" using n by (simp add: u64_max_def)
  ultimately show ?thesis by (simp add: base64_encoded_len_def split: if_splits)
qed

lemma wire_nonempty: "namespace_to_wire x s \<noteq> []"
  by (simp add: namespace_to_wire_def wire_lines_def str_bytes_def)


subsection \<open>A codec and a host\<close>

definition b64_alphabet :: string where
  "b64_alphabet = ''ABCDEFGHIJKLMNOPQRSTUVWXYZabcdefghijklmnopqrstuvwxyz0123456789+/''"

definition b64_digit :: "nat \<Rightarrow> char" where
  "b64_digit n = b64_alphabet ! n"

definition b64_value :: "char \<Rightarrow> nat" where
  "b64_value c = length (takeWhile (\<lambda>d. d \<noteq> c) b64_alphabet)"

fun sample_encode :: "bytes \<Rightarrow> string" where
  "sample_encode [] = []"
| "sample_encode [a] = map b64_digit [unat a div 4, unat a mod 4 * 16] @ ''==''"
| "sample_encode [a, b] =
     map b64_digit [unat a div 4, unat a mod 4 * 16 + unat b div 16, unat b mod 16 * 4] @ ''=''"
| "sample_encode (a # b # c # bs) =
     map b64_digit [unat a div 4, unat a mod 4 * 16 + unat b div 16, unat b mod 16 * 4 + unat c div 64, unat c mod 64]
       @ sample_encode bs"

fun sample_decode :: "string \<Rightarrow> bytes option" where
  "sample_decode [] = Some []"
| "sample_decode (p # q # r # s # cs) =
     (let byte1 = word_of_nat (b64_value p * 4 + b64_value q div 16);
          byte2 = word_of_nat (b64_value q mod 16 * 16 + b64_value r div 4);
          byte3 = word_of_nat (b64_value r mod 4 * 64 + b64_value s)
      in if r = CHR ''='' then Some [byte1]
         else if s = CHR ''='' then Some [byte1, byte2]
         else map_option (\<lambda>bs. byte1 # byte2 # byte3 # bs) (sample_decode cs))"
| "sample_decode _ = None"

lemma b64_digits: "list_all (\<lambda>n. b64_value (b64_digit n) = n \<and> b64_digit n \<noteq> CHR ''=''
    \<and> (is_ascii_alphanumeric (b64_digit n) \<or> b64_digit n \<in> set ''+/='')) [0..<64]"
  by code_simp

lemma b64_digitD: "n < 64 \<Longrightarrow> b64_value (b64_digit n) = n" "n < 64 \<Longrightarrow> b64_digit n \<noteq> CHR ''=''"
    "n < 64 \<Longrightarrow> is_ascii_alphanumeric (b64_digit n) \<or> b64_digit n \<in> set ''+/=''"
  using b64_digits by (auto simp: list_all_iff)

lemma byte_pieces: "unat (a :: byte) div 4 < 64" "unat a mod 4 * 16 < 64" "unat a mod 16 * 4 < 64" "unat a mod 64 < 64"
    "unat a mod 4 * 16 + unat (b :: byte) div 16 < 64" "unat a mod 16 * 4 + unat b div 64 < 64"
  using unat_bounds(1) [of a] unat_bounds(1) [of b] by auto

lemma byte_joins: "(unat (a :: byte) mod 4 * 16 + unat (b :: byte) div 16) div 16 = unat a mod 4"
    "(unat a mod 4 * 16 + unat b div 16) mod 16 = unat b div 16"
    "(unat a mod 16 * 4 + unat b div 64) div 4 = unat a mod 16"
    "(unat a mod 16 * 4 + unat b div 64) mod 4 = unat b div 64"
  using unat_bounds(1) [of a] unat_bounds(1) [of b] by auto

lemma byte_tops: "unat (a :: byte) div 16 mod 16 = unat a div 16" "unat a div 64 mod 4 = unat a div 64"
  using unat_bounds(1) [of a] by auto

lemma byte_back: "word_of_nat (unat a div k * k + unat a mod k) = (a :: byte)"
  by (subst div_mult_mod_eq) simp

lemma sample_decode_encode: "sample_decode (sample_encode bs) = Some bs"
  by (induction bs rule: sample_encode.induct)
    (simp_all add: b64_digitD byte_pieces byte_joins byte_tops byte_back Let_def del: of_nat_add of_nat_mult)

lemma sample_encode_length: "length (sample_encode bs) = (length bs + 2) div 3 * 4"
proof (induction bs rule: sample_encode.induct)
  case (4 a b c bs)
  then show ?case by simp presburger
qed simp_all

lemma sample_encode_alphabet:
  "list_all (\<lambda>c. is_ascii_alphanumeric c \<or> c \<in> set ''+/='') (sample_encode bs)"
  by (induction bs rule: sample_encode.induct) (use b64_digitD(3) byte_pieces in simp_all)

text \<open>Hexadecimal digits, two for a byte.\<close>

definition hex_val :: "char \<Rightarrow> nat" where
  "hex_val c = length (takeWhile (\<lambda>d. d \<noteq> c) ''0123456789abcdef'')"

fun sample_unhex :: "string \<Rightarrow> bytes option" where
  "sample_unhex [] = Some []"
| "sample_unhex (a # b # cs) = map_option (\<lambda>bs. word_of_nat (hex_val a * 16 + hex_val b) # bs) (sample_unhex cs)"
| "sample_unhex _ = None"

definition sample_hex :: "bytes \<Rightarrow> string" where
  "sample_hex bs = concat (map show_byte_02x bs)"

lemma hex_digits: "list_all (\<lambda>n. hex_val (digit_char n) = n \<and> is_ascii_hexdigit (digit_char n)) [0..<16]"
  by code_simp

lemma hex_digitD: "n < 16 \<Longrightarrow> hex_val (digit_char n) = n" "n < 16 \<Longrightarrow> is_ascii_hexdigit (digit_char n)"
  using hex_digits by (auto simp: list_all_iff)

lemma hex_pieces: "unat (a :: byte) div 16 < 16"
  using unat_bounds(1) [of a] by simp

lemma sample_unhex_hex:
  "sample_unhex (sample_hex bs) = Some bs" "length (sample_hex bs) = 2 * length bs"
  "list_all is_ascii_hexdigit (sample_hex bs)"
  by (induction bs)
    (simp_all add: sample_hex_def show_byte_02x_def hex_digitD hex_pieces byte_back del: of_nat_add of_nat_mult)

definition sample_bridge :: bridge_ext where
  "sample_bridge =
     \<lparr>bx_cas = \<lparr>cx_sha256 = (\<lambda>bs. replicate 32 (word_of_nat (length bs))), cx_hex = sample_hex, cx_unhex = sample_unhex,
        cx_base64 = (\<lambda>bs. sample_decode (str_of_bytes bs)), cx_key = (\<lambda>_. True), cx_verify = (\<lambda>_ _ _. True)\<rparr>,
      bx_encode = sample_encode,
      bx_parse_schema = (\<lambda>_. Ok \<lparr>sc_version = ''v1'', sc_max_record_bytes = 64, sc_required_fields = [''job''],
        sc_optional_fields = []\<rparr>)\<rparr>"

lemma sample_bridge_laws: "codec_laws sample_bridge"
  using sample_encode_alphabet
  by (simp add: codec_laws_def sample_bridge_def sample_decode_encode sample_encode_length sample_unhex_hex)

definition sample_snapshot :: gpu_namespace_snapshot where
  "sample_snapshot =
     \<lparr>gs_nodes = [\<lparr>sg_id = ''GPU-0'', sg_info_payload = ''{}'', sg_ctl_payload = ''LEASE GPU-0'', sg_lease_payload = [],
        sg_status_payload = []\<rparr>],
      gs_models = \<lparr>mc_available = [\<lparr>mm_model_id = ''base'', mm_manifest_toml = ''[model]''\<rparr>], mc_active = ''base''\<rparr>,
      gs_schema = \<lparr>sc_version = ''v1'', sc_max_record_bytes = 64, sc_required_fields = [''job''], sc_optional_fields = []\<rparr>\<rparr>"

lemma sample_publishable: "publishable sample_bridge sample_snapshot"
  by (simp add: publishable_def sample_bridge_def sample_snapshot_def utf8_str_def str_bytes_def char_byte_def
      descriptor_json_def in_quotes_def dq_def escape_json_string_def escape_json_char_def show_nat.simps digit_char_def)

lemma sample_wire_length: "length (namespace_to_wire sample_bridge sample_snapshot) \<le> 1000"
  by (simp add: namespace_to_wire_def wire_lines_def node_line_def model_line_def sample_bridge_def sample_snapshot_def
      sample_encode_length descriptor_json_def in_quotes_def dq_def escape_json_string_def escape_json_char_def
      GPU_BRIDGE_WIRE_SCHEMA_def show_nat.simps)


end
