(* ===== verification/Control_Faults.thy ===== *)
theory Control_Faults
  imports Control_Safety Gpu_Publish
begin

section \<open>Control writes that go wrong\<close>

text \<open>
  Three writes a client can send that leave the control plane worse off: an approval whose identifier
  is the name of the queue file, a GPU snapshot whose error text cannot be cut, and a GPU spawn that
  is refused after the worker was created.
\<close>

lemma split_ws_run:
  assumes "\<And>c s. c \<in> set v \<Longrightarrow> find (\<lambda>w. prefix w (c # s)) utf8_ws = None"
  shows "split_ws_fuel (length v + n) u (v @ s) = split_ws_fuel n (u @ v) s"
  using assms by (induction v arbitrary: u) simp_all

subsection \<open>An action named like the queue\<close>

lemma push_actions_ids:
  "push_actions reqs acts = (Ok ap, acts') \<Longrightarrow>
    (\<forall>a \<in> set ap. \<exists>b \<in> set acts'. pa_id b = paa_id a) \<and> set acts \<subseteq> set acts'"
proof (induction reqs acts arbitrary: ap acts' rule: push_actions.induct)
  case (2 entry rest acts)
  then obtain ap2 where r: "push_actions rest (acts @ [action_from_request entry]) = (Ok ap2, acts')"
      and ap: "ap = \<lparr>paa_id = ar_id entry, paa_target = ar_target entry, paa_decision = ar_decision entry\<rparr> # ap2"
      and n: "\<not> list_ex (\<lambda>a. pa_id a = ar_id entry) acts"
    by (auto split: if_splits prod.splits sum.splits)
  from "2.IH" [OF n r] ap show ?case by (force simp: action_from_request_def)
qed simp

lemma queued_action_found:
  assumes "append_action_queue parse offset data p = (Ok out, p')" and "a \<in> set (pqo_appended out)"
  shows "\<exists>payload. action_status_payload json p' (paa_id a) = Some payload"
proof -
  from assms(1) obtain reqs acts ap where "push_actions reqs (ps_actions p) = (Ok ap, acts)"
      "pqo_appended out = ap" "ps_actions p' = acts"
    by (auto simp: append_action_queue_def split: sum.splits prod.splits)
  with assms(2) obtain b where "b \<in> set (ps_actions p')" "pa_id b = paa_id a" using push_actions_ids by blast
  then have "find (\<lambda>b. pa_id b = paa_id a) (ps_actions p') \<noteq> None" by (auto simp: find_None_iff)
  then show ?thesis by (auto simp: action_status_payload_def)
qed

lemma plain_actions: "plain_path [''actions'']" "plain_path [''actions'', n]"
  by (simp_all add: plain_path_def telemetry_ingest_device_root_def)

lemma set_queue_payload:
  assumes "0 < nx_stack x" and "node_at [''actions''] (ns_root s) = Some (Directory es)"
  shows "\<exists>root. set_action_queue_payload x data s = (Ok (), s\<lparr>ns_root := root\<rparr>) \<and>
    (\<exists>es. node_at [''actions''] root = Some (Directory es)) \<and>
    node_at [''actions'', ''queue''] root = Some (FileNode (AppendOnly data))"
proof -
  let ?n = "Directory (bt_insert ''queue'' (FileNode (AppendOnly data)) (bt_remove ''queue'' es))"
  let ?root = "put_node [''actions''] ?n (ns_root s)"
  have "set_action_queue_payload x data s = (Ok (), s\<lparr>ns_root := ?root\<rparr>)"
    using assms
    by (simp add: set_action_queue_payload_def set_append_only_file_def lookup_plain plain_actions raw_run
        st_bind_def ensure_file_def ensure_child_def bt_contains_def del: node_at.simps)
  moreover have "node_at ([''actions''] @ q) ?root = node_at q ?n" for q
    by (rule node_at_put_below) (simp add: assms(2) del: node_at.simps)
  from this [of "[]"] this [of "[''queue'']"]
  have "node_at [''actions''] ?root = Some ?n" "node_at [''actions'', ''queue''] ?root = Some (FileNode (AppendOnly data))"
    by simp_all
  ultimately show ?thesis by blast
qed

lemma status_of_queue_panics:
  assumes "0 < nx_stack x" and "node_at [''actions''] (ns_root s) = Some (Directory es)"
    and "node_at [''actions'', ''queue''] (ns_root s) = Some (FileNode f)"
  shows "fst (set_action_status_payload x ''queue'' payload s) = Err Panic"
proof -
  have "bt_contains es ''queue''"
    using assms(2,3) by (auto simp: bt_contains_def split: option.splits)
  then have "ensure_dir x [''actions''] ''queue'' s = (Ok (), s\<lparr>ns_root := put_node [''actions''] (Directory es) (ns_root s)\<rparr>)"
    using assms(1,2)
    by (simp add: ensure_dir_def lookup_plain plain_actions raw_run ensure_directory_def ensure_child_def del: node_at.simps)
  moreover have "node_at ([''actions''] @ [''queue'']) (put_node [''actions''] (Directory es) (ns_root s)) = Some (FileNode f)"
    by (subst node_at_put_below) (use assms(2,3) in \<open>auto split: option.splits\<close>)
  ultimately show ?thesis
    using assms(1)
    by (simp add: set_action_status_payload_def set_read_only_file_def st_bind_def lookup_plain plain_actions raw_run
        ensure_file_def ensure_child_def del: node_at.simps)
qed

text \<open>
  C39: An approval whose identifier is \<open>queue\<close> is accepted by the policy store, and then the status file
  of the action is created under the queue file: the write panics, whatever the state of the control
  plane, after the approval has been queued.
\<close>

theorem action_named_queue_panics:
  assumes "0 < nx_stack (px_ns x)" and "node_at [''actions''] (ns_root (cp_ns s)) = Some (Directory es)"
    and "fst (append_action_queue (px_action x) offset data (cp_policy s)) = Inr out"
    and "pqo_appended out = a # rest" and "paa_id a = ''queue''"
  shows "fst (process_action_queue_write x offset data s) = Inl Panic"
proof -
  obtain p where p: "append_action_queue (px_action x) offset data (cp_policy s) = (Ok out, p)"
    using assms(3) by (cases "append_action_queue (px_action x) offset data (cp_policy s)") auto
  from set_queue_payload [OF assms(1,2), of "ps_queue_log p"] obtain root es2 where
    root: "set_action_queue_payload (px_ns x) (ps_queue_log p) (cp_ns s) = (Ok (), (cp_ns s)\<lparr>ns_root := root\<rparr>)"
      "node_at [''actions''] root = Some (Directory es2)"
      "node_at [''actions'', ''queue''] root = Some (FileNode (AppendOnly (ps_queue_log p)))"
    by blast
  from queued_action_found [OF p] assms(4,5)
  obtain payload where "action_status_payload (px_status_json x) p ''queue'' = Some payload" by fastforce
  moreover have "fst (set_action_status_payload (px_ns x) ''queue'' payload ((cp_ns s)\<lparr>ns_root := root\<rparr>)) = Err Panic"
    by (rule status_of_queue_panics [OF assms(1)]) (use root(2,3) in simp_all)
  ultimately obtain t where
    "refresh_action_status x ''queue'' (s\<lparr>cp_policy := p, cp_ns := (cp_ns s)\<lparr>ns_root := root\<rparr>\<rparr>) = (Err Panic, t)"
    by (auto simp: refresh_action_status_def st_read_def on_ns_def split_beta)
  then show ?thesis
    using p root(1) assms(4,5) by (simp add: process_action_queue_write_def st_bind_def on_policy_def on_ns_def st_read_def)
qed

definition queue_action :: action_request where
  "queue_action = \<lparr>ar_id = ''queue'', ar_target = ''/queen/ctl'', ar_decision = Approve\<rparr>"

definition policy_ns :: namespace where
  "policy_ns = snd (namespace_new sample_ns_ext (sample_ns_config\<lparr>nc_policy := mount_enabled []\<rparr>))"

lemma policy_ns_actions: "\<exists>es. node_at [''actions''] (ns_root policy_ns) = Some (Directory es)"
  by (simp add: policy_ns_def boot_eval bootstrap_policy_def mount_enabled_def)

lemma queue_action_appended:
  "fst (append_action_queue (\<lambda>_. Ok queue_action) u64_max (str_bytes ''x'') sample_store) =
    Ok \<lparr>pqo_count = 1, pqo_appended = [\<lparr>paa_id = ''queue'', paa_target = ''/queen/ctl'', paa_decision = Approve\<rparr>]\<rparr>"
proof -
  have "parse_action_lines (\<lambda>_. Ok queue_action) (str_bytes ''x'') = Ok [queue_action]" by code_simp
  then show ?thesis by (simp add: Policy_Store.sample_defs Policy_Store.sample_parse(1) as_u32_def) (simp add: queue_action_def)
qed

theorem action_named_queue_panics_witness:
  "fst (process_action_queue_write (sample_cp_ext\<lparr>px_action := \<lambda>_. Ok queue_action\<rparr>) u64_max (str_bytes ''x'')
     ((sample_cp sample_store)\<lparr>cp_ns := policy_ns\<rparr>)) = Inl Panic"
proof -
  from policy_ns_actions obtain es where "node_at [''actions''] (ns_root policy_ns) = Some (Directory es)" by blast
  then show ?thesis
    using action_named_queue_panics [of "sample_cp_ext\<lparr>px_action := \<lambda>_. Ok queue_action\<rparr>"
        "(sample_cp sample_store)\<lparr>cp_ns := policy_ns\<rparr>" es u64_max "str_bytes ''x''"] queue_action_appended
    by (simp add: sample_cp_ext_def sample_ns_ext_def sample_cp_def control_plane_new_def del: node_at.simps)
qed

subsection \<open>An error text that cannot be cut\<close>

definition bridge_ctl :: path where
  "bridge_ctl = [''gpu'', ''bridge'', ''ctl'']"

definition snapshot_error :: "string \<Rightarrow> string" where
  "snapshot_error err = ''state=err reason=gpu bridge snapshot: '' @ err"

text \<open>
  C40: The status line of the GPU bridge is cut at 512 bytes, also inside a character: when the payload
  of a publication is complete and its hash is right, but its text is refused with an error message
  that has a character across the limit, the write that ends the publication panics.
\<close>

theorem bridge_error_text_panics:
  assumes wrote: "write_append (px_ns x) bridge_ctl offset (str_bytes ''end'') (cp_ns s) = (Inr n, t)"
    and pending: "gr_pending (cp_bridge s) = Some p" "cx_base64 (bx_cas (px_bridge x)) (gb_encoded p) = Some payload"
      "length payload = gb_expected_bytes p" "cx_sha256 (bx_cas (px_bridge x)) payload = gb_expected_sha256 p"
    and refused: "parse_wire_snapshot (px_bridge x) payload = Inl err"
    and cut: "GPU_BRIDGE_STATUS_MAX_BYTES < length (snapshot_error err)"
      "utf8_cont (char_byte (snapshot_error err ! GPU_BRIDGE_STATUS_MAX_BYTES))"
  shows "fst (process_gpu_bridge_ctl_write x offset (str_bytes ''end'') s) = Inl Panic"
proof -
  let ?e = "bridge_error (''snapshot: '' @ err)"
  have trim: "trim ''end'' = ''end''" and lines: "command_lines ''end'' = [''end'']"
    and utf8: "from_utf8 (str_bytes ''end'') = Some ''end''"
    by code_simp+
  have "handle_line (px_bridge x) ''end'' (cp_bridge s) = (Err ?e, (cp_bridge s)\<lparr>gr_pending := None\<rparr>)"
    using pending refused
    by (simp add: handle_line_def trim strip_prefix_def receive_end_def ok_or_def map_err_def bridge_error_def)
  moreover have "fst (cp_set_gpu_bridge_status x (snapshot_error err) u) = Err Panic" for u
  proof -
    let ?m = "with_newline (snapshot_error err)"
    have "take (length (snapshot_error err)) ?m = snapshot_error err" by (simp add: with_newline_def)
    then have "?m ! GPU_BRIDGE_STATUS_MAX_BYTES = snapshot_error err ! GPU_BRIDGE_STATUS_MAX_BYTES"
      using cut(1) by (metis nth_take)
    moreover have "GPU_BRIDGE_STATUS_MAX_BYTES < length ?m" using cut(1) by (simp add: with_newline_def)
    ultimately show ?thesis
      using cut(2) by (simp add: cp_set_gpu_bridge_status_def Let_def st_bind_def st_lift_def str_truncate_def)
  qed
  then have "\<exists>v. cp_set_gpu_bridge_status x (snapshot_error err) u = (Err Panic, v)" for u
    by (metis fst_conv surj_pair)
  then have "\<exists>v. cp_set_gpu_bridge_status x (''state=err reason='' @ gpu_bridge_error_message ?e) u = (Err Panic, v)" for u
    by (simp add: snapshot_error_def gpu_bridge_error_message_def bridge_error_def)
  then obtain v where
    "cp_set_gpu_bridge_status x (''state=err reason='' @ gpu_bridge_error_message ?e)
       (s\<lparr>cp_ns := t, cp_bridge := (cp_bridge s)\<lparr>gr_pending := None\<rparr>\<rparr>) = (Err Panic, v)"
    by blast
  ultimately have "gpu_bridge_line x ''end'' (s\<lparr>cp_ns := t\<rparr>) = (Err Panic, v)"
    by (simp add: gpu_bridge_line_def st_bind_def st_try_def on_bridge_def map_err_def)
  then show ?thesis
    using wrote utf8 lines
    by (simp add: process_gpu_bridge_ctl_write_def bridge_ctl_def st_bind_def on_ns_def utf8_command_def st_return_def)
qed

text \<open>A word of three hundred \<open>u\<close> with diaeresis, two bytes each.\<close>

definition umlauts :: "nat \<Rightarrow> string" where
  "umlauts n = concat (replicate n [CHR 0xC3, CHR 0xBC])"

lemma umlauts_Suc: "umlauts (Suc n) = CHR 0xC3 # CHR 0xBC # umlauts n"
  by (simp add: umlauts_def)

lemma umlauts_snoc: "umlauts (Suc n) = (umlauts n @ [CHR 0xC3]) @ [CHR 0xBC]"
proof (induction n)
  case (Suc n)
  have "umlauts (Suc (Suc n)) = CHR 0xC3 # CHR 0xBC # umlauts (Suc n)" by (rule umlauts_Suc)
  also have "\<dots> = ((CHR 0xC3 # CHR 0xBC # umlauts n) @ [CHR 0xC3]) @ [CHR 0xBC]" unfolding Suc by simp
  finally show ?case unfolding umlauts_Suc [of n] .
qed (simp add: umlauts_def)

lemma umlauts_set: "c \<in> set (umlauts n) \<Longrightarrow> c = CHR 0xC3 \<or> c = CHR 0xBC"
  by (induction n) (auto simp: umlauts_def)

lemma umlauts_length: "length (umlauts n) = 2 * n"
  by (induction n) (simp_all add: umlauts_def)

lemma umlauts_nth: "k < n \<Longrightarrow> umlauts n ! Suc (2 * k) = CHR 0xBC"
proof (induction n arbitrary: k)
  case (Suc n)
  then show ?case by (cases k) (simp_all add: umlauts_Suc)
qed simp

lemma umlauts_utf8: "from_utf8 (str_bytes (umlauts n)) = Some (umlauts n)"
proof -
  have "utf8_valid (str_bytes (umlauts n))"
    by (induction n) (simp_all add: umlauts_Suc str_bytes_def char_byte_def utf8_cont_def, simp add: umlauts_def)
  then show ?thesis by (simp add: from_utf8_def)
qed

lemma find_ws_umlaut: "c = CHR 0xC3 \<or> c = CHR 0xBC \<Longrightarrow> find (\<lambda>w. prefix w (c # s)) utf8_ws = None"
  by (elim disjE) (simp_all add: utf8_ws_def)

lemma umlauts_ends: obtains s t where "umlauts (Suc n) = CHR 0xC3 # s" and "umlauts (Suc n) = t @ [CHR 0xBC]"
  by (rule that [OF umlauts_Suc umlauts_snoc])

lemma umlauts_trim: "trim (umlauts (Suc n)) = umlauts (Suc n)"
proof -
  obtain s t where s: "umlauts (Suc n) = CHR 0xC3 # s" and t: "umlauts (Suc n) = t @ [CHR 0xBC]" by (rule umlauts_ends)
  have "last w \<noteq> CHR 0xBC" if "w \<in> set utf8_ws" for w using that by (auto simp: utf8_ws_def)
  then have "\<not> suffix w (t @ [CHR 0xBC])" if "w \<in> set utf8_ws" for w
    using that utf8_ws_nonempty by (metis last_appendR last_snoc suffix_def)
  then have "find (\<lambda>w. suffix w (t @ [CHR 0xBC])) utf8_ws = None" by (simp add: find_None_iff)
  then have "trim_end_fuel k (umlauts (Suc n)) = umlauts (Suc n)" for k by (cases k) (simp_all add: t)
  moreover have "trim_start_fuel k (umlauts (Suc n)) = umlauts (Suc n)" for k
    by (cases k) (simp_all add: s find_ws_umlaut)
  ultimately show ?thesis by (simp add: trim_def)
qed

lemma umlauts_words: "split_whitespace (umlauts (Suc n)) = [umlauts (Suc n)]"
proof -
  have "find (\<lambda>w. prefix w (c # s)) utf8_ws = None" if "c \<in> set (umlauts (Suc n))" for c s
    by (rule find_ws_umlaut [OF umlauts_set [OF that]])
  from split_ws_run [of "umlauts (Suc n)" 0 "[]" "[]", OF this] show ?thesis
    by (simp add: split_whitespace_def) (metis umlauts_Suc list.distinct(1))
qed

lemma umlauts_lines: "str_lines (umlauts (Suc n)) = [umlauts (Suc n)]"
proof -
  have one: "split_inclusive (CHR 0x0A) s = [s]" if "CHR 0x0A \<notin> set s" "s \<noteq> []" for s
    using that
  proof (induction s)
    case (Cons c s)
    then show ?case by (cases "s = []") auto
  qed simp
  obtain s t where s: "umlauts (Suc n) = CHR 0xC3 # s" and t: "umlauts (Suc n) = t @ [CHR 0xBC]" by (rule umlauts_ends)
  have "CHR 0x0A \<notin> set (umlauts (Suc n))" using umlauts_set by force
  moreover have "umlauts (Suc n) \<noteq> []" using s by simp
  ultimately have "split_inclusive (CHR 0x0A) (umlauts (Suc n)) = [umlauts (Suc n)]" by (rule one)
  then show ?thesis by (simp add: str_lines_def strip_eol_def t)
qed

lemma umlauts_refused:
  "parse_wire_snapshot x (str_bytes (umlauts (Suc n))) = Err (''unsupported wire line: '' @ umlauts (Suc n))"
proof -
  have "umlauts (Suc n) \<noteq> []" and "\<And>c s. c \<noteq> CHR 0xC3 \<Longrightarrow> umlauts (Suc n) \<noteq> c # s"
    by (simp_all add: umlauts_Suc)
  then show ?thesis
    by (simp add: parse_wire_snapshot_def umlauts_utf8 umlauts_lines ok_or_def parse_wire_line_def umlauts_trim
        umlauts_words wire_start_def)
qed

definition umlaut_ext :: cp_ext where
  "umlaut_ext = sample_cp_ext\<lparr>px_bridge := \<lparr>bx_cas = sample_ext\<lparr>cx_base64 := \<lambda>_. Some (str_bytes (umlauts 300)),
     cx_sha256 := \<lambda>_. []\<rparr>, bx_encode = \<lambda>_. [], bx_parse_schema = \<lambda>_. Err []\<rparr>\<rparr>"

definition umlaut_cp :: control_plane where
  "umlaut_cp = (sample_cp sample_store)\<lparr>cp_bridge := \<lparr>gr_max_bytes = GPU_BRIDGE_MAX_BYTES,
     gr_pending = Some \<lparr>gb_expected_bytes = 600, gb_expected_sha256 = [], gb_encoded = []\<rparr>\<rparr>\<rparr>"

lemma sample_bridge_ctl: "log_path bridge_ctl" "node_at bridge_ctl (ns_root sample_ns) = Some (FileNode (AppendOnly []))"
  by (simp_all add: bridge_ctl_def log_path_def plain_path_def telemetry_ingest_device_root_def
      telemetry_ingest_ctl_device_def telemetry_ingest_segment_parts_def sample_ns_def boot_eval)

theorem bridge_error_text_panics_witness:
  "fst (process_gpu_bridge_ctl_write umlaut_ext u64_max (str_bytes ''end'') umlaut_cp) = Inl Panic"
proof -
  let ?err = "''unsupported wire line: '' @ umlauts (Suc 299)"
  have ns: "cp_ns umlaut_cp = sample_ns" "px_ns umlaut_ext = sample_ns_ext"
    by (simp_all add: umlaut_cp_def sample_cp_def control_plane_new_def umlaut_ext_def sample_cp_ext_def)
  have "0 < nx_stack sample_ns_ext" by (simp add: sample_ns_ext_def)
  from write_append_log [OF this sample_bridge_ctl(1) sample_ns_state sample_bridge_ctl(2)]
  obtain n t where w: "write_append (px_ns umlaut_ext) bridge_ctl u64_max (str_bytes ''end'') (cp_ns umlaut_cp) = (Inr n, t)"
    unfolding ns by blast
  have len: "length (snapshot_error ?err) = 661"
    by (simp only: snapshot_error_def length_append umlauts_length) simp
  have "snapshot_error ?err ! 512 = umlauts 300 ! 451"
    by (simp add: snapshot_error_def nth_append)
  also have "\<dots> = CHR 0xBC" using umlauts_nth [of 225 300] by simp
  finally have cut: "utf8_cont (char_byte (snapshot_error ?err ! 512))" by (simp add: char_byte_def utf8_cont_def)
  show ?thesis
    by (rule bridge_error_text_panics [OF w, of "\<lparr>gb_expected_bytes = 600, gb_expected_sha256 = [], gb_encoded = []\<rparr>"
          "str_bytes (umlauts 300)" ?err])
      (use len cut umlauts_refused [of _ 299] in
        \<open>simp_all add: umlaut_cp_def umlaut_ext_def umlauts_length GPU_BRIDGE_STATUS_MAX_BYTES_def\<close>)
qed

end
