(* ===== verification/Session_State.thy ===== *)
theory Session_State
  imports Budget Mount_Table Access_Policy Session_Phase
begin

section \<open>The state of a session\<close>

text \<open>
  \<open>SessionState\<close>, \<open>FidState\<close> and \<open>AuthState\<close> of \<open>src/apps/nine-door/src/host/core.rs\<close>: what the server keeps
  for one connection. The methods that only return a field are the selectors of the record.
\<close>

datatype auth_state = AuthStart | WaitingVersion | VersionNegotiated | AttachRequested | Attached | AuthFailed

record fid_state =
  fs_view_path :: path
  fs_canonical_path :: path
  fs_qid :: qid
  fs_open_mode :: "open_mode option"

record session_state =
  se_msize :: "u32 option"
  se_attached :: bool
  se_session :: session_lifecycle
  se_fids :: "fid_state sharded"
  se_role :: "role option"
  se_worker_id :: "string option"
  se_gpu_scope :: "string option"
  se_bus_scope :: "string option"
  se_lora_scope :: "string option"
  se_ticket :: "string option"
  se_budget :: budget_state
  se_mounts :: mount_table
  se_auth :: auth_state
  se_first_logged :: bool
  se_tags :: tag_window
  se_queue :: queue_depth

text \<open>A session starts with an unbounded budget, which has no deadline to compute.\<close>

definition unbounded_state :: budget_state where
  "unbounded_state = \<lparr>bu_ticks_remaining = None, bu_ops_remaining = None, bu_deadline = None, bu_revoked = None\<rparr>"

definition session_state_new :: "nat \<Rightarrow> session_limits \<Rightarrow> session_state" where
  "session_state_new now limits =
     \<lparr>se_msize = None, se_attached = False, se_session = session_lifecycle_new now, se_fids = sharded_new DEFAULT_FID_SHARDS,
      se_role = None, se_worker_id = None, se_gpu_scope = None, se_bus_scope = None, se_lora_scope = None,
      se_ticket = None, se_budget = unbounded_state, se_mounts = [], se_auth = AuthStart, se_first_logged = False,
      se_tags = tag_window_new (tags_per_session limits), se_queue = queue_depth_new (queue_depth_limit limits)\<rparr>"

lemma unbounded_state_new: "budget_new budget_unbounded now = Some unbounded_state"
  by (simp add: budget_new_def budget_unbounded_def unbounded_state_def)

definition negotiated_msize :: "session_state \<Rightarrow> u32" where
  "negotiated_msize s = unwrap_or (se_msize s) MAX_MSIZE"

definition session_attach :: "nat \<Rightarrow> string option \<Rightarrow> session_state \<Rightarrow> session_state" where
  "session_attach now owner s = s\<lparr>se_attached := True, se_session := mark_active (se_session s) now owner\<rparr>"

definition session_close :: "nat \<Rightarrow> session_state \<Rightarrow> session_state" where
  "session_close now s = s\<lparr>se_attached := False, se_session := mark_closed (se_session s) now\<rparr>"

definition ensure_attached :: "session_state \<Rightarrow> ninedoor_error + unit" where
  "ensure_attached s =
     (if se_attached s then Ok ()
      else case bu_revoked (se_budget s) of
        Some reason \<Rightarrow> Err (Protocol EClosed reason)
      | None \<Rightarrow> Err (Protocol EInvalid ''attach required before operation''))"

definition insert_fid :: "u32 \<Rightarrow> path \<Rightarrow> path \<Rightarrow> qid \<Rightarrow> session_state \<Rightarrow> (fid_error + unit) \<times> session_state" where
  "insert_fid fid view canonical q s =
     (case sharded_insert (se_fids s) fid
         \<lparr>fs_view_path = view, fs_canonical_path = canonical, fs_qid = q, fs_open_mode = None\<rparr> of
        (r, t) \<Rightarrow> (r, s\<lparr>se_fids := t\<rparr>))"

definition session_fid :: "u32 \<Rightarrow> session_state \<Rightarrow> fid_state option" where
  "session_fid fid s = sharded_get (se_fids s) fid"

definition with_fid_mut :: "u32 \<Rightarrow> (fid_state \<Rightarrow> fid_state) \<Rightarrow> session_state \<Rightarrow> unit option \<times> session_state" where
  "with_fid_mut fid f s =
     (case sharded_with_entry_mut (se_fids s) fid (\<lambda>e. ((), f e)) of (r, t) \<Rightarrow> (r, s\<lparr>se_fids := t\<rparr>))"

definition remove_fid :: "u32 \<Rightarrow> session_state \<Rightarrow> fid_state option \<times> session_state" where
  "remove_fid fid s = (case sharded_remove (se_fids s) fid of (r, t) \<Rightarrow> (r, s\<lparr>se_fids := t\<rparr>))"

text \<open>\<open>BudgetState::new\<close> adds the time limit to the clock, which panics when the sum overflows.\<close>

definition configure_role ::
  "role \<Rightarrow> string option \<Rightarrow> string option \<Rightarrow> string option \<Rightarrow> string option \<Rightarrow> budget_spec \<Rightarrow> nat
     \<Rightarrow> session_state \<Rightarrow> session_state option" where
  "configure_role r identity gpu_scope bus_scope lora_scope budget now s =
     map_option (\<lambda>b. s\<lparr>se_role := Some r, se_worker_id := identity, se_gpu_scope := gpu_scope,
       se_bus_scope := bus_scope, se_lora_scope := lora_scope, se_budget := b\<rparr>) (budget_new budget now)"

definition refresh_session_phase :: "lifecycle_state \<Rightarrow> nat \<Rightarrow> session_state \<Rightarrow> session_state" where
  "refresh_session_phase state now s = s\<lparr>se_session := refresh_for_lifecycle (se_session s) state now\<rparr>"

definition matches_worker :: "string \<Rightarrow> session_state \<Rightarrow> bool" where
  "matches_worker worker_id s \<longleftrightarrow> se_worker_id s = Some worker_id"

definition on_budget :: "(budget_state \<Rightarrow> (string + unit) \<times> budget_state) \<Rightarrow> session_state \<Rightarrow> (string + unit) \<times> session_state" where
  "on_budget f s = (case f (se_budget s) of (r, b) \<Rightarrow> (r, s\<lparr>se_budget := b\<rparr>))"

definition pre_operation :: "nat \<Rightarrow> session_state \<Rightarrow> (string + unit) \<times> session_state" where
  "pre_operation now = on_budget (charge (\<lambda>b. budget_check b now))"

definition consume_operation :: "session_state \<Rightarrow> (string + unit) \<times> session_state" where
  "consume_operation = on_budget (charge budget_consume_op)"

definition consume_tick :: "session_state \<Rightarrow> (string + unit) \<times> session_state" where
  "consume_tick = on_budget (charge budget_consume_tick)"

definition mark_revoked :: "nat \<Rightarrow> string \<Rightarrow> session_state \<Rightarrow> session_state" where
  "mark_revoked now reason s = session_close now (s\<lparr>se_budget := budget_revoke (se_budget s) reason\<rparr>)"

definition apply_mount :: "(bytes \<Rightarrow> bytes) \<Rightarrow> access \<Rightarrow> path \<Rightarrow> path \<Rightarrow> session_state \<Rightarrow> (ninedoor_error + unit) \<times> session_state" where
  "apply_mount sha256 a target mount s = (case ensure_path sha256 a target of
     Err e \<Rightarrow> (Err e, s)
   | Ok _ \<Rightarrow> (case mount_bind (se_mounts s) target mount of (r, t) \<Rightarrow> (r, s\<lparr>se_mounts := t\<rparr>)))"

definition resolve_view_path :: "session_state \<Rightarrow> path \<Rightarrow> path" where
  "resolve_view_path s view = mount_resolve (se_mounts s) view"

text \<open>What the access checks take of a session, with the parts of the namespace they need.\<close>

definition session_access ::
  "shard_layout \<Rightarrow> path option \<Rightarrow> sidecar_scope list \<Rightarrow> sidecar_scope list \<Rightarrow> session_state \<Rightarrow> access" where
  "session_access shards host_mount bus lora s =
     \<lparr>ac_shards = shards, ac_role = se_role s, ac_worker_id = se_worker_id s, ac_gpu_scope = se_gpu_scope s,
      ac_bus_scope = se_bus_scope s, ac_lora_scope = se_lora_scope s, ac_host_mount = host_mount,
      ac_sidecar_bus_scopes = bus, ac_sidecar_lora_scopes = lora\<rparr>"

definition in_service :: "session_state \<Rightarrow> bool" where
  "in_service s \<longleftrightarrow> se_role s = Some Queen \<and> sl_phase (se_session s) \<in> {PhActive, PhDraining}"

end
