(* ===== verification/Observe_Publish.thy ===== *)
theory Observe_Publish
  imports Namespace Session_Phase
begin

section \<open>Publishing the observability files\<close>

text \<open>
  The methods of \<open>ObserveState\<close> in \<open>src/apps/nine-door/src/host/observe.rs\<close> that render the counters into
  the files below \<open>/proc\<close>: each line is checked against its configured size and the bound of a
  stream before it replaces the file.
\<close>

definition checked_line :: "string \<Rightarrow> nat \<Rightarrow> string \<Rightarrow> (bytes \<Rightarrow> unit ns_op) \<Rightarrow> unit ns_op" where
  "checked_line label limit line set_payload = st_seq
     [ns_lift (ensure_len label (length line) limit), ns_lift (ensure_stream_len label (length line)),
      set_payload (str_bytes line)]"

definition checked_cbor :: "string \<Rightarrow> ninedoor_error + bytes \<Rightarrow> (bytes \<Rightarrow> unit ns_op) \<Rightarrow> unit ns_op" where
  "checked_cbor label payload set_payload =
     st_bind (ns_lift payload) (\<lambda>cbor.
     st_then (ns_lift (ensure_stream_len label (length cbor))) (set_payload cbor))"

definition sessions_text :: "nat \<Rightarrow> nat \<Rightarrow> nat \<Rightarrow> string list \<Rightarrow> nat list \<Rightarrow> string" where
  "sessions_text total_sessions worker_sessions shard_bits labels counts =
     ''sessions total='' @ show_nat total_sessions @ '' worker='' @ show_nat worker_sessions
     @ '' shard_bits='' @ show_nat shard_bits @ '' shard_count='' @ show_nat (length labels) @ newline
     @ concat (map (\<lambda>(i, label). ''shard '' @ label @ '' '' @ show_nat (nth_or_0 counts i) @ newline) (enumerate 0 labels))"

definition update_sessions ::
  "ns_ext \<Rightarrow> observe_state \<Rightarrow> nat \<Rightarrow> nat \<Rightarrow> nat \<Rightarrow> string list \<Rightarrow> nat list \<Rightarrow> unit ns_op" where
  "update_sessions x o' total_sessions worker_sessions shard_bits labels counts =
     (let c = oc_proc_9p (os_config o')
      in if \<not> p9_sessions c \<or> \<not> ui_proc_9p_sessions (os_ui o') then st_return ()
         else st_seq
           [checked_line ''proc/9p/sessions'' (p9_sessions_bytes c)
              (sessions_text total_sessions worker_sessions shard_bits labels counts) (set_proc_9p_payload x FSessions UiText),
            checked_cbor ''proc/9p/sessions.cbor''
              (build_proc_9p_sessions_cbor total_sessions worker_sessions shard_bits labels counts)
              (set_proc_9p_payload x FSessions UiCbor)])"

definition update_proc_9p_session_active :: "ns_ext \<Rightarrow> observe_state \<Rightarrow> nat \<Rightarrow> nat \<Rightarrow> unit ns_op" where
  "update_proc_9p_session_active x o' active draining =
     (let c = oc_proc_9p_session (os_config o')
      in st_when (p9s_active c)
        (checked_line ''proc/9p/session/active'' (p9s_active_bytes c)
          (''active='' @ show_nat active @ '' draining='' @ show_nat draining @ newline)
          (set_proc_session_active_payload x)))"

definition update_proc_9p_session_entry ::
  "ns_ext \<Rightarrow> observe_state \<Rightarrow> nat \<Rightarrow> session_phase \<Rightarrow> nat \<Rightarrow> string option \<Rightarrow> unit ns_op" where
  "update_proc_9p_session_entry x o' session phase since owner =
     (let c = oc_proc_9p_session (os_config o')
      in if \<not> proc_9p_session_enabled c then st_return ()
         else st_seq
           [ensure_proc_session_entry x session c,
            st_when (p9s_state c) (checked_line ''proc/9p/session/<id>/state'' (p9s_state_bytes c)
              (''state='' @ session_phase_str phase @ newline) (set_proc_session_payload x FState session)),
            st_when (p9s_since_ms c) (checked_line ''proc/9p/session/<id>/since_ms'' (p9s_since_ms_bytes c)
              (''since_ms='' @ show_nat since @ newline) (set_proc_session_payload x FSince session)),
            st_when (p9s_owner c) (checked_line ''proc/9p/session/<id>/owner'' (p9s_owner_bytes c)
              (''owner='' @ unwrap_or owner ''none'' @ newline) (set_proc_session_payload x FOwner session))])"

definition update_proc_9p :: "ns_ext \<Rightarrow> observe_state \<Rightarrow> pipeline_metrics \<Rightarrow> unit ns_op" where
  "update_proc_9p x o' m =
     (let c = oc_proc_9p (os_config o')
      in st_seq
        [st_when (p9_outstanding c \<and> ui_proc_9p_outstanding (os_ui o')) (st_seq
           [checked_line ''proc/9p/outstanding'' (p9_outstanding_bytes c)
              (''outstanding current='' @ show_nat (pm_queue_depth m) @ '' limit='' @ show_nat (pm_queue_limit m) @ newline)
              (set_proc_9p_payload x FOutstanding UiText),
            checked_cbor ''proc/9p/outstanding.cbor''
              (build_proc_9p_outstanding_cbor (pm_queue_depth m) (pm_queue_limit m))
              (set_proc_9p_payload x FOutstanding UiCbor)]),
         st_when (p9_short_writes c \<and> ui_proc_9p_short_writes (os_ui o')) (st_seq
           [checked_line ''proc/9p/short_writes'' (p9_short_writes_bytes c)
              (''short_writes total='' @ show_nat (pm_short_writes m) @ '' retries='' @ show_nat (pm_short_write_retries m) @ newline)
              (set_proc_9p_payload x FShortWrites UiText),
            checked_cbor ''proc/9p/short_writes.cbor''
              (build_proc_9p_short_writes_cbor (pm_short_writes m) (pm_short_write_retries m))
              (set_proc_9p_payload x FShortWrites UiCbor)])])"

text \<open>\<open>update_proc_ingest\<close> also appends to the watch ring, so it returns the observability state.\<close>

definition update_ingest_gauge ::
  "ns_ext \<Rightarrow> bool \<Rightarrow> string \<Rightarrow> nat \<Rightarrow> nat \<Rightarrow> ninedoor_error + bytes \<Rightarrow> proc_ingest_file \<Rightarrow> unit ns_op" where
  "update_ingest_gauge x on name limit v cbor f = st_when on (st_seq
     [checked_line (''proc/ingest/'' @ name) limit (name @ ''='' @ show_nat v @ newline) (set_proc_ingest_payload x f UiText),
      checked_cbor (''proc/ingest/'' @ name @ ''.cbor'') cbor (set_proc_ingest_payload x f UiCbor)])"

definition update_ingest_counter ::
  "bool \<Rightarrow> string \<Rightarrow> nat \<Rightarrow> nat \<Rightarrow> (bytes \<Rightarrow> unit ns_op) \<Rightarrow> unit ns_op" where
  "update_ingest_counter on name limit v set_payload =
     (let line = name @ ''='' @ show_nat v @ newline
      in st_when on (st_then (ns_lift (ensure_len (''proc/ingest/'' @ name) (length line) limit)) (set_payload (str_bytes line))))"

definition update_proc_ingest ::
  "ns_ext \<Rightarrow> nat \<Rightarrow> pipeline_metrics \<Rightarrow> observe_state \<Rightarrow> namespace \<Rightarrow> ((ninedoor_error fault + unit) \<times> observe_state) \<times> namespace" where
  "update_proc_ingest x now m o' n =
     (let c = oc_proc_ingest (os_config o'); ui = os_ui o'
      in if \<not> proc_ingest_enabled c then ((Ok (), o'), n)
         else
           let now_ms = min ((now - os_start o') div 10 ^ 6) u64_max;
               snap = ingest_take_snapshot (os_ingest o') m
           in (case st_seq
             [update_ingest_gauge x (pi_p50_ms c \<and> ui_proc_ingest_p50_ms ui) ''p50_ms'' (pi_p50_ms_bytes c)
                (is_p50_ms snap) (build_proc_ingest_p50_cbor (is_p50_ms snap)) FP50,
              update_ingest_gauge x (pi_p95_ms c \<and> ui_proc_ingest_p95_ms ui) ''p95_ms'' (pi_p95_ms_bytes c)
                (is_p95_ms snap) (build_proc_ingest_p95_cbor (is_p95_ms snap)) FP95,
              update_ingest_gauge x (pi_backpressure c \<and> ui_proc_ingest_backpressure ui) ''backpressure''
                (pi_backpressure_bytes c) (is_backpressure snap)
                (build_proc_ingest_backpressure_cbor (is_backpressure snap)) FBackpressure,
              update_ingest_counter (pi_dropped c) ''dropped'' (pi_dropped_bytes c) (is_dropped snap)
                (set_proc_ingest_dropped_payload x),
              update_ingest_counter (pi_queued c) ''queued'' (pi_queued_bytes c) (is_queued snap)
                (set_proc_ingest_queued_payload x)] n of
             (Err e, n) \<Rightarrow> ((Err e, o'), n)
           | (Ok _, n) \<Rightarrow>
               if pi_watch c
               then
                 let watch = snd (watch_try_append now_ms c snap (ig_watch (os_ingest o')))
                 in (case set_proc_ingest_watch_payload x (str_bytes (watch_render watch)) n of
                   (r, n) \<Rightarrow> ((r, o'\<lparr>os_ingest := (os_ingest o')\<lparr>ig_watch := watch\<rparr>\<rparr>), n))
               else ((Ok (), o'), n)))"

definition update_proc_root :: "ns_ext \<Rightarrow> observe_state \<Rightarrow> bool \<Rightarrow> nat \<Rightarrow> string \<Rightarrow> unit ns_op" where
  "update_proc_root x o' reachable last_seen_ms cut_reason =
     (let c = oc_proc_root (os_config o')
      in if \<not> proc_root_enabled c then st_return ()
         else st_seq
           [st_when (pro_reachable c) (checked_line ''proc/root/reachable'' (pro_reachable_bytes c)
              (''reachable='' @ (if reachable then ''yes'' else ''no'') @ newline) (set_proc_root_payload x FReachable)),
            st_when (pro_last_seen_ms c) (checked_line ''proc/root/last_seen_ms'' (pro_last_seen_ms_bytes c)
              (''last_seen_ms='' @ show_nat last_seen_ms @ newline) (set_proc_root_payload x FLastSeen)),
            st_when (pro_cut_reason c) (checked_line ''proc/root/cut_reason'' (pro_cut_reason_bytes c)
              (''cut_reason='' @ cut_reason @ newline) (set_proc_root_payload x FCutReason))])"

definition update_proc_pressure :: "ns_ext \<Rightarrow> observe_state \<Rightarrow> unit ns_op" where
  "update_proc_pressure x o' =
     (let c = oc_proc_pressure (os_config o'); p = os_pressure o'
      in if \<not> proc_pressure_enabled c then st_return ()
         else st_seq
           [st_when (pp_busy c) (checked_line ''proc/pressure/busy'' (pp_busy_bytes c)
              (''busy='' @ show_nat (pst_busy p) @ newline) (set_proc_pressure_payload x PressureBusy)),
            st_when (pp_quota c) (checked_line ''proc/pressure/quota'' (pp_quota_bytes c)
              (''quota='' @ show_nat (pst_quota p) @ newline) (set_proc_pressure_payload x PressureQuota)),
            st_when (pp_cut c) (checked_line ''proc/pressure/cut'' (pp_cut_bytes c)
              (''cut='' @ show_nat (pst_cut p) @ newline) (set_proc_pressure_payload x PressureCut)),
            st_when (pp_policy c) (checked_line ''proc/pressure/policy'' (pp_policy_bytes c)
              (''policy='' @ show_nat (pst_policy p) @ newline) (set_proc_pressure_payload x PressurePolicy))])"

end
