(* ===== verification/Server_State.thy ===== *)
theory Server_State
  imports Control_Plane Session_State Observe_Publish Root_State Ticket_Security Secure9P_Batch Secure9P_Codec
begin

section \<open>The server and its bookkeeping\<close>

text \<open>
  \<open>ServerCore\<close> of \<open>src/apps/nine-door/src/host/core.rs\<close>: the state shared by the sessions, its start-up, the
  session table, the files that show it, the ticket limits and the reaction to an exhausted budget. The
  clock is read through a parameter; \<open>sv_reads\<close> counts the readings, so that two readings of one request
  may differ. The session a request belongs to is taken out of the table while the request runs: the
  handlers act on the server and on that session.
\<close>

record server_core =
  sv_control :: control_plane
  sv_next_session :: u64
  sv_sessions :: "(u64, session_state) btree"
  sv_root :: root_state
  sv_ticket_keys :: "role \<rightharpoonup> ticket_key"
  sv_ticket_limits :: ticket_limits
  sv_ticket_usage :: "string \<rightharpoonup> ticket_usage"
  sv_limits :: session_limits
  sv_pipeline :: pipeline
  sv_observe :: observe_state
  sv_reads :: nat

record sv_ext =
  sx_control :: cp_ext
  sx_clock :: "nat \<Rightarrow> nat"
  sx_unix_ms :: "nat \<Rightarrow> nat"
  sx_hash :: "bytes \<Rightarrow> bytes"
  sx_mac :: keyed_hash
  sx_hex :: "string \<Rightarrow> bytes option"

abbreviation sx_ns :: "sv_ext \<Rightarrow> ns_ext" where
  "sx_ns x \<equiv> px_ns (sx_control x)"

abbreviation sx_sha256 :: "sv_ext \<Rightarrow> bytes \<Rightarrow> bytes" where
  "sx_sha256 x \<equiv> cx_sha256 (nx_cas (sx_ns x))"

type_synonym 'a sv_op = "(server_core, ninedoor_error fault, 'a) st_op"
type_synonym 'a ss_op = "(server_core \<times> session_state, ninedoor_error fault, 'a) st_op"

subsection \<open>Operations of a part of the state\<close>

definition on_control :: "'a cp_op \<Rightarrow> 'a sv_op" where
  "on_control m s = (case m (sv_control s) of (r, c) \<Rightarrow> (r, s\<lparr>sv_control := c\<rparr>))"

abbreviation on_names :: "'a ns_op \<Rightarrow> 'a sv_op" where
  "on_names m \<equiv> on_control (on_ns m)"

definition on_server :: "'a sv_op \<Rightarrow> 'a ss_op" where
  "on_server m = (\<lambda>(s, e). case m s of (r, s) \<Rightarrow> (r, (s, e)))"

definition on_session :: "(session_state \<Rightarrow> 'a \<times> session_state) \<Rightarrow> 'a ss_op" where
  "on_session m = (\<lambda>(s, e). case m e of (r, e) \<Rightarrow> (Ok r, (s, e)))"

definition change_session :: "(session_state \<Rightarrow> session_state) \<Rightarrow> unit ss_op" where
  "change_session f = (\<lambda>(s, e). (Ok (), (s, f e)))"

definition with_session :: "(session_state \<Rightarrow> 'a ss_op) \<Rightarrow> 'a ss_op" where
  "with_session f = st_read (\<lambda>(s, e). f e)"

definition with_control :: "(control_plane \<Rightarrow> 'a ss_op) \<Rightarrow> 'a ss_op" where
  "with_control f = st_read (\<lambda>(s, e). f (sv_control s))"

definition sv_fail :: "error_code \<Rightarrow> string \<Rightarrow> ('s, ninedoor_error fault, 'a) st_op" where
  "sv_fail code m = st_fail (Fail (Protocol code m))"

definition sv_lift :: "ninedoor_error + 'a \<Rightarrow> ('s, ninedoor_error fault, 'a) st_op" where
  "sv_lift r = st_lift (map_err Fail r)"

text \<open>\<open>let _ = ...\<close>: an error is dropped, a panic is not.\<close>

definition ignore_error :: "('s, 'e fault, 'a) st_op \<Rightarrow> ('s, 'e fault, unit) st_op" where
  "ignore_error m = st_then (st_try m) (st_return ())"

definition clock_now :: "sv_ext \<Rightarrow> nat sv_op" where
  "clock_now x s = (Ok (sx_clock x (sv_reads s)), s\<lparr>sv_reads := Suc (sv_reads s)\<rparr>)"

definition unix_time_ms :: "sv_ext \<Rightarrow> nat sv_op" where
  "unix_time_ms x s = (Ok (sx_unix_ms x (sv_reads s) mod 2 ^ 64), s\<lparr>sv_reads := Suc (sv_reads s)\<rparr>)"

definition on_pipeline :: "(pipeline \<Rightarrow> pipeline) \<Rightarrow> unit sv_op" where
  "on_pipeline f = st_modify (\<lambda>s. s\<lparr>sv_pipeline := f (sv_pipeline s)\<rparr>)"

definition on_observe :: "(observe_state \<Rightarrow> observe_state) \<Rightarrow> unit sv_op" where
  "on_observe f = st_modify (\<lambda>s. s\<lparr>sv_observe := f (sv_observe s)\<rparr>)"

subsection \<open>Files that show the server\<close>

record session_counts =
  sn_total :: nat
  sn_worker :: nat
  sn_active :: nat
  sn_draining :: nat
  sn_shards :: "nat list"

definition count_session :: "(bytes \<Rightarrow> bytes) \<Rightarrow> shard_layout \<Rightarrow> session_state \<Rightarrow> session_counts \<Rightarrow> session_counts" where
  "count_session sha256 shards e c =
     (let phase = sl_phase (se_session e);
          c = (if phase = PhClosed then c
               else
                 let c = c\<lparr>sn_total := sat_add (sn_total c) 1\<rparr>
                 in case se_worker_id e of
                      None \<Rightarrow> c
                    | Some worker_id \<Rightarrow>
                        let shard = unat (worker_shard sha256 shards worker_id)
                        in c\<lparr>sn_worker := sat_add (sn_worker c) 1,
                             sn_shards := (if shard < length (sn_shards c)
                               then (sn_shards c)[shard := sat_add (sn_shards c ! shard) 1] else sn_shards c)\<rparr>)
      in case phase of
           PhActive \<Rightarrow> c\<lparr>sn_active := sat_add (sn_active c) 1\<rparr>
         | PhDraining \<Rightarrow> c\<lparr>sn_draining := sat_add (sn_draining c) 1\<rparr>
         | _ \<Rightarrow> c)"

definition publish_session :: "sv_ext \<Rightarrow> nat \<Rightarrow> u64 \<Rightarrow> session_state \<Rightarrow> unit sv_op" where
  "publish_session x now sid e = st_read (\<lambda>s.
     on_names (update_proc_9p_session_entry (sx_ns x) (sv_observe s) (unat sid) (sl_phase (se_session e))
       (since_ms (se_session e) now) (sl_owner (se_session e))))"

fun refresh_table :: "sv_ext \<Rightarrow> nat \<Rightarrow> u64 list \<Rightarrow> session_counts \<Rightarrow> session_counts sv_op" where
  "refresh_table x now [] c = st_return c"
| "refresh_table x now (sid # sids) c = st_read (\<lambda>s. case map_of (sv_sessions s) sid of
     None \<Rightarrow> refresh_table x now sids c
   | Some e \<Rightarrow>
       let e = refresh_session_phase (lm_state (cp_lifecycle (sv_control s))) now e
       in st_then (st_modify (\<lambda>s. s\<lparr>sv_sessions := bt_insert sid e (sv_sessions s)\<rparr>))
         (st_then (publish_session x now sid e)
           (refresh_table x now sids (count_session (sx_sha256 x) (ns_shards (cp_ns (sv_control s))) e c))))"

definition start_refresh :: "sv_ext \<Rightarrow> (nat \<times> session_counts) sv_op" where
  "start_refresh x =
     st_bind (clock_now x) (\<lambda>now. st_read (\<lambda>s.
     st_bind (refresh_table x now (map fst (sv_sessions s))
         \<lparr>sn_total = 0, sn_worker = 0, sn_active = 0, sn_draining = 0,
          sn_shards = replicate (shard_count (ns_shards (cp_ns (sv_control s)))) 0\<rparr>)
       (\<lambda>c. st_return (now, c))))"

definition finish_refresh :: "sv_ext \<Rightarrow> session_counts \<Rightarrow> unit sv_op" where
  "finish_refresh x c = st_read (\<lambda>s.
     let shards = ns_shards (cp_ns (sv_control s))
     in st_then (on_names (update_sessions (sx_ns x) (sv_observe s) (sn_total c) (sn_worker c) (sl_shard_bits shards)
          (shard_labels shards) (sn_shards c)))
       (on_names (update_proc_9p_session_active (sx_ns x) (sv_observe s) (sn_active c) (sn_draining c))))"

text \<open>\<open>refresh_proc_sessions(None)\<close>, and with the session that is out of the table.\<close>

definition refresh_proc_sessions :: "sv_ext \<Rightarrow> unit sv_op" where
  "refresh_proc_sessions x = st_bind (start_refresh x) (\<lambda>(now, c). finish_refresh x c)"

definition refresh_proc_sessions_with :: "sv_ext \<Rightarrow> u64 \<Rightarrow> unit ss_op" where
  "refresh_proc_sessions_with x sid =
     st_bind (on_server (start_refresh x)) (\<lambda>(now, c). st_read (\<lambda>(s, e).
       let e = refresh_session_phase (lm_state (cp_lifecycle (sv_control s))) now e
       in st_then (change_session (\<lambda>_. e))
         (st_then (on_server (publish_session x now sid e))
           (on_server (finish_refresh x
              (count_session (sx_sha256 x) (ns_shards (cp_ns (sv_control s))) e c))))))"

definition refresh_proc_root :: "sv_ext \<Rightarrow> unit sv_op" where
  "refresh_proc_root x = st_read (\<lambda>s.
     let snapshot = root_snapshot (sv_root s) (lm_state (cp_lifecycle (sv_control s)))
     in on_names (update_proc_root (sx_ns x) (sv_observe s) (rs_reachable snapshot) (rs_last_seen_ms snapshot)
       (root_cut_reason_str (rs_cut_reason snapshot))))"

definition on_root_state :: "sv_ext \<Rightarrow> (root_state \<Rightarrow> root_state) \<Rightarrow> unit sv_op" where
  "on_root_state x f =
     st_then (st_modify (\<lambda>s. s\<lparr>sv_root := f (sv_root s)\<rparr>)) (ignore_error (refresh_proc_root x))"

definition mark_root_session_active :: "sv_ext \<Rightarrow> nat \<Rightarrow> unit sv_op" where
  "mark_root_session_active x now = st_read (\<lambda>s.
     on_root_state x (\<lambda>r. mark_session_active r (observe_elapsed_ms (sv_observe s) now)))"

definition record_root_activity :: "sv_ext \<Rightarrow> nat \<Rightarrow> unit sv_op" where
  "record_root_activity x now = st_read (\<lambda>s.
     on_root_state x (\<lambda>r. record_activity r (observe_elapsed_ms (sv_observe s) now)))"

definition mark_root_policy_denied :: "sv_ext \<Rightarrow> unit sv_op" where
  "mark_root_policy_denied x = on_root_state x mark_policy_denied"

definition mark_root_policy_if_queen :: "sv_ext \<Rightarrow> role \<Rightarrow> unit sv_op" where
  "mark_root_policy_if_queen x r = st_when (r = Queen) (mark_root_policy_denied x)"

definition sv_record_pressure :: "sv_ext \<Rightarrow> pressure_kind \<Rightarrow> unit sv_op" where
  "sv_record_pressure x kind =
     st_then (on_observe (record_pressure kind))
       (st_read (\<lambda>s. ignore_error (on_names (update_proc_pressure (sx_ns x) (sv_observe s)))))"

definition mark_root_cut :: "sv_ext \<Rightarrow> root_cut_reason \<Rightarrow> unit sv_op" where
  "mark_root_cut x reason = st_read (\<lambda>s.
     let was_last = (rt_active_sessions (sv_root s) = 1)
     in st_then (st_modify (\<lambda>s. s\<lparr>sv_root := mark_cut (sv_root s) reason\<rparr>))
       (st_then (st_when was_last (sv_record_pressure x PressureCut)) (ignore_error (refresh_proc_root x))))"

subsection \<open>Start-up and the session table\<close>

record server_config =
  vc_limits :: session_limits
  vc_ticket_limits :: ticket_limits
  vc_namespace :: namespace_config
  vc_policy :: policy_config
  vc_audit :: audit_config
  vc_rules_json :: "policy_rules_snapshot \<Rightarrow> string + bytes"

definition boot_lifecycle :: "sv_ext \<Rightarrow> nat \<Rightarrow> unit cp_op" where
  "boot_lifecycle x now = st_seq
     [ignore_error (refresh_proc_lifecycle (sx_control x) now),
      st_bind (on_lifecycle (\<lambda>m. auto_boot_complete m now)) (\<lambda>result. case result of
        Ok tr \<Rightarrow> st_then (ignore_error (record_lifecycle_transition (sx_control x) tr))
          (ignore_error (refresh_proc_lifecycle (sx_control x) now))
      | Err err \<Rightarrow> ignore_error (record_lifecycle_denied (sx_control x) ''auto-boot'' err))]"

definition publish_ingest :: "sv_ext \<Rightarrow> nat \<Rightarrow> unit sv_op" where
  "publish_ingest x now s =
     (case update_proc_ingest (sx_ns x) now (pp_metrics (sv_pipeline s)) (sv_observe s) (cp_ns (sv_control s)) of
        ((r, o'), n) \<Rightarrow> (r, s\<lparr>sv_observe := o', sv_control := (sv_control s)\<lparr>cp_ns := n\<rparr>\<rparr>))"

definition publish_9p :: "sv_ext \<Rightarrow> unit sv_op" where
  "publish_9p x = st_read (\<lambda>s. on_names (update_proc_9p (sx_ns x) (sv_observe s) (pp_metrics (sv_pipeline s))))"

definition publish_start :: "sv_ext \<Rightarrow> unit sv_op" where
  "publish_start x = st_seq
     [ignore_error (publish_9p x),
      st_bind (clock_now x) (\<lambda>now. ignore_error (publish_ingest x now)),
      ignore_error (refresh_proc_sessions x),
      ignore_error (refresh_proc_root x),
      st_read (\<lambda>s. ignore_error (on_names (update_proc_pressure (sx_ns x) (sv_observe s)))),
      ignore_error (on_control (refresh_policy_preflight (sx_control x)))]"

text \<open>
  \<open>ServerCore::new\<close> panics when the policy is invalid or the namespace cannot be set up. The clock is read
  once for the observability state and once for the control plane.
\<close>

definition server_new :: "sv_ext \<Rightarrow> server_config \<Rightarrow> ninedoor_error fault + server_core" where
  "server_new x c =
     (let start = sx_clock x 0; now = sx_clock x 1
      in case policy_store_new (vc_rules_json c) (vc_policy c) of
        Err _ \<Rightarrow> Err Panic
      | Ok policy \<Rightarrow>
          let audit = audit_store_new (vc_audit c);
              replay = replay_state_new (ac_replay (as_config audit));
              config = (vc_namespace c)
                \<lparr>nc_policy := (if pc_enabled (ps_config policy) then mount_enabled (ps_rules_snapshot policy) else mount_disabled),
                 nc_audit := (if ac_enabled (as_config audit) then mount_enabled (as_export_snapshot audit) else mount_disabled),
                 nc_replay := (if rc_enabled (rp_config replay) then mount_enabled (rp_status replay) else mount_disabled)\<rparr>
          in (case namespace_new (sx_ns x) config of
                (Err _, _) \<Rightarrow> Err Panic
              | (Ok _, ns) \<Rightarrow>
                  (case install_observability (sx_ns x) observe_config_default ns of
                     (Err _, _) \<Rightarrow> Err Panic
                   | (Ok _, ns) \<Rightarrow>
                       (case boot_lifecycle x now (control_plane_new ns policy audit replay now) of
                          (Err f, _) \<Rightarrow> Err f
                        | (Ok _, control) \<Rightarrow>
                            (case publish_start x
                                \<lparr>sv_control = control, sv_next_session = 1, sv_sessions = [], sv_root = root_new,
                                 sv_ticket_keys = Map.empty, sv_ticket_limits = vc_ticket_limits c,
                                 sv_ticket_usage = Map.empty, sv_limits = vc_limits c,
                                 sv_pipeline = pipeline_new (pipeline_from_limits (vc_limits c)),
                                 sv_observe = observe_new observe_config_default (nc_ui (vc_namespace c)) start,
                                 sv_reads = 2\<rparr> of
                               (Err f, _) \<Rightarrow> Err f
                             | (Ok _, s) \<Rightarrow> Ok s)))))"

definition allocate_session :: "sv_ext \<Rightarrow> u64 sv_op" where
  "allocate_session x = st_read (\<lambda>s.
     let sid = sv_next_session s
     in st_then (st_modify (\<lambda>s. s\<lparr>sv_next_session := sv_next_session s + 1\<rparr>))
       (st_bind (clock_now x) (\<lambda>now.
        st_then (st_modify (\<lambda>s. s\<lparr>sv_sessions := bt_insert sid (session_state_new now (sv_limits s)) (sv_sessions s)\<rparr>))
          (st_then (ignore_error (refresh_proc_sessions x)) (st_return sid)))))"

definition close_session :: "sv_ext \<Rightarrow> u64 \<Rightarrow> unit sv_op" where
  "close_session x sid =
     st_bind (clock_now x) (\<lambda>now. st_read (\<lambda>s.
     st_then (case map_of (sv_sessions s) sid of
         None \<Rightarrow> st_return ()
       | Some e \<Rightarrow>
           st_then (st_modify (\<lambda>s. s\<lparr>sv_sessions := bt_insert sid (session_close now e) (sv_sessions s)\<rparr>))
             (st_when (in_service e) (mark_root_cut x NetworkUnreachable)))
       (ignore_error (refresh_proc_sessions x))))"

definition register_ticket_secret :: "sv_ext \<Rightarrow> role \<Rightarrow> string \<Rightarrow> unit sv_op" where
  "register_ticket_secret x r secret =
     st_modify (\<lambda>s. s\<lparr>sv_ticket_keys := (sv_ticket_keys s)(r \<mapsto> key_from_secret (sx_hash x) secret)\<rparr>)"

definition sv_register_service :: "sv_ext \<Rightarrow> string \<Rightarrow> path \<Rightarrow> unit sv_op" where
  "sv_register_service x service target = on_control (register_service (sx_control x) service target)"

definition sv_install_gpu_nodes :: "sv_ext \<Rightarrow> gpu_namespace_snapshot \<Rightarrow> unit sv_op" where
  "sv_install_gpu_nodes x topology = on_control (install_gpu_nodes (sx_control x) topology)"

definition sv_set_lora_export_job :: "sv_ext \<Rightarrow> string \<Rightarrow> bytes \<Rightarrow> bytes \<Rightarrow> bytes \<Rightarrow> unit sv_op" where
  "sv_set_lora_export_job x job_id telemetry base_model policy =
     on_control (cp_set_lora_export_job (sx_control x) job_id telemetry base_model policy)"

subsection \<open>Revocation\<close>

fun revoke_each :: "string \<Rightarrow> string \<Rightarrow> nat \<Rightarrow> u64 \<Rightarrow> (u64, session_state) btree \<Rightarrow> (u64, session_state) btree" where
  "revoke_each worker_id reason now skip [] = []"
| "revoke_each worker_id reason now skip ((sid, e) # es) =
     (sid, if sid \<noteq> skip \<and> matches_worker worker_id e then mark_revoked now reason e else e)
     # revoke_each worker_id reason now skip es"

definition revoke_worker_sessions :: "sv_ext \<Rightarrow> string \<Rightarrow> string \<Rightarrow> u64 \<Rightarrow> unit sv_op" where
  "revoke_worker_sessions x worker_id reason skip =
     st_bind (clock_now x) (\<lambda>now.
     st_then (st_modify (\<lambda>s. s\<lparr>sv_sessions := revoke_each worker_id reason now skip (sv_sessions s)\<rparr>))
       (ignore_error (refresh_proc_sessions x)))"

definition handle_budget_failure :: "sv_ext \<Rightarrow> u64 \<Rightarrow> nat \<Rightarrow> string \<Rightarrow> 'a ss_op" where
  "handle_budget_failure x sid now reason =
     st_then (change_session (mark_revoked now reason)) (with_session (\<lambda>e.
     st_then (st_when (se_role e = Some Queen) (on_server (mark_root_cut x SessionRevoked)))
    (st_then (case se_worker_id e of
         None \<Rightarrow> st_return ()
       | Some worker_id \<Rightarrow>
           st_bind (st_try (on_server (on_control (revoke_worker (sx_control x) worker_id reason)))) (\<lambda>revoked.
           st_when (revoked = Ok True) (on_server (revoke_worker_sessions x worker_id reason sid))))
    (st_then (ignore_error (refresh_proc_sessions_with x sid)) (sv_fail EClosed reason)))))"

definition queen_event_step :: "sv_ext \<Rightarrow> u64 \<Rightarrow> queen_event \<Rightarrow> unit sv_op" where
  "queen_event_step x current event = (case event of
     Killed worker_id \<Rightarrow>
       st_then (revoke_worker_sessions x worker_id ''killed by queen'' current)
         (on_control (log_event (sx_control x) ''queen'' TlWarn (Some worker_id)
           (''revoked '' @ worker_id @ '': killed by queen'')))
   | _ \<Rightarrow> st_return ())"

definition process_queen_events :: "sv_ext \<Rightarrow> queen_event list \<Rightarrow> u64 \<Rightarrow> unit sv_op" where
  "process_queen_events x events current = st_for (queen_event_step x current) events"

subsection \<open>Denials and ticket limits\<close>

definition session_access_of :: "control_plane \<Rightarrow> session_state \<Rightarrow> access" where
  "session_access_of c e =
     session_access (ns_shards (cp_ns c)) (host_mount_path (cp_ns c)) (ns_bus_scopes (cp_ns c)) (ns_lora_scopes (cp_ns c)) e"

definition maybe_log_sidecar_denial :: "sv_ext \<Rightarrow> path \<Rightarrow> ninedoor_error \<Rightarrow> unit ss_op" where
  "maybe_log_sidecar_denial x path err = (case err of
     Protocol code _ \<Rightarrow>
       if code \<noteq> EPermission then st_return ()
       else with_session (\<lambda>e. with_control (\<lambda>c. case sidecar_kind_for_path path (cp_ns c) of
         None \<Rightarrow> st_return ()
       | Some kind \<Rightarrow>
           let scope = unwrap_or (case kind of SidecarBus \<Rightarrow> se_bus_scope e | SidecarLora \<Rightarrow> se_lora_scope e) ''none''
           in on_server (on_control (log_event (sx_control x) ''sidecar'' TlWarn None
             (''sidecar-deny kind='' @ sidecar_kind_str kind @ '' scope='' @ scope)))))
   | _ \<Rightarrow> st_return ())"

definition record_ticket_claim_denial :: "sv_ext \<Rightarrow> role \<Rightarrow> string \<Rightarrow> ticket_claim_error \<Rightarrow> unit sv_op" where
  "record_ticket_claim_denial x r ticket err = st_seq
     [sv_record_pressure x PressurePolicy, on_pipeline record_ui_deny,
      on_control (log_event (sx_control x) ''ui'' TlWarn None
        (''ui-ticket outcome=deny reason=invalid-claims role='' @ role_label r @ '' ticket='' @ ticket
         @ '' detail='' @ ticket_claim_error_display err))]"

definition record_ticket_expired :: "sv_ext \<Rightarrow> role \<Rightarrow> string \<Rightarrow> ticket_claims \<Rightarrow> nat \<Rightarrow> unit sv_op" where
  "record_ticket_expired x r ticket claims now_ms = st_seq
     [sv_record_pressure x PressureQuota,
      on_control (log_event (sx_control x) ''ui'' TlWarn None
        (''ui-ticket outcome=deny reason=expired role='' @ role_label r @ '' ticket='' @ ticket
         @ '' issued_at_ms='' @ show_nat (unat (tc_issued_at_ms claims))
         @ '' ttl_s='' @ show_nat (unat (unwrap_or (bs_ttl_s (tc_budget claims)) 0)) @ '' now_ms='' @ show_nat now_ms))]"

definition denial_detail :: "ticket_deny \<Rightarrow> string" where
  "denial_detail denial = (case denial of
     DenyScope \<Rightarrow> []
   | DenyRate limit \<Rightarrow> '' limit_per_s='' @ show_nat limit @ '' window_ms=1000''
   | DenyBandwidth limit remaining requested \<Rightarrow> '' limit_bytes='' @ show_nat limit
       @ '' remaining_bytes='' @ show_nat remaining @ '' requested_bytes='' @ show_nat requested
   | DenyCursorResume limit \<Rightarrow> '' limit='' @ show_nat limit
   | DenyCursorAdvance limit \<Rightarrow> '' limit='' @ show_nat limit)"

definition record_ticket_denial ::
  "sv_ext \<Rightarrow> path \<Rightarrow> ticket_verb \<Rightarrow> ticket_deny \<Rightarrow> role option \<Rightarrow> string option \<Rightarrow> unit sv_op" where
  "record_ticket_denial x path verb denial r ticket = st_seq
     [sv_record_pressure x (if denial = DenyScope then PressurePolicy else PressureQuota), on_pipeline record_ui_deny,
      on_control (log_event (sx_control x) ''ui'' TlWarn None
        (''ui-ticket outcome=deny reason='' @ ticket_deny_reason denial @ '' role='' @ role_or_unauthenticated r
         @ '' ticket='' @ ticket_or_none ticket @ '' path='' @ path_label path @ '' verb='' @ ticket_verb_label verb
         @ denial_detail denial))]"

text \<open>A limit applies when the session has a ticket whose usage is tracked and restricts something.\<close>

definition with_usage :: "'a \<Rightarrow> (string \<Rightarrow> ticket_usage \<Rightarrow> 'a ss_op) \<Rightarrow> 'a ss_op" where
  "with_usage free f = st_read (\<lambda>(s, e). case se_ticket e of
     None \<Rightarrow> st_return free
   | Some ticket \<Rightarrow> (case sv_ticket_usage s ticket of
       None \<Rightarrow> st_return free
     | Some usage \<Rightarrow> if has_enforcement usage then f ticket usage else st_return free))"

definition set_usage :: "string \<Rightarrow> ticket_usage \<Rightarrow> unit ss_op" where
  "set_usage ticket usage = on_server (st_modify (\<lambda>s. s\<lparr>sv_ticket_usage := (sv_ticket_usage s)(ticket \<mapsto> usage)\<rparr>))"

definition deny_ticket :: "sv_ext \<Rightarrow> path \<Rightarrow> ticket_verb \<Rightarrow> string \<Rightarrow> ticket_deny \<Rightarrow> 'a ss_op" where
  "deny_ticket x path verb ticket denial = with_session (\<lambda>e.
     st_then (on_server (record_ticket_denial x path verb denial (se_role e) (Some ticket)))
       (st_fail (Fail (ticket_denial_error denial))))"

definition enforce_ticket_scope :: "sv_ext \<Rightarrow> path \<Rightarrow> ticket_verb \<Rightarrow> bool \<Rightarrow> bool \<Rightarrow> unit ss_op" where
  "enforce_ticket_scope x path verb allow_ancestor rated = with_usage () (\<lambda>ticket usage.
     st_bind (if rated
         then st_bind (on_server (clock_now x)) (\<lambda>now.
           case check_scope usage path verb allow_ancestor now of
             (outcome, usage) \<Rightarrow> st_then (set_usage ticket usage) (st_return outcome))
         else st_return (check_scope_no_rate usage path verb allow_ancestor)) (\<lambda>outcome. case outcome of
       Ok _ \<Rightarrow> st_return ()
     | Err denial \<Rightarrow> deny_ticket x path verb ticket denial))"

definition enforce_ticket_bandwidth :: "sv_ext \<Rightarrow> path \<Rightarrow> ticket_verb \<Rightarrow> nat \<Rightarrow> unit ss_op" where
  "enforce_ticket_bandwidth x path verb requested = with_usage () (\<lambda>ticket usage.
     case check_bandwidth usage requested of
       Ok _ \<Rightarrow> st_return ()
     | Err denial \<Rightarrow> deny_ticket x path verb ticket denial)"

definition enforce_ticket_write_limits :: "sv_ext \<Rightarrow> path \<Rightarrow> nat \<Rightarrow> unit ss_op" where
  "enforce_ticket_write_limits x path requested =
     st_then (enforce_ticket_scope x path VWrite False True) (enforce_ticket_bandwidth x path VWrite requested)"

definition check_ticket_cursor :: "sv_ext \<Rightarrow> string \<Rightarrow> path \<Rightarrow> ticket_verb \<Rightarrow> nat \<Rightarrow> bool option ss_op" where
  "check_ticket_cursor x path_key path verb offset = with_usage None (\<lambda>ticket usage.
     case check_cursor usage path_key offset of
       Ok check \<Rightarrow> st_return (Some check)
     | Err denial \<Rightarrow> deny_ticket x path verb ticket denial)"

definition on_usage :: "(ticket_usage \<Rightarrow> ticket_usage) \<Rightarrow> unit ss_op" where
  "on_usage f = st_read (\<lambda>(s, e). case se_ticket e of
     None \<Rightarrow> st_return ()
   | Some ticket \<Rightarrow> (case sv_ticket_usage s ticket of
       None \<Rightarrow> st_return ()
     | Some usage \<Rightarrow> set_usage ticket (f usage)))"

definition consume_ticket_bandwidth :: "nat \<Rightarrow> unit ss_op" where
  "consume_ticket_bandwidth consumed = on_usage (\<lambda>u. consume_bandwidth u consumed)"

definition record_ticket_cursor :: "string \<Rightarrow> nat \<Rightarrow> nat \<Rightarrow> bool \<Rightarrow> unit ss_op" where
  "record_ticket_cursor path_key offset len check = on_usage (\<lambda>u. record_cursor u path_key offset len check)"

end
