(* ===== verification/Server_Core.thy ===== *)
theory Server_Core
  imports Server_State
begin

section \<open>The requests of a session\<close>

text \<open>
  The handlers of \<open>ServerCore\<close> in \<open>src/apps/nine-door/src/host/core.rs\<close>: version, attach, walk, open, read,
  write and clunk, the dispatch with its budget charges, and \<open>handle_batch\<close>, which admits the requests of
  a buffer against the limits of the session, runs them in order and encodes the answers. Log output of
  the process (\<open>info!\<close>, \<open>debug!\<close>, \<open>trace!\<close>) is left out.
\<close>

subsection \<open>Version\<close>

definition handle_version :: "u32 \<Rightarrow> string \<Rightarrow> response_body ss_op" where
  "handle_version requested_msize version =
     (if version \<noteq> VERSION then sv_fail EInvalid (''unsupported version '' @ version)
      else
        let negotiated = min requested_msize MAX_MSIZE
        in st_then (change_session (\<lambda>e. e\<lparr>se_msize := Some negotiated\<rparr>))
          (st_return (ResVersion negotiated VERSION)))"

subsection \<open>Attach\<close>

definition ticket_error_display :: "ticket_error \<Rightarrow> string" where
  "ticket_error_display e = (case e of
     MissingPrefix \<Rightarrow> ''ticket missing prefix''
   | MalformedToken \<Rightarrow> ''ticket malformed''
   | InvalidMacLength n \<Rightarrow> ''ticket MAC length '' @ show_nat n @ '' is invalid''
   | MacMismatch \<Rightarrow> ''ticket MAC validation failed''
   | UnsupportedVersion v \<Rightarrow> ''claims version '' @ show_nat (unat v) @ '' is unsupported''
   | UnsupportedRole r \<Rightarrow> ''claims role '' @ show_nat (unat r) @ '' is unsupported''
   | MountTooLarge \<Rightarrow> ''mount data exceeds allowed length''
   | InvalidScopeVerb v \<Rightarrow> ''scope verb '' @ show_nat (unat v) @ '' is invalid''
   | ScopeTooMany \<Rightarrow> ''scope count exceeds allowed maximum''
   | TicketTruncated \<Rightarrow> ''claims payload truncated''
   | TrailingData \<Rightarrow> ''claims payload contains trailing data'')"

definition ticket_rejected :: "sv_ext \<Rightarrow> role \<Rightarrow> string \<Rightarrow> 'a sv_op" where
  "ticket_rejected x r m =
     st_then (sv_record_pressure x PressurePolicy)
       (st_then (mark_root_policy_if_queen x r) (sv_fail EPermission m))"

text \<open>The claims of the ticket, if there is one, and the identity the session takes.\<close>

definition attach_claims ::
  "sv_ext \<Rightarrow> role \<Rightarrow> string option \<Rightarrow> string \<Rightarrow> (string option \<times> ticket_claims option) sv_op" where
  "attach_claims x r identity ticket =
     (if ticket \<noteq> [] then st_read (\<lambda>s. case sv_ticket_keys s r of
        None \<Rightarrow> ticket_rejected x r ''ticket rejected''
      | Some key \<Rightarrow> (case token_decode (sx_hex x) (sx_mac x) ticket key of
          Err err \<Rightarrow> ticket_rejected x r (''ticket invalid: '' @ ticket_error_display err)
        | Ok token \<Rightarrow>
            let claims = tt_claims token
            in if tc_role claims \<noteq> r then ticket_rejected x r ''ticket role mismatch''
               else (case tc_subject claims of
                 None \<Rightarrow> st_return (identity, Some claims)
               | Some subject \<Rightarrow> (case identity of
                   None \<Rightarrow> st_return (Some subject, Some claims)
                 | Some value \<Rightarrow>
                     if value \<noteq> subject then ticket_rejected x r ''ticket subject mismatch''
                     else st_return (identity, Some claims)))))
      else if r \<noteq> Queen then
        st_then (sv_record_pressure x PressurePolicy) (sv_fail EPermission ''ticket required for worker attach'')
      else st_return (identity, None))"

text \<open>A ticket with a time limit keeps what is left of it; an expired one is refused.\<close>

definition attach_lifetime :: "sv_ext \<Rightarrow> role \<Rightarrow> string \<Rightarrow> ticket_claims \<Rightarrow> ticket_claims sv_op" where
  "attach_lifetime x r ticket claims = (case bs_ttl_s (tc_budget claims) of
     None \<Rightarrow> st_return claims
   | Some ttl_s \<Rightarrow>
       st_bind (unix_time_ms x) (\<lambda>now_ms.
       let expires_at_ms = sat_add (unat (tc_issued_at_ms claims)) (sat_mul (unat ttl_s) 1000)
       in if now_ms \<ge> expires_at_ms then
            st_then (record_ticket_expired x r ticket claims now_ms)
           (st_then (on_pipeline record_ui_deny)
           (st_then (mark_root_policy_if_queen x r) (sv_fail EPermission ''ticket expired'')))
          else
            let remaining_s = sat_add (expires_at_ms - now_ms) 999 div 1000
            in st_return (claims\<lparr>tc_budget := with_ttl (tc_budget claims) (Some (word_of_nat remaining_s))\<rparr>)))"

definition attach_usage :: "sv_ext \<Rightarrow> role \<Rightarrow> string \<Rightarrow> ticket_claims \<Rightarrow> nat \<Rightarrow> unit sv_op" where
  "attach_usage x r ticket claims now = st_read (\<lambda>s. case from_claims claims (sv_ticket_limits s) now of
     Err err \<Rightarrow>
       st_then (ignore_error (record_ticket_claim_denial x r ticket err))
         (st_then (mark_root_policy_if_queen x r)
           (sv_fail EPermission (''ticket invalid: '' @ ticket_claim_error_display err)))
   | Ok usage \<Rightarrow>
       st_when (has_enforcement usage) (st_modify (\<lambda>s. case sv_ticket_usage s ticket of
         None \<Rightarrow> s\<lparr>sv_ticket_usage := (sv_ticket_usage s)(ticket \<mapsto> usage)\<rparr>
       | Some _ \<Rightarrow> s)))"

definition take_role ::
  "role \<Rightarrow> string option \<Rightarrow> string option \<Rightarrow> string option \<Rightarrow> string option \<Rightarrow> budget_spec \<Rightarrow> nat \<Rightarrow> unit ss_op" where
  "take_role r identity gpu bus lora budget now = with_session (\<lambda>e.
     case configure_role r identity gpu bus lora budget now e of
       None \<Rightarrow> st_fail Panic
     | Some e \<Rightarrow> change_session (\<lambda>_. e))"

definition registered_worker :: "string \<Rightarrow> worker_record ss_op" where
  "registered_worker worker_id = with_control (\<lambda>c. case map_of (cp_workers c) worker_id of
     None \<Rightarrow> sv_fail ENotFound (''worker '' @ worker_id @ '' not found'')
   | Some w \<Rightarrow> st_return w)"

definition required_identity :: "string \<Rightarrow> string option \<Rightarrow> string ss_op" where
  "required_identity role_name identity = (case identity of
     None \<Rightarrow> sv_fail EInvalid (role_name @ '' attach requires identity'')
   | Some v \<Rightarrow> st_return v)"

definition attach_role :: "role \<Rightarrow> string option \<Rightarrow> budget_spec option \<Rightarrow> nat \<Rightarrow> unit ss_op" where
  "attach_role r identity override now =
     (let clamped = (\<lambda>w. case override of Some b \<Rightarrow> clamp_budget (wr_budget w) b | None \<Rightarrow> wr_budget w)
      in case r of
        Queen \<Rightarrow> take_role r identity None None None (unwrap_or override budget_unbounded) now
      | WorkerHeartbeat \<Rightarrow>
          st_bind (required_identity ''worker-heartbeat'' identity) (\<lambda>worker_id.
          st_bind (registered_worker worker_id) (\<lambda>w. case wr_kind w of
            KindHeartbeat \<Rightarrow> take_role r (Some worker_id) None None None (clamped w) now
          | KindGpu _ \<Rightarrow> sv_fail EInvalid ''worker-heartbeat role does not match GPU worker''))
      | WorkerGpu \<Rightarrow>
          st_bind (required_identity ''worker-gpu'' identity) (\<lambda>worker_id.
          st_bind (registered_worker worker_id) (\<lambda>w. case wr_kind w of
            KindGpu lease \<Rightarrow> take_role r (Some worker_id) (Some (gl_gpu_id lease)) None None (clamped w) now
          | KindHeartbeat \<Rightarrow> sv_fail EInvalid ''worker-gpu identity is not bound to a GPU lease''))
      | WorkerBus \<Rightarrow>
          st_bind (required_identity ''worker-bus'' identity) (\<lambda>scope. with_control (\<lambda>c.
            if \<not> scope_exists (ns_bus_scopes (cp_ns c)) scope
            then sv_fail ENotFound (''bus scope '' @ scope @ '' not found'')
            else take_role r None None (Some scope) None (unwrap_or override budget_default_heartbeat) now))
      | WorkerLora \<Rightarrow>
          st_bind (required_identity ''worker-lora'' identity) (\<lambda>scope. with_control (\<lambda>c.
            if \<not> scope_exists (ns_lora_scopes (cp_ns c)) scope
            then sv_fail ENotFound (''lora scope '' @ scope @ '' not found'')
            else take_role r None None None (Some scope) (unwrap_or override budget_default_heartbeat) now)))"

definition attach_gate :: "sv_ext \<Rightarrow> role \<Rightarrow> unit ss_op" where
  "attach_gate x r = with_control (\<lambda>c.
     if r \<noteq> Queen \<and> \<not> gate_allows (cp_lifecycle c) GATE_WORKER_ATTACH
     then st_then (on_server (on_control (append_queen_log (sx_control x)
              (format_gate_denied_log (lm_state (cp_lifecycle c)) (gate_name GATE_WORKER_ATTACH)))))
            (sv_fail EPermission ''EPERM'')
     else st_return ())"

text \<open>The first fid of the session names the root.\<close>

definition attach_root :: "sv_ext \<Rightarrow> u32 \<Rightarrow> qid ss_op" where
  "attach_root x fid = with_control (\<lambda>c.
     let q = root_qid (sx_ns x) (cp_ns c)
     in st_bind (on_session (insert_fid fid [] [] q)) (\<lambda>result. case result of
       Err err \<Rightarrow> st_fail (Fail (fid_insert_error fid err))
     | Ok _ \<Rightarrow> st_return q))"

definition handle_attach :: "sv_ext \<Rightarrow> u64 \<Rightarrow> u32 \<Rightarrow> string \<Rightarrow> string \<Rightarrow> response_body ss_op" where
  "handle_attach x sid fid uname raw_ticket = with_session (\<lambda>e.
     if se_msize e = None then sv_fail EInvalid ''version negotiation required before attach''
     else
       st_bind (sv_lift (parse_role_from_uname uname)) (\<lambda>(r, identity).
       st_bind (on_server (clock_now x)) (\<lambda>now.
       st_then (attach_gate x r)
      (let ticket = trim raw_ticket
       in st_bind (on_server (attach_claims x r identity ticket)) (\<lambda>(identity, claims).
       st_bind (case claims of
           None \<Rightarrow> st_return None
         | Some claims \<Rightarrow>
             st_bind (on_server (attach_lifetime x r ticket claims)) (\<lambda>claims.
             st_then (on_server (attach_usage x r ticket claims now)) (st_return (Some (tc_budget claims)))))
         (\<lambda>override.
       st_then (attach_role r identity override now)
      (st_then (change_session (\<lambda>e. e\<lparr>se_ticket := (if claims = None then None else Some ticket)\<rparr>))
      (st_bind (attach_root x fid) (\<lambda>q.
       st_then (change_session (session_attach now (Some uname)))
      (st_then (st_when (r = Queen) (on_server (mark_root_session_active x now)))
      (st_then (refresh_proc_sessions_with x sid) (st_return (ResAttach q)))))))))))))"

subsection \<open>Walk\<close>

definition missing_fid :: "u32 \<Rightarrow> ('s, ninedoor_error fault, 'a) st_op" where
  "missing_fid fid = sv_fail ENotFound (''fid '' @ show_u32 fid @ '' not found'')"

definition known_fid :: "u32 \<Rightarrow> fid_state ss_op" where
  "known_fid fid = with_session (\<lambda>e. case session_fid fid e of None \<Rightarrow> missing_fid fid | Some f \<Rightarrow> st_return f)"

definition change_fid :: "u32 \<Rightarrow> (fid_state \<Rightarrow> fid_state) \<Rightarrow> unit ss_op" where
  "change_fid fid f = st_bind (on_session (with_fid_mut fid f)) (\<lambda>r. if r = None then missing_fid fid else st_return ())"

definition place_fid :: "u32 \<Rightarrow> u32 \<Rightarrow> path \<Rightarrow> path \<Rightarrow> qid \<Rightarrow> unit ss_op" where
  "place_fid fid newfid view canonical q =
     (if newfid = fid
      then change_fid fid (\<lambda>f. f\<lparr>fs_view_path := view, fs_canonical_path := canonical, fs_qid := q, fs_open_mode := None\<rparr>)
      else st_bind (on_session (insert_fid newfid view canonical q)) (\<lambda>result. case result of
        Err err \<Rightarrow> st_fail (Fail (fid_insert_error newfid err))
      | Ok _ \<Rightarrow> st_return ()))"

definition access_check ::
  "sv_ext \<Rightarrow> ((bytes \<Rightarrow> bytes) \<Rightarrow> access \<Rightarrow> path \<Rightarrow> ninedoor_error + unit) \<Rightarrow> path \<Rightarrow> unit ss_op" where
  "access_check x ensure path = with_session (\<lambda>e. with_control (\<lambda>c.
     case ensure (sx_sha256 x) (session_access_of c e) path of
       Ok _ \<Rightarrow> st_return ()
     | Err err \<Rightarrow> st_then (maybe_log_sidecar_denial x path err) (st_fail (Fail err))))"

definition deny_provider ::
  "sv_ext \<Rightarrow> path \<Rightarrow> ui_provider_kind \<times> ui_variant \<times> bool \<Rightarrow> string \<Rightarrow> nat option \<Rightarrow> error_code \<Rightarrow> string \<Rightarrow> 'a ss_op" where
  "deny_provider x path info reason cnt code m = with_session (\<lambda>e.
     st_then (on_server (on_control (record_ui_provider_denial (sx_control x) path info reason (se_role e) (se_ticket e) cnt)))
       (sv_fail code m))"

definition provider_check :: "sv_ext \<Rightarrow> path \<Rightarrow> unit ss_op" where
  "provider_check x path = with_control (\<lambda>c. case ui_provider_info path (cp_ns c) of
     None \<Rightarrow> st_return ()
   | Some info \<Rightarrow>
       if snd (snd info) then st_return ()
       else deny_provider x path info ''disabled'' None ENotFound (''ui provider '' @ ui_label (fst info) @ '' disabled''))"

fun walk_names :: "sv_ext \<Rightarrow> path \<Rightarrow> path \<Rightarrow> qid \<Rightarrow> string list \<Rightarrow> (path \<times> path \<times> qid \<times> qid list) ss_op" where
  "walk_names x view canonical q [] = st_return (view, canonical, q, [])"
| "walk_names x view canonical q (name # names) = with_session (\<lambda>e.
     let view = view @ [name]; resolved = resolve_view_path e view
     in st_then (access_check x ensure_path resolved)
       (st_then (provider_check x resolved)
       (st_bind (on_server (on_names (lookup (sx_ns x) resolved))) (\<lambda>(q, _).
        st_bind (walk_names x view resolved q names) (\<lambda>(view, canonical, q', qids).
          st_return (view, canonical, q', q # qids))))))"

definition handle_walk :: "sv_ext \<Rightarrow> u32 \<Rightarrow> u32 \<Rightarrow> string list \<Rightarrow> response_body ss_op" where
  "handle_walk x fid newfid wnames =
     st_bind (known_fid fid) (\<lambda>existing. with_session (\<lambda>e.
     if wnames = []
     then st_then (place_fid fid newfid (fs_view_path existing) (fs_canonical_path existing) (fs_qid existing))
       (st_return (ResWalk []))
     else
       let full = resolve_view_path e (fs_view_path existing @ wnames)
       in st_then (access_check x ensure_path full)
         (st_then (provider_check x full)
         (st_then (enforce_ticket_scope x full VRead True False)
         (st_bind (walk_names x (fs_view_path existing) (fs_canonical_path existing) (fs_qid existing) wnames)
           (\<lambda>(view, canonical, q, qids).
          st_then (place_fid fid newfid view canonical q) (st_return (ResWalk qids))))))))"

subsection \<open>Open\<close>

definition host_write_denied :: "sv_ext \<Rightarrow> host_write_target_rec \<Rightarrow> unit ss_op" where
  "host_write_denied x target = with_session (\<lambda>e.
     on_server (on_control (record_host_write_audit (sx_control x) target HostDenied (se_role e) (se_ticket e) None)))"

definition handle_open :: "sv_ext \<Rightarrow> u32 \<Rightarrow> open_mode \<Rightarrow> response_body ss_op" where
  "handle_open x fid mode = with_session (\<lambda>e.
     st_bind (known_fid fid) (\<lambda>entry.
     let path = fs_canonical_path entry
     in st_then (st_when (allows_read mode) (provider_check x path))
    (st_then (st_when (allows_write mode) (with_control (\<lambda>c. case host_write_target path (host_mount_path (cp_ns c)) of
         None \<Rightarrow> st_return ()
       | Some target \<Rightarrow>
           st_when (se_role e \<noteq> Some Queen) (st_then (host_write_denied x target) (sv_fail EPermission ''EPERM'')))))
    (st_then (access_check x (\<lambda>sha256 a p. ensure_open sha256 a p mode) path)
    (st_then (st_when (allows_read mode) (enforce_ticket_scope x path VRead False False))
    (st_then (st_when (allows_write mode) (enforce_ticket_scope x path VWrite False False))
    (st_bind (on_server (on_names (lookup (sx_ns x) path))) (\<lambda>(q, is_dir).
     if is_dir \<and> allows_write mode then sv_fail EPermission ''cannot write directories''
     else if allows_write mode \<and> \<not> is_append_only (qid_ty q) then sv_fail EPermission ''fid is not append-only''
     else st_then (change_fid fid (\<lambda>f. f\<lparr>fs_open_mode := Some mode\<rparr>))
       (st_return (ResOpen q (negotiated_msize e)))))))))))"

subsection \<open>Read\<close>

definition opened_fid :: "u32 \<Rightarrow> string \<Rightarrow> (open_mode \<Rightarrow> bool) \<Rightarrow> path ss_op" where
  "opened_fid fid verb allows = st_bind (known_fid fid) (\<lambda>entry. case fs_open_mode entry of
     None \<Rightarrow> sv_fail EInvalid (''fid must be opened before '' @ verb)
   | Some mode \<Rightarrow>
       if \<not> allows mode then sv_fail EPermission (''fid opened without '' @ verb @ '' permission'')
       else st_return (fs_canonical_path entry))"

definition read_provider_check :: "sv_ext \<Rightarrow> path \<Rightarrow> u32 \<Rightarrow> bool ss_op" where
  "read_provider_check x path cnt = with_control (\<lambda>c. case ui_provider_info path (cp_ns c) of
     None \<Rightarrow> st_return False
   | Some info \<Rightarrow>
       st_then (provider_check x path)
         (if cnt > UI_MAX_READ_BYTES
          then deny_provider x path info ''oversize-read'' (Some (unat cnt)) ETooBig
            (''ui provider '' @ ui_label (fst info) @ '' read exceeds '' @ show_u32 UI_MAX_READ_BYTES @ '' bytes'')
          else st_return True))"

definition read_cursor_check :: "sv_ext \<Rightarrow> path \<Rightarrow> nat \<Rightarrow> bool option ss_op" where
  "read_cursor_check x path offset = with_control (\<lambda>c.
     if worker_id_from_telemetry_path (sx_sha256 x) (ns_shards (cp_ns c)) path = None then st_return None
     else check_ticket_cursor x (join ''/'' path) path VRead offset)"

definition handle_read :: "sv_ext \<Rightarrow> u32 \<Rightarrow> u64 \<Rightarrow> u32 \<Rightarrow> response_body ss_op" where
  "handle_read x fid offset cnt =
     st_bind (opened_fid fid ''read'' allows_read) (\<lambda>path.
     st_bind (read_provider_check x path cnt) (\<lambda>is_provider.
     st_then (access_check x ensure_read path)
    (st_then (enforce_ticket_scope x path VRead False True)
    (st_then (enforce_ticket_bandwidth x path VRead (unat cnt))
    (st_bind (read_cursor_check x path (unat offset)) (\<lambda>check.
     st_bind (on_server (on_names (read (sx_ns x) path (unat offset) (unat cnt)))) (\<lambda>data.
     st_then (case check of
         None \<Rightarrow> st_return ()
       | Some resumed \<Rightarrow> record_ticket_cursor (join ''/'' path) (unat offset) (length data) resumed)
    (st_then (consume_ticket_bandwidth (length data))
    (st_then (st_when is_provider (on_server (on_pipeline record_ui_read)))
       (st_return (ResRead data)))))))))))"

subsection \<open>Write\<close>

definition wrote :: "nat \<Rightarrow> response_body ss_op" where
  "wrote cnt = st_then (consume_ticket_bandwidth cnt) (st_return (ResWrite (word_of_nat cnt)))"

definition eperm :: "('s, ninedoor_error fault, 'a) st_op" where
  "eperm = sv_fail EPermission ''EPERM''"

definition audit_refused :: "sv_ext \<Rightarrow> path \<Rightarrow> bytes \<Rightarrow> unit ss_op" where
  "audit_refused x path data = with_session (\<lambda>e. with_control (\<lambda>c.
     st_when (ac_enabled (as_config (cp_audit c)))
       (on_server (on_control (record_control_audit (sx_control x) path data (control_err EPermission ''EPERM'')
         (se_role e) (se_ticket e))))))"

text \<open>The control files whose writes the control plane takes over.\<close>

definition store_write :: "sv_ext \<Rightarrow> path \<Rightarrow> bytes \<Rightarrow> nat cp_op \<Rightarrow> response_body ss_op" where
  "store_write x path data m =
     st_then (enforce_ticket_write_limits x path (length data)) (st_bind (on_server (on_control m)) wrote)"

definition queue_actions :: "sv_ext \<Rightarrow> nat \<Rightarrow> bytes \<Rightarrow> role option \<Rightarrow> string option \<Rightarrow> nat cp_op" where
  "queue_actions x offset data r ticket =
     st_bind (process_action_queue_write (sx_control x) offset data) (\<lambda>(cnt, actions).
     st_then (st_for (\<lambda>action. st_then (record_policy_action_audit (sx_control x) action r ticket)
          (cp_record_decision_action (sx_control x) action r ticket)) actions)
       (st_return cnt))"

definition denied_file :: "sv_ext \<Rightarrow> string \<Rightarrow> response_body ss_op" where
  "denied_file x what = st_then (on_server (on_control (record_audit_denial (sx_control x) (what @ '' write denied'')))) eperm"

definition store_file :: "sv_ext \<Rightarrow> path \<Rightarrow> nat \<Rightarrow> bytes \<Rightarrow> control_plane \<Rightarrow> session_state \<Rightarrow> response_body ss_op option" where
  "store_file x path offset data c e =
     (let p = sx_control x;
          audit = ac_enabled (as_config (cp_audit c));
          replay = rc_enabled (rp_config (cp_replay c));
          policy = pc_enabled (ps_config (cp_policy c))
      in if audit \<and> is_audit_journal_path path
         then Some (store_write x path data (process_audit_journal_write p offset data (se_role e) (se_ticket e)))
         else if audit \<and> is_audit_decisions_path path then Some (denied_file x ''audit decisions'')
         else if audit \<and> is_audit_export_path path then Some (denied_file x ''audit export'')
         else if replay \<and> is_replay_ctl_path path then Some (store_write x path data (process_replay_ctl_write p offset data))
         else if replay \<and> is_replay_status_path path then Some (denied_file x ''replay status'')
         else if policy \<and> is_policy_ctl_path path then Some (store_write x path data (process_policy_ctl_write p offset data))
         else if policy \<and> is_actions_queue_path path
         then Some (store_write x path data (queue_actions x offset data (se_role e) (se_ticket e)))
         else None)"

definition policy_gate :: "sv_ext \<Rightarrow> path \<Rightarrow> bytes \<Rightarrow> host_write_target_rec option \<Rightarrow> unit ss_op" where
  "policy_gate x path data target = with_session (\<lambda>e. with_control (\<lambda>c.
     let p = sx_control x; r = se_role e; ticket = se_ticket e
     in if \<not> pc_enabled (ps_config (cp_policy c)) then st_return ()
        else st_bind (on_server (on_control (consume_policy_gate p path))) (\<lambda>decision. case decision of
          Allowed allowance \<Rightarrow>
            st_then (on_server (on_control (record_policy_gate_audit p path allowance r ticket)))
              (on_server (on_control (cp_record_decision_gate p path allowance r ticket)))
        | Denied denial \<Rightarrow>
            st_then (on_server (on_control (record_policy_gate_denial p path denial r ticket)))
           (st_then (on_server (on_control (cp_record_decision_gate_denial p path denial r ticket)))
           (st_then (st_when (is_queen_ctl_path path \<or> is_queen_lifecycle_ctl_path path \<or> target \<noteq> None)
                (audit_refused x path data))
              eperm)))))"

definition lifecycle_write :: "sv_ext \<Rightarrow> u64 \<Rightarrow> path \<Rightarrow> bytes \<Rightarrow> response_body ss_op" where
  "lifecycle_write x sid path data = with_session (\<lambda>e.
     if se_role e \<noteq> Some Queen then st_then (audit_refused x path data) eperm
     else
       st_bind (on_server (clock_now x)) (\<lambda>now.
       st_bind (on_server (on_control (process_lifecycle_ctl_write (sx_control x) data (se_role e) (se_ticket e) now))) (\<lambda>cnt.
       st_then (consume_ticket_bandwidth cnt)
      (st_then (refresh_proc_sessions_with x sid)
      (st_then (on_server (refresh_proc_root x)) (st_return (ResWrite (word_of_nat cnt))))))))"

definition mount_event :: "sv_ext \<Rightarrow> queen_event \<Rightarrow> unit ss_op" where
  "mount_event x event = with_session (\<lambda>e. with_control (\<lambda>c.
     let bind = (\<lambda>target mount. st_bind (on_session (apply_mount (sx_sha256 x) (session_access_of c e) target mount)) sv_lift)
     in case event of
       Bound target mount \<Rightarrow> bind target mount
     | Mounted target mount \<Rightarrow> bind target mount
     | _ \<Rightarrow> st_return ()))"

definition queen_write :: "sv_ext \<Rightarrow> u64 \<Rightarrow> bytes \<Rightarrow> response_body ss_op" where
  "queen_write x sid data = with_session (\<lambda>e.
     st_bind (on_server (on_control (process_queen_write (sx_control x) data (se_role e) (se_ticket e)))) (\<lambda>events.
     st_then (st_for (mount_event x) events)
    (st_then (on_server (process_queen_events x events sid))
    (st_then (consume_ticket_bandwidth (length data))
       (st_return (ResWrite (word_of_nat (length data))))))))"

definition lifecycle_gate :: "sv_ext \<Rightarrow> lifecycle_gate \<Rightarrow> unit ss_op" where
  "lifecycle_gate x gate = on_server (on_control (ensure_lifecycle_gate (sx_control x) gate))"

definition host_write :: "sv_ext \<Rightarrow> path \<Rightarrow> nat \<Rightarrow> bytes \<Rightarrow> host_write_target_rec \<Rightarrow> response_body ss_op" where
  "host_write x path offset data target = with_session (\<lambda>e.
     st_then (lifecycle_gate x GATE_HOST_PUBLISH)
    (st_bind (on_server (on_names (write_append (sx_ns x) path offset data))) (\<lambda>cnt.
     st_then (on_server (on_control (record_host_write_audit (sx_control x) target HostAllowed (se_role e) (se_ticket e) (Some cnt))))
    (st_then (on_server (on_control (record_control_audit (sx_control x) path data control_ok (se_role e) (se_ticket e))))
       (wrote cnt)))))"

definition charge_tick :: "sv_ext \<Rightarrow> u64 \<Rightarrow> unit ss_op" where
  "charge_tick x sid = st_bind (on_session consume_tick) (\<lambda>result. case result of
     Ok _ \<Rightarrow> st_return ()
   | Err reason \<Rightarrow> st_bind (on_server (clock_now x)) (\<lambda>now. handle_budget_failure x sid now reason))"

definition plain_write ::
  "sv_ext \<Rightarrow> u64 \<Rightarrow> path \<Rightarrow> nat \<Rightarrow> bytes \<Rightarrow> host_write_target_rec option \<Rightarrow> response_body ss_op" where
  "plain_write x sid path offset data target =
     (if is_queen_ctl_path path then queen_write x sid data
      else case target of
        Some t \<Rightarrow> host_write x path offset data t
      | None \<Rightarrow>
          st_then (st_when (is_telemetry_ingest_write_path path) (lifecycle_gate x GATE_TELEMETRY_INGEST))
            (st_bind (on_server (on_names (write_append (sx_ns x) path offset data))) wrote))"

text \<open>What happens to a write the access checks, the ticket and the policy have let through.\<close>

definition admitted_write ::
  "sv_ext \<Rightarrow> u64 \<Rightarrow> path \<Rightarrow> nat \<Rightarrow> bytes \<Rightarrow> host_write_target_rec option \<Rightarrow> response_body ss_op" where
  "admitted_write x sid path offset data target = with_session (\<lambda>e. with_control (\<lambda>c.
     let p = sx_control x; shards = ns_shards (cp_ns c)
     in if is_queen_lifecycle_ctl_path path then lifecycle_write x sid path data
        else if is_gpu_bridge_ctl_path path then
          st_then (lifecycle_gate x GATE_HOST_PUBLISH)
            (st_bind (on_server (on_control (process_gpu_bridge_ctl_write p offset data))) wrote)
        else
          st_then (case se_worker_id e of
              None \<Rightarrow> st_return ()
            | Some worker \<Rightarrow>
                st_when (is_worker_telemetry_path (sx_sha256 x) shards path worker)
                  (st_then (lifecycle_gate x GATE_WORKER_TELEMETRY) (charge_tick x sid)))
         (case (se_worker_id e, se_gpu_scope e) of
            (Some worker, Some scope) \<Rightarrow>
              if is_gpu_job_path path scope then
                st_then (lifecycle_gate x GATE_WORKER_JOB)
                  (st_bind (on_server (on_control (process_gpu_job p worker scope data))) wrote)
              else plain_write x sid path offset data target
          | _ \<Rightarrow> plain_write x sid path offset data target)))"

definition handle_write :: "sv_ext \<Rightarrow> u64 \<Rightarrow> u32 \<Rightarrow> u64 \<Rightarrow> bytes \<Rightarrow> response_body ss_op" where
  "handle_write x sid fid offset data =
     st_bind (opened_fid fid ''write'' allows_write) (\<lambda>path. with_session (\<lambda>e. with_control (\<lambda>c.
     case store_file x path (unat offset) data c e of
       Some m \<Rightarrow> m
     | None \<Rightarrow>
         let target = host_write_target path (host_mount_path (cp_ns c))
         in st_then (case target of
              None \<Rightarrow> st_return ()
            | Some t \<Rightarrow> st_when (se_role e \<noteq> Some Queen)
                (st_then (host_write_denied x t) (st_then (audit_refused x path data) eperm)))
           (st_then (access_check x ensure_write path)
           (st_then (enforce_ticket_write_limits x path (length data))
           (st_then (policy_gate x path data target)
              (admitted_write x sid path (unat offset) data target)))))))"

subsection \<open>Dispatch\<close>

definition handle_clunk :: "u32 \<Rightarrow> response_body ss_op" where
  "handle_clunk fid = st_bind (on_session (remove_fid fid)) (\<lambda>r.
     if r = None then sv_fail EClosed (''fid '' @ show_u32 fid @ '' already closed'') else st_return ResClunk)"

text \<open>The charges before a request: the deadline, then one operation.\<close>

definition charged :: "sv_ext \<Rightarrow> u64 \<Rightarrow> 'a ss_op \<Rightarrow> 'a ss_op" where
  "charged x sid m =
     (let fail = (\<lambda>reason. st_bind (on_server (clock_now x)) (\<lambda>now. handle_budget_failure x sid now reason))
      in st_bind (on_server (clock_now x)) (\<lambda>now.
         st_bind (on_session (pre_operation now)) (\<lambda>result. case result of
           Err reason \<Rightarrow> fail reason
         | Ok _ \<Rightarrow> st_bind (on_session consume_operation) (\<lambda>result. case result of
             Err reason \<Rightarrow> fail reason
           | Ok _ \<Rightarrow> m))))"

definition set_auth :: "auth_state \<Rightarrow> unit ss_op" where
  "set_auth a = change_session (\<lambda>e. e\<lparr>se_auth := a\<rparr>)"

text \<open>The bookkeeping after a handler, which an error that leaves the dispatch early skips.\<close>

definition settle :: "bool \<Rightarrow> 'a ss_op \<Rightarrow> 'a ss_op" where
  "settle opening m = st_bind (st_try m) (\<lambda>result.
     st_then (st_when (\<not> is_ok result) (set_auth AuthFailed))
    (st_then (change_session (\<lambda>e. if se_attached e \<and> \<not> opening then e\<lparr>se_first_logged := True\<rparr> else e))
       (sv_lift result)))"

definition authenticate :: "auth_state \<Rightarrow> auth_state \<Rightarrow> 'a ss_op \<Rightarrow> 'a ss_op" where
  "authenticate before after m =
     st_then (set_auth before) (st_bind (st_try m) (\<lambda>result.
       st_then (set_auth (if is_ok result then after else AuthFailed)) (sv_lift result)))"

definition attached_request :: "'a ss_op \<Rightarrow> 'a ss_op" where
  "attached_request m = with_session (\<lambda>e. st_then (sv_lift (ensure_attached e)) (settle False m))"

definition handle_request :: "sv_ext \<Rightarrow> u64 \<Rightarrow> request_body \<Rightarrow> response_body ss_op" where
  "handle_request x sid body = (case body of
     ReqVersion msize version \<Rightarrow>
       settle True (authenticate WaitingVersion VersionNegotiated (handle_version msize version))
   | ReqAttach fid _ uname aname _ \<Rightarrow>
       settle True (authenticate AttachRequested Attached (handle_attach x sid fid uname aname))
   | ReqWalk fid newfid wnames \<Rightarrow> attached_request (charged x sid (handle_walk x fid newfid wnames))
   | ReqOpen fid mode \<Rightarrow> attached_request (charged x sid (handle_open x fid mode))
   | ReqRead fid offset cnt \<Rightarrow> attached_request (charged x sid (handle_read x fid offset cnt))
   | ReqWrite fid offset data \<Rightarrow> attached_request (charged x sid (handle_write x sid fid offset data))
   | ReqClunk fid \<Rightarrow> attached_request (handle_clunk fid))"

definition dispatch_with_state :: "sv_ext \<Rightarrow> u64 \<Rightarrow> request \<Rightarrow> response_body ss_op" where
  "dispatch_with_state x sid req =
     st_bind (on_server (clock_now x)) (\<lambda>now.
     st_then (with_control (\<lambda>c. change_session (refresh_session_phase (lm_state (cp_lifecycle c)) now)))
    (st_then (with_session (\<lambda>e. st_when (in_service e) (on_server (record_root_activity x now))))
       (handle_request x sid (req_body req))))"

subsection \<open>Batches\<close>

function decode_entries :: "batch_iter \<Rightarrow> codec_error + (request \<times> nat) list" where
  "decode_entries it =
     (case batch_next it of
        (None, _) \<Rightarrow> Ok []
      | (Some (Inl e), _) \<Rightarrow> Err e
      | (Some (Inr f), it') \<Rightarrow>
          and_then (decode_request f) (\<lambda>req. and_then (decode_entries it') (\<lambda>entries. Ok ((req, length f) # entries))))"
  by pat_completeness auto
termination
proof (relation "measure (\<lambda>it. length (bi_buffer it) - bi_offset it)")
  fix it opt it' r f v
  assume "(opt, it') = batch_next it" "opt = Some r" "r = Inr f"
  then have n: "batch_next it = (Some (Ok f), it')" by simp
  from batch_next_Ok [OF n] show "(it', it) \<in> measure (\<lambda>it. length (bi_buffer it) - bi_offset it)"
    by auto
qed simp

declare decode_entries.simps [simp del]

datatype admission = Admitted | Refused bool response_body

definition too_big :: "string \<Rightarrow> admission" where
  "too_big what = Refused True (ResError ETooBig (what @ '' exceeds negotiated msize''))"

definition backpressure :: "sv_ext \<Rightarrow> unit ss_op" where
  "backpressure x = st_then (on_server (on_pipeline record_backpressure)) (on_server (sv_record_pressure x PressureBusy))"

definition reserve_slots :: "sv_ext \<Rightarrow> u16 \<Rightarrow> admission ss_op" where
  "reserve_slots x tag =
     st_bind (on_session (\<lambda>e. case tag_reserve (se_tags e) tag of (r, w) \<Rightarrow> (r, e\<lparr>se_tags := w\<rparr>))) (\<lambda>r. case r of
       Err TagInUse \<Rightarrow> st_return (Refused False (ResError EInvalid ''tag already in use''))
     | Err WindowFull \<Rightarrow>
         st_then (on_server (sv_record_pressure x PressureBusy))
           (st_return (Refused False (ResError EBusy ''tag window exceeded'')))
     | Ok _ \<Rightarrow>
         st_bind (on_session (\<lambda>e. case queue_reserve (se_queue e) 1 of (r, q) \<Rightarrow> (r, e\<lparr>se_queue := q\<rparr>))) (\<lambda>r. case r of
           Ok _ \<Rightarrow> st_return Admitted
         | Err QueueFull \<Rightarrow>
             st_then (change_session (\<lambda>e. e\<lparr>se_tags := tag_release (se_tags e) tag\<rparr>))
               (st_then (backpressure x) (st_return (Refused False (ResError EBusy ''queue depth exceeded''))))))"

definition note_queue_depth :: "unit ss_op" where
  "note_queue_depth = with_session (\<lambda>e. on_server (on_pipeline (\<lambda>p. record_queue_depth p (qd_current (se_queue e)))))"

definition admit :: "sv_ext \<Rightarrow> bool \<Rightarrow> bool \<Rightarrow> nat \<Rightarrow> request \<times> nat \<Rightarrow> admission ss_op" where
  "admit x batch_overflow frame_overflow msize entry =
     (if batch_overflow then st_return (too_big ''batch'')
      else if frame_overflow then
        st_then (backpressure x) (st_return (Refused False (ResError EBusy ''queue depth exceeded'')))
      else if snd entry > msize then st_return (too_big ''frame'')
      else st_bind (reserve_slots x (req_tag (fst entry))) (\<lambda>a. st_then note_queue_depth (st_return a)))"

fun admit_all :: "sv_ext \<Rightarrow> bool \<Rightarrow> bool \<Rightarrow> nat \<Rightarrow> (request \<times> nat) list \<Rightarrow> (request \<times> admission) list ss_op" where
  "admit_all x bo fo msize [] = st_return []"
| "admit_all x bo fo msize (entry # entries) =
     st_bind (admit x bo fo msize entry) (\<lambda>a.
     st_bind (admit_all x bo fo msize entries) (\<lambda>as. st_return ((fst entry, a) # as)))"

definition release_slots :: "u16 \<Rightarrow> unit ss_op" where
  "release_slots tag = change_session (\<lambda>e.
     e\<lparr>se_tags := tag_release (se_tags e) tag, se_queue := queue_release (se_queue e) 1\<rparr>)"

text \<open>Protocol errors become answers; any other error ends the batch, with its own slots released.\<close>

definition answer :: "sv_ext \<Rightarrow> u64 \<Rightarrow> request \<times> admission \<Rightarrow> response ss_op" where
  "answer x sid entry = (case entry of (req, a) \<Rightarrow> (case a of
     Refused _ body \<Rightarrow> st_return \<lparr>res_tag = req_tag req, res_body = body\<rparr>
   | Admitted \<Rightarrow>
       st_bind (st_try (dispatch_with_state x sid req)) (\<lambda>result.
       st_then (release_slots (req_tag req))
         (case result of
            Ok body \<Rightarrow> st_return \<lparr>res_tag = req_tag req, res_body = body\<rparr>
          | Err (Protocol code m) \<Rightarrow> st_return \<lparr>res_tag = req_tag req, res_body = ResError code m\<rparr>
          | Err other \<Rightarrow> st_fail (Fail other)))))"

fun answer_all :: "sv_ext \<Rightarrow> u64 \<Rightarrow> (request \<times> admission) list \<Rightarrow> response list ss_op" where
  "answer_all x sid [] = st_return []"
| "answer_all x sid (entry # entries) =
     st_bind (answer x sid entry) (\<lambda>r. st_bind (answer_all x sid entries) (\<lambda>rs. st_return (r # rs)))"

fun encode_all :: "response list \<Rightarrow> ninedoor_error fault + bytes list" where
  "encode_all [] = Ok []"
| "encode_all (r # rs) =
     and_then (map_err (map_fault CodecFailure) (encode_response r)) (\<lambda>f.
     and_then (encode_all rs) (\<lambda>fs. Ok (f # fs)))"

definition vec_writer :: "(bytes, string) writer" where
  "vec_writer out buf = (Ok (length buf), out @ buf)"

definition write_answers :: "bytes list \<Rightarrow> bytes sv_op" where
  "write_answers frames s = (case write_batch vec_writer (sv_pipeline s) [] frames of
     (r, p, out, _) \<Rightarrow> (case r of
        Ok _ \<Rightarrow> (Ok out, s\<lparr>sv_pipeline := p\<rparr>)
      | Err e \<Rightarrow> (Err (Fail (PipelineFailure e)), s\<lparr>sv_pipeline := p\<rparr>)))"

definition run_entries ::
  "sv_ext \<Rightarrow> u64 \<Rightarrow> bool \<Rightarrow> (request \<times> nat) list \<Rightarrow> (response list \<times> nat) ss_op" where
  "run_entries x sid batch_overflow entries = st_read (\<lambda>(s, e).
     st_bind (admit_all x batch_overflow (length entries > batch_frames (sv_limits s)) (unat (negotiated_msize e)) entries)
       (\<lambda>admissions.
     let dropped = length (filter (\<lambda>(_, a). case a of Refused d _ \<Rightarrow> d | Admitted \<Rightarrow> False) admissions)
     in st_bind (answer_all x sid admissions) (\<lambda>responses.
        st_then note_queue_depth (st_return (responses, min dropped u64_max)))))"

text \<open>The session goes back into the table whether or not the requests ended in an error.\<close>

definition in_session :: "u64 \<Rightarrow> session_state \<Rightarrow> 'a ss_op \<Rightarrow> 'a sv_op" where
  "in_session sid e m s = (case m (s, e) of
     (r, (s, e)) \<Rightarrow> (r, s\<lparr>sv_sessions := bt_insert sid e (sv_sessions s)\<rparr>))"

definition finish_batch :: "sv_ext \<Rightarrow> nat \<Rightarrow> response list \<Rightarrow> nat \<Rightarrow> bytes sv_op" where
  "finish_batch x start responses dropped =
     st_bind (st_lift (encode_all responses)) (\<lambda>frames.
     st_bind (write_answers frames) (\<lambda>out.
     st_bind (clock_now x) (\<lambda>stop.
     st_then (on_observe (\<lambda>o'. record_ingest_dropped dropped
         (record_ingest_latency (min ((stop - start) div 10 ^ 6) u32_max) o')))
    (st_then (ignore_error (publish_9p x))
    (st_then (ignore_error (publish_ingest x stop)) (st_return out))))))"

definition handle_batch :: "sv_ext \<Rightarrow> u64 \<Rightarrow> bytes \<Rightarrow> bytes sv_op" where
  "handle_batch x sid batch =
     st_bind (clock_now x) (\<lambda>start. st_read (\<lambda>s. case map_of (sv_sessions s) sid of
       None \<Rightarrow> st_fail (Fail (UnknownSession (SessionId sid)))
     | Some e \<Rightarrow>
         st_then (st_modify (\<lambda>s. s\<lparr>sv_sessions := bt_remove sid (sv_sessions s)\<rparr>))
        (st_bind (sv_lift (map_err CodecFailure (decode_entries (batch_new batch)))) (\<lambda>entries.
         if entries = [] then in_session sid e (st_return [])
         else
           st_bind (in_session sid e (run_entries x sid (length batch > unat (negotiated_msize e)) entries))
             (\<lambda>(responses, dropped). finish_batch x start responses dropped)))))"

definition dispatch :: "sv_ext \<Rightarrow> u64 \<Rightarrow> request \<Rightarrow> response_body sv_op" where
  "dispatch x sid req = st_read (\<lambda>s. case map_of (sv_sessions s) sid of
     None \<Rightarrow> st_fail (Fail (UnknownSession (SessionId sid)))
   | Some e \<Rightarrow>
       st_then (st_modify (\<lambda>s. s\<lparr>sv_sessions := bt_remove sid (sv_sessions s)\<rparr>))
         (in_session sid e (dispatch_with_state x sid req)))"

end
