(* ===== verification/Spec2Isabelle.thy ===== *)
theory Spec2Isabelle
  imports Secure9P_Roundtrip Secure9P_Batch Secure9P_Fids Telemetry_File Telemetry_Ingest
    Lifecycle Session_Phase Ticket Ticket_Security Pipeline Shard_Layout NineDoor_Error Budget
    Mount_Table Root_State Access_Policy Cbor Ui_Provider Policy_Store Audit_Store Replay Trace_Fs
    Observe_State Cas_Integrity Sidecar_Fs Namespace_Safety Control_Faults Server_Core
begin

text \<open>
  Verification library for the Cohesix control plane: the \<open>Secure9P\<close> protocol, the \<open>NineDoor\<close> server
  that serves a node's namespace over it, and the libraries the server and its host tools share. Paths
  below are relative to \<open>src/\<close>.

  \<^bold>\<open>The program and its parts.\<close> A client (a queen, a worker, a host tool) attaches to \<open>NineDoor\<close> with a
  capability ticket and sends batches of frames. The codec cuts and decodes them
  (\<open>crates/secure9p-codec\<close>), the session primitives hold its tags and fids (\<open>crates/secure9p-core\<close>),
  the access policy, the ticket limits and the budget decide what it may do
  (\<open>apps/nine-door/src/host/core.rs\<close>, \<open>security.rs\<close>), and the namespace carries it out
  (\<open>namespace.rs\<close>): telemetry rings and ingest segments (\<open>telemetry/\<close>), the content store (\<open>cas.rs\<close>),
  the trace files (\<open>tracefs.rs\<close>), the sidecars (\<open>apps/sidecar-bus\<close>, \<open>apps/worker-lora\<close>) and the provider
  files. Writes to the control files reach the control plane (\<open>ControlPlane\<close> of \<open>core.rs\<close>), which starts
  and kills workers, leases GPUs, drives the lifecycle of the node (\<open>lifecycle.rs\<close>), queues and consumes
  policy actions (\<open>policy.rs\<close>), keeps the audit journal (\<open>audit.rs\<close>, \<open>replay.rs\<close>), and receives the GPU
  inventory a host publishes (\<open>apps/gpu-bridge-host\<close>).

  \<^bold>\<open>Conventions\<close> (\<open>Cohesix_Prelude\<close>, \<open>Btree_Map\<close>, \<open>Utf8_Chars\<close>). A struct is a record, an enum a datatype
  with its constructors, a method a function on the record. Machine integers are words where they are
  encoded and \<open>nat\<close> with the saturation or the limit written out where they count. A string is the list
  of its UTF-8 bytes; \<open>from_utf8\<close> is the check of the standard library. A hash or tree map is an
  association list sorted by key with \<open>bt_ok\<close> as its well-formedness. A fallible function returns a sum,
  \<open>Inl\<close> the error; a function with \<open>&mut self\<close> is an \<open>st_op\<close>: it takes the state and returns the result
  with the state after it, also after an error, since Rust keeps the changes made before a \<open>?\<close>. A panic
  is the value \<open>Panic\<close> of the type \<open>fault\<close>, apart from the errors a client can see. The prelude has the
  locales the components share: \<open>step_invariant\<close> (an invariant every step keeps holds after every run),
  \<open>evolution\<close> (a preorder that every operation of a composition respects) and \<open>metered\<close> (a charge that
  bounds what a run may use). Each is interpreted on the operations of the components.

  \<^bold>\<open>Protocol.\<close> \<open>Wire_Cursor\<close>, \<open>Secure9P_Types\<close>, \<open>Secure9P_Codec\<close> model \<open>types.rs\<close> and \<open>codec.rs\<close>, every
  message and every error; \<open>Secure9P_Roundtrip\<close> shows that decoding inverts encoding on every message
  that encodes. \<open>Secure9P_Batch\<close> models \<open>batch.rs\<close>: the iterator returns exactly the frames of a
  well-formed buffer. \<open>Secure9P_Session\<close> and \<open>Secure9P_Fids\<close> model \<open>session.rs\<close>: the sharded fid table
  refines one map with one set of retired fids, and a clunked fid is never handed out again.
  \<open>Append_Only\<close> models the bounds of append-only files.

  \<^bold>\<open>Telemetry.\<close> \<open>Telemetry_Ring\<close> (\<open>ring.rs\<close>), \<open>Telemetry_File\<close> (\<open>cursor.rs\<close>, \<open>mod.rs\<close>) and \<open>Telemetry_Ingest\<close>
  (\<open>ingest.rs\<close>): a ring is a window of the stream of everything written, a reboot is invisible to readers,
  and the quotas of the segments hold after every sequence of writes.

  \<^bold>\<open>Authority.\<close> \<open>Ticket\<close> (\<open>crates/cohesix-ticket\<close>): a ticket verifies to the claims it was issued for.
  \<open>Ticket_Security\<close> (\<open>security.rs\<close>): scopes, rates, quotas. \<open>Access_Policy\<close>, \<open>Budget\<close>, \<open>Mount_Table\<close>,
  \<open>Root_State\<close>, \<open>NineDoor_Error\<close>, \<open>Shard_Layout\<close>: the parts of \<open>core.rs\<close> and \<open>namespace.rs\<close> a session is
  made of. \<open>Session_Phase\<close> and \<open>Lifecycle\<close>: the state machines of a session and of the node.

  \<^bold>\<open>Stores.\<close> \<open>Policy_Store\<close>: an approval is used once. \<open>Audit_Store\<close>, \<open>Replay\<close>, \<open>Json_Log\<close>: the journal is the
  longest suffix that fits. \<open>Cas_Store\<close>, \<open>Cas_Manifest\<close>, \<open>Cas_Integrity\<close>: chunks are stored under their own
  hash, a manifest is committed only after its payload has been verified, and a commit is final. \<open>Cbor\<close>,
  \<open>Bounded_Writer\<close>, \<open>Trace_Fs\<close>, \<open>Ui_Provider\<close>, \<open>Observe_State\<close>: the renderings the provider files hold.
  \<open>Field_Bus\<close>, \<open>Sidecar_Fs\<close>: telemetry of a bus is conserved between spool and link, and the duty cycle of
  the radio is bounded.

  \<^bold>\<open>Namespace.\<close> \<open>Node_Tree\<close> and \<open>Namespace\<close> model \<open>namespace.rs\<close>: the node tree, look-ups that create nodes
  on the way, reads and writes, start-up, and every setter. \<open>Namespace_Safety\<close> shows that requests keep the
  kinds of the nodes and never rewrite an append-only file.

  \<^bold>\<open>Control plane.\<close> \<open>Queen_Control\<close> (\<open>control.rs\<close>), \<open>Gpu_Bridge\<close> (\<open>apps/gpu-bridge-host/src/lib.rs\<close> and the
  receiver in \<open>core.rs\<close>) and \<open>Control_Plane\<close> (\<open>ControlPlane\<close>). \<open>Gpu_Publish\<close> shows that the lines a host
  publishes give the receiver the snapshot they were made from; \<open>Control_Safety\<close> that two workers never
  hold one GPU and that a node that has drained has no workers; \<open>Control_Faults\<close> has the inputs that make
  the control plane panic.

  \<^bold>\<open>Server.\<close> \<open>Session_State\<close> (\<open>SessionState\<close>), \<open>Observe_Publish\<close> (the files of \<open>observe.rs\<close>), \<open>Server_State\<close>
  (\<open>ServerCore\<close>: start-up, session table, ticket limits, revocation) and \<open>Server_Core\<close> (the handlers of
  version, attach, walk, open, read, write and clunk, the dispatch, and \<open>handle_batch\<close>). A handler acts on
  the pair of the server and the session that has been taken out of its table; the clock is a function
  of the number of its readings.

  \<^bold>\<open>Bounds and fuel.\<close> \<open>nx_stack\<close> of a namespace is the depth of the call stack: \<open>ensure_cas_path\<close> calls itself
  through \<open>lookup_mut\<close>, and a call that needs more than \<open>nx_stack\<close> frames is a panic. One frame is enough for
  every path outside the content store, and theorem \<open>update_lookup_exhausts_stack\<close> shows that no number is
  enough for the paths of an update. Loops over text (\<open>trim\<close>, \<open>split_whitespace\<close>) take the length of the
  text as fuel and remove at least a byte in each round; the loops over the frames of a batch and the
  retries of a write are recursive functions with a termination proof.

  \<^bold>\<open>Parameters.\<close> Code that is not in the repository is an argument of the functions that call it: SHA-256,
  BLAKE3, ed25519, hexadecimal and base64 text (\<open>cas_ext\<close>, \<open>ticket\<close> parameters), \<open>DefaultHasher\<close>
  (\<open>ns_ext\<close>), the \<open>serde\<close> readers and writers of JSON (\<open>cp_ext\<close>, \<open>bridge_ext\<close>), and the transport of a
  write. What a theorem needs of them is a hypothesis of the theorem, and its witness gives an instance.

  \<^bold>\<open>Not modelled.\<close> Locks are modelled as the sequential execution of what they guard, and the log
  output of the process is left out. The seL4 root task with its drivers
  and network stack acts on hardware registers, capabilities and DMA memory through foreign functions;
  the shell, the host tools and the desktop application are sockets, files and processes around the
  operations above; the manifest compiler runs at build time.
\<close>

end
